(* ===== verification/Protocol_Types.thy ===== *)
theory Protocol_Types
  imports Prelude
begin

text \<open>
  The protocol vocabulary of \<open>src/protocol/types.rs\<close> and \<open>src/protocol/constants.rs\<close>:
  job states with their wire values, cluster roles, message priorities (ordered by their
  discriminants, as the derived \<open>Ord\<close> orders them), file metadata, the state of an
  in-flight file-list request, and the message identifiers.  The lemmas show that wire
  values and states determine each other, and that the priority order is the order of the
  wire bytes.
\<close>

section \<open>Job status\<close>

datatype job_status =
    Pending | Submitting | Submitted | Queued | Running | Cancelling | Cancelled
  | Deleting | Deleted | JobError | WallTimeExceeded | OutOfMemory | Completed

fun job_status_code :: "job_status \<Rightarrow> u32" where
  "job_status_code Pending = 10"
| "job_status_code Submitting = 20"
| "job_status_code Submitted = 30"
| "job_status_code Queued = 40"
| "job_status_code Running = 50"
| "job_status_code Cancelling = 60"
| "job_status_code Cancelled = 70"
| "job_status_code Deleting = 80"
| "job_status_code Deleted = 90"
| "job_status_code JobError = 400"
| "job_status_code WallTimeExceeded = 401"
| "job_status_code OutOfMemory = 402"
| "job_status_code Completed = 500"

definition job_status_try_from :: "u32 \<Rightarrow> string + job_status" where
  "job_status_try_from v =
     (if v = 10 then Inr Pending
      else if v = 20 then Inr Submitting
      else if v = 30 then Inr Submitted
      else if v = 40 then Inr Queued
      else if v = 50 then Inr Running
      else if v = 60 then Inr Cancelling
      else if v = 70 then Inr Cancelled
      else if v = 80 then Inr Deleting
      else if v = 90 then Inr Deleted
      else if v = 400 then Inr JobError
      else if v = 401 then Inr WallTimeExceeded
      else if v = 402 then Inr OutOfMemory
      else if v = 500 then Inr Completed
      else Inl (''Unknown JobStatus value: '' @ show_nat (unat v)))"

fun job_status_as_str :: "job_status \<Rightarrow> string" where
  "job_status_as_str Pending = ''Pending''"
| "job_status_as_str Submitting = ''Submitting''"
| "job_status_as_str Submitted = ''Submitted''"
| "job_status_as_str Queued = ''Queued''"
| "job_status_as_str Running = ''Running''"
| "job_status_as_str Cancelling = ''Cancelling''"
| "job_status_as_str Cancelled = ''Cancelled''"
| "job_status_as_str Deleting = ''Deleting''"
| "job_status_as_str Deleted = ''Deleted''"
| "job_status_as_str JobError = ''Error''"
| "job_status_as_str WallTimeExceeded = ''Wall Time Exceeded''"
| "job_status_as_str OutOfMemory = ''Out of Memory''"
| "job_status_as_str Completed = ''Completed''"

lemma try_from_job_status_code [simp]: "job_status_try_from (job_status_code st) = Inr st"
  by (cases st) (simp_all add: job_status_try_from_def)

lemma job_status_code_inject [simp]: "job_status_code a = job_status_code b \<longleftrightarrow> a = b"
  by (metis try_from_job_status_code sum.inject(2))

lemma job_status_try_from_Inr_iff:
  "job_status_try_from v = Inr st \<longleftrightarrow> v = job_status_code st"
proof
  assume "job_status_try_from v = Inr st"
  then show "v = job_status_code st"
    by (auto simp: job_status_try_from_def split: if_splits)
qed simp

definition known_status :: "u32 \<Rightarrow> bool" where
  "known_status v \<longleftrightarrow> \<not> isl (job_status_try_from v)"

lemma known_status_iff: "known_status v \<longleftrightarrow> (\<exists>st. v = job_status_code st)"
proof
  assume "known_status v"
  then obtain st where "job_status_try_from v = Inr st"
    unfolding known_status_def by (cases "job_status_try_from v") auto
  then show "\<exists>st. v = job_status_code st" by (auto simp: job_status_try_from_Inr_iff)
qed (auto simp: known_status_def)

section \<open>Cluster roles and priorities\<close>

datatype cluster_role = Master | FileDownload | FileUpload

fun cluster_role_as_str :: "cluster_role \<Rightarrow> string" where
  "cluster_role_as_str Master = ''master''"
| "cluster_role_as_str FileDownload = ''file download''"
| "cluster_role_as_str FileUpload = ''file upload''"

datatype priority = Highest | Medium | Lowest

fun priority_as_u8 :: "priority \<Rightarrow> u8" where
  "priority_as_u8 Highest = 0"
| "priority_as_u8 Medium = 10"
| "priority_as_u8 Lowest = 19"

fun priority_as_str :: "priority \<Rightarrow> string" where
  "priority_as_str Highest = ''highest''"
| "priority_as_str Medium = ''medium''"
| "priority_as_str Lowest = ''lowest''"

lemma priority_as_u8_inject [simp]: "priority_as_u8 a = priority_as_u8 b \<longleftrightarrow> a = b"
  by (cases a; cases b) simp_all

text \<open>The derived \<open>PartialOrd\<close>/\<open>Ord\<close>: variants compare by declaration order, which is
  the order of their discriminants.\<close>

instantiation priority :: linorder
begin

definition less_eq_priority :: "priority \<Rightarrow> priority \<Rightarrow> bool" where
  "less_eq_priority a b \<longleftrightarrow> priority_as_u8 a \<le> priority_as_u8 b"

definition less_priority :: "priority \<Rightarrow> priority \<Rightarrow> bool" where
  "less_priority a b \<longleftrightarrow> priority_as_u8 a < priority_as_u8 b"

instance
proof
  fix x y z :: priority
  show "(x < y) = (x \<le> y \<and> \<not> y \<le> x)"
    by (simp add: less_eq_priority_def less_priority_def less_le_not_le)
  show "x \<le> x" by (simp add: less_eq_priority_def)
  show "x \<le> y \<Longrightarrow> y \<le> z \<Longrightarrow> x \<le> z" by (simp add: less_eq_priority_def)
  show "x \<le> y \<Longrightarrow> y \<le> x \<Longrightarrow> x = y"
    unfolding less_eq_priority_def by (metis order.antisym priority_as_u8_inject)
  show "x \<le> y \<or> y \<le> x" by (simp add: less_eq_priority_def linear)
qed

end

lemma ex_priority: "(\<exists>p :: priority. P p) \<longleftrightarrow> P Highest \<or> P Medium \<or> P Lowest"
proof
  assume "\<exists>p. P p"
  then obtain p where "P p" ..
  then show "P Highest \<or> P Medium \<or> P Lowest" by (cases p) auto
qed blast

lemma priority_less_iff [simp]:
  "Highest < p \<longleftrightarrow> p \<noteq> Highest" "\<not> p < Highest" "Medium < p \<longleftrightarrow> p = Lowest"
  "p < Medium \<longleftrightarrow> p = Highest" "\<not> Lowest < p" "p < Lowest \<longleftrightarrow> p \<noteq> Lowest"
  by (cases p; simp add: less_priority_def)+

section \<open>File metadata and file-list requests\<close>

record file_info =
  file_name :: string
  file_size :: u64
  permissions :: u32
  is_directory :: bool

text \<open>The notify handle is the permit \<open>tokio::sync::Notify\<close> stores.\<close>

record file_list_state =
  fl_files :: "file_info list"
  fl_error :: bool
  fl_error_details :: string
  fl_data_ready :: bool
  fl_notify :: bool

definition file_list_state_new :: file_list_state where
  "file_list_state_new =
     \<lparr>fl_files = [], fl_error = False, fl_error_details = '''', fl_data_ready = False,
      fl_notify = False\<rparr>"

section \<open>Message identifiers\<close>

definition SYSTEM_SOURCE :: string where "SYSTEM_SOURCE = ''system''"
definition JOB_COMPLETION_SOURCE :: string where "JOB_COMPLETION_SOURCE = ''_job_completion_''"
definition SERVER_READY :: u32 where [wire_simps]: "SERVER_READY = 1000"
definition SUBMIT_JOB :: u32 where [wire_simps]: "SUBMIT_JOB = 2000"
definition UPDATE_JOB :: u32 where [wire_simps]: "UPDATE_JOB = 2001"
definition CANCEL_JOB :: u32 where [wire_simps]: "CANCEL_JOB = 2002"
definition DELETE_JOB :: u32 where [wire_simps]: "DELETE_JOB = 2003"
definition DOWNLOAD_FILE :: u32 where [wire_simps]: "DOWNLOAD_FILE = 4000"
definition FILE_DETAILS :: u32 where [wire_simps]: "FILE_DETAILS = 4001"
definition FILE_ERROR :: u32 where [wire_simps]: "FILE_ERROR = 4002"
definition FILE_CHUNK :: u32 where [wire_simps]: "FILE_CHUNK = 4003"
definition PAUSE_FILE_CHUNK_STREAM :: u32 where [wire_simps]: "PAUSE_FILE_CHUNK_STREAM = 4004"
definition RESUME_FILE_CHUNK_STREAM :: u32 where [wire_simps]: "RESUME_FILE_CHUNK_STREAM = 4005"
definition FILE_LIST :: u32 where [wire_simps]: "FILE_LIST = 4006"
definition FILE_LIST_ERROR :: u32 where [wire_simps]: "FILE_LIST_ERROR = 4007"
definition UPLOAD_FILE :: u32 where [wire_simps]: "UPLOAD_FILE = 4500"
definition FILE_UPLOAD_CHUNK :: u32 where [wire_simps]: "FILE_UPLOAD_CHUNK = 4501"
definition FILE_UPLOAD_ERROR :: u32 where [wire_simps]: "FILE_UPLOAD_ERROR = 4502"
definition FILE_UPLOAD_COMPLETE :: u32 where [wire_simps]: "FILE_UPLOAD_COMPLETE = 4503"
definition DB_JOB_GET_BY_JOB_ID :: u32 where [wire_simps]: "DB_JOB_GET_BY_JOB_ID = 5000"
definition DB_JOB_GET_BY_ID :: u32 where [wire_simps]: "DB_JOB_GET_BY_ID = 5001"
definition DB_JOB_GET_RUNNING_JOBS :: u32 where [wire_simps]: "DB_JOB_GET_RUNNING_JOBS = 5002"
definition DB_JOB_DELETE :: u32 where [wire_simps]: "DB_JOB_DELETE = 5003"
definition DB_JOB_SAVE :: u32 where [wire_simps]: "DB_JOB_SAVE = 5004"
definition DB_JOBSTATUS_GET_BY_JOB_ID_AND_WHAT :: u32 where [wire_simps]:
  "DB_JOBSTATUS_GET_BY_JOB_ID_AND_WHAT = 6000"
definition DB_JOBSTATUS_GET_BY_JOB_ID :: u32 where [wire_simps]:
  "DB_JOBSTATUS_GET_BY_JOB_ID = 6001"
definition DB_JOBSTATUS_DELETE_BY_ID_LIST :: u32 where [wire_simps]:
  "DB_JOBSTATUS_DELETE_BY_ID_LIST = 6002"
definition DB_JOBSTATUS_SAVE :: u32 where [wire_simps]: "DB_JOBSTATUS_SAVE = 6003"
definition DB_RESPONSE :: u32 where [wire_simps]: "DB_RESPONSE = 7000"
definition DB_BUNDLE_CREATE_OR_UPDATE_JOB :: u32 where [wire_simps]:
  "DB_BUNDLE_CREATE_OR_UPDATE_JOB = 8000"
definition DB_BUNDLE_GET_JOB_BY_ID :: u32 where [wire_simps]: "DB_BUNDLE_GET_JOB_BY_ID = 8001"
definition DB_BUNDLE_DELETE_JOB :: u32 where [wire_simps]: "DB_BUNDLE_DELETE_JOB = 8002"
definition UNKNOWN :: string where "UNKNOWN = ''unknown''"

definition message_ids :: "u32 list" where
  "message_ids =
     [SERVER_READY, SUBMIT_JOB, UPDATE_JOB, CANCEL_JOB, DELETE_JOB, DOWNLOAD_FILE, FILE_DETAILS,
      FILE_ERROR, FILE_CHUNK, PAUSE_FILE_CHUNK_STREAM, RESUME_FILE_CHUNK_STREAM, FILE_LIST,
      FILE_LIST_ERROR, UPLOAD_FILE, FILE_UPLOAD_CHUNK, FILE_UPLOAD_ERROR, FILE_UPLOAD_COMPLETE,
      DB_JOB_GET_BY_JOB_ID, DB_JOB_GET_BY_ID, DB_JOB_GET_RUNNING_JOBS, DB_JOB_DELETE,
      DB_JOB_SAVE, DB_JOBSTATUS_GET_BY_JOB_ID_AND_WHAT, DB_JOBSTATUS_GET_BY_JOB_ID,
      DB_JOBSTATUS_DELETE_BY_ID_LIST, DB_JOBSTATUS_SAVE, DB_RESPONSE,
      DB_BUNDLE_CREATE_OR_UPDATE_JOB, DB_BUNDLE_GET_JOB_BY_ID, DB_BUNDLE_DELETE_JOB]"

lemma message_ids_distinct: "distinct message_ids"
  by (simp add: message_ids_def wire_simps)

lemma system_source_is_rust_string [simp]: "is_rust_string SYSTEM_SOURCE"
  by (simp add: is_rust_string_def SYSTEM_SOURCE_def str_bytes_def byte_of_char_def)

end
