(* ===== verification/Wire_Message.thy ===== *)
theory Wire_Message
  imports Protocol_Types
begin

text \<open>
  The binary message of \<open>src/protocol/message.rs\<close>: a byte buffer with a read cursor, the
  header fields, and the push and pop operations.  A pop returns the value and the message
  with its cursor moved; a \<open>usize\<close> length read from a \<open>u64\<close> prefix is compared with the
  bytes that remain as a natural number.  The lemmas show that no pop reads outside the
  buffer, what each pop returns on a truncated buffer, and, through the locale
  \<open>wire_codec\<close>, that values pushed in some order are popped in the same order.
\<close>

section \<open>The message and its header\<close>

record message =
  m_data :: bytes
  m_index :: nat
  m_id :: u32
  m_source :: string
  m_priority :: priority

definition remaining :: "message \<Rightarrow> nat" where
  "remaining m = length (m_data m) - m_index m"

definition check_remaining :: "message \<Rightarrow> nat \<Rightarrow> bool" where
  "check_remaining m n \<longleftrightarrow> \<not> remaining m < n"

definition read_slice :: "message \<Rightarrow> nat \<Rightarrow> bytes" where
  "read_slice m n = take n (drop (m_index m) (m_data m))"

definition advance :: "nat \<Rightarrow> message \<Rightarrow> message" where
  "advance n m = m\<lparr>m_index := m_index m + n\<rparr>"

definition pop_le :: "nat \<Rightarrow> message \<Rightarrow> 'a::len word \<times> message" where
  "pop_le sz m =
     (if \<not> check_remaining m sz then (0, m)
      else (word_of_nat (le_val (read_slice m sz)), advance sz m))"

section \<open>Push and pop\<close>

definition push_raw :: "bytes \<Rightarrow> message \<Rightarrow> message" where
  "push_raw bs m = m\<lparr>m_data := m_data m @ bs\<rparr>"

definition push_ubyte :: "u8 \<Rightarrow> message \<Rightarrow> message" where
  "push_ubyte v m = push_raw [v] m"

definition pop_ubyte :: "message \<Rightarrow> u8 \<times> message" where
  "pop_ubyte m =
     (if \<not> check_remaining m 1 then (0, m)
      else (m_data m ! m_index m, advance 1 m))"

definition push_bool :: "bool \<Rightarrow> message \<Rightarrow> message" where
  "push_bool v m = push_ubyte (if v then 1 else 0) m"

definition pop_bool :: "message \<Rightarrow> bool \<times> message" where
  "pop_bool m = (let (v, m') = pop_ubyte m in (v = 1, m'))"

definition push_uint :: "u32 \<Rightarrow> message \<Rightarrow> message" where
  "push_uint v m = push_raw (to_le 4 (unat v)) m"

definition pop_uint :: "message \<Rightarrow> u32 \<times> message" where
  "pop_uint m = pop_le 4 m"

definition push_ulong :: "u64 \<Rightarrow> message \<Rightarrow> message" where
  "push_ulong v m = push_raw (to_le 8 (unat v)) m"

definition pop_ulong :: "message \<Rightarrow> u64 \<times> message" where
  "pop_ulong m = pop_le 8 m"

definition push_bytes :: "bytes \<Rightarrow> message \<Rightarrow> message" where
  "push_bytes v m = push_raw v (push_ulong (word_of_nat (length v)) m)"

definition push_string :: "string \<Rightarrow> message \<Rightarrow> message" where
  "push_string s m = push_raw (str_bytes s) (push_ulong (word_of_nat (length s)) m)"

definition pop_bytes :: "message \<Rightarrow> bytes \<times> message" where
  "pop_bytes m =
     (let (len, m') = pop_ulong m; n = unat len in
      if \<not> check_remaining m' n then ([], m')
      else (read_slice m' n, advance n m'))"

definition pop_string :: "message \<Rightarrow> string \<times> message" where
  "pop_string m = (let (bs, m') = pop_bytes m in (from_utf8_or_default bs, m'))"

definition try_pop_bytes :: "message \<Rightarrow> bytes option \<times> message" where
  "try_pop_bytes m =
     (let start = m_index m; (len, m') = pop_ulong m; n = unat len in
      if \<not> check_remaining m' n then (None, m'\<lparr>m_index := start\<rparr>)
      else (Some (read_slice m' n), advance n m'))"

definition try_pop_string :: "message \<Rightarrow> string option \<times> message" where
  "try_pop_string m =
     (let start = m_index m; (len, m') = pop_ulong m; n = unat len in
      if \<not> check_remaining m' n then (None, m'\<lparr>m_index := start\<rparr>)
      else (Some (from_utf8_or_default (read_slice m' n)), advance n m'))"

definition message_new :: "u32 \<Rightarrow> priority \<Rightarrow> string \<Rightarrow> message" where
  "message_new msg_id prio src =
     push_uint msg_id
       (push_string src
          \<lparr>m_data = [], m_index = 0, m_id = msg_id, m_source = src, m_priority = prio\<rparr>)"

definition message_from_bytes :: "bytes \<Rightarrow> message" where
  "message_from_bytes bs =
     (let m0 = \<lparr>m_data = bs, m_index = 0, m_id = 0, m_source = '''', m_priority = Lowest\<rparr>;
          (src, m1) = pop_string m0;
          (i, m2) = pop_uint (m1\<lparr>m_source := src\<rparr>)
      in m2\<lparr>m_id := i\<rparr>)"

section \<open>Buffers and cursors\<close>

text \<open>The cursor never passes the end of the buffer: every slice the code takes is in range.\<close>

definition msg_wf :: "message \<Rightarrow> bool" where
  "msg_wf m \<longleftrightarrow> m_index m \<le> length (m_data m)"

lemmas message_defs =
  remaining_def check_remaining_def read_slice_def advance_def pop_le_def push_raw_def

lemmas pop_defs =
  pop_ubyte_def pop_bool_def pop_uint_def pop_ulong_def pop_bytes_def pop_string_def
  try_pop_bytes_def try_pop_string_def

lemmas push_defs =
  push_ubyte_def push_bool_def push_uint_def push_ulong_def push_bytes_def push_string_def

lemma advance_simps [simp]:
  "m_data (advance n m) = m_data m" "m_index (advance n m) = m_index m + n"
  "m_id (advance n m) = m_id m" "m_source (advance n m) = m_source m"
  "m_priority (advance n m) = m_priority m"
  by (simp_all add: advance_def)

lemma remaining_advance [simp]: "remaining (advance n m) = remaining m - n"
  by (simp add: remaining_def)

lemma push_raw_simps [simp]:
  "m_data (push_raw bs m) = m_data m @ bs" "m_index (push_raw bs m) = m_index m"
  "m_id (push_raw bs m) = m_id m" "m_source (push_raw bs m) = m_source m"
  "m_priority (push_raw bs m) = m_priority m"
  by (simp_all add: push_raw_def)

lemma push_frame [simp]:
  "m_priority (push_ubyte v m) = m_priority m" "m_source (push_ubyte v m) = m_source m"
  "m_priority (push_bool w m) = m_priority m" "m_source (push_bool w m) = m_source m"
  "m_priority (push_uint x m) = m_priority m" "m_source (push_uint x m) = m_source m"
  "m_priority (push_ulong y m) = m_priority m" "m_source (push_ulong y m) = m_source m"
  "m_priority (push_bytes b m) = m_priority m" "m_source (push_bytes b m) = m_source m"
  "m_priority (push_string s m) = m_priority m" "m_source (push_string s m) = m_source m"
  by (simp_all add: push_defs)

lemma pop_le_short [simp]: "remaining m < sz \<Longrightarrow> pop_le sz m = (0, m)"
  by (simp add: pop_le_def check_remaining_def)

lemma pop_le_long:
  "sz \<le> remaining m \<Longrightarrow> pop_le sz m = (word_of_nat (le_val (read_slice m sz)), advance sz m)"
  by (simp add: pop_le_def check_remaining_def)

lemma msg_wf_advance: "msg_wf m \<Longrightarrow> n \<le> remaining m \<Longrightarrow> msg_wf (advance n m)"
  by (simp add: msg_wf_def remaining_def)

lemma snd_pop_le_data [simp]:
  "m_data (snd (pop_le sz m)) = m_data m" "m_id (snd (pop_le sz m)) = m_id m"
  "m_source (snd (pop_le sz m)) = m_source m"
  by (simp_all add: pop_le_def)

lemma pop_le_index: "m_index m \<le> m_index (snd (pop_le sz m))"
  by (simp add: pop_le_def)

lemma msg_wf_pop_le: "msg_wf m \<Longrightarrow> msg_wf (snd (pop_le sz m))"
  by (auto simp: pop_le_def check_remaining_def intro: msg_wf_advance)

text \<open>
  A pop that keeps the buffer, moves the cursor forwards only, and keeps it in range.
\<close>

definition well_behaved :: "(message \<Rightarrow> 'a \<times> message) \<Rightarrow> bool" where
  "well_behaved pop \<longleftrightarrow>
     (\<forall>m. msg_wf m \<longrightarrow>
        msg_wf (snd (pop m)) \<and> m_data (snd (pop m)) = m_data m \<and> m_id (snd (pop m)) = m_id m \<and>
        m_index m \<le> m_index (snd (pop m)))"

lemma well_behavedD:
  assumes "well_behaved pop" "msg_wf m" "pop m = (v, m')"
  shows "msg_wf m'" "m_data m' = m_data m" "m_id m' = m_id m" "m_index m \<le> m_index m'"
    "remaining m' \<le> remaining m"
  using assms by (auto simp: well_behaved_def remaining_def diff_le_mono2 dest!: spec [of _ m])

lemma well_behaved_pop_le [simp]: "well_behaved (pop_le sz)"
  by (simp add: well_behaved_def msg_wf_pop_le pop_le_index)

lemma well_behaved_pop_uint [simp]: "well_behaved pop_uint"
  using well_behaved_pop_le by (simp add: well_behaved_def pop_uint_def)

lemma well_behaved_pop_ulong [simp]: "well_behaved pop_ulong"
  using well_behaved_pop_le by (simp add: well_behaved_def pop_ulong_def)

lemma well_behaved_pop_ubyte [simp]: "well_behaved pop_ubyte"
  by (auto simp: well_behaved_def pop_ubyte_def check_remaining_def intro!: msg_wf_advance)

lemma well_behaved_pop_bool [simp]: "well_behaved pop_bool"
  using well_behaved_pop_ubyte by (simp add: well_behaved_def pop_bool_def case_prod_beta)

lemma well_behaved_pop_bytes [simp]: "well_behaved pop_bytes"
  using well_behaved_pop_ulong
  by (auto simp: well_behaved_def pop_bytes_def Let_def case_prod_beta check_remaining_def
      intro!: msg_wf_advance intro: order_trans)

lemma well_behaved_pop_string [simp]: "well_behaved pop_string"
  using well_behaved_pop_bytes by (simp add: well_behaved_def pop_string_def case_prod_beta)

lemma well_behaved_try_pop_bytes [simp]: "well_behaved try_pop_bytes"
  using well_behaved_pop_ulong
  by (auto simp: well_behaved_def try_pop_bytes_def Let_def case_prod_beta check_remaining_def
      msg_wf_def remaining_def intro: order_trans)

lemma well_behaved_try_pop_string [simp]: "well_behaved try_pop_string"
  using well_behaved_pop_ulong
  by (auto simp: well_behaved_def try_pop_string_def Let_def case_prod_beta check_remaining_def
      msg_wf_def remaining_def intro: order_trans)

section \<open>The codec contract\<close>

text \<open>
  \<open>at_rest m bs\<close>: the unread part of the buffer is \<open>bs\<close>.  A codec pairs a push with a
  pop: the push appends the encoding, the pop of an unread part that starts with the
  encoding of an admissible value returns the value and leaves what follows unread.
\<close>

definition at_rest :: "message \<Rightarrow> bytes \<Rightarrow> bool" where
  "at_rest m bs \<longleftrightarrow> msg_wf m \<and> drop (m_index m) (m_data m) = bs"

lemma at_rest_remaining: "at_rest m bs \<Longrightarrow> remaining m = length bs"
  by (auto simp: at_rest_def remaining_def)

lemma at_rest_advance:
  assumes "at_rest m (a @ rest)"
  shows "at_rest (advance (length a) m) rest" "read_slice m (length a) = a"
proof -
  have d: "drop (m_index m) (m_data m) = a @ rest" and wf: "msg_wf m"
    using assms by (simp_all add: at_rest_def)
  have r: "remaining m = length a + length rest"
    using at_rest_remaining [OF assms] by simp
  have "drop (m_index m + length a) (m_data m) = drop (length a) (drop (m_index m) (m_data m))"
    by (simp add: add.commute)
  then show "at_rest (advance (length a) m) rest"
    using d r wf by (simp add: at_rest_def msg_wf_advance)
  show "read_slice m (length a) = a"
    by (simp add: read_slice_def d)
qed

definition total_pop :: "(message \<Rightarrow> 'a \<times> message) \<Rightarrow> message \<Rightarrow> 'a option \<times> message" where
  "total_pop pop m = (let (v, m') = pop m in (Some v, m'))"

fun get_many :: "(message \<Rightarrow> 'a option \<times> message) \<Rightarrow> nat \<Rightarrow> message \<Rightarrow> 'a list option \<times> message" where
  "get_many get 0 m = (Some [], m)"
| "get_many get (Suc n) m =
     (case get m of
        (None, m') \<Rightarrow> (None, m')
      | (Some v, m') \<Rightarrow>
          (case get_many get n m' of
             (None, m'') \<Rightarrow> (None, m'')
           | (Some vs, m'') \<Rightarrow> (Some (v # vs), m'')))"

locale wire_codec =
  fixes put :: "'a \<Rightarrow> message \<Rightarrow> message"
    and get :: "message \<Rightarrow> 'a option \<times> message"
    and enc :: "'a \<Rightarrow> bytes"
    and ok :: "'a \<Rightarrow> bool"
  assumes put_enc: "put v m = push_raw (enc v) m"
    and get_enc: "ok v \<Longrightarrow> at_rest m (enc v @ rest) \<Longrightarrow>
      get m = (Some v, advance (length (enc v)) m)"
begin

lemma put_data: "m_data (put v m) = m_data m @ enc v"
  by (simp add: put_enc)

lemma put_frame: "m_index (put v m) = m_index m" "m_id (put v m) = m_id m"
    "m_source (put v m) = m_source m" "m_priority (put v m) = m_priority m"
  by (simp_all add: put_enc)

lemma get_rest:
  assumes "ok v" "at_rest m (enc v @ rest)"
  obtains m' where "get m = (Some v, m')" "at_rest m' rest" "m_id m' = m_id m"
    "m_source m' = m_source m"
  using get_enc [OF assms] at_rest_advance(1) [OF assms(2)] by force

lemma get_put:
  assumes "ok v" "m_index m = length (m_data m)"
  shows "get (put v m) = (Some v, advance (length (enc v)) (put v m))"
  using assms by (intro get_enc [where rest = "[]"]) (simp_all add: at_rest_def put_enc msg_wf_def)

lemma fold_put_data: "m_data (fold put vs m) = m_data m @ concat (map enc vs)"
  by (induction vs arbitrary: m) (simp_all add: put_data)

lemma get_many_rest:
  assumes "\<forall>v \<in> set vs. ok v" "at_rest m (concat (map enc vs) @ rest)"
  shows "\<exists>m'. get_many get (length vs) m = (Some vs, m') \<and> at_rest m' rest"
  using assms
proof (induction vs arbitrary: m)
  case Nil
  then show ?case by simp
next
  case (Cons v vs)
  have "at_rest m (enc v @ (concat (map enc vs) @ rest))" using Cons.prems(2) by simp
  then obtain m' where m': "get m = (Some v, m')" "at_rest m' (concat (map enc vs) @ rest)"
    using Cons.prems(1) by (auto elim: get_rest)
  then obtain m'' where "get_many get (length vs) m' = (Some vs, m'')" "at_rest m'' rest"
    using Cons.IH [of m'] Cons.prems(1) by auto
  with m'(1) show ?case by simp
qed

end

section \<open>The primitive codecs\<close>

lemma pop_le_at_rest:
  assumes "at_rest m (to_le sz (unat v) @ rest)" "LENGTH('a) = 8 * sz"
  shows "pop_le sz m = (v :: 'a::len word, advance sz m)"
proof -
  have "read_slice m sz = to_le sz (unat v)"
    using at_rest_advance(2) [OF assms(1)] by simp
  moreover have "unat v < 256 ^ sz"
    using unsigned_less [of v, where ?'a = nat] assms(2) by (simp add: power_mult)
  moreover have "sz \<le> remaining m" using at_rest_remaining [OF assms(1)] by simp
  ultimately show ?thesis by (simp add: pop_le_long le_val_to_le_exact)
qed

interpretation uint: wire_codec push_uint "total_pop pop_uint" "\<lambda>v. to_le 4 (unat v)" "\<lambda>_. True"
  by unfold_locales (simp_all add: push_uint_def total_pop_def pop_uint_def pop_le_at_rest)

interpretation ulong: wire_codec push_ulong "total_pop pop_ulong" "\<lambda>v. to_le 8 (unat v)" "\<lambda>_. True"
  by unfold_locales (simp_all add: push_ulong_def total_pop_def pop_ulong_def pop_le_at_rest)

lemma pop_ubyte_at_rest: "at_rest m (v # rest) \<Longrightarrow> pop_ubyte m = (v, advance 1 m)"
proof -
  assume a: "at_rest m (v # rest)"
  then have "m_data m ! m_index m = v"
    by (auto simp: at_rest_def msg_wf_def) (metis drop_eq_Nil2 hd_drop_conv_nth linorder_not_less
        list.distinct(1) list.sel(1))
  then show ?thesis
    using at_rest_remaining [OF a] by (simp add: pop_ubyte_def check_remaining_def)
qed

interpretation ubyte: wire_codec push_ubyte "total_pop pop_ubyte" "\<lambda>v. [v]" "\<lambda>_. True"
  by unfold_locales (simp_all add: push_ubyte_def total_pop_def pop_ubyte_at_rest)

interpretation bool: wire_codec push_bool "total_pop pop_bool" "\<lambda>v. [if v then 1 else 0]" "\<lambda>_. True"
  by unfold_locales
    (auto simp: push_bool_def push_ubyte_def total_pop_def pop_bool_def pop_ubyte_at_rest)

definition prefixed :: "bytes \<Rightarrow> bytes" where
  "prefixed bs = to_le 8 (unat (word_of_nat (length bs) :: u64)) @ bs"

lemma push_raw_push_raw: "push_raw b (push_raw a m) = push_raw (a @ b) m"
  by (simp add: push_raw_def)

lemma pop_prefix:
  assumes "at_rest m (prefixed bs @ rest)" "length bs < 2 ^ 64"
  shows "pop_ulong m = (word_of_nat (length bs), advance 8 m)"
    "at_rest (advance 8 m) (bs @ rest)"
    "unat (word_of_nat (length bs) :: u64) = length bs"
proof -
  have r: "at_rest m (to_le 8 (unat (word_of_nat (length bs) :: u64)) @ bs @ rest)"
    using assms(1) by (simp add: prefixed_def)
  show "pop_ulong m = (word_of_nat (length bs), advance 8 m)"
    unfolding pop_ulong_def using r by (rule pop_le_at_rest) simp
  show "at_rest (advance 8 m) (bs @ rest)"
    using at_rest_advance(1) [OF r] by simp
  show "unat (word_of_nat (length bs) :: u64) = length bs"
    using assms(2) by (simp add: unat_of_nat take_bit_nat_eq_self)
qed

lemma advance_advance: "advance a (advance b m) = advance (b + a) m"
  by (simp add: advance_def add.assoc)

lemma body_at_rest:
  assumes "at_rest m (prefixed bs @ rest)" "length bs < 2 ^ 64"
  shows "check_remaining (advance 8 m) (length bs)" "read_slice (advance 8 m) (length bs) = bs"
    "advance (length bs) (advance 8 m) = advance (length (prefixed bs)) m"
  using pop_prefix(2) [OF assms] at_rest_remaining [OF pop_prefix(2) [OF assms]]
    at_rest_advance(2) [OF pop_prefix(2) [OF assms]]
  by (simp_all add: check_remaining_def advance_advance prefixed_def)

lemma pop_bytes_at_rest:
  assumes "at_rest m (prefixed bs @ rest)" "length bs < 2 ^ 64"
  shows "pop_bytes m = (bs, advance (length (prefixed bs)) m)"
    "try_pop_bytes m = (Some bs, advance (length (prefixed bs)) m)"
    "try_pop_string m = (Some (from_utf8_or_default bs), advance (length (prefixed bs)) m)"
  using pop_prefix [OF assms] body_at_rest [OF assms]
  by (simp_all add: pop_bytes_def try_pop_bytes_def try_pop_string_def Let_def)

lemma push_bytes_prefixed: "push_bytes v m = push_raw (prefixed v) m"
  by (simp add: push_bytes_def push_ulong_def prefixed_def push_raw_push_raw)

lemma push_string_prefixed: "push_string s m = push_raw (prefixed (str_bytes s)) m"
  by (simp add: push_string_def push_ulong_def prefixed_def push_raw_push_raw)

interpretation byte_seq: wire_codec push_bytes "total_pop pop_bytes" prefixed "\<lambda>bs. length bs < 2 ^ 64"
  by unfold_locales (simp_all add: push_bytes_prefixed total_pop_def pop_bytes_at_rest)

interpretation try_byte_seq: wire_codec push_bytes try_pop_bytes prefixed "\<lambda>bs. length bs < 2 ^ 64"
  by unfold_locales (simp_all add: push_bytes_prefixed pop_bytes_at_rest)

interpretation str: wire_codec push_string "total_pop pop_string" "\<lambda>s. prefixed (str_bytes s)" is_rust_string
  by unfold_locales
    (simp_all add: push_string_prefixed total_pop_def pop_string_def pop_bytes_at_rest(1) is_rust_string_def
      from_utf8_or_default_def)

interpretation try_str: wire_codec push_string try_pop_string "\<lambda>s. prefixed (str_bytes s)" is_rust_string
  by unfold_locales
    (simp_all add: push_string_prefixed pop_bytes_at_rest(3) is_rust_string_def from_utf8_or_default_def)

section \<open>Messages as sequences of fields\<close>

datatype wire_field =
  FBool bool | FUByte u8 | FUInt u32 | FULong u64 | FString string | FBytes bytes

datatype field_kind = KBool | KUByte | KUInt | KULong | KString | KBytes

fun kind_of :: "wire_field \<Rightarrow> field_kind" where
  "kind_of (FBool _) = KBool"
| "kind_of (FUByte _) = KUByte"
| "kind_of (FUInt _) = KUInt"
| "kind_of (FULong _) = KULong"
| "kind_of (FString _) = KString"
| "kind_of (FBytes _) = KBytes"

fun push_field :: "wire_field \<Rightarrow> message \<Rightarrow> message" where
  "push_field (FBool v) m = push_bool v m"
| "push_field (FUByte v) m = push_ubyte v m"
| "push_field (FUInt v) m = push_uint v m"
| "push_field (FULong v) m = push_ulong v m"
| "push_field (FString v) m = push_string v m"
| "push_field (FBytes v) m = push_bytes v m"

fun pop_field :: "field_kind \<Rightarrow> message \<Rightarrow> wire_field \<times> message" where
  "pop_field KBool m = map_prod FBool id (pop_bool m)"
| "pop_field KUByte m = map_prod FUByte id (pop_ubyte m)"
| "pop_field KUInt m = map_prod FUInt id (pop_uint m)"
| "pop_field KULong m = map_prod FULong id (pop_ulong m)"
| "pop_field KString m = map_prod FString id (pop_string m)"
| "pop_field KBytes m = map_prod FBytes id (pop_bytes m)"

fun pop_fields :: "field_kind list \<Rightarrow> message \<Rightarrow> wire_field list \<times> message" where
  "pop_fields [] m = ([], m)"
| "pop_fields (k # ks) m =
     (let (f, m') = pop_field k m; (fs, m'') = pop_fields ks m' in (f # fs, m''))"

fun field_enc :: "wire_field \<Rightarrow> bytes" where
  "field_enc (FBool v) = [if v then 1 else 0]"
| "field_enc (FUByte v) = [v]"
| "field_enc (FUInt v) = to_le 4 (unat v)"
| "field_enc (FULong v) = to_le 8 (unat v)"
| "field_enc (FString v) = prefixed (str_bytes v)"
| "field_enc (FBytes v) = prefixed v"

text \<open>What a Rust value of the type can be: a \<open>String\<close> is valid UTF-8, and a length fits
  a \<open>u64\<close>.\<close>

fun field_ok :: "wire_field \<Rightarrow> bool" where
  "field_ok (FString s) = is_rust_string s"
| "field_ok (FBytes bs) = (length bs < 2 ^ 64)"
| "field_ok _ = True"

lemma push_field_enc: "push_field f m = push_raw (field_enc f) m"
  by (cases f) (simp_all add: uint.put_enc ulong.put_enc ubyte.put_enc bool.put_enc
      byte_seq.put_enc str.put_enc)

lemma total_pop_eq: "total_pop pop m = (Some v, m') \<longleftrightarrow> pop m = (v, m')"
  by (cases "pop m") (simp add: total_pop_def)

lemma pop_field_at_rest:
  assumes "field_ok f" "at_rest m (field_enc f @ rest)"
  shows "pop_field (kind_of f) m = (f, advance (length (field_enc f)) m)"
  using assms
    uint.get_enc [unfolded total_pop_eq] ulong.get_enc [unfolded total_pop_eq]
    ubyte.get_enc [unfolded total_pop_eq] bool.get_enc [unfolded total_pop_eq]
    byte_seq.get_enc [unfolded total_pop_eq] str.get_enc [unfolded total_pop_eq]
  by (cases f) simp_all

lemma pop_fields_at_rest:
  assumes "\<forall>f \<in> set fs. field_ok f" "at_rest m (concat (map field_enc fs) @ rest)"
  shows "\<exists>m'. pop_fields (map kind_of fs) m = (fs, m') \<and> at_rest m' rest"
  using assms
proof (induction fs arbitrary: m)
  case Nil
  then show ?case by simp
next
  case (Cons f fs)
  have r: "at_rest m (field_enc f @ (concat (map field_enc fs) @ rest))"
    using Cons.prems(2) by simp
  then have "pop_field (kind_of f) m = (f, advance (length (field_enc f)) m)"
    using Cons.prems(1) by (intro pop_field_at_rest) auto
  with Cons.IH [OF _ at_rest_advance(1) [OF r]] Cons.prems(1) show ?case by auto
qed

lemma fold_push_field_data:
  "m_data (fold push_field fs m) = m_data m @ concat (map field_enc fs)"
  by (induction fs arbitrary: m) (simp_all add: push_field_enc)

lemma message_new_data:
  "m_data (message_new i p s) = field_enc (FString s) @ field_enc (FUInt i)"
  by (simp add: message_new_def uint.put_enc str.put_enc)

lemma message_new_frame [simp]:
  "m_id (message_new i p s) = i" "m_source (message_new i p s) = s"
  "m_priority (message_new i p s) = p" "m_index (message_new i p s) = 0"
  by (simp_all add: message_new_def uint.put_enc str.put_enc)

lemma message_from_bytes_header:
  assumes "is_rust_string s"
  shows "\<exists>m. message_from_bytes (field_enc (FString s) @ field_enc (FUInt i) @ body) = m \<and>
    m_id m = i \<and> m_source m = s \<and> m_priority m = Lowest \<and> at_rest m body"
proof -
  let ?bs = "field_enc (FString s) @ field_enc (FUInt i) @ body"
  let ?m0 = "\<lparr>m_data = ?bs, m_index = 0, m_id = 0, m_source = '''', m_priority = Lowest\<rparr>"
  have r0: "at_rest ?m0 (prefixed (str_bytes s) @ (to_le 4 (unat i) @ body))"
    by (simp add: at_rest_def msg_wf_def)
  let ?m1 = "advance (length (prefixed (str_bytes s))) ?m0"
  have p0: "pop_string ?m0 = (s, ?m1)"
    using str.get_enc [OF assms r0] by (simp add: total_pop_eq)
  have r1: "at_rest (?m1\<lparr>m_source := s\<rparr>) (to_le 4 (unat i) @ body)"
    using at_rest_advance(1) [OF r0] by (simp add: at_rest_def msg_wf_def)
  have p1: "pop_uint (?m1\<lparr>m_source := s\<rparr>) = (i, advance 4 (?m1\<lparr>m_source := s\<rparr>))"
    using uint.get_enc [OF TrueI r1] by (simp add: total_pop_eq)
  have "message_from_bytes ?bs = (advance 4 (?m1\<lparr>m_source := s\<rparr>))\<lparr>m_id := i\<rparr>"
    by (simp add: message_from_bytes_def Let_def p0 [simplified] p1 [simplified])
  moreover have "at_rest ((advance 4 (?m1\<lparr>m_source := s\<rparr>))\<lparr>m_id := i\<rparr>) body"
    using at_rest_advance(1) [OF r1] by (simp add: at_rest_def msg_wf_def)
  ultimately show ?thesis by simp
qed

section \<open>Properties of the wire format\<close>

text \<open>C1: a message that is built with a header and any sequence of fields, sent as bytes and
  parsed by the receiver gives back the message id, the source and every field in order, with
  nothing left unread.\<close>

theorem message_fields_roundtrip:
  assumes "is_rust_string src" "\<forall>f \<in> set fs. field_ok f"
  shows "\<exists>m m'. message_from_bytes (m_data (fold push_field fs (message_new i p src))) = m \<and>
    m_id m = i \<and> m_source m = src \<and>
    pop_fields (map kind_of fs) m = (fs, m') \<and> remaining m' = 0"
proof -
  have data: "m_data (fold push_field fs (message_new i p src)) =
      field_enc (FString src) @ field_enc (FUInt i) @ concat (map field_enc fs)"
    by (simp add: fold_push_field_data message_new_data)
  obtain m where m: "message_from_bytes (m_data (fold push_field fs (message_new i p src))) = m"
      "m_id m = i" "m_source m = src" "at_rest m (concat (map field_enc fs) @ [])"
    using message_from_bytes_header [OF assms(1)] unfolding data by auto
  from pop_fields_at_rest [OF assms(2) m(4)]
  obtain m' where "pop_fields (map kind_of fs) m = (fs, m')" "at_rest m' []" by auto
  with m show ?thesis by (auto dest: at_rest_remaining)
qed

theorem message_fields_roundtrip_witness:
  "\<exists>m m'. message_from_bytes (m_data (fold push_field [FUInt 7, FString ''hi'', FBool True]
      (message_new SUBMIT_JOB Medium ''7_ozstar''))) = m \<and>
    m_id m = SUBMIT_JOB \<and> m_source m = ''7_ozstar'' \<and>
    pop_fields (map kind_of [FUInt 7, FString ''hi'', FBool True]) m =
      ([FUInt 7, FString ''hi'', FBool True], m') \<and> remaining m' = 0"
  by (rule message_fields_roundtrip)
    (simp_all add: is_rust_string_def str_bytes_def byte_of_char_def)

text \<open>Reading any sequence of fields from any received bytes, however malformed, keeps the
  read cursor inside the buffer and never moves it backwards, so no slice or index expression of
  the parser is out of range and parsing never panics.\<close>

theorem parser_stays_in_buffer:
  "msg_wf (message_from_bytes bs) \<and>
   (\<forall>ks. msg_wf (snd (pop_fields ks (message_from_bytes bs))) \<and>
     m_data (snd (pop_fields ks (message_from_bytes bs))) = bs \<and>
     m_index (message_from_bytes bs) \<le> m_index (snd (pop_fields ks (message_from_bytes bs))))"
proof -
  have wb: "well_behaved (pop_field k)" for k
    using well_behaved_pop_bool well_behaved_pop_ubyte well_behaved_pop_uint well_behaved_pop_ulong
      well_behaved_pop_string well_behaved_pop_bytes
    by (cases k) (simp_all add: well_behaved_def)
  have many: "msg_wf m \<Longrightarrow> msg_wf (snd (pop_fields ks m)) \<and>
      m_data (snd (pop_fields ks m)) = m_data m \<and> m_index m \<le> m_index (snd (pop_fields ks m))"
    for ks m
  proof (induction ks arbitrary: m)
    case (Cons k ks)
    obtain f m' where p: "pop_field k m = (f, m')" by force
    note well_behavedD [OF wb Cons.prems p]
    with Cons.IH [of m'] p show ?case by (auto simp: case_prod_beta Let_def)
  qed simp
  let ?m0 = "\<lparr>m_data = bs, m_index = 0, m_id = 0, m_source = '''', m_priority = Lowest\<rparr>"
  obtain src m1 where p1: "pop_string ?m0 = (src, m1)" by force
  obtain i m2 where p2: "pop_uint (m1\<lparr>m_source := src\<rparr>) = (i, m2)" by force
  have "msg_wf ?m0" by (simp add: msg_wf_def)
  note w1 = well_behavedD [OF well_behaved_pop_string this p1]
  then have "msg_wf (m1\<lparr>m_source := src\<rparr>)" by (simp add: msg_wf_def)
  note w2 = well_behavedD [OF well_behaved_pop_uint this p2]
  have "message_from_bytes bs = m2\<lparr>m_id := i\<rparr>"
    by (simp add: message_from_bytes_def Let_def p1 p2)
  moreover have "msg_wf (m2\<lparr>m_id := i\<rparr>)" "m_data (m2\<lparr>m_id := i\<rparr>) = bs"
    using w1 w2 by (simp_all add: msg_wf_def)
  moreover note many [of "m2\<lparr>m_id := i\<rparr>"]
  ultimately show ?thesis by simp
qed

text \<open>\<open>try_pop_string\<close> reports truncation exactly when a complete length prefix claims
  more bytes than remain, and then leaves the message as it was, cursor included.\<close>

theorem try_pop_string_None_iff:
  "fst (try_pop_string m) = None \<longleftrightarrow>
     8 \<le> remaining m \<and> remaining m < 8 + unat (fst (pop_ulong m)) \<and> try_pop_string m = (None, m)"
proof (cases "8 \<le> remaining m")
  case True
  then have "pop_ulong m = (word_of_nat (le_val (read_slice m 8)), advance 8 m)"
    by (simp add: pop_ulong_def pop_le_long)
  with True show ?thesis
    by (auto simp: try_pop_string_def Let_def check_remaining_def advance_def remaining_def)
next
  case False
  then show ?thesis
    by (simp add: try_pop_string_def pop_ulong_def check_remaining_def)
qed

text \<open>When fewer than the eight bytes of the length prefix are left, the fallible pops do not
  report truncation: they return an empty string or byte sequence as if it had been sent, and
  consume nothing.\<close>

theorem try_pop_missing_prefix:
  assumes "remaining m < 8"
  shows "try_pop_string m = (Some '''', m) \<and> try_pop_bytes m = (Some [], m)"
  using assms
  by (simp add: try_pop_string_def try_pop_bytes_def pop_ulong_def check_remaining_def read_slice_def
      from_utf8_or_default_def bytes_str_def advance_def)

theorem try_pop_missing_prefix_witness:
  "try_pop_string (\<lparr>m_data = [5, 0, 0], m_index = 0, m_id = 1, m_source = '''', m_priority = Lowest\<rparr>) =
     (Some '''', \<lparr>m_data = [5, 0, 0], m_index = 0, m_id = 1, m_source = '''', m_priority = Lowest\<rparr>)"
  using try_pop_missing_prefix
    [of "\<lparr>m_data = [5, 0, 0], m_index = 0, m_id = 1, m_source = '''', m_priority = Lowest\<rparr>"]
  by (simp add: remaining_def)

end
