(* ===== verification/Wire_Models.thy ===== *)
theory Wire_Models
  imports Wire_Message
begin

text \<open>
  The records of \<open>src/db/models.rs\<close> that travel inside messages, their \<open>to_message\<close> and
  \<open>from_message\<close>, and the rows of \<open>src/db/entities\<close>.  Each record's codec is an
  interpretation of \<open>wire_codec\<close>, so lists of them decode as well.
\<close>

section \<open>Wire records\<close>

record cluster_job =
  cj_id :: i64
  cj_job_id :: i64
  cj_scheduler_id :: i64
  cj_submitting :: bool
  cj_submitting_count :: i32
  cj_bundle_hash :: string
  cj_working_directory :: string
  cj_running :: bool
  cj_deleting :: bool
  cj_deleted :: bool

definition cluster_job_to_message :: "cluster_job \<Rightarrow> message \<Rightarrow> message" where
  "cluster_job_to_message j m =
     push_bool (cj_deleted j)
       (push_bool (cj_deleting j)
         (push_bool (cj_running j)
           (push_string (cj_working_directory j)
             (push_string (cj_bundle_hash j)
               (push_uint (cj_submitting_count j)
                 (push_bool (cj_submitting j)
                   (push_ulong (cj_scheduler_id j)
                     (push_ulong (cj_job_id j)
                       (push_ulong (cj_id j) m)))))))))"

definition cluster_job_from_message :: "message \<Rightarrow> cluster_job option \<times> message" where
  "cluster_job_from_message m =
     (let (i, m) = pop_ulong m;
          (jid, m) = pop_ulong m;
          (sid, m) = pop_ulong m;
          (submitting, m) = pop_bool m;
          (cnt, m) = pop_uint m
      in case try_pop_string m of
           (None, m) \<Rightarrow> (None, m)
         | (Some hash, m) \<Rightarrow>
             (case try_pop_string m of
                (None, m) \<Rightarrow> (None, m)
              | (Some wd, m) \<Rightarrow>
                  (let (running, m) = pop_bool m;
                       (deleting, m) = pop_bool m;
                       (deleted, m) = pop_bool m
                   in (Some \<lparr>cj_id = i, cj_job_id = jid, cj_scheduler_id = sid,
                             cj_submitting = submitting, cj_submitting_count = cnt,
                             cj_bundle_hash = hash, cj_working_directory = wd,
                             cj_running = running, cj_deleting = deleting,
                             cj_deleted = deleted\<rparr>, m))))"

record cluster_job_status =
  cs_id :: i64
  cs_job_id :: i64
  cs_what :: string
  cs_state :: i32

definition cluster_job_status_to_message :: "cluster_job_status \<Rightarrow> message \<Rightarrow> message" where
  "cluster_job_status_to_message st m =
     push_uint (cs_state st)
       (push_string (cs_what st) (push_ulong (cs_job_id st) (push_ulong (cs_id st) m)))"

definition cluster_job_status_from_message ::
    "message \<Rightarrow> cluster_job_status option \<times> message" where
  "cluster_job_status_from_message m =
     (let (i, m) = pop_ulong m;
          (jid, m) = pop_ulong m
      in case try_pop_string m of
           (None, m) \<Rightarrow> (None, m)
         | (Some what, m) \<Rightarrow>
             (let (state, m) = pop_uint m
              in (Some \<lparr>cs_id = i, cs_job_id = jid, cs_what = what, cs_state = state\<rparr>, m)))"

record bundle_job =
  bj_id :: i64
  bj_content :: string

definition bundle_job_to_message :: "bundle_job \<Rightarrow> message \<Rightarrow> message" where
  "bundle_job_to_message b m = push_string (bj_content b) (push_ulong (bj_id b) m)"

definition bundle_job_from_message :: "message \<Rightarrow> bundle_job option \<times> message" where
  "bundle_job_from_message m =
     (let (i, m) = pop_ulong m
      in case try_pop_string m of
           (None, m) \<Rightarrow> (None, m)
         | (Some content, m) \<Rightarrow> (Some \<lparr>bj_id = i, bj_content = content\<rparr>, m))"

section \<open>Database rows\<close>

record job_row =
  job_id :: i64
  job_user :: i64
  job_parameters :: string
  job_cluster :: string
  job_bundle :: string
  job_application :: string

record job_history_row =
  jh_id :: i64
  jh_job_id :: i64
  jh_timestamp :: int
  jh_what :: string
  jh_state :: i32
  jh_details :: string

record cluster_job_row =
  cjr_id :: i64
  cjr_job_id :: i64
  cjr_scheduler_id :: i64
  cjr_submitting :: bool
  cjr_submitting_count :: i32
  cjr_bundle_hash :: string
  cjr_working_directory :: string
  cjr_running :: bool
  cjr_deleting :: bool
  cjr_deleted :: bool
  cjr_cluster :: string

record cluster_job_status_row =
  csr_id :: i64
  csr_job_id :: i64
  csr_what :: string
  csr_state :: i32

record bundle_job_row =
  bjr_id :: i64
  bjr_content :: string
  bjr_cluster :: string
  bjr_bundle_hash :: string

record file_list_cache_row =
  flc_id :: i64
  flc_job_id :: i64
  flc_path :: string
  flc_is_dir :: bool
  flc_file_size :: i64
  flc_permissions :: i32

record cluster_uuid_row =
  cu_id :: i64
  cu_cluster :: string
  cu_uuid :: string
  cu_timestamp :: int

record file_download_row =
  fdr_id :: i64
  fdr_user :: i64
  fdr_job :: i64
  fdr_cluster :: string
  fdr_bundle :: string
  fdr_uuid :: string
  fdr_path :: string
  fdr_timestamp :: int

definition cluster_job_of_row :: "cluster_job_row \<Rightarrow> cluster_job" where
  "cluster_job_of_row m =
     \<lparr>cj_id = cjr_id m, cj_job_id = cjr_job_id m, cj_scheduler_id = cjr_scheduler_id m,
      cj_submitting = cjr_submitting m, cj_submitting_count = cjr_submitting_count m,
      cj_bundle_hash = cjr_bundle_hash m, cj_working_directory = cjr_working_directory m,
      cj_running = cjr_running m, cj_deleting = cjr_deleting m, cj_deleted = cjr_deleted m\<rparr>"

definition cluster_job_status_of_row :: "cluster_job_status_row \<Rightarrow> cluster_job_status" where
  "cluster_job_status_of_row m =
     \<lparr>cs_id = csr_id m, cs_job_id = csr_job_id m, cs_what = csr_what m, cs_state = csr_state m\<rparr>"

definition bundle_job_of_row :: "bundle_job_row \<Rightarrow> bundle_job" where
  "bundle_job_of_row m = \<lparr>bj_id = bjr_id m, bj_content = bjr_content m\<rparr>"

section \<open>Round trips\<close>

definition cluster_job_enc :: "cluster_job \<Rightarrow> bytes" where
  "cluster_job_enc j =
     to_le 8 (unat (cj_id j)) @ to_le 8 (unat (cj_job_id j)) @ to_le 8 (unat (cj_scheduler_id j)) @
     [if cj_submitting j then 1 else 0] @ to_le 4 (unat (cj_submitting_count j)) @
     prefixed (str_bytes (cj_bundle_hash j)) @ prefixed (str_bytes (cj_working_directory j)) @
     [if cj_running j then 1 else 0] @ [if cj_deleting j then 1 else 0] @
     [if cj_deleted j then 1 else 0]"

definition cluster_job_ok :: "cluster_job \<Rightarrow> bool" where
  "cluster_job_ok j \<longleftrightarrow>
     is_rust_string (cj_bundle_hash j) \<and> is_rust_string (cj_working_directory j)"

definition cluster_job_status_enc :: "cluster_job_status \<Rightarrow> bytes" where
  "cluster_job_status_enc st =
     to_le 8 (unat (cs_id st)) @ to_le 8 (unat (cs_job_id st)) @
     prefixed (str_bytes (cs_what st)) @ to_le 4 (unat (cs_state st))"

definition bundle_job_enc :: "bundle_job \<Rightarrow> bytes" where
  "bundle_job_enc b = to_le 8 (unat (bj_id b)) @ prefixed (str_bytes (bj_content b))"

lemmas pop_at_rest =
  uint.get_enc [OF TrueI, unfolded total_pop_eq] ulong.get_enc [OF TrueI, unfolded total_pop_eq]
  bool.get_enc [OF TrueI, unfolded total_pop_eq] try_str.get_enc

lemma at_rest_step: "at_rest m (a @ rest) \<Longrightarrow> n = length a \<Longrightarrow> at_rest (advance n m) rest"
  using at_rest_advance(1) by blast

lemma cluster_job_at_rest:
  assumes ok: "cluster_job_ok j" and r: "at_rest m (cluster_job_enc j @ rest)"
  shows "cluster_job_from_message m = (Some j, advance (length (cluster_job_enc j)) m)"
proof -
  note ok' = ok [unfolded cluster_job_ok_def]
  note r0 = r [unfolded cluster_job_enc_def, simplified append_assoc]
  note r1 = at_rest_step [OF r0 refl]
  note r2 = at_rest_step [OF r1 refl]
  note r3 = at_rest_step [OF r2 refl]
  note r4 = at_rest_step [OF r3 refl]
  note r5 = at_rest_step [OF r4 refl]
  note r6 = at_rest_step [OF r5 refl]
  note r7 = at_rest_step [OF r6 refl]
  note r8 = at_rest_step [OF r7 refl]
  note r9 = at_rest_step [OF r8 refl]
  show ?thesis
    using pop_at_rest(2) [OF r0] pop_at_rest(2) [OF r1] pop_at_rest(2) [OF r2]
      pop_at_rest(3) [OF r3] pop_at_rest(1) [OF r4] pop_at_rest(4) [OF conjunct1 [OF ok'] r5]
      pop_at_rest(4) [OF conjunct2 [OF ok'] r6] pop_at_rest(3) [OF r7] pop_at_rest(3) [OF r8]
      pop_at_rest(3) [OF r9]
    by (simp add: cluster_job_from_message_def advance_advance cluster_job_enc_def ac_simps)
qed

lemma cluster_job_status_at_rest:
  assumes ok: "is_rust_string (cs_what st)" and r: "at_rest m (cluster_job_status_enc st @ rest)"
  shows "cluster_job_status_from_message m = (Some st, advance (length (cluster_job_status_enc st)) m)"
proof -
  note r0 = r [unfolded cluster_job_status_enc_def, simplified append_assoc]
  note r1 = at_rest_step [OF r0 refl]
  note r2 = at_rest_step [OF r1 refl]
  note r3 = at_rest_step [OF r2 refl]
  show ?thesis
    using pop_at_rest(2) [OF r0] pop_at_rest(2) [OF r1] pop_at_rest(4) [OF ok r2]
      pop_at_rest(1) [OF r3]
    by (simp add: cluster_job_status_from_message_def advance_advance cluster_job_status_enc_def
        ac_simps)
qed

lemma bundle_job_at_rest:
  assumes ok: "is_rust_string (bj_content b)" and r: "at_rest m (bundle_job_enc b @ rest)"
  shows "bundle_job_from_message m = (Some b, advance (length (bundle_job_enc b)) m)"
proof -
  note r0 = r [unfolded bundle_job_enc_def, simplified append_assoc]
  note r1 = at_rest_step [OF r0 refl]
  show ?thesis
    using pop_at_rest(2) [OF r0] pop_at_rest(4) [OF ok r1]
    by (simp add: bundle_job_from_message_def advance_advance bundle_job_enc_def)
qed

interpretation cj: wire_codec cluster_job_to_message cluster_job_from_message cluster_job_enc
    cluster_job_ok
  by unfold_locales
    (simp_all add: cluster_job_at_rest cluster_job_to_message_def cluster_job_enc_def
      uint.put_enc ulong.put_enc bool.put_enc str.put_enc push_raw_push_raw)

interpretation cs: wire_codec cluster_job_status_to_message cluster_job_status_from_message
    cluster_job_status_enc "\<lambda>st. is_rust_string (cs_what st)"
  by unfold_locales
    (simp_all add: cluster_job_status_at_rest cluster_job_status_to_message_def
      cluster_job_status_enc_def uint.put_enc ulong.put_enc str.put_enc push_raw_push_raw)

interpretation bj: wire_codec bundle_job_to_message bundle_job_from_message bundle_job_enc
    "\<lambda>b. is_rust_string (bj_content b)"
  by unfold_locales
    (simp_all add: bundle_job_at_rest bundle_job_to_message_def bundle_job_enc_def
      ulong.put_enc str.put_enc push_raw_push_raw)

text \<open>A list of cluster jobs written after any header and body prefix is read back by the
  same number of \<open>from_message\<close> calls, row by row, as the client of a \<open>DB_RESPONSE\<close> reads it.\<close>

theorem cluster_jobs_roundtrip:
  assumes "\<forall>j \<in> set js. cluster_job_ok j" "m_index m = length (m_data m)"
  shows "\<exists>m'. get_many cluster_job_from_message (length js) (fold cluster_job_to_message js m) =
    (Some js, m') \<and> remaining m' = 0"
proof -
  have "m_index (fold cluster_job_to_message js m) = m_index m" for m
    by (induction js arbitrary: m) (simp_all add: cj.put_frame)
  then have "at_rest (fold cluster_job_to_message js m) (concat (map cluster_job_enc js) @ [])"
    using assms(2) by (simp add: at_rest_def msg_wf_def cj.fold_put_data)
  from cj.get_many_rest [OF assms(1) this] show ?thesis
    by (auto dest: at_rest_remaining)
qed

theorem cluster_jobs_roundtrip_witness:
  "\<exists>m'. get_many cluster_job_from_message 1
      (fold cluster_job_to_message
        [\<lparr>cj_id = 3, cj_job_id = 8, cj_scheduler_id = - 1, cj_submitting = True,
          cj_submitting_count = 2, cj_bundle_hash = ''ab'', cj_working_directory = ''/w'',
          cj_running = False, cj_deleting = True, cj_deleted = False\<rparr>]
        \<lparr>m_data = [9, 9], m_index = 2, m_id = 5004, m_source = '''', m_priority = Lowest\<rparr>) =
    (Some [\<lparr>cj_id = 3, cj_job_id = 8, cj_scheduler_id = - 1, cj_submitting = True,
          cj_submitting_count = 2, cj_bundle_hash = ''ab'', cj_working_directory = ''/w'',
          cj_running = False, cj_deleting = True, cj_deleted = False\<rparr>], m') \<and> remaining m' = 0"
  using cluster_jobs_roundtrip [where
      js = "[\<lparr>cj_id = 3, cj_job_id = 8, cj_scheduler_id = - 1, cj_submitting = True,
          cj_submitting_count = 2, cj_bundle_hash = ''ab'', cj_working_directory = ''/w'',
          cj_running = False, cj_deleting = True, cj_deleted = False\<rparr>]" and
      m = "\<lparr>m_data = [9, 9], m_index = 2, m_id = 5004, m_source = '''', m_priority = Lowest\<rparr>"]
  by (simp add: cluster_job_ok_def is_rust_string_def str_bytes_def byte_of_char_def)

end
