(* ===== verification/Store.thy ===== *)
theory Store
  imports Wire_Models
begin

text \<open>
  The database, as the code reaches it through SeaORM.  SeaORM and the server behind it are
  not part of the repository, so every table is a record of operations that the modelled
  functions take as an argument: selections with a filter, insertion of a row whose primary
  key the server assigns, update of the row with a given key, deletion by filter, and
  transactions.  Each operation may fail.  The locale \<open>table_laws\<close> states the documented
  behaviour of a table (what a successful or failed operation does to its rows); it is
  interpreted on an in-memory relational store, the role SQLite plays in the repository's
  tests.  String columns compare byte for byte.
\<close>

section \<open>Operations of the database\<close>

datatype db_err = DbErr string

type_synonym 'a db_result = "db_err + 'a"

record ('db, 'r) table =
  tb_all :: "'db \<Rightarrow> ('r \<Rightarrow> bool) \<Rightarrow> 'r list db_result"
  tb_one :: "'db \<Rightarrow> ('r \<Rightarrow> bool) \<Rightarrow> 'r option db_result"
  tb_all_desc :: "'db \<Rightarrow> ('r \<Rightarrow> bool) \<Rightarrow> ('r \<Rightarrow> int \<times> int) \<Rightarrow> 'r list db_result"
  tb_insert :: "'db \<Rightarrow> 'r \<Rightarrow> 'r db_result \<times> 'db"
  tb_update :: "'db \<Rightarrow> i64 \<Rightarrow> ('r \<Rightarrow> 'r) \<Rightarrow> 'r db_result \<times> 'db"
  tb_delete :: "'db \<Rightarrow> ('r \<Rightarrow> bool) \<Rightarrow> unit db_result \<times> 'db"

record 'db database =
  db_jobs :: "('db, job_row) table"
  db_histories :: "('db, job_history_row) table"
  db_cluster_jobs :: "('db, cluster_job_row) table"
  db_job_statuses :: "('db, cluster_job_status_row) table"
  db_bundle_jobs :: "('db, bundle_job_row) table"
  db_file_list_cache :: "('db, file_list_cache_row) table"
  db_cluster_uuids :: "('db, cluster_uuid_row) table"
  db_file_downloads :: "('db, file_download_row) table"
  db_begin :: "'db \<Rightarrow> 'db db_result"
  db_commit :: "'db \<Rightarrow> 'db db_result"

text \<open>\<open>unwrap_or_default()\<close> and \<open>unwrap_or(None)\<close> on a query result.\<close>

definition or_default :: "'a \<Rightarrow> 'a db_result \<Rightarrow> 'a" where
  "or_default d r = (case r of Inl _ \<Rightarrow> d | Inr v \<Rightarrow> v)"

lemma or_default_simps [simp]: "or_default d (Inl e) = d" "or_default d (Inr v) = v"
  by (simp_all add: or_default_def)

text \<open>\<open>db.transaction(f)\<close>: the changes of \<open>f\<close> take effect only if it succeeds and the commit
  succeeds; otherwise the database is as before.\<close>

definition transaction ::
    "'db database \<Rightarrow> ('db \<Rightarrow> 'a db_result \<times> 'db) \<Rightarrow> 'db \<Rightarrow> 'a db_result \<times> 'db" where
  "transaction D f db =
     (case db_begin D db of
        Inl e \<Rightarrow> (Inl e, db)
      | Inr t \<Rightarrow>
          (case f t of
             (Inl e, _) \<Rightarrow> (Inl e, db)
           | (Inr v, t') \<Rightarrow>
               (case db_commit D t' of Inl e \<Rightarrow> (Inl e, db) | Inr db' \<Rightarrow> (Inr v, db'))))"

lemma transaction_failed: "transaction D f db = (Inl e, db') \<Longrightarrow> db' = db"
  by (auto simp: transaction_def split: sum.splits prod.splits)

section \<open>The laws of a table\<close>

locale table_laws =
  fixes T :: "('db, 'r) table"
    and rows :: "'db \<Rightarrow> 'r list"
    and rid :: "'r \<Rightarrow> i64"
    and set_rid :: "i64 \<Rightarrow> 'r \<Rightarrow> 'r"
  assumes all_rows: "tb_all T db P = Inr rs \<Longrightarrow> set rs = {r \<in> set (rows db). P r}"
    and one_row: "tb_one T db P = Inr (Some r) \<Longrightarrow> r \<in> set (rows db) \<and> P r"
    and one_none: "tb_one T db P = Inr None \<Longrightarrow> \<forall>r \<in> set (rows db). \<not> P r"
    and all_desc_rows: "tb_all_desc T db P k = Inr rs \<Longrightarrow>
      set rs = {r \<in> set (rows db). P r} \<and>
      sorted_wrt (\<lambda>a b. fst (k b) < fst (k a) \<or> fst (k b) = fst (k a) \<and> snd (k b) \<le> snd (k a)) rs"
    and insert_ok: "tb_insert T db r = (Inr r', db') \<Longrightarrow>
      r' = set_rid (rid r') r \<and> 0 < sint (rid r') \<and> rid r' \<notin> rid ` set (rows db) \<and>
      set (rows db') = insert r' (set (rows db))"
    and insert_err: "tb_insert T db r = (Inl e, db') \<Longrightarrow> rows db' = rows db"
    and update_ok: "tb_update T db i f = (Inr r', db') \<Longrightarrow>
      i \<in> rid ` set (rows db) \<and>
      set (rows db') = (\<lambda>r. if rid r = i then f r else r) ` set (rows db)"
    and update_err: "tb_update T db i f = (Inl e, db') \<Longrightarrow> rows db' = rows db"
    and delete_ok: "tb_delete T db P = (Inr u, db') \<Longrightarrow>
      set (rows db') = {r \<in> set (rows db). \<not> P r}"
    and delete_err: "tb_delete T db P = (Inl e, db') \<Longrightarrow> rows db' = rows db"
begin

lemma delete_subset: "tb_delete T db P = (res, db') \<Longrightarrow> set (rows db') \<subseteq> set (rows db)"
  by (cases res) (auto dest: delete_ok delete_err)

lemma delete_other: "tb_delete T db P = (res, db') \<Longrightarrow> r \<in> set (rows db) \<Longrightarrow> \<not> P r \<Longrightarrow>
    r \<in> set (rows db')"
  by (cases res) (auto dest: delete_ok delete_err)

lemma delete_gone: "tb_delete T db P = (Inr u, db') \<Longrightarrow> P r \<Longrightarrow> r \<notin> set (rows db')"
  by (auto dest: delete_ok)

lemma insert_other: "tb_insert T db r = (res, db') \<Longrightarrow> x \<in> set (rows db) \<Longrightarrow> x \<in> set (rows db')"
  by (cases res) (auto dest: insert_ok insert_err)

lemma update_other: "tb_update T db i f = (res, db') \<Longrightarrow> x \<in> set (rows db) \<Longrightarrow> rid x \<noteq> i \<Longrightarrow>
    x \<in> set (rows db')"
  by (cases res) (force dest: update_ok update_err)+

end

section \<open>The in-memory store\<close>

text \<open>A table of an in-memory database: its rows in insertion order and the next key.  An
  insertion is refused once the key space is exhausted.\<close>

record 'r mem_table =
  mt_rows :: "'r list"
  mt_next :: nat

definition mem_select :: "'r mem_table \<Rightarrow> ('r \<Rightarrow> bool) \<Rightarrow> 'r list" where
  "mem_select t P = filter P (mt_rows t)"

definition mem_first :: "'r list \<Rightarrow> 'r option" where
  "mem_first rs = (case rs of [] \<Rightarrow> None | r # _ \<Rightarrow> Some r)"

definition desc_key :: "('r \<Rightarrow> int \<times> int) \<Rightarrow> 'r \<Rightarrow> 'r \<Rightarrow> bool" where
  "desc_key k a b \<longleftrightarrow> fst (k b) < fst (k a) \<or> fst (k b) = fst (k a) \<and> snd (k b) \<le> snd (k a)"

fun insert_desc :: "('r \<Rightarrow> int \<times> int) \<Rightarrow> 'r \<Rightarrow> 'r list \<Rightarrow> 'r list" where
  "insert_desc k x [] = [x]"
| "insert_desc k x (y # ys) = (if desc_key k x y then x # y # ys else y # insert_desc k x ys)"

definition sort_desc :: "('r \<Rightarrow> int \<times> int) \<Rightarrow> 'r list \<Rightarrow> 'r list" where
  "sort_desc k rs = foldr (insert_desc k) rs []"

definition mem_insert :: "(i64 \<Rightarrow> 'r \<Rightarrow> 'r) \<Rightarrow> 'r mem_table \<Rightarrow> 'r \<Rightarrow> 'r db_result \<times> 'r mem_table" where
  "mem_insert set_rid t r =
     (if 2 ^ 63 - 1 \<le> mt_next t then (Inl (DbErr ''key space exhausted''), t)
      else let r' = set_rid (word_of_nat (mt_next t + 1)) r
           in (Inr r', t\<lparr>mt_rows := mt_rows t @ [r'], mt_next := mt_next t + 1\<rparr>))"

definition mem_update ::
    "('r \<Rightarrow> i64) \<Rightarrow> 'r mem_table \<Rightarrow> i64 \<Rightarrow> ('r \<Rightarrow> 'r) \<Rightarrow> 'r db_result \<times> 'r mem_table" where
  "mem_update rid t i f =
     (case filter (\<lambda>r. rid r = i) (mt_rows t) of
        [] \<Rightarrow> (Inl (DbErr ''RecordNotUpdated''), t)
      | r # _ \<Rightarrow>
          (Inr (f r), t\<lparr>mt_rows := map (\<lambda>r. if rid r = i then f r else r) (mt_rows t)\<rparr>))"

definition mem_delete :: "'r mem_table \<Rightarrow> ('r \<Rightarrow> bool) \<Rightarrow> 'r mem_table" where
  "mem_delete t P = t\<lparr>mt_rows := filter (\<lambda>r. \<not> P r) (mt_rows t)\<rparr>"

text \<open>Keys in use are at most the last key assigned.\<close>

definition mem_wf :: "('r \<Rightarrow> i64) \<Rightarrow> 'r mem_table \<Rightarrow> bool" where
  "mem_wf rid t \<longleftrightarrow> (\<forall>r \<in> set (mt_rows t). unat (rid r) \<le> mt_next t)"

text \<open>The operations on a component of a larger state.  A table whose keys are not well-formed is
  unavailable.\<close>

definition mem_ops ::
    "('db \<Rightarrow> 'r mem_table) \<Rightarrow> ('r mem_table \<Rightarrow> 'db \<Rightarrow> 'db) \<Rightarrow> ('r \<Rightarrow> i64) \<Rightarrow> (i64 \<Rightarrow> 'r \<Rightarrow> 'r) \<Rightarrow>
     ('db, 'r) table" where
  "mem_ops gt st rid set_rid =
     \<lparr>tb_all = (\<lambda>db P. Inr (mem_select (gt db) P)),
      tb_one = (\<lambda>db P. Inr (mem_first (mem_select (gt db) P))),
      tb_all_desc = (\<lambda>db P k. Inr (sort_desc k (mem_select (gt db) P))),
      tb_insert = (\<lambda>db r.
        if mem_wf rid (gt db)
        then (let (res, t) = mem_insert set_rid (gt db) r in (res, st t db))
        else (Inl (DbErr ''corrupt table''), db)),
      tb_update = (\<lambda>db i f. let (res, t) = mem_update rid (gt db) i f in (res, st t db)),
      tb_delete = (\<lambda>db P. (Inr (), st (mem_delete (gt db) P) db))\<rparr>"

lemma insert_desc_set [simp]: "set (insert_desc k x ys) = insert x (set ys)"
  by (induction ys) auto

lemma insert_desc_sorted:
  "sorted_wrt (desc_key k) ys \<Longrightarrow> sorted_wrt (desc_key k) (insert_desc k x ys)"
proof (induction ys)
  case (Cons y ys)
  then show ?case by (auto simp: desc_key_def)
qed simp

lemma sort_desc_set [simp]: "set (sort_desc k rs) = set rs"
  by (induction rs) (simp_all add: sort_desc_def)

lemma sort_desc_sorted: "sorted_wrt (desc_key k) (sort_desc k rs)"
  by (induction rs) (simp_all add: sort_desc_def insert_desc_sorted)

lemma mem_key:
  assumes "\<not> 2 ^ 63 - 1 \<le> n"
  shows "0 < sint (word_of_nat (n + 1) :: i64)" "unat (word_of_nat (n + 1) :: i64) = n + 1"
proof -
  have b: "n + 1 < 2 ^ 63" using assms by simp
  have "n + 1 < 2 ^ LENGTH(64)" using b by simp
  then show "unat (word_of_nat (n + 1) :: i64) = n + 1"
    by (rule of_nat_inverse [OF refl])
  have "sint (word_of_nat (n + 1) :: i64) = signed_take_bit 63 (int (n + 1))"
    by (subst signed_of_nat) simp
  also have "\<dots> = int (n + 1)"
    using b by (intro signed_take_bit_int_eq_self) simp_all
  finally show "0 < sint (word_of_nat (n + 1) :: i64)" by simp
qed

lemma mem_ops_laws:
  assumes gs: "\<And>t db. gt (st t db) = t" and sid: "\<And>i r. rid (set_rid i r) = i"
  shows "table_laws (mem_ops gt st rid set_rid) (\<lambda>db. mt_rows (gt db)) rid set_rid"
proof
  fix db P rs k r r' db' i f u e
  let ?T = "mem_ops gt st rid set_rid"
  show "tb_all ?T db P = Inr rs \<Longrightarrow> set rs = {r \<in> set (mt_rows (gt db)). P r}"
    by (auto simp: mem_ops_def mem_select_def)
  show "tb_one ?T db P = Inr (Some r) \<Longrightarrow> r \<in> set (mt_rows (gt db)) \<and> P r"
    by (auto simp: mem_ops_def mem_select_def mem_first_def filter_eq_Cons_iff split: list.splits)
  show "tb_one ?T db P = Inr None \<Longrightarrow> \<forall>r \<in> set (mt_rows (gt db)). \<not> P r"
    by (auto simp: mem_ops_def mem_select_def mem_first_def filter_empty_conv split: list.splits)
  show "tb_all_desc ?T db P k = Inr rs \<Longrightarrow> set rs = {r \<in> set (mt_rows (gt db)). P r} \<and>
      sorted_wrt (\<lambda>a b. fst (k b) < fst (k a) \<or> fst (k b) = fst (k a) \<and> snd (k b) \<le> snd (k a)) rs"
    using sort_desc_sorted [of k "mem_select (gt db) P", unfolded desc_key_def [abs_def]]
    by (auto simp: mem_ops_def mem_select_def)
  show "tb_insert ?T db r = (Inr r', db') \<Longrightarrow>
      r' = set_rid (rid r') r \<and> 0 < sint (rid r') \<and> rid r' \<notin> rid ` set (mt_rows (gt db)) \<and>
      set (mt_rows (gt db')) = insert r' (set (mt_rows (gt db)))"
    using mem_key [of "mt_next (gt db)"]
    by (auto simp: mem_ops_def mem_insert_def gs sid mem_wf_def Let_def split: if_splits)
  show "tb_insert ?T db r = (Inl e, db') \<Longrightarrow> mt_rows (gt db') = mt_rows (gt db)"
    by (auto simp: mem_ops_def mem_insert_def gs Let_def split: if_splits)
  show "tb_update ?T db i f = (Inr r', db') \<Longrightarrow> i \<in> rid ` set (mt_rows (gt db)) \<and>
      set (mt_rows (gt db')) = (\<lambda>r. if rid r = i then f r else r) ` set (mt_rows (gt db))"
    by (auto simp: mem_ops_def mem_update_def gs filter_eq_Cons_iff split: list.splits)
  show "tb_update ?T db i f = (Inl e, db') \<Longrightarrow> mt_rows (gt db') = mt_rows (gt db)"
    by (auto simp: mem_ops_def mem_update_def gs split: list.splits)
  show "tb_delete ?T db P = (Inr u, db') \<Longrightarrow>
      set (mt_rows (gt db')) = {r \<in> set (mt_rows (gt db)). \<not> P r}"
    by (auto simp: mem_ops_def mem_delete_def gs)
  show "tb_delete ?T db P = (Inl e, db') \<Longrightarrow> mt_rows (gt db') = mt_rows (gt db)"
    by (simp add: mem_ops_def)
qed

section \<open>The database of the tests\<close>

record mem_db =
  m_jobs :: "job_row mem_table"
  m_histories :: "job_history_row mem_table"
  m_cluster_jobs :: "cluster_job_row mem_table"
  m_job_statuses :: "cluster_job_status_row mem_table"
  m_bundle_jobs :: "bundle_job_row mem_table"
  m_file_list_cache :: "file_list_cache_row mem_table"
  m_cluster_uuids :: "cluster_uuid_row mem_table"
  m_file_downloads :: "file_download_row mem_table"

definition mem_empty :: mem_db where
  "mem_empty =
     \<lparr>m_jobs = \<lparr>mt_rows = [], mt_next = 0\<rparr>, m_histories = \<lparr>mt_rows = [], mt_next = 0\<rparr>,
       m_cluster_jobs = \<lparr>mt_rows = [], mt_next = 0\<rparr>, m_job_statuses = \<lparr>mt_rows = [], mt_next = 0\<rparr>,
       m_bundle_jobs = \<lparr>mt_rows = [], mt_next = 0\<rparr>, m_file_list_cache = \<lparr>mt_rows = [], mt_next = 0\<rparr>,
       m_cluster_uuids = \<lparr>mt_rows = [], mt_next = 0\<rparr>, m_file_downloads = \<lparr>mt_rows = [], mt_next = 0\<rparr>\<rparr>"

definition mem_database :: "mem_db database" where
  "mem_database =
     \<lparr>db_jobs = mem_ops m_jobs (\<lambda>t db. db\<lparr>m_jobs := t\<rparr>) job_id (\<lambda>i r. r\<lparr>job_id := i\<rparr>),
      db_histories = mem_ops m_histories (\<lambda>t db. db\<lparr>m_histories := t\<rparr>) jh_id (\<lambda>i r. r\<lparr>jh_id := i\<rparr>),
      db_cluster_jobs =
        mem_ops m_cluster_jobs (\<lambda>t db. db\<lparr>m_cluster_jobs := t\<rparr>) cjr_id (\<lambda>i r. r\<lparr>cjr_id := i\<rparr>),
      db_job_statuses =
        mem_ops m_job_statuses (\<lambda>t db. db\<lparr>m_job_statuses := t\<rparr>) csr_id (\<lambda>i r. r\<lparr>csr_id := i\<rparr>),
      db_bundle_jobs =
        mem_ops m_bundle_jobs (\<lambda>t db. db\<lparr>m_bundle_jobs := t\<rparr>) bjr_id (\<lambda>i r. r\<lparr>bjr_id := i\<rparr>),
      db_file_list_cache =
        mem_ops m_file_list_cache (\<lambda>t db. db\<lparr>m_file_list_cache := t\<rparr>) flc_id (\<lambda>i r. r\<lparr>flc_id := i\<rparr>),
      db_cluster_uuids =
        mem_ops m_cluster_uuids (\<lambda>t db. db\<lparr>m_cluster_uuids := t\<rparr>) cu_id (\<lambda>i r. r\<lparr>cu_id := i\<rparr>),
      db_file_downloads =
        mem_ops m_file_downloads (\<lambda>t db. db\<lparr>m_file_downloads := t\<rparr>) fdr_id (\<lambda>i r. r\<lparr>fdr_id := i\<rparr>),
      db_begin = Inr, db_commit = Inr\<rparr>"

interpretation mem_jobs: table_laws "db_jobs mem_database" "\<lambda>db. mt_rows (m_jobs db)" job_id
    "\<lambda>i r. r\<lparr>job_id := i\<rparr>"
  unfolding mem_database_def database.simps by (rule mem_ops_laws) simp_all

interpretation mem_histories: table_laws "db_histories mem_database"
    "\<lambda>db. mt_rows (m_histories db)" jh_id "\<lambda>i r. r\<lparr>jh_id := i\<rparr>"
  unfolding mem_database_def database.simps by (rule mem_ops_laws) simp_all

interpretation mem_cluster_jobs: table_laws "db_cluster_jobs mem_database"
    "\<lambda>db. mt_rows (m_cluster_jobs db)" cjr_id "\<lambda>i r. r\<lparr>cjr_id := i\<rparr>"
  unfolding mem_database_def database.simps by (rule mem_ops_laws) simp_all

interpretation mem_job_statuses: table_laws "db_job_statuses mem_database"
    "\<lambda>db. mt_rows (m_job_statuses db)" csr_id "\<lambda>i r. r\<lparr>csr_id := i\<rparr>"
  unfolding mem_database_def database.simps by (rule mem_ops_laws) simp_all

interpretation mem_bundle_jobs: table_laws "db_bundle_jobs mem_database"
    "\<lambda>db. mt_rows (m_bundle_jobs db)" bjr_id "\<lambda>i r. r\<lparr>bjr_id := i\<rparr>"
  unfolding mem_database_def database.simps by (rule mem_ops_laws) simp_all

interpretation mem_file_lists: table_laws "db_file_list_cache mem_database"
    "\<lambda>db. mt_rows (m_file_list_cache db)" flc_id "\<lambda>i r. r\<lparr>flc_id := i\<rparr>"
  unfolding mem_database_def database.simps by (rule mem_ops_laws) simp_all

interpretation mem_uuids: table_laws "db_cluster_uuids mem_database"
    "\<lambda>db. mt_rows (m_cluster_uuids db)" cu_id "\<lambda>i r. r\<lparr>cu_id := i\<rparr>"
  unfolding mem_database_def database.simps by (rule mem_ops_laws) simp_all

interpretation mem_file_downloads: table_laws "db_file_downloads mem_database"
    "\<lambda>db. mt_rows (m_file_downloads db)" fdr_id "\<lambda>i r. r\<lparr>fdr_id := i\<rparr>"
  unfolding mem_database_def database.simps by (rule mem_ops_laws) simp_all

end
