(* ===== verification/Cluster_State.thy ===== *)
theory Cluster_State
  imports Store
begin

text \<open>
  The state of one cluster connection (\<open>src/cluster/cluster.rs\<close>, with the transfer states of
  \<open>file_download.rs\<close> and \<open>file_upload.rs\<close> and the outbound channel of \<open>traits.rs\<close>) and its
  operations: the constructors of the three roles, the priority queues and their byte counter,
  the connection, and the start and termination of background tasks.

  The \<open>BTreeMap\<close> of priorities is a list in key order.  A \<open>HashMap\<close> of sources is an
  association list: its order stands for the map's unspecified iteration order.  A
  \<open>tokio::sync::Notify\<close> is the permit it stores.  The queue counter is an atomic \<open>usize\<close> and
  wraps, so it is a word.
\<close>

section \<open>Data\<close>

record cluster_config =
  cc_name :: string
  cc_host :: string
  cc_username :: string
  cc_path :: string
  cc_key :: string
  cc_connection_type :: string
  cc_keytab :: string
  cc_kerberos_principal :: string
  cc_ltk :: "string option"

datatype ws_outbound = WsBinary bytes | WsPing | WsClose

text \<open>The unbounded channel to the WebSocket forwarder: sending fails once the receiving end is
  gone.\<close>

record ws_channel =
  ch_open :: bool
  ch_sent :: "ws_outbound list"

definition channel_send :: "ws_outbound \<Rightarrow> ws_channel \<Rightarrow> bool \<times> ws_channel" where
  "channel_send x ch = (if ch_open ch then (True, ch\<lparr>ch_sent := ch_sent ch @ [x]\<rparr>) else (False, ch))"

text \<open>The chunk channel's two ends are fields of the same shared structure, so the receiving end
  lives as long as the state itself.\<close>

record file_download_state =
  fd_chunks :: "bytes list"
  fd_receiver_alive :: bool
  fd_file_size :: u64
  fd_received_data :: bool
  fd_error :: bool
  fd_error_details :: string
  fd_received_bytes :: u64
  fd_sent_bytes :: u64
  fd_client_paused :: bool
  fd_data_notify :: bool
  fd_data_ready :: bool

definition file_download_state_new :: file_download_state where
  "file_download_state_new =
     \<lparr>fd_chunks = [], fd_receiver_alive = True, fd_file_size = 0, fd_received_data = False,
      fd_error = False, fd_error_details = '''', fd_received_bytes = 0, fd_sent_bytes = 0,
      fd_client_paused = False, fd_data_notify = False, fd_data_ready = False\<rparr>"

record file_upload_state =
  fu_error :: bool
  fu_error_details :: string
  fu_complete :: bool
  fu_data_notify :: bool
  fu_data_ready :: bool

definition file_upload_state_new :: file_upload_state where
  "file_upload_state_new =
     \<lparr>fu_error = False, fu_error_details = '''', fu_complete = False, fu_data_notify = False,
      fu_data_ready = False\<rparr>"

datatype task = SchedulerTask | PruneTask | ResendTask

type_synonym source_queues = "(string \<times> bytes list) list"
type_synonym priority_queue = "(u8 \<times> source_queues) list"

record cluster =
  cl_details :: cluster_config
  cl_role :: cluster_role
  cl_role_string :: string
  cl_connection :: "ws_channel option"
  cl_queue :: priority_queue
  cl_queued_size :: u64
  cl_data_permit :: bool
  cl_size_permit :: bool
  cl_running :: bool
  cl_tasks :: "task list"
  cl_task_handles :: "task list"
  cl_has_context :: bool
  cl_download :: "file_download_state option"
  cl_upload :: "file_upload_state option"
  cl_uuid :: "string option"

section \<open>Constructors\<close>

definition empty_priority_queues :: priority_queue where
  "empty_priority_queues = map (\<lambda>p. (priority_as_u8 p, [])) [Highest, Medium, Lowest]"

definition cluster_new_with_role ::
    "cluster_config \<Rightarrow> cluster_role \<Rightarrow> string \<Rightarrow> file_download_state option \<Rightarrow>
     file_upload_state option \<Rightarrow> string option \<Rightarrow> bool \<Rightarrow> cluster" where
  "cluster_new_with_role details role role_string download upload uid has_context =
     \<lparr>cl_details = details, cl_role = role, cl_role_string = role_string, cl_connection = None,
      cl_queue = empty_priority_queues, cl_queued_size = 0, cl_data_permit = False,
      cl_size_permit = False, cl_running = True, cl_tasks = [], cl_task_handles = [],
      cl_has_context = has_context, cl_download = download, cl_upload = upload, cl_uuid = uid\<rparr>"

definition cluster_new :: "cluster_config \<Rightarrow> bool \<Rightarrow> cluster" where
  "cluster_new details has_context =
     cluster_new_with_role details Master (''master '' @ cc_name details) None None None has_context"

definition cluster_new_file_download ::
    "cluster_config \<Rightarrow> string \<Rightarrow> file_download_state \<Rightarrow> bool \<Rightarrow> cluster" where
  "cluster_new_file_download details uid download has_context =
     cluster_new_with_role details FileDownload (''file download '' @ uid) (Some download) None
       (Some uid) has_context"

definition cluster_new_file_upload ::
    "cluster_config \<Rightarrow> string \<Rightarrow> file_upload_state \<Rightarrow> bool \<Rightarrow> cluster" where
  "cluster_new_file_upload details uid upload has_context =
     cluster_new_with_role details FileUpload (''file upload '' @ uid) None (Some upload)
       (Some uid) has_context"

definition cluster_name :: "cluster \<Rightarrow> string" where
  "cluster_name c = cc_name (cl_details c)"

definition is_online :: "cluster \<Rightarrow> bool" where
  "is_online c \<longleftrightarrow> cl_connection c \<noteq> None"

section \<open>Background tasks\<close>

definition start_tasks :: "cluster \<Rightarrow> cluster" where
  "start_tasks c =
     (let resend = (if cl_role c = Master then [ResendTask] else []);
          spawned = [SchedulerTask, PruneTask] @ resend;
          c = c\<lparr>cl_tasks := cl_tasks c @ spawned\<rparr>
      in if cl_role c = FileDownload
         then c\<lparr>cl_task_handles := cl_task_handles c @ [SchedulerTask, PruneTask] @ resend\<rparr>
         else c)"

text \<open>\<open>notify_waiters\<close> wakes the tasks that are waiting now and stores no permit.\<close>

definition stop :: "cluster \<Rightarrow> cluster" where
  "stop c = c\<lparr>cl_running := False\<rparr>"

text \<open>Every retained handle is aborted and awaited, so the tasks are gone afterwards.\<close>

definition terminate_download_tasks :: "cluster \<Rightarrow> cluster" where
  "terminate_download_tasks c =
     (let handles = cl_task_handles c; c = c\<lparr>cl_task_handles := []\<rparr> in
      if handles = [] then c
      else let c = stop c in c\<lparr>cl_tasks := filter (\<lambda>t. t \<notin> set handles) (cl_tasks c)\<rparr>)"

section \<open>Queues\<close>

definition push_source :: "string \<Rightarrow> bytes \<Rightarrow> source_queues \<Rightarrow> source_queues" where
  "push_source source data m = alist_adjust source [] (\<lambda>q. q @ [data]) m"

definition queue_message :: "string \<Rightarrow> bytes \<Rightarrow> priority \<Rightarrow> cluster \<Rightarrow> cluster" where
  "queue_message source data prio c =
     (let p = priority_as_u8 prio in
      case map_of (cl_queue c) p of
        None \<Rightarrow> c
      | Some m \<Rightarrow>
          c\<lparr>cl_queue := AList.update p (push_source source data m) (cl_queue c),
            cl_queued_size := cl_queued_size c + word_of_nat (length data),
            cl_data_permit := True\<rparr>)"

definition send_message :: "message \<Rightarrow> cluster \<Rightarrow> cluster" where
  "send_message m c = queue_message (m_source m) (m_data m) (m_priority m) c"

text \<open>Messages of the cluster itself are queued under the empty source.\<close>

definition send_message_internal :: "message \<Rightarrow> cluster \<Rightarrow> cluster" where
  "send_message_internal m c = queue_message '''' (m_data m) (m_priority m) c"

fun has_higher_priority_data :: "priority_queue \<Rightarrow> u8 \<Rightarrow> bool" where
  "has_higher_priority_data [] max_priority = False"
| "has_higher_priority_data ((p, m) # qs) max_priority =
     (if max_priority \<le> p then False
      else if list_ex (\<lambda>(_, q). q \<noteq> []) m then True
      else has_higher_priority_data qs max_priority)"

definition prune_once :: "cluster \<Rightarrow> cluster" where
  "prune_once c =
     c\<lparr>cl_queue := map (\<lambda>(p, m). (p, filter (\<lambda>(_, q). q \<noteq> []) m)) (cl_queue c)\<rparr>"

text \<open>The scheduler's \<open>map.get_mut(source)\<close> and \<open>queue.pop_front()\<close>, with the counter.\<close>

definition pop_source :: "u8 \<Rightarrow> string \<Rightarrow> cluster \<Rightarrow> (bytes \<times> cluster) option" where
  "pop_source p source c =
     (case map_of (cl_queue c) p of
        None \<Rightarrow> None
      | Some m \<Rightarrow>
          (case map_of m source of
             None \<Rightarrow> None
           | Some [] \<Rightarrow> None
           | Some (data # rest) \<Rightarrow>
               Some (data,
                 c\<lparr>cl_queue := AList.update p (AList.update source rest m) (cl_queue c),
                   cl_queued_size := cl_queued_size c - word_of_nat (length data),
                   cl_size_permit := True\<rparr>)))"

text \<open>Delivery of a dequeued message: it is discarded when the cluster is offline, and lost when
  the forwarder is gone.\<close>

definition deliver :: "bytes \<Rightarrow> cluster \<Rightarrow> cluster" where
  "deliver data c =
     (case cl_connection c of
        None \<Rightarrow> c
      | Some ch \<Rightarrow> c\<lparr>cl_connection := Some (snd (channel_send (WsBinary data) ch))\<rparr>)"

text \<open>\<open>wait_for_queue_drain\<close>: what it sees are the counter values at the wake-ups and, when it
  has not returned before, the value at the deadline.\<close>

fun drain_loop :: "u64 \<Rightarrow> u64 list \<Rightarrow> u64 \<Rightarrow> bool" where
  "drain_loop target [] at_deadline = (at_deadline \<le> target)"
| "drain_loop target (sz # sizes) at_deadline =
     (if sz \<le> target then True else drain_loop target sizes at_deadline)"

definition wait_for_queue_drain ::
    "u64 \<Rightarrow> u64 \<Rightarrow> bool \<Rightarrow> u64 \<Rightarrow> u64 list \<Rightarrow> u64 \<Rightarrow> bool" where
  "wait_for_queue_drain min_buffer max_buffer wait_for_empty current sizes at_deadline =
     (let drain_target = (if wait_for_empty then 0 else min_buffer);
          early_return_threshold = (if wait_for_empty then 0 else max_buffer)
      in if current \<le> early_return_threshold then True
         else drain_loop drain_target sizes at_deadline)"

section \<open>Connection\<close>

definition set_connection :: "ws_channel option \<Rightarrow> cluster \<Rightarrow> cluster" where
  "set_connection conn c = c\<lparr>cl_connection := conn\<rparr>"

definition send_ping :: "cluster \<Rightarrow> cluster" where
  "send_ping c =
     (case cl_connection c of
        None \<Rightarrow> c
      | Some ch \<Rightarrow> c\<lparr>cl_connection := Some (snd (channel_send WsPing ch))\<rparr>)"

text \<open>\<open>close\<close> hands the Close frame to the forwarder before it drops the sender.  The channel
  it was handed to is returned, as the forwarder still reads from it.\<close>

definition close :: "cluster \<Rightarrow> cluster \<times> ws_channel option" where
  "close c =
     (c\<lparr>cl_connection := None\<rparr>, map_option (\<lambda>ch. snd (channel_send WsClose ch)) (cl_connection c))"

text \<open>A configured cluster, for examples.\<close>

definition demo_config :: cluster_config where
  "demo_config =
     \<lparr>cc_name = ''ozstar'', cc_host = ''h'', cc_username = ''u'', cc_path = ''/p'', cc_key = '''',
      cc_connection_type = ''ssh'', cc_keytab = '''', cc_kerberos_principal = '''', cc_ltk = None\<rparr>"

definition demo_cluster :: cluster where
  "demo_cluster = cluster_new_with_role demo_config Master ''master ozstar'' None None None True"

section \<open>The queue contract\<close>

text \<open>
  What the scheduler and the senders rely on.  \<open>view q p s\<close> is the sequence of messages
  waiting at priority \<open>p\<close> for source \<open>s\<close>.
\<close>

datatype queue_op = QPush priority string bytes | QPop priority string | QPrune

fun queue_step ::
    "(priority \<Rightarrow> string \<Rightarrow> bytes \<Rightarrow> 'q \<Rightarrow> 'q) \<Rightarrow> (priority \<Rightarrow> string \<Rightarrow> 'q \<Rightarrow> (bytes \<times> 'q) option) \<Rightarrow>
     ('q \<Rightarrow> 'q) \<Rightarrow> queue_op \<Rightarrow> 'q \<Rightarrow> 'q" where
  "queue_step push pop prune (QPush p s d) q = push p s d q"
| "queue_step push pop prune (QPop p s) q = (case pop p s q of None \<Rightarrow> q | Some (_, q') \<Rightarrow> q')"
| "queue_step push pop prune QPrune q = prune q"

fun pushed :: "priority \<Rightarrow> string \<Rightarrow> queue_op \<Rightarrow> bytes list" where
  "pushed p s (QPush p' s' d) = (if p' = p \<and> s' = s then [d] else [])"
| "pushed p s _ = []"

fun popped :: "(priority \<Rightarrow> string \<Rightarrow> 'q \<Rightarrow> (bytes \<times> 'q) option) \<Rightarrow> priority \<Rightarrow> string \<Rightarrow> queue_op \<Rightarrow>
    'q \<Rightarrow> bytes list" where
  "popped pop p s (QPop p' s') q =
     (if p' = p \<and> s' = s then (case pop p s q of None \<Rightarrow> [] | Some (d, _) \<Rightarrow> [d]) else [])"
| "popped pop p s _ q = []"

fun queue_run ::
    "(priority \<Rightarrow> string \<Rightarrow> bytes \<Rightarrow> 'q \<Rightarrow> 'q) \<Rightarrow> (priority \<Rightarrow> string \<Rightarrow> 'q \<Rightarrow> (bytes \<times> 'q) option) \<Rightarrow>
     ('q \<Rightarrow> 'q) \<Rightarrow> queue_op list \<Rightarrow> 'q \<Rightarrow> 'q" where
  "queue_run push pop prune [] q = q"
| "queue_run push pop prune (x # xs) q =
     queue_run push pop prune xs (queue_step push pop prune x q)"

fun popped_all ::
    "(priority \<Rightarrow> string \<Rightarrow> bytes \<Rightarrow> 'q \<Rightarrow> 'q) \<Rightarrow> (priority \<Rightarrow> string \<Rightarrow> 'q \<Rightarrow> (bytes \<times> 'q) option) \<Rightarrow>
     ('q \<Rightarrow> 'q) \<Rightarrow> priority \<Rightarrow> string \<Rightarrow> queue_op list \<Rightarrow> 'q \<Rightarrow> bytes list" where
  "popped_all push pop prune p s [] q = []"
| "popped_all push pop prune p s (x # xs) q =
     popped pop p s x q @ popped_all push pop prune p s xs (queue_step push pop prune x q)"

locale source_queue =
  fixes push :: "priority \<Rightarrow> string \<Rightarrow> bytes \<Rightarrow> 'q \<Rightarrow> 'q"
    and pop :: "priority \<Rightarrow> string \<Rightarrow> 'q \<Rightarrow> (bytes \<times> 'q) option"
    and prune :: "'q \<Rightarrow> 'q"
    and view :: "'q \<Rightarrow> priority \<Rightarrow> string \<Rightarrow> bytes list"
    and invar :: "'q \<Rightarrow> bool"
  assumes view_push: "invar q \<Longrightarrow>
      view (push p s d q) p' s' = (if p' = p \<and> s' = s then view q p s @ [d] else view q p' s')"
    and pop_None: "invar q \<Longrightarrow> pop p s q = None \<longleftrightarrow> view q p s = []"
    and pop_Some: "invar q \<Longrightarrow> pop p s q = Some (d, q') \<Longrightarrow>
      view q p' s' = (if p' = p \<and> s' = s then d # view q' p s else view q' p' s')"
    and view_prune: "invar q \<Longrightarrow> view (prune q) = view q"
    and invar_push: "invar q \<Longrightarrow> invar (push p s d q)"
    and invar_pop: "invar q \<Longrightarrow> pop p s q = Some (d, q') \<Longrightarrow> invar q'"
    and invar_prune: "invar q \<Longrightarrow> invar (prune q)"
begin

lemma invar_step: "invar q \<Longrightarrow> invar (queue_step push pop prune x q)"
  by (cases x) (auto simp: invar_push invar_prune split: option.split intro: invar_pop)

lemma step_fifo:
  "invar q \<Longrightarrow> view q p s @ pushed p s x =
     popped pop p s x q @ view (queue_step push pop prune x q) p s"
proof (cases x)
  case (QPop p' s')
  assume inv: "invar q"
  show ?thesis
  proof (cases "pop p' s' q")
    case None
    with QPop inv show ?thesis by (auto simp: split: option.split)
  next
    case (Some dq)
    obtain d q' where dq: "dq = (d, q')" by (cases dq)
    with Some QPop show ?thesis
      using pop_Some [OF inv Some [unfolded dq], of p s] by auto
  qed
qed (simp_all add: view_push view_prune)

lemma run_fifo:
  "invar q \<Longrightarrow> view q p s @ concat (map (pushed p s) xs) =
     popped_all push pop prune p s xs q @ view (queue_run push pop prune xs q) p s"
proof (induction xs arbitrary: q)
  case Nil
  then show ?case by simp
next
  case (Cons x xs)
  let ?q = "queue_step push pop prune x q"
  have "view q p s @ concat (map (pushed p s) (x # xs)) =
      (view q p s @ pushed p s x) @ concat (map (pushed p s) xs)" by simp
  also have "\<dots> = popped pop p s x q @ (view ?q p s @ concat (map (pushed p s) xs))"
    using step_fifo [OF Cons.prems] by simp
  also have "\<dots> = popped pop p s x q @ popped_all push pop prune p s xs ?q @
      view (queue_run push pop prune xs ?q) p s"
    using Cons.IH [OF invar_step [OF Cons.prems]] by simp
  finally show ?case by simp
qed

lemma run_invar: "invar q \<Longrightarrow> invar (queue_run push pop prune xs q)"
  by (induction xs arbitrary: q) (simp_all add: invar_step)

end

section \<open>The cluster's queues meet the contract\<close>

definition queue_view :: "cluster \<Rightarrow> priority \<Rightarrow> string \<Rightarrow> bytes list" where
  "queue_view c p s =
     (case map_of (cl_queue c) (priority_as_u8 p) of
        None \<Rightarrow> []
      | Some m \<Rightarrow> (case map_of m s of None \<Rightarrow> [] | Some q \<Rightarrow> q))"

definition source_bytes :: "source_queues \<Rightarrow> nat" where
  "source_bytes m = sum_list (map (\<lambda>(_, q). sum_list (map length q)) m)"

definition queued_bytes :: "priority_queue \<Rightarrow> nat" where
  "queued_bytes qs = sum_list (map (\<lambda>(_, m). source_bytes m) qs)"

definition priorities_wf :: "priority_queue \<Rightarrow> bool" where
  "priorities_wf qs \<longleftrightarrow>
     map fst qs = map priority_as_u8 [Highest, Medium, Lowest] \<and>
     (\<forall>(_, m) \<in> set qs. distinct (map fst m))"

text \<open>The counter always is the number of queued bytes, modulo the width of the word.\<close>

definition cluster_wf :: "cluster \<Rightarrow> bool" where
  "cluster_wf c \<longleftrightarrow>
     priorities_wf (cl_queue c) \<and> cl_queued_size c = word_of_nat (queued_bytes (cl_queue c))"

lemma priorities_wf_obtain:
  assumes "priorities_wf qs"
  obtains h m l where "qs = [(0, h), (10, m), (19, l)]"
    "distinct (map fst h)" "distinct (map fst m)" "distinct (map fst l)"
proof -
  from assms have "map fst qs = [0, 10, 19]" by (simp add: priorities_wf_def)
  then obtain h m l where "qs = [(0, h), (10, m), (19, l)]"
    by (auto simp: map_eq_Cons_conv)
  with assms that show ?thesis by (simp add: priorities_wf_def)
qed

lemma queue_of_priority:
  assumes "priorities_wf qs"
  obtains m where "map_of qs (priority_as_u8 p) = Some m" "distinct (map fst m)"
  using assms by (cases p) (auto elim!: priorities_wf_obtain)

lemma source_bytes_simps [simp]:
  "source_bytes [] = 0" "source_bytes ((s, q) # m) = sum_list (map length q) + source_bytes m"
  by (simp_all add: source_bytes_def)

lemma source_bytes_update:
  assumes "distinct (map fst m)"
  shows "source_bytes (AList.update s q m) + (case map_of m s of None \<Rightarrow> 0 | Some q' \<Rightarrow> sum_list (map length q')) =
    source_bytes m + sum_list (map length q)"
  using assms
proof (induction m)
  case Nil
  then show ?case by simp
next
  case (Cons kv m)
  obtain k v where kv: "kv = (k, v)" by (cases kv)
  show ?case
  proof (cases "k = s")
    case True
    with kv Cons.prems show ?thesis by simp
  next
    case False
    with kv Cons show ?thesis by simp
  qed
qed

lemma priorities_wf_update:
  assumes "priorities_wf qs" "distinct (map fst m)"
  shows "priorities_wf (AList.update (priority_as_u8 p) m qs)"
  using assms(1)
  by (rule priorities_wf_obtain) (use assms(2) in \<open>cases p; simp add: priorities_wf_def\<close>)

lemma queued_bytes_update:
  assumes "priorities_wf qs" "map_of qs (priority_as_u8 p) = Some m0"
  shows "queued_bytes (AList.update (priority_as_u8 p) m qs) + source_bytes m0 =
    queued_bytes qs + source_bytes m"
  using assms(1) by (rule priorities_wf_obtain)
    (use assms(2) in \<open>cases p; simp add: queued_bytes_def\<close>)

lemma map_of_update_priority:
  "map_of (AList.update (priority_as_u8 p) m qs) (priority_as_u8 p') =
     (if p' = p then Some m else map_of qs (priority_as_u8 p'))"
  by (simp add: update_conv')

lemma cluster_frame:
  assumes "cl_queue c' = cl_queue c" "cl_queued_size c' = cl_queued_size c"
  shows "cluster_wf c' \<longleftrightarrow> cluster_wf c" "queue_view c' = queue_view c"
  using assms by (simp_all add: cluster_wf_def queue_view_def fun_eq_iff)

lemma set_connection_wf [simp]:
  "cluster_wf (set_connection conn c) \<longleftrightarrow> cluster_wf c"
  "queue_view (set_connection conn c) = queue_view c"
  "cl_data_permit (set_connection conn c) = cl_data_permit c"
  using cluster_frame [of "set_connection conn c" c] by (simp_all add: set_connection_def)

lemma queue_message_wf:
  assumes wf: "cluster_wf c"
  shows "cluster_wf (queue_message s d p c)"
    and "queue_view (queue_message s d p c) p' s' =
      (if p' = p \<and> s' = s then queue_view c p s @ [d] else queue_view c p' s')"
    and "cl_data_permit (queue_message s d p c)"
proof -
  from wf have pw: "priorities_wf (cl_queue c)" by (simp add: cluster_wf_def)
  obtain m where m: "map_of (cl_queue c) (priority_as_u8 p) = Some m" "distinct (map fst m)"
    using queue_of_priority [OF pw] .
  let ?q = "case map_of m s of None \<Rightarrow> [] | Some q \<Rightarrow> q"
  have push: "push_source s d m = AList.update s (?q @ [d]) m"
    by (simp add: push_source_def alist_adjust_def)
  have qm: "queue_message s d p c =
      c\<lparr>cl_queue := AList.update (priority_as_u8 p) (push_source s d m) (cl_queue c),
        cl_queued_size := cl_queued_size c + word_of_nat (length d), cl_data_permit := True\<rparr>"
    using m by (simp add: queue_message_def Let_def)
  have dm: "distinct (map fst (push_source s d m))"
    using m(2) by (simp add: push distinct_update)
  have "source_bytes (push_source s d m) = source_bytes m + length d"
    using source_bytes_update [OF m(2), of s "?q @ [d]"] by (simp add: push split: option.splits)
  then have "queued_bytes (AList.update (priority_as_u8 p) (push_source s d m) (cl_queue c)) =
      queued_bytes (cl_queue c) + length d"
    using queued_bytes_update [OF pw m(1), of "push_source s d m"] by simp
  with wf show "cluster_wf (queue_message s d p c)"
    by (simp add: qm cluster_wf_def priorities_wf_update [OF pw dm])
  show "queue_view (queue_message s d p c) p' s' =
      (if p' = p \<and> s' = s then queue_view c p s @ [d] else queue_view c p' s')"
    using m by (simp add: qm queue_view_def map_of_update_priority push update_conv')
  show "cl_data_permit (queue_message s d p c)" by (simp add: qm)
qed

lemma pop_source_None_iff:
  "cluster_wf c \<Longrightarrow> pop_source (priority_as_u8 p) s c = None \<longleftrightarrow> queue_view c p s = []"
  by (auto simp: pop_source_def queue_view_def split: option.splits list.splits)

lemma pop_source_wf:
  assumes wf: "cluster_wf c" and pop: "pop_source (priority_as_u8 p) s c = Some (d, c')"
  shows "cluster_wf c'"
    and "queue_view c p' s' = (if p' = p \<and> s' = s then d # queue_view c' p s else queue_view c' p' s')"
proof -
  from wf have pw: "priorities_wf (cl_queue c)" by (simp add: cluster_wf_def)
  from pop obtain m rest where m: "map_of (cl_queue c) (priority_as_u8 p) = Some m"
      "map_of m s = Some (d # rest)"
    and c': "c' = c\<lparr>cl_queue := AList.update (priority_as_u8 p) (AList.update s rest m) (cl_queue c),
        cl_queued_size := cl_queued_size c - word_of_nat (length d), cl_size_permit := True\<rparr>"
    by (auto simp: pop_source_def split: option.splits list.splits)
  have dm: "distinct (map fst m)" using queue_of_priority [OF pw, of p] m(1) by force
  have "source_bytes (AList.update s rest m) + length d = source_bytes m"
    using source_bytes_update [OF dm, of s rest] m(2) by simp
  then have "queued_bytes (AList.update (priority_as_u8 p) (AList.update s rest m) (cl_queue c)) +
      length d = queued_bytes (cl_queue c)"
    using queued_bytes_update [OF pw m(1), of "AList.update s rest m"] by simp
  then have "word_of_nat (queued_bytes (cl_queue c)) - word_of_nat (length d) =
      (word_of_nat (queued_bytes (AList.update (priority_as_u8 p) (AList.update s rest m) (cl_queue c))) :: u64)"
    by (metis add_diff_cancel_right' of_nat_add)
  with wf show "cluster_wf c'"
    by (simp add: c' cluster_wf_def priorities_wf_update [OF pw] distinct_update dm)
  show "queue_view c p' s' = (if p' = p \<and> s' = s then d # queue_view c' p s else queue_view c' p' s')"
    using m by (simp add: c' queue_view_def map_of_update_priority update_conv')
qed

lemma source_bytes_prune: "source_bytes (filter (\<lambda>(_, q). q \<noteq> []) m) = source_bytes m"
  by (induction m) auto

lemma prune_once_wf:
  assumes "cluster_wf c"
  shows "cluster_wf (prune_once c)" and "queue_view (prune_once c) = queue_view c"
proof -
  from assms have pw: "priorities_wf (cl_queue c)" by (simp add: cluster_wf_def)
  from pw show "cluster_wf (prune_once c)"
    by (rule priorities_wf_obtain)
      (use assms in \<open>simp add: cluster_wf_def prune_once_def queued_bytes_def source_bytes_prune
        priorities_wf_def distinct_map_filter\<close>)
  from pw show "queue_view (prune_once c) = queue_view c"
  proof (rule priorities_wf_obtain)
    fix h m l assume q: "cl_queue c = [(0, h), (10, m), (19, l)]"
      and d: "distinct (map fst h)" "distinct (map fst m)" "distinct (map fst l)"
    have "queue_view (prune_once c) p s = queue_view c p s" for p s
      by (cases p) (simp_all add: queue_view_def prune_once_def q map_of_filter_snd d split: option.split)
    then show ?thesis by (intro ext)
  qed
qed

interpretation cq: source_queue "\<lambda>p s d. queue_message s d p" "\<lambda>p. pop_source (priority_as_u8 p)"
    prune_once queue_view cluster_wf
  by unfold_locales
    (simp_all add: queue_message_wf pop_source_None_iff pop_source_wf prune_once_wf)

lemma cluster_new_with_role_wf [simp]: "cluster_wf (cluster_new_with_role d r rs dl ul u ctx)"
  by (simp add: cluster_wf_def cluster_new_with_role_def empty_priority_queues_def priorities_wf_def
      queued_bytes_def)

lemma cluster_new_with_role_view [simp]:
  "queue_view (cluster_new_with_role d r rs dl ul u ctx) = (\<lambda>_ _. [])"
proof (intro ext)
  fix p s
  show "queue_view (cluster_new_with_role d r rs dl ul u ctx) p s = []"
    by (cases p) (simp_all add: queue_view_def cluster_new_with_role_def empty_priority_queues_def)
qed

text \<open>C5: over any sequence of enqueue, dequeue and prune operations on a new cluster, the messages
  taken out for a priority and source, followed by those still queued, are exactly the messages
  put in for them, in order: none lost, duplicated or reordered.\<close>

theorem cluster_queue_fifo:
  "concat (map (pushed p s) ops) =
     popped_all (\<lambda>p s d. queue_message s d p) (\<lambda>p. pop_source (priority_as_u8 p)) prune_once p s ops
       (cluster_new details ctx) @
     queue_view (queue_run (\<lambda>p s d. queue_message s d p) (\<lambda>p. pop_source (priority_as_u8 p)) prune_once
       ops (cluster_new details ctx)) p s"
  using cq.run_fifo [of "cluster_new details ctx" p s ops] by (simp add: cluster_new_def)

text \<open>C6: after any such sequence the byte counter that drives upload backpressure equals the
  number of bytes queued, and the queue has exactly the three priority levels.\<close>

theorem cluster_queue_counter:
  "cluster_wf (queue_run (\<lambda>p s d. queue_message s d p) (\<lambda>p. pop_source (priority_as_u8 p)) prune_once
     ops (cluster_new details ctx))"
  by (rule cq.run_invar) (simp add: cluster_new_def)

lemma drain_loop_sound:
  "drain_loop target sizes at_deadline \<longleftrightarrow> (\<exists>sz \<in> set (sizes @ [at_deadline]). sz \<le> target)"
  by (induction sizes) auto

text \<open>\<open>wait_for_queue_drain\<close> reports success only if the last counter value it saw was at or
  below its target, or, for the early return, not above the threshold.\<close>

theorem wait_for_queue_drain_iff:
  "wait_for_queue_drain min_buffer max_buffer wait_for_empty current sizes at_deadline \<longleftrightarrow>
     current \<le> (if wait_for_empty then 0 else max_buffer) \<or>
     (\<exists>sz \<in> set (sizes @ [at_deadline]). sz \<le> (if wait_for_empty then 0 else min_buffer))"
  by (simp add: wait_for_queue_drain_def Let_def drain_loop_sound)

end
