(* ===== verification/Scheduler.thy ===== *)
theory Scheduler
  imports Cluster_State
begin

text \<open>
  The scheduler task of a cluster (\<open>run_scheduler\<close> in \<open>src/cluster/cluster.rs\<close>) interleaved with
  the tasks that share its queues: senders, the prune task, and the code that sets, clears and
  stops the connection.  The program counter names the points between which other tasks can
  run: the lock of a priority's map is held while its sources are scanned and released from the
  moment a message is taken out until the scan resumes.  The order in which a round visits the
  sources is any order of the map's keys.

  The lemmas establish the invariant behind two facts: a sleeping scheduler without a stored
  permit has nothing queued, and a round of a priority runs only when all higher priorities
  were found empty or a new message has arrived since.
\<close>

section \<open>States and steps\<close>

text \<open>The priorities that remain to be processed, and what the task is doing.\<close>

datatype sched_pc =
    LoopHead
  | Arming
  | Waiting
  | Woken
  | AtPriority "priority list"
  | Scanning "priority list" "string list" bool
  | Taken "priority list" "string list" bytes
  | Checking "priority list" "string list" "priority list"
  | Exited

record sched =
  sc_cluster :: cluster
  sc_pc :: sched_pc

definition all_priorities :: "priority list" where
  "all_priorities = [Highest, Medium, Lowest]"

definition source_keys :: "cluster \<Rightarrow> priority \<Rightarrow> string list" where
  "source_keys c p =
     (case map_of (cl_queue c) (priority_as_u8 p) of None \<Rightarrow> [] | Some m \<Rightarrow> map fst m)"

definition level_has_data :: "cluster \<Rightarrow> priority \<Rightarrow> bool" where
  "level_has_data c p \<longleftrightarrow>
     (case map_of (cl_queue c) (priority_as_u8 p) of
        None \<Rightarrow> False | Some m \<Rightarrow> list_ex (\<lambda>(_, q). q \<noteq> []) m)"

fun lock_held :: "sched_pc \<Rightarrow> priority \<Rightarrow> bool" where
  "lock_held (Scanning (p # _) _ _) p' \<longleftrightarrow> p' = p"
| "lock_held _ p' \<longleftrightarrow> False"

definition prune_level :: "priority \<Rightarrow> cluster \<Rightarrow> cluster" where
  "prune_level p c =
     (case map_of (cl_queue c) (priority_as_u8 p) of
        None \<Rightarrow> c
      | Some m \<Rightarrow>
          c\<lparr>cl_queue := AList.update (priority_as_u8 p) (filter (\<lambda>(_, q). q \<noteq> []) m) (cl_queue c)\<rparr>)"

inductive sched_step :: "sched \<Rightarrow> sched \<Rightarrow> bool" where
  head_run: "sc_pc s = LoopHead \<Longrightarrow> cl_running (sc_cluster s) \<Longrightarrow>
    sched_step s (s\<lparr>sc_pc := Arming\<rparr>)"
| head_exit: "sc_pc s = LoopHead \<Longrightarrow> \<not> cl_running (sc_cluster s) \<Longrightarrow>
    sched_step s (s\<lparr>sc_pc := Exited\<rparr>)"
| arm: "sc_pc s = Arming \<Longrightarrow> sched_step s (s\<lparr>sc_pc := Waiting\<rparr>)"
| wake: "sc_pc s = Waiting \<Longrightarrow> cl_data_permit (sc_cluster s) \<Longrightarrow>
    sched_step s (s\<lparr>sc_cluster := (sc_cluster s)\<lparr>cl_data_permit := False\<rparr>, sc_pc := Woken\<rparr>)"
| woken_run: "sc_pc s = Woken \<Longrightarrow> cl_running (sc_cluster s) \<Longrightarrow>
    sched_step s (s\<lparr>sc_pc := AtPriority all_priorities\<rparr>)"
| woken_exit: "sc_pc s = Woken \<Longrightarrow> \<not> cl_running (sc_cluster s) \<Longrightarrow>
    sched_step s (s\<lparr>sc_pc := Exited\<rparr>)"
| pass_done: "sc_pc s = AtPriority [] \<Longrightarrow> sched_step s (s\<lparr>sc_pc := LoopHead\<rparr>)"
| round_start: "sc_pc s = AtPriority (p # ps) \<Longrightarrow> distinct srcs \<Longrightarrow>
    set srcs = set (source_keys (sc_cluster s) p) \<Longrightarrow>
    sched_step s (s\<lparr>sc_pc := Scanning (p # ps) srcs False\<rparr>)"
| scan_empty: "sc_pc s = Scanning (p # ps) (src # srcs) had \<Longrightarrow>
    pop_source (priority_as_u8 p) src (sc_cluster s) = None \<Longrightarrow>
    sched_step s (s\<lparr>sc_pc := Scanning (p # ps) srcs had\<rparr>)"
| scan_take: "sc_pc s = Scanning (p # ps) (src # srcs) had \<Longrightarrow>
    pop_source (priority_as_u8 p) src (sc_cluster s) = Some (d, c') \<Longrightarrow>
    sched_step s (s\<lparr>sc_cluster := c', sc_pc := Taken (p # ps) srcs d\<rparr>)"
| send: "sc_pc s = Taken (p # ps) srcs d \<Longrightarrow>
    sched_step s (s\<lparr>sc_cluster := deliver d (sc_cluster s),
      sc_pc := Checking (p # ps) srcs (filter (\<lambda>q. q < p) all_priorities)\<rparr>)"
| check_preempt: "sc_pc s = Checking (p # ps) srcs (q # qs) \<Longrightarrow>
    level_has_data (sc_cluster s) q \<Longrightarrow>
    sched_step s (s\<lparr>sc_pc := AtPriority all_priorities\<rparr>)"
| check_next: "sc_pc s = Checking (p # ps) srcs (q # qs) \<Longrightarrow>
    \<not> level_has_data (sc_cluster s) q \<Longrightarrow>
    sched_step s (s\<lparr>sc_pc := Checking (p # ps) srcs qs\<rparr>)"
| check_done: "sc_pc s = Checking (p # ps) srcs [] \<Longrightarrow>
    sched_step s (s\<lparr>sc_pc := Scanning (p # ps) srcs True\<rparr>)"
| round_again: "sc_pc s = Scanning (p # ps) [] True \<Longrightarrow>
    sched_step s (s\<lparr>sc_pc := AtPriority (p # ps)\<rparr>)"
| round_done: "sc_pc s = Scanning (p # ps) [] False \<Longrightarrow>
    sched_step s (s\<lparr>sc_pc := AtPriority ps\<rparr>)"

text \<open>The other tasks.  \<open>stop\<close> wakes the scheduler only if it is waiting at that moment.\<close>

inductive env_step :: "sched \<Rightarrow> sched \<Rightarrow> bool" where
  enqueue: "\<not> lock_held (sc_pc s) p \<Longrightarrow>
    env_step s (s\<lparr>sc_cluster := queue_message src d p (sc_cluster s)\<rparr>)"
| prune: "\<not> lock_held (sc_pc s) p \<Longrightarrow>
    env_step s (s\<lparr>sc_cluster := prune_level p (sc_cluster s)\<rparr>)"
| connect: "env_step s (s\<lparr>sc_cluster := set_connection conn (sc_cluster s)\<rparr>)"
| stop_waiting: "sc_pc s = Waiting \<Longrightarrow>
    env_step s (s\<lparr>sc_cluster := stop (sc_cluster s), sc_pc := Woken\<rparr>)"
| stop_busy: "sc_pc s \<noteq> Waiting \<Longrightarrow> env_step s (s\<lparr>sc_cluster := stop (sc_cluster s)\<rparr>)"

inductive sched_reachable :: "sched \<Rightarrow> bool" where
  start: "sched_reachable \<lparr>sc_cluster = cluster_new_with_role d r rs dl ul u ctx, sc_pc = LoopHead\<rparr>"
| internal: "sched_reachable s \<Longrightarrow> sched_step s t \<Longrightarrow> sched_reachable t"
| external: "sched_reachable s \<Longrightarrow> env_step s t \<Longrightarrow> sched_reachable t"

text \<open>A run of the scheduler among the other tasks, with the priorities of the messages it took out, in order.\<close>

definition taken_level :: "sched \<Rightarrow> sched \<Rightarrow> priority list" where
  "taken_level s t =
     (case (sc_pc s, sc_pc t) of
        (Scanning (p # _) _ _, Taken _ _ _) \<Rightarrow> [p]
      | _ \<Rightarrow> [])"

inductive sched_trace :: "sched \<Rightarrow> priority list \<Rightarrow> sched \<Rightarrow> bool" where
  trace_end: "sched_trace s [] s"
| trace_own: "sched_step s t \<Longrightarrow> sched_trace t taken u \<Longrightarrow> sched_trace s (taken_level s t @ taken) u"
| trace_env: "env_step s t \<Longrightarrow> sched_trace t taken u \<Longrightarrow> sched_trace s taken u"

text \<open>The pass has yet to look at the source \<open>src\<close> of the priority \<open>q\<close>, or will check it before it takes
  another message.\<close>

fun ahead :: "sched_pc \<Rightarrow> priority \<Rightarrow> string \<Rightarrow> bool" where
  "ahead (AtPriority ps) q src \<longleftrightarrow> q \<in> set ps"
| "ahead (Scanning (p # ps) srcs had) q src \<longleftrightarrow> q \<in> set ps \<or> q = p \<and> (had \<or> src \<in> set srcs)"
| "ahead (Scanning [] srcs had) q src \<longleftrightarrow> False"
| "ahead (Checking ps srcs qs) q src \<longleftrightarrow> q \<in> set ps \<or> q \<in> set qs"
| "ahead _ q src \<longleftrightarrow> True"

inductive_cases sched_stepE: "sched_step s t"
inductive_cases env_stepE: "env_step s t"
inductive_simps sched_step_waiting: "sched_step \<lparr>sc_cluster = c, sc_pc = Waiting\<rparr> t"

section \<open>Queue facts the steps use\<close>

lemma prune_level_wf:
  assumes wf: "cluster_wf c"
  shows "cluster_wf (prune_level p c)" "queue_view (prune_level p c) = queue_view c"
    "cl_data_permit (prune_level p c) = cl_data_permit c"
proof -
  from wf have pw: "priorities_wf (cl_queue c)" by (simp add: cluster_wf_def)
  obtain m where m: "map_of (cl_queue c) (priority_as_u8 p) = Some m" "distinct (map fst m)"
    using queue_of_priority [OF pw] .
  let ?f = "filter (\<lambda>(_, q). q \<noteq> []) m"
  have pl: "prune_level p c = c\<lparr>cl_queue := AList.update (priority_as_u8 p) ?f (cl_queue c)\<rparr>"
    using m by (simp add: prune_level_def)
  have d: "distinct (map fst ?f)" using m(2) by (rule distinct_map_filter)
  have "queued_bytes (AList.update (priority_as_u8 p) ?f (cl_queue c)) = queued_bytes (cl_queue c)"
    using queued_bytes_update [OF pw m(1), of ?f] by (simp add: source_bytes_prune)
  with wf show "cluster_wf (prune_level p c)"
    by (simp add: pl cluster_wf_def priorities_wf_update [OF pw d])
  have "queue_view (prune_level p c) p' s = queue_view c p' s" for p' s
  proof (cases "p' = p")
    case True
    show ?thesis
      unfolding pl queue_view_def True
      using m(1) map_of_filter_snd [OF m(2), of "\<lambda>q. q \<noteq> []" s]
      by (simp add: map_of_update_priority split: option.split)
  next
    case False
    then show ?thesis by (simp add: pl queue_view_def map_of_update_priority)
  qed
  then show "queue_view (prune_level p c) = queue_view c" by (intro ext)
  show "cl_data_permit (prune_level p c) = cl_data_permit c" by (simp add: pl)
qed

lemma level_has_data_iff:
  assumes "cluster_wf c"
  shows "level_has_data c p \<longleftrightarrow> (\<exists>s. queue_view c p s \<noteq> [])"
proof -
  from assms have pw: "priorities_wf (cl_queue c)" by (simp add: cluster_wf_def)
  obtain m where m: "map_of (cl_queue c) (priority_as_u8 p) = Some m" "distinct (map fst m)"
    using queue_of_priority [OF pw] .
  have "(\<exists>x \<in> set m. snd x \<noteq> []) \<longleftrightarrow> (\<exists>s q. map_of m s = Some q \<and> q \<noteq> [])"
  proof
    assume "\<exists>x \<in> set m. snd x \<noteq> []"
    then obtain x where x: "x \<in> set m" "snd x \<noteq> []" ..
    then have "map_of m (fst x) = Some (snd x)" using m(2) by simp
    with x show "\<exists>s q. map_of m s = Some q \<and> q \<noteq> []" by blast
  next
    assume "\<exists>s q. map_of m s = Some q \<and> q \<noteq> []"
    then show "\<exists>x \<in> set m. snd x \<noteq> []" by (force dest: map_of_SomeD)
  qed
  also have "\<dots> \<longleftrightarrow> (\<exists>s. (case map_of m s of None \<Rightarrow> [] | Some q \<Rightarrow> q) \<noteq> [])"
    by (intro ex_cong1) (simp split: option.split)
  finally show ?thesis
    using m(1) by (simp add: level_has_data_def queue_view_def list_ex_iff case_prod_beta)
qed

lemma source_keys_view: "queue_view c p s \<noteq> [] \<Longrightarrow> s \<in> set (source_keys c p)"
  by (cases "map_of (cl_queue c) (priority_as_u8 p)")
    (auto simp: queue_view_def source_keys_def dom_map_of_conv_image_fst [symmetric] split: option.splits)

text \<open>The \<open>has_higher_priority_data\<close> of the code looks at the levels below the given value in
  turn; the steps \<open>check_preempt\<close> and \<open>check_next\<close> are its iterations.\<close>

lemma has_higher_priority_data_iff:
  assumes "cluster_wf c"
  shows "has_higher_priority_data (cl_queue c) (priority_as_u8 p) \<longleftrightarrow>
    (\<exists>q s. q < p \<and> queue_view c q s \<noteq> [])"
proof -
  from assms have "priorities_wf (cl_queue c)" by (simp add: cluster_wf_def)
  then obtain h m l where q: "cl_queue c = [(0, h), (10, m), (19, l)]" by (rule priorities_wf_obtain)
  have lv: "list_ex (\<lambda>(_, q). q \<noteq> []) h = level_has_data c Highest"
    "list_ex (\<lambda>(_, q). q \<noteq> []) m = level_has_data c Medium"
    by (simp_all add: level_has_data_def q)
  have "(\<exists>q s. q < p \<and> queue_view c q s \<noteq> []) \<longleftrightarrow> (\<exists>q. q < p \<and> level_has_data c q)"
    using level_has_data_iff [OF assms] by blast
  moreover have "(\<exists>q. q < p \<and> level_has_data c q) \<longleftrightarrow>
      Highest < p \<and> level_has_data c Highest \<or> Medium < p \<and> level_has_data c Medium \<or>
      Lowest < p \<and> level_has_data c Lowest"
    by (simp only: ex_priority)
  ultimately show ?thesis
    using lv by (cases p) (simp_all add: q less_priority_def)
qed

section \<open>The invariant\<close>

fun pending_levels :: "sched_pc \<Rightarrow> priority list" where
  "pending_levels (AtPriority ps) = ps"
| "pending_levels (Scanning ps _ _) = ps"
| "pending_levels (Taken ps _ _) = ps"
| "pending_levels (Checking ps _ _) = ps"
| "pending_levels Woken = all_priorities"
| "pending_levels Exited = all_priorities"
| "pending_levels _ = []"

text \<open>The sources of the level in process that a round has not found empty.\<close>

fun open_sources :: "sched_pc \<Rightarrow> priority \<Rightarrow> string \<Rightarrow> bool" where
  "open_sources (Scanning (p # ps) srcs False) p' s \<longleftrightarrow> p' \<in> set ps \<or> p' = p \<and> s \<in> set srcs"
| "open_sources pc p' s \<longleftrightarrow> p' \<in> set (pending_levels pc)"

definition levels_wf :: "priority list \<Rightarrow> bool" where
  "levels_wf ps \<longleftrightarrow> ps \<in> {[], [Lowest], [Medium, Lowest], [Highest, Medium, Lowest]}"

definition sched_inv :: "sched \<Rightarrow> bool" where
  "sched_inv s \<longleftrightarrow>
     cluster_wf (sc_cluster s) \<and> levels_wf (pending_levels (sc_pc s)) \<and>
     (\<not> cl_data_permit (sc_cluster s) \<longrightarrow>
        (\<forall>p src. queue_view (sc_cluster s) p src \<noteq> [] \<longrightarrow> open_sources (sc_pc s) p src))"

lemma in_all_priorities [simp]: "p \<in> set all_priorities"
  by (cases p) (simp_all add: all_priorities_def)

lemma levels_wf_all [simp]: "levels_wf all_priorities" "levels_wf []"
  by (simp_all add: levels_wf_def all_priorities_def)

lemma levels_wf_tl: "levels_wf (p # ps) \<Longrightarrow> levels_wf ps"
  by (auto simp: levels_wf_def)

lemma levels_wf_less: "levels_wf (p # ps) \<Longrightarrow> q < p \<Longrightarrow> q \<notin> set (p # ps)"
  by (auto simp: levels_wf_def)

lemma deliver_frame [simp]:
  "cl_queue (deliver d c) = cl_queue c" "cl_queued_size (deliver d c) = cl_queued_size c"
  "cl_data_permit (deliver d c) = cl_data_permit c" "cl_running (deliver d c) = cl_running c"
  by (simp_all add: deliver_def split: option.split)

lemma deliver_wf [simp]:
  "cluster_wf (deliver d c) \<longleftrightarrow> cluster_wf c" "queue_view (deliver d c) = queue_view c"
  using cluster_frame [of "deliver d c" c] by simp_all

lemma permit_wf [simp]:
  "cluster_wf (c\<lparr>cl_data_permit := b\<rparr>) \<longleftrightarrow> cluster_wf c"
  "queue_view (c\<lparr>cl_data_permit := b\<rparr>) = queue_view c"
  using cluster_frame [of "c\<lparr>cl_data_permit := b\<rparr>" c] by simp_all

lemma stop_wf [simp]:
  "cluster_wf (stop c) \<longleftrightarrow> cluster_wf c" "queue_view (stop c) = queue_view c"
  "cl_data_permit (stop c) = cl_data_permit c"
  using cluster_frame [of "stop c" c] by (simp_all add: stop_def)

lemma pop_source_permit: "pop_source p s c = Some (d, c') \<Longrightarrow> cl_data_permit c' = cl_data_permit c"
  by (auto simp: pop_source_def split: option.splits list.splits)

lemma scan_open: "open_sources (Scanning (p # ps) srcs had) p' s \<longleftrightarrow>
    p' \<in> set ps \<or> p' = p \<and> (had \<or> s \<in> set srcs)"
  by (cases had) auto

lemma sched_inv_scan_take:
  assumes inv: "sched_inv s" and pc: "sc_pc s = Scanning (p # ps) (src # srcs) had"
    and pop: "pop_source (priority_as_u8 p) src (sc_cluster s) = Some (d, c')"
  shows "sched_inv (s\<lparr>sc_cluster := c', sc_pc := Taken (p # ps) srcs d\<rparr>)"
proof -
  have wf: "cluster_wf (sc_cluster s)" using inv by (simp add: sched_inv_def)
  have "queue_view c' p' s' \<noteq> [] \<Longrightarrow> queue_view (sc_cluster s) p' s' \<noteq> []" for p' s'
    using pop_source_wf(2) [OF wf pop, of p' s'] by (auto split: if_splits)
  with inv pc pop_source_permit [OF pop] pop_source_wf(1) [OF wf pop] show ?thesis
    by (fastforce simp: sched_inv_def scan_open)
qed

lemma sched_inv_scan_empty:
  assumes inv: "sched_inv s" and pc: "sc_pc s = Scanning (p # ps) (src # srcs) had"
    and pop: "pop_source (priority_as_u8 p) src (sc_cluster s) = None"
  shows "sched_inv (s\<lparr>sc_pc := Scanning (p # ps) srcs had\<rparr>)"
proof -
  have "queue_view (sc_cluster s) p src = []"
    using inv pop by (simp add: sched_inv_def pop_source_None_iff)
  with inv pc show ?thesis by (auto simp: sched_inv_def scan_open)
qed

lemma sched_inv_step: "sched_step s t \<Longrightarrow> sched_inv s \<Longrightarrow> sched_inv t"
proof (induction rule: sched_step.induct)
  case (scan_empty s p ps src srcs had)
  then show ?case by (intro sched_inv_scan_empty)
next
  case (scan_take s p ps src srcs had d c')
  then show ?case by (intro sched_inv_scan_take)
next
  case (round_start s p ps srcs)
  then show ?case
    using source_keys_view by (auto simp: sched_inv_def)
next
  case (round_done s p ps)
  then show ?case by (auto simp: sched_inv_def dest: levels_wf_tl)
next
  case (check_preempt s p ps srcs q qs)
  then show ?case by (simp add: sched_inv_def)
qed (auto simp: sched_inv_def scan_open)

lemma sched_inv_env: "env_step s t \<Longrightarrow> sched_inv s \<Longrightarrow> sched_inv t"
proof (induction rule: env_step.induct)
  case (enqueue s p src d)
  then show ?case by (simp add: sched_inv_def queue_message_wf)
next
  case (prune s p)
  then show ?case by (simp add: sched_inv_def prune_level_wf)
qed (simp_all add: sched_inv_def)

lemma sched_reachable_inv: "sched_reachable s \<Longrightarrow> sched_inv s"
proof (induction rule: sched_reachable.induct)
  case (start d r rs dl ul u ctx)
  then show ?case by (simp add: sched_inv_def)
qed (blast intro: sched_inv_step sched_inv_env)+

section \<open>Properties of the scheduler\<close>

text \<open>C2: no lost wake-up.  Whatever the interleaving of senders, pruning, reconnections and the
  scheduler itself, a scheduler that sleeps (or is about to) with no stored notification has
  nothing queued at any priority for any source; so every queued message will be processed.\<close>

theorem scheduler_no_lost_wakeup:
  assumes "sched_reachable s" "sc_pc s \<in> {LoopHead, Arming, Waiting}"
    "\<not> cl_data_permit (sc_cluster s)"
  shows "queue_view (sc_cluster s) p src = []"
  using sched_reachable_inv [OF assms(1)] assms(2,3) by (force simp: sched_inv_def)

text \<open>A concrete run: a message is queued for a running cluster, and the scheduler sends it and
  goes back to sleep.\<close>

lemma demo_waiting: "sched_reachable \<lparr>sc_cluster = demo_cluster, sc_pc = Waiting\<rparr>"
proof -
  have r0: "sched_reachable \<lparr>sc_cluster = demo_cluster, sc_pc = LoopHead\<rparr>"
    unfolding demo_cluster_def by (rule sched_reachable.start)
  have "cl_running demo_cluster" by (simp add: demo_cluster_def cluster_new_with_role_def)
  then have "sched_reachable \<lparr>sc_cluster = demo_cluster, sc_pc = Arming\<rparr>"
    using sched_reachable.internal [OF r0 sched_step.head_run] by simp
  from sched_reachable.internal [OF this sched_step.arm] show ?thesis by simp
qed

theorem scheduler_no_lost_wakeup_witness:
  "queue_view (sc_cluster \<lparr>sc_cluster = demo_cluster, sc_pc = Waiting\<rparr>) Medium ''x'' = []"
  by (rule scheduler_no_lost_wakeup [OF demo_waiting])
    (simp_all add: demo_cluster_def cluster_new_with_role_def)

text \<open>While the scheduler works on a priority and no message has been queued since it last woke up, every
  higher priority is empty.\<close>

theorem higher_priorities_empty:
  assumes "sched_reachable s" "sc_pc s = Scanning (p # ps) srcs had"
    "\<not> cl_data_permit (sc_cluster s)" "q < p"
  shows "queue_view (sc_cluster s) q src = []"
proof -
  have inv: "sched_inv s" using assms(1) by (rule sched_reachable_inv)
  then have "q \<notin> set (p # ps)"
    using assms(2,4) levels_wf_less [of p ps q] by (simp add: sched_inv_def)
  with inv assms(2,3) show ?thesis by (force simp: sched_inv_def scan_open)
qed

text \<open>What a step of the scheduler does to a message that waits at \<open>q\<close>: a step that takes nothing leaves it
  waiting, and the pass does not go past it; a step that takes a message of another priority leaves it
  waiting and is followed by a check, and it takes a lower priority only if the pass had gone past \<open>q\<close>.\<close>

definition waiting_kept :: "priority \<Rightarrow> string \<Rightarrow> sched \<Rightarrow> sched \<Rightarrow> bool" where
  "waiting_kept q src s t \<longleftrightarrow>
     (case taken_level s t of
        [] \<Rightarrow> queue_view (sc_cluster t) q src \<noteq> [] \<and> (ahead (sc_pc s) q src \<longrightarrow> ahead (sc_pc t) q src)
      | p # _ \<Rightarrow> taken_level s t = [p] \<and> ahead (sc_pc t) q src \<and>
          (p \<noteq> q \<longrightarrow> queue_view (sc_cluster t) q src \<noteq> []) \<and> (q < p \<longrightarrow> \<not> ahead (sc_pc s) q src))"

lemma level_in_pass: "levels_wf (p # ps) \<Longrightarrow> q \<in> set (p # ps) \<or> q < p"
  by (cases q; cases p) (auto simp: levels_wf_def less_priority_def)

lemma waiting_step:
  assumes "sched_step s t" "sched_inv s" "queue_view (sc_cluster s) q src \<noteq> []"
  shows "waiting_kept q src s t"
  using assms
proof (induction rule: sched_step.induct)
  case (round_start s p ps srcs)
  then show ?case using source_keys_view by (auto simp: waiting_kept_def taken_level_def)
next
  case (scan_empty s p ps src' srcs had)
  then have "queue_view (sc_cluster s) p src' = []" by (simp add: sched_inv_def pop_source_None_iff)
  then show ?case using scan_empty by (auto simp: waiting_kept_def taken_level_def)
next
  case (scan_take s p ps src' srcs had d c')
  then have wf: "cluster_wf (sc_cluster s)" and levels: "levels_wf (p # ps)" by (simp_all add: sched_inv_def)
  then show ?case
    using scan_take levels_wf_less [OF levels] pop_source_wf(2) [OF wf scan_take(2), of q src]
    by (auto simp: waiting_kept_def taken_level_def split: if_splits)
next
  case (send s p ps srcs d)
  then have "q \<in> set (p # ps) \<or> q < p" by (intro level_in_pass) (simp add: sched_inv_def)
  then show ?case using send by (auto simp: waiting_kept_def taken_level_def)
next
  case (check_next s p ps srcs q' qs)
  then have "q \<noteq> q'" using level_has_data_iff [of "sc_cluster s" q'] by (auto simp: sched_inv_def)
  then show ?case using check_next by (auto simp: waiting_kept_def taken_level_def)
qed (auto simp: waiting_kept_def taken_level_def)

lemma waiting_env:
  assumes "env_step s t" "sched_inv s" "queue_view (sc_cluster s) q src \<noteq> []"
  shows "queue_view (sc_cluster t) q src \<noteq> [] \<and> (ahead (sc_pc s) q src \<longrightarrow> ahead (sc_pc t) q src)"
  using assms
proof (induction rule: env_step.induct)
  case (enqueue s p src' d)
  then show ?case by (simp add: sched_inv_def queue_message_wf)
next
  case (prune s p)
  then show ?case by (simp add: sched_inv_def prune_level_wf)
qed simp_all

definition overtaken :: "priority \<Rightarrow> priority list \<Rightarrow> nat" where
  "overtaken q taken = length (filter ((<) q) (takeWhile ((\<noteq>) q) taken))"

lemma overtaken_simps [simp]:
  "overtaken q [] = 0"
  "overtaken q (p # taken) = (if p = q then 0 else (if q < p then 1 else 0) + overtaken q taken)"
  by (simp_all add: overtaken_def)

lemma trace_overtakes:
  assumes "sched_trace s taken t" "sched_inv s" "queue_view (sc_cluster s) q src \<noteq> []"
  shows "overtaken q taken \<le> (if ahead (sc_pc s) q src then 0 else 1)"
  using assms
proof (induction rule: sched_trace.induct)
  case (trace_own s t taken u)
  have inv: "sched_inv t" using trace_own.hyps(1) trace_own.prems(1) by (rule sched_inv_step)
  have kept: "waiting_kept q src s t" using trace_own.hyps(1) trace_own.prems by (rule waiting_step)
  show ?case
  proof (cases "taken_level s t")
    case Nil
    then show ?thesis
      using kept trace_own.IH [OF inv] by (auto simp: waiting_kept_def split: if_splits)
  next
    case (Cons p ps)
    then have "ps = []" "ahead (sc_pc t) q src" "p \<noteq> q \<Longrightarrow> queue_view (sc_cluster t) q src \<noteq> []"
        "q < p \<Longrightarrow> \<not> ahead (sc_pc s) q src"
      using kept by (simp_all add: waiting_kept_def)
    then show ?thesis using Cons trace_own.IH [OF inv] by (cases "p = q") auto
  qed
next
  case (trace_env s t taken u)
  then show ?case using sched_inv_env [of s t] waiting_env [of s t q src] by (auto split: if_splits)
qed simp

text \<open>C3: priority order, with at most one message overtaken.  Let a message of priority \<open>q\<close> wait, in any state
  the scheduler can reach among senders, pruning, reconnections and stops, and let it run on among them:
  before it takes the next message of that priority, it takes out at most one message of a lower
  priority, which it had begun to look for before the message came; and none if the pass under way has
  not gone past it, in particular if the scheduler sleeps, begins a pass, or is sending a message.\<close>

theorem scheduler_priority_order:
  assumes "sched_reachable s" "queue_view (sc_cluster s) q src \<noteq> []" "sched_trace s taken t"
  shows "length (filter (\<lambda>p. q < p) (takeWhile (\<lambda>p. p \<noteq> q) taken)) \<le> (if ahead (sc_pc s) q src then 0 else 1)"
  using trace_overtakes [OF assms(3) sched_reachable_inv [OF assms(1)] assms(2)]
  by (simp add: overtaken_def neq_commute)

lemma demo_enqueued:
  "sched_reachable \<lparr>sc_cluster = queue_message ''a'' [7] Medium demo_cluster, sc_pc = Waiting\<rparr>"
  using sched_reachable.external [OF demo_waiting env_step.enqueue [of _ Medium "''a''" "[7]"]] by simp

definition demo_awake :: cluster where
  "demo_awake = (queue_message ''a'' [7] Medium demo_cluster)\<lparr>cl_data_permit := False\<rparr>"

lemma demo_at_highest: "sched_reachable \<lparr>sc_cluster = demo_awake, sc_pc = AtPriority all_priorities\<rparr>"
proof -
  have run: "cl_running demo_awake" "cl_data_permit (queue_message ''a'' [7] Medium demo_cluster)"
    by (simp_all add: demo_awake_def demo_cluster_def cluster_new_with_role_def queue_message_def
        empty_priority_queues_def Let_def)
  have "sched_reachable \<lparr>sc_cluster = demo_awake, sc_pc = Woken\<rparr>"
    using sched_reachable.internal [OF demo_enqueued sched_step.wake] run(2)
    by (simp add: demo_awake_def)
  from sched_reachable.internal [OF this sched_step.woken_run] run(1) show ?thesis by simp
qed

lemma demo_scanning_medium:
  "sched_reachable \<lparr>sc_cluster = demo_awake, sc_pc = Scanning [Medium, Lowest] [''a''] False\<rparr>"
proof -
  have k: "source_keys demo_awake Highest = []" "source_keys demo_awake Medium = [''a'']"
    by (simp_all add: source_keys_def demo_awake_def demo_cluster_def cluster_new_with_role_def
        queue_message_def empty_priority_queues_def Let_def push_source_def alist_adjust_def)
  have a: "sched_reachable \<lparr>sc_cluster = demo_awake, sc_pc = AtPriority [Highest, Medium, Lowest]\<rparr>"
    using demo_at_highest by (simp add: all_priorities_def)
  have "sched_reachable \<lparr>sc_cluster = demo_awake, sc_pc = Scanning [Highest, Medium, Lowest] [] False\<rparr>"
    using sched_reachable.internal [OF a sched_step.round_start [of _ Highest "[Medium, Lowest]" "[]"]] k
    by simp
  from sched_reachable.internal [OF this sched_step.round_done]
  have b: "sched_reachable \<lparr>sc_cluster = demo_awake, sc_pc = AtPriority [Medium, Lowest]\<rparr>" by simp
  show ?thesis
    using sched_reachable.internal [OF b sched_step.round_start [of _ Medium "[Lowest]" "[''a'']"]] k
    by simp
qed

text \<open>A message of the highest priority comes while the scheduler scans the middle one: the message it was
  about to take goes first, and no other.\<close>

theorem scheduler_priority_order_witness:
  "\<exists>s t. sched_reachable s \<and> sched_trace s [Medium] t \<and>
     length (filter (\<lambda>p. Highest < p) (takeWhile (\<lambda>p. p \<noteq> Highest) [Medium])) \<le> (1 :: nat)"
proof -
  let ?c = "queue_message ''z'' [9] Highest demo_awake"
  let ?s = "\<lparr>sc_cluster = ?c, sc_pc = Scanning [Medium, Lowest] [''a''] False\<rparr>"
  have reach: "sched_reachable ?s"
    using sched_reachable.external [OF demo_scanning_medium env_step.enqueue [of _ Highest "''z''" "[9]"]] by simp
  have wf: "cluster_wf demo_awake"
    using sched_reachable_inv [OF demo_scanning_medium] by (simp add: sched_inv_def)
  have waits: "queue_view (sc_cluster ?s) Highest ''z'' \<noteq> []"
    by (simp add: queue_message_wf [OF wf])
  have "cluster_wf demo_cluster"
    using sched_reachable_inv [OF demo_waiting] by (simp add: sched_inv_def)
  then have "queue_view ?c Medium ''a'' \<noteq> []"
    by (simp add: queue_message_wf [OF wf]) (simp add: demo_awake_def queue_message_wf)
  then obtain d c' where "pop_source (priority_as_u8 Medium) ''a'' (sc_cluster ?s) = Some (d, c')"
    using pop_source_None_iff [of ?c Medium "''a''"] queue_message_wf [OF wf]
    by (cases "pop_source (priority_as_u8 Medium) ''a'' ?c") auto
  from sched_step.scan_take [of ?s Medium "[Lowest]" "''a''" "[]" False, OF _ this]
  have step: "sched_step ?s (?s\<lparr>sc_cluster := c', sc_pc := Taken [Medium, Lowest] [] d\<rparr>)" by simp
  from trace_own [OF step trace_end] obtain t where trace: "sched_trace ?s [Medium] t" by (force simp: taken_level_def)
  from scheduler_priority_order [OF reach waits trace] reach trace show ?thesis by auto
qed

text \<open>The check that follows every message sent restarts the pass at the highest priority
  exactly when some higher priority has a message for some source.\<close>

theorem preemption_check_exact:
  assumes "sched_reachable s"
  shows "has_higher_priority_data (cl_queue (sc_cluster s)) (priority_as_u8 p) \<longleftrightarrow>
    (\<exists>q src. q < p \<and> queue_view (sc_cluster s) q src \<noteq> [])"
  using sched_reachable_inv [OF assms] by (intro has_higher_priority_data_iff) (simp add: sched_inv_def)

theorem preemption_check_exact_witness:
  "has_higher_priority_data (cl_queue (sc_cluster
     \<lparr>sc_cluster = queue_message ''a'' [7] Medium demo_cluster, sc_pc = Waiting\<rparr>)) (priority_as_u8 Lowest) \<longleftrightarrow>
   (\<exists>q src. q < Lowest \<and> queue_view (sc_cluster
     \<lparr>sc_cluster = queue_message ''a'' [7] Medium demo_cluster, sc_pc = Waiting\<rparr>) q src \<noteq> [])"
  by (rule preemption_check_exact [OF demo_enqueued])

text \<open>A stop that arrives between the scheduler's test of the running flag and its wait is
  missed: the scheduler can then sleep, stopped and without a stored notification, with no step
  of its own left.\<close>

theorem stop_can_be_missed:
  "\<exists>s. sched_reachable s \<and> sc_pc s = Waiting \<and> \<not> cl_running (sc_cluster s) \<and>
     (\<forall>t. \<not> sched_step s t)"
proof -
  have r0: "sched_reachable \<lparr>sc_cluster = demo_cluster, sc_pc = LoopHead\<rparr>"
    unfolding demo_cluster_def by (rule sched_reachable.start)
  have run: "cl_running demo_cluster" "\<not> cl_data_permit demo_cluster"
    by (simp_all add: demo_cluster_def cluster_new_with_role_def)
  have r1: "sched_reachable \<lparr>sc_cluster = demo_cluster, sc_pc = Arming\<rparr>"
    using sched_reachable.internal [OF r0 sched_step.head_run] run by simp
  have r2: "sched_reachable \<lparr>sc_cluster = stop demo_cluster, sc_pc = Arming\<rparr>"
    using sched_reachable.external [OF r1 env_step.stop_busy] by simp
  have r3: "sched_reachable \<lparr>sc_cluster = stop demo_cluster, sc_pc = Waiting\<rparr>"
    using sched_reachable.internal [OF r2 sched_step.arm] by simp
  moreover have "\<not> cl_running (stop demo_cluster)" by (simp add: stop_def)
  moreover have "\<not> sched_step \<lparr>sc_cluster = stop demo_cluster, sc_pc = Waiting\<rparr> t" for t
    using run by (simp add: sched_step_waiting)
  ultimately show ?thesis
    by (intro exI [of _ "\<lparr>sc_cluster = stop demo_cluster, sc_pc = Waiting\<rparr>"]) simp
qed

end
