(* ===== verification/Download_Session.thy ===== *)
theory Download_Session
  imports Cluster_State
begin

text \<open>
  The lifecycle of a dedicated download session (\<open>DownloadSession\<close> in
  \<open>src/cluster/file_download.rs\<close>): pending, bound to one connection, closing with the reason of
  the first shutdown request, closed.  A session carries the key of its own allocation (the
  code's \<open>Weak\<close> self reference), which the clean-up request repeats.  The lemmas characterise
  the state and the requests after any sequence of operations.
\<close>

section \<open>Sessions and their operations\<close>

type_synonym connection_id = u64

datatype shutdown_reason =
    Complete | ChunkTimeout | FileError | ClusterOffline | WebSocketClosed | WebSocketError
  | ResponseError | ApplicationShutdown

datatype session_state =
    SessionPending
  | Connected connection_id
  | Closing "connection_id option" shutdown_reason
  | Closed "connection_id option" shutdown_reason

record cleanup_request =
  cr_download_id :: string
  cr_connection_id :: "connection_id option"
  cr_reason :: shutdown_reason
  cr_session :: nat

record session =
  ds_download_id :: string
  ds_state :: session_state
  ds_self :: nat

definition session_new :: "string \<Rightarrow> nat \<Rightarrow> session" where
  "session_new uid self = \<lparr>ds_download_id = uid, ds_state = SessionPending, ds_self = self\<rparr>"

definition bind_connection :: "connection_id \<Rightarrow> session \<Rightarrow> (session_state + unit) \<times> session" where
  "bind_connection cid s =
     (case ds_state s of
        SessionPending \<Rightarrow> (Inr (), s\<lparr>ds_state := Connected cid\<rparr>)
      | state \<Rightarrow> (Inl state, s))"

definition session_complete :: "connection_id option \<Rightarrow> session \<Rightarrow> bool \<times> session" where
  "session_complete cid s =
     (case ds_state s of
        Closing expected reason \<Rightarrow>
          if expected = cid then (True, s\<lparr>ds_state := Closed expected reason\<rparr>) else (False, s)
      | _ \<Rightarrow> (False, s))"

definition enter_closing ::
    "connection_id option \<Rightarrow> shutdown_reason \<Rightarrow> session \<Rightarrow> session \<times> cleanup_request" where
  "enter_closing cid reason s =
     (s\<lparr>ds_state := Closing cid reason\<rparr>,
      \<lparr>cr_download_id = ds_download_id s, cr_connection_id = cid, cr_reason = reason,
       cr_session = ds_self s\<rparr>)"

text \<open>The result says whether this call won; a request is emitted exactly then.\<close>

definition session_trigger ::
    "shutdown_reason \<Rightarrow> session \<Rightarrow> bool \<times> session \<times> cleanup_request list" where
  "session_trigger reason s =
     (case ds_state s of
        SessionPending \<Rightarrow> (let (s', r) = enter_closing None reason s in (True, s', [r]))
      | Connected cid \<Rightarrow> (let (s', r) = enter_closing (Some cid) reason s in (True, s', [r]))
      | Closing _ _ \<Rightarrow> (False, s, [])
      | Closed _ _ \<Rightarrow> (False, s, []))"

datatype session_op =
  BindOp connection_id | TriggerOp shutdown_reason | CompleteOp "connection_id option"

fun session_step :: "session_op \<Rightarrow> session \<Rightarrow> session \<times> cleanup_request list" where
  "session_step (BindOp cid) s = (snd (bind_connection cid s), [])"
| "session_step (TriggerOp r) s = (let (_, s', rs) = session_trigger r s in (s', rs))"
| "session_step (CompleteOp cid) s = (snd (session_complete cid s), [])"

fun session_run :: "session_op list \<Rightarrow> session \<Rightarrow> session \<times> cleanup_request list" where
  "session_run [] s = (s, [])"
| "session_run (x # xs) s =
     (let (s', rs) = session_step x s; (s'', rs') = session_run xs s' in (s'', rs @ rs'))"

definition session_open :: "session \<Rightarrow> bool" where
  "session_open s \<longleftrightarrow> (case ds_state s of SessionPending \<Rightarrow> True | Connected _ \<Rightarrow> True | _ \<Rightarrow> False)"

section \<open>Every run in closed form\<close>

fun is_trigger :: "session_op \<Rightarrow> bool" where
  "is_trigger (TriggerOp _) \<longleftrightarrow> True"
| "is_trigger _ \<longleftrightarrow> False"

fun first_bind :: "session_op list \<Rightarrow> connection_id option" where
  "first_bind [] = None"
| "first_bind (BindOp cid # xs) = Some cid"
| "first_bind (_ # xs) = first_bind xs"

fun session_spec :: "connection_id option \<Rightarrow> session_op list \<Rightarrow> session_state" where
  "session_spec bound [] = (case bound of None \<Rightarrow> SessionPending | Some cid \<Rightarrow> Connected cid)"
| "session_spec bound (BindOp cid # xs) =
     session_spec (case bound of None \<Rightarrow> Some cid | Some c \<Rightarrow> Some c) xs"
| "session_spec bound (CompleteOp _ # xs) = session_spec bound xs"
| "session_spec bound (TriggerOp r # xs) =
     (if CompleteOp bound \<in> set xs then Closed bound r else Closing bound r)"

fun first_trigger :: "session_op list \<Rightarrow> (session_op list \<times> shutdown_reason) option" where
  "first_trigger [] = None"
| "first_trigger (TriggerOp r # xs) = Some ([], r)"
| "first_trigger (x # xs) = map_option (\<lambda>(ys, r). (x # ys, r)) (first_trigger xs)"

lemmas session_defs =
  bind_connection_def session_complete_def session_trigger_def enter_closing_def

lemma closed_run:
  "ds_state s = Closed c r \<Longrightarrow> session_run xs s = (s, [])"
proof (induction xs)
  case (Cons x xs)
  then show ?case by (cases x) (simp_all add: session_defs)
qed simp

lemma closing_run:
  "ds_state s = Closing c r \<Longrightarrow>
     session_run xs s =
       (s\<lparr>ds_state := (if CompleteOp c \<in> set xs then Closed c r else Closing c r)\<rparr>, [])"
proof (induction xs)
  case (Cons x xs)
  then show ?case
    by (cases x) (auto simp: session_defs closed_run)
qed simp

definition open_state :: "connection_id option \<Rightarrow> session_state" where
  "open_state bound = (case bound of None \<Rightarrow> SessionPending | Some cid \<Rightarrow> Connected cid)"

definition extend_bound :: "connection_id option \<Rightarrow> connection_id option \<Rightarrow> connection_id option" where
  "extend_bound bound b = (case bound of None \<Rightarrow> b | Some c \<Rightarrow> Some c)"

lemma extend_bound_simps [simp]: "extend_bound None b = b" "extend_bound (Some c) b = Some c"
  by (simp_all add: extend_bound_def)

definition session_requests ::
    "session \<Rightarrow> connection_id option \<Rightarrow> session_op list \<Rightarrow> cleanup_request list" where
  "session_requests s bound xs =
     (case first_trigger xs of
        None \<Rightarrow> []
      | Some (ys, r) \<Rightarrow>
          [\<lparr>cr_download_id = ds_download_id s, cr_connection_id = extend_bound bound (first_bind ys),
            cr_reason = r, cr_session = ds_self s\<rparr>])"

lemma open_run:
  assumes "ds_state s = open_state bound"
  shows "session_run xs s = (s\<lparr>ds_state := session_spec bound xs\<rparr>, session_requests s bound xs)"
  using assms
proof (induction xs arbitrary: s bound)
  case Nil
  then show ?case by (simp add: session_requests_def open_state_def)
next
  case (Cons x xs)
  show ?case
  proof (cases x)
    case (TriggerOp r)
    let ?s = "s\<lparr>ds_state := Closing bound r\<rparr>"
    have "session_trigger r s = (True, ?s,
        [\<lparr>cr_download_id = ds_download_id s, cr_connection_id = bound, cr_reason = r,
          cr_session = ds_self s\<rparr>])"
      using Cons.prems by (cases bound) (simp_all add: session_defs open_state_def)
    then show ?thesis
      using closing_run [of ?s bound r xs] TriggerOp
      by (cases bound) (simp_all add: session_requests_def)
  next
    case (CompleteOp cid)
    have "session_complete cid s = (False, s)"
      using Cons.prems by (cases bound) (simp_all add: session_defs open_state_def)
    then show ?thesis
      using Cons CompleteOp
      by (simp add: session_requests_def split: option.split)
  next
    case (BindOp cid)
    show ?thesis
    proof (cases bound)
      case None
      let ?s = "s\<lparr>ds_state := Connected cid\<rparr>"
      have "bind_connection cid s = (Inr (), ?s)"
        using Cons.prems None by (simp add: session_defs open_state_def)
      moreover have "session_run xs ?s =
          (?s\<lparr>ds_state := session_spec (Some cid) xs\<rparr>, session_requests ?s (Some cid) xs)"
        by (rule Cons.IH) (simp add: open_state_def)
      ultimately show ?thesis
        using BindOp None by (simp add: session_requests_def split: option.split)
    next
      case (Some c)
      have "snd (bind_connection cid s) = s"
        using Cons.prems Some by (simp add: session_defs open_state_def)
      then show ?thesis
        using Cons BindOp Some by (simp add: session_requests_def split: option.split)
    qed
  qed
qed

section \<open>Properties of the lifecycle\<close>

text \<open>C7: after any sequence of bind, trigger and complete calls on a new session, in whatever
  order the HTTP handler, the WebSocket handler and the manager made them, the state is the one
  given in closed form: the first bind before any trigger fixes the connection, the first
  trigger fixes the reason, and the session is closed exactly if, after that trigger, completion
  was reported for that same connection.\<close>

theorem session_lifecycle:
  "ds_state (fst (session_run ops (session_new uid self))) = session_spec None ops"
  using open_run [of "session_new uid self" None ops] by (simp add: session_new_def open_state_def)

text \<open>C8: one-shot clean-up.  Over any sequence of calls a session emits at most one clean-up
  request; it emits one exactly if some trigger occurred, and the request carries the session's
  own id, the connection bound before the first trigger, and the first trigger's reason.\<close>

theorem session_cleanup_once:
  "snd (session_run ops (session_new uid self)) =
     (case first_trigger ops of
        None \<Rightarrow> []
      | Some (before, r) \<Rightarrow>
          [\<lparr>cr_download_id = uid, cr_connection_id = first_bind before, cr_reason = r,
            cr_session = self\<rparr>])"
  using open_run [of "session_new uid self" None ops]
  by (simp add: session_new_def open_state_def session_requests_def split: option.split)

text \<open>A session that has begun to shut down admits no connection any more, and a connection
  bound once is never replaced: after a successful bind every later bind fails.\<close>

theorem session_bind_once:
  assumes "BindOp c \<in> set ops \<or> (\<exists>r. TriggerOp r \<in> set ops)"
  shows "fst (bind_connection cid (fst (session_run ops (session_new uid self)))) =
      Inl (session_spec None ops) \<and> session_spec None ops \<noteq> SessionPending"
proof -
  have "session_spec b ops \<noteq> SessionPending"
    if "b \<noteq> None \<or> BindOp c \<in> set ops \<or> (\<exists>r. TriggerOp r \<in> set ops)" for b
    using that
  proof (induction ops arbitrary: b)
    case (Cons x xs)
    then show ?case by (cases x) (auto split: option.split)
  qed auto
  then have "session_spec None ops \<noteq> SessionPending" using assms by blast
  then show ?thesis
    using session_lifecycle [of ops uid self] by (simp add: bind_connection_def split: session_state.split)
qed

theorem session_bind_once_witness:
  "fst (bind_connection 9 (fst (session_run [BindOp 4, TriggerOp Complete] (session_new ''d'' 1)))) =
     Inl (session_spec None [BindOp 4, TriggerOp Complete]) \<and>
   session_spec None [BindOp 4, TriggerOp Complete] \<noteq> SessionPending"
  by (rule session_bind_once [where c = 4]) simp

end
