(* ===== verification/Cluster_DB.thy ===== *)
theory Cluster_DB
  imports Cluster_State
begin

text \<open>
  The message dispatcher of \<open>src/db/cluster_db.rs\<close>: the twelve database operations a remote
  cluster asks for, each reading its request from the message, working on the database and
  queueing a \<open>DB_RESPONSE\<close> on the cluster.  A handler takes the database operations \<open>D\<close>, the
  database, the message and the cluster, and returns the new database and cluster.
\<close>

section \<open>Responses\<close>

definition prepare_response :: "u32 \<Rightarrow> message" where
  "prepare_response db_request_id =
     push_uint db_request_id (message_new DB_RESPONSE Highest SYSTEM_SOURCE)"

definition wire_row_count :: "nat \<Rightarrow> u32" where
  "wire_row_count rows = (if rows < 2 ^ 32 then word_of_nat rows else - 1)"

definition send_rows_response ::
    "u32 \<Rightarrow> 'a list \<Rightarrow> ('a \<Rightarrow> message \<Rightarrow> message) \<Rightarrow> cluster \<Rightarrow> cluster" where
  "send_rows_response db_request_id rows to_message c =
     send_message
       (fold to_message rows (push_uint (wire_row_count (length rows)) (prepare_response db_request_id)))
       c"

definition send_single_row_response ::
    "u32 \<Rightarrow> 'a option \<Rightarrow> ('a \<Rightarrow> message \<Rightarrow> message) \<Rightarrow> cluster \<Rightarrow> cluster" where
  "send_single_row_response db_request_id row to_message c =
     (let response = prepare_response db_request_id in
      case row of
        Some r \<Rightarrow> send_message (to_message r (push_uint 1 response)) c
      | None \<Rightarrow> send_message (push_uint 0 response) c)"

definition send_save_response :: "u32 \<Rightarrow> u64 \<Rightarrow> cluster \<Rightarrow> cluster" where
  "send_save_response db_request_id saved_id c =
     send_message (push_ulong saved_id (prepare_response db_request_id)) c"

section \<open>Generic handlers\<close>

definition handle_get_by_id_impl ::
    "('db, 'r) table \<Rightarrow> ('r \<Rightarrow> i64) \<Rightarrow> ('r \<Rightarrow> 'a) \<Rightarrow> ('a \<Rightarrow> message \<Rightarrow> message) \<Rightarrow>
     'db \<Rightarrow> message \<Rightarrow> cluster \<Rightarrow> 'db \<times> cluster" where
  "handle_get_by_id_impl T rid convert to_message db m c =
     (if remaining m < 12 then (db, c)
      else
        (let (db_request_id, m) = pop_uint m;
             (i, m) = pop_ulong m;
             row = map_option convert (or_default None (tb_one T db (\<lambda>r. rid r = i)))
         in (db, send_single_row_response db_request_id row to_message c)))"

definition handle_delete_by_id ::
    "('db, 'r) table \<Rightarrow> ('r \<Rightarrow> i64) \<Rightarrow> 'db \<Rightarrow> message \<Rightarrow> cluster \<Rightarrow> 'db \<times> cluster" where
  "handle_delete_by_id T rid db m c =
     (if remaining m < 12 then (db, c)
      else
        (let (db_request_id, m) = pop_uint m;
             (i, m) = pop_ulong m;
             (_, db) = tb_delete T db (\<lambda>r. rid r = i)
         in (db, send_message (prepare_response db_request_id) c)))"

section \<open>Cluster jobs\<close>

definition handle_job_get_by_job_id ::
    "'db database \<Rightarrow> 'db \<Rightarrow> message \<Rightarrow> cluster \<Rightarrow> 'db \<times> cluster" where
  "handle_job_get_by_job_id D db m c =
     (if remaining m < 12 then (db, c)
      else
        (let (db_request_id, m) = pop_uint m;
             (jid, m) = pop_ulong m;
             rows = or_default []
               (tb_all (db_cluster_jobs D) db (\<lambda>r. cjr_job_id r = jid \<and> cjr_cluster r = cluster_name c))
         in (db, send_rows_response db_request_id (map cluster_job_of_row rows) cluster_job_to_message c)))"

definition handle_job_get_by_id ::
    "'db database \<Rightarrow> 'db \<Rightarrow> message \<Rightarrow> cluster \<Rightarrow> 'db \<times> cluster" where
  "handle_job_get_by_id D =
     handle_get_by_id_impl (db_cluster_jobs D) cjr_id cluster_job_of_row cluster_job_to_message"

definition handle_job_get_running_jobs ::
    "'db database \<Rightarrow> 'db \<Rightarrow> message \<Rightarrow> cluster \<Rightarrow> 'db \<times> cluster" where
  "handle_job_get_running_jobs D db m c =
     (if remaining m < 4 then (db, c)
      else
        (let (db_request_id, m) = pop_uint m;
             rows = or_default []
               (tb_all (db_cluster_jobs D) db (\<lambda>r. cjr_cluster r = cluster_name c \<and> cjr_running r))
         in (db, send_rows_response db_request_id (map cluster_job_of_row rows) cluster_job_to_message c)))"

text \<open>The row an insertion writes, and the columns an update sets (all but key and cluster).\<close>

definition cluster_job_new_row :: "cluster_job \<Rightarrow> string \<Rightarrow> cluster_job_row" where
  "cluster_job_new_row j name =
     \<lparr>cjr_id = 0, cjr_job_id = cj_job_id j, cjr_scheduler_id = cj_scheduler_id j,
      cjr_submitting = cj_submitting j, cjr_submitting_count = cj_submitting_count j,
      cjr_bundle_hash = cj_bundle_hash j, cjr_working_directory = cj_working_directory j,
      cjr_running = cj_running j, cjr_deleting = cj_deleting j, cjr_deleted = cj_deleted j,
      cjr_cluster = name\<rparr>"

definition cluster_job_set_columns :: "cluster_job \<Rightarrow> cluster_job_row \<Rightarrow> cluster_job_row" where
  "cluster_job_set_columns j r =
     r\<lparr>cjr_job_id := cj_job_id j, cjr_scheduler_id := cj_scheduler_id j,
       cjr_submitting := cj_submitting j, cjr_submitting_count := cj_submitting_count j,
       cjr_bundle_hash := cj_bundle_hash j, cjr_working_directory := cj_working_directory j,
       cjr_running := cj_running j, cjr_deleting := cj_deleting j, cjr_deleted := cj_deleted j\<rparr>"

definition handle_job_save ::
    "'db database \<Rightarrow> 'db \<Rightarrow> message \<Rightarrow> cluster \<Rightarrow> 'db \<times> cluster" where
  "handle_job_save D db m c =
     (let (db_request_id, m) = pop_uint m in
      if remaining m < 48 then (db, c)
      else
        (case cluster_job_from_message m of
           (None, _) \<Rightarrow> (db, c)
         | (Some job, _) \<Rightarrow>
             if cj_id job = 0 then
               (let (result, db) =
                      tb_insert (db_cluster_jobs D) db (cluster_job_new_row job (cluster_name c));
                    saved_id = (case result of Inr model \<Rightarrow> cjr_id model | Inl _ \<Rightarrow> 0)
                in (db, send_save_response db_request_id saved_id c))
             else
               (let (result, db) =
                      tb_update (db_cluster_jobs D) db (cj_id job) (cluster_job_set_columns job);
                    saved_id = (case result of Inr _ \<Rightarrow> cj_id job | Inl _ \<Rightarrow> 0)
                in (db, send_save_response db_request_id saved_id c))))"

section \<open>Cluster job statuses\<close>

definition handle_jobstatus_get_by_job_id_impl ::
    "'db database \<Rightarrow> bool \<Rightarrow> 'db \<Rightarrow> message \<Rightarrow> cluster \<Rightarrow> 'db \<times> cluster" where
  "handle_jobstatus_get_by_job_id_impl D has_what db m c =
     (if remaining m < 12 then (db, c)
      else
        (let (db_request_id, m) = pop_uint m;
             (jid, m) = pop_ulong m;
             reply = (\<lambda>P. (let rows = or_default [] (tb_all (db_job_statuses D) db P)
                in (db, send_rows_response db_request_id (map cluster_job_status_of_row rows)
                          cluster_job_status_to_message c)))
         in if has_what then
              (if remaining m < 8 then (db, c)
               else
                 (case try_pop_string m of
                    (None, _) \<Rightarrow> (db, c)
                  | (Some what, _) \<Rightarrow> reply (\<lambda>r. csr_job_id r = jid \<and> csr_what r = what)))
            else reply (\<lambda>r. csr_job_id r = jid)))"

definition handle_jobstatus_get_by_job_id_and_what ::
    "'db database \<Rightarrow> 'db \<Rightarrow> message \<Rightarrow> cluster \<Rightarrow> 'db \<times> cluster" where
  "handle_jobstatus_get_by_job_id_and_what D = handle_jobstatus_get_by_job_id_impl D True"

definition handle_jobstatus_get_by_job_id ::
    "'db database \<Rightarrow> 'db \<Rightarrow> message \<Rightarrow> cluster \<Rightarrow> 'db \<times> cluster" where
  "handle_jobstatus_get_by_job_id D = handle_jobstatus_get_by_job_id_impl D False"

fun delete_statuses ::
    "'db database \<Rightarrow> nat \<Rightarrow> 'db \<Rightarrow> message \<Rightarrow> 'db \<times> message" where
  "delete_statuses D 0 db m = (db, m)"
| "delete_statuses D (Suc n) db m =
     (let (i, m) = pop_ulong m;
          (_, db) = tb_delete (db_job_statuses D) db (\<lambda>r. csr_id r = i)
      in delete_statuses D n db m)"

definition handle_jobstatus_delete_by_id_list ::
    "'db database \<Rightarrow> 'db \<Rightarrow> message \<Rightarrow> cluster \<Rightarrow> 'db \<times> cluster" where
  "handle_jobstatus_delete_by_id_list D db m c =
     (if remaining m < 8 then (db, c)
      else
        (let (db_request_id, m) = pop_uint m;
             (count, m) = pop_uint m;
             ids_to_delete = min (unat count) (remaining m div 8);
             (db, m) = delete_statuses D ids_to_delete db m
         in (db, send_message (prepare_response db_request_id) c)))"

definition handle_jobstatus_save ::
    "'db database \<Rightarrow> 'db \<Rightarrow> message \<Rightarrow> cluster \<Rightarrow> 'db \<times> cluster" where
  "handle_jobstatus_save D db m c =
     (let (db_request_id, m) = pop_uint m in
      if remaining m < 28 then (db, c)
      else
        (case cluster_job_status_from_message m of
           (None, _) \<Rightarrow> (db, c)
         | (Some status, _) \<Rightarrow>
             if cs_id status = 0 then
               (let (result, db) =
                      tb_insert (db_job_statuses D) db
                        \<lparr>csr_id = 0, csr_job_id = cs_job_id status, csr_what = cs_what status,
                         csr_state = cs_state status\<rparr>;
                    saved_id = (case result of Inr model \<Rightarrow> csr_id model | Inl _ \<Rightarrow> 0)
                in (db, send_save_response db_request_id saved_id c))
             else
               (let (result, db) =
                      tb_update (db_job_statuses D) db (cs_id status)
                        (\<lambda>r. r\<lparr>csr_job_id := cs_job_id status, csr_what := cs_what status,
                               csr_state := cs_state status\<rparr>);
                    saved_id = (case result of Inr _ \<Rightarrow> cs_id status | Inl _ \<Rightarrow> 0)
                in (db, send_save_response db_request_id saved_id c))))"

section \<open>Bundle jobs\<close>

definition update_bundle_job ::
    "'db database \<Rightarrow> u32 \<Rightarrow> i64 \<Rightarrow> string \<Rightarrow> 'db \<Rightarrow> cluster \<Rightarrow> 'db \<times> cluster" where
  "update_bundle_job D db_request_id model_id content db c =
     (let (result, db) =
            tb_update (db_bundle_jobs D) db model_id (\<lambda>r. r\<lparr>bjr_content := content\<rparr>);
          saved_id = (case result of Inr _ \<Rightarrow> model_id | Inl _ \<Rightarrow> 0)
      in (db, send_message (push_ulong saved_id (prepare_response db_request_id)) c))"

definition insert_bundle_job ::
    "'db database \<Rightarrow> u32 \<Rightarrow> string \<Rightarrow> string \<Rightarrow> string \<Rightarrow> 'db \<Rightarrow> cluster \<Rightarrow> 'db \<times> cluster" where
  "insert_bundle_job D db_request_id content name hash db c =
     (let (result, db) =
            tb_insert (db_bundle_jobs D) db
              \<lparr>bjr_id = 0, bjr_content = content, bjr_cluster = name, bjr_bundle_hash = hash\<rparr>;
          response = prepare_response db_request_id;
          response = (case result of
              Inr model \<Rightarrow> push_ulong (bjr_id model) response
            | Inl _ \<Rightarrow> push_ulong 0 response)
      in (db, send_message response c))"

definition handle_bundle_create_or_update ::
    "'db database \<Rightarrow> 'db \<Rightarrow> message \<Rightarrow> cluster \<Rightarrow> 'db \<times> cluster" where
  "handle_bundle_create_or_update D db m c =
     (let (db_request_id, m) = pop_uint m in
      if remaining m < 24 then (db, c)
      else
        (case bundle_job_from_message m of
           (None, _) \<Rightarrow> (db, c)
         | (Some bundle, m) \<Rightarrow>
             (case try_pop_string m of
                (None, _) \<Rightarrow> (db, c)
              | (Some hash, m) \<Rightarrow>
                  if 0 < sint (bj_id bundle) then
                    (case or_default None
                            (tb_one (db_bundle_jobs D) db (\<lambda>r. bjr_id r = bj_id bundle)) of
                       Some model \<Rightarrow>
                         if bjr_bundle_hash model \<noteq> hash then
                           (db, send_message (push_ulong 0 (prepare_response db_request_id)) c)
                         else update_bundle_job D db_request_id (bjr_id model) (bj_content bundle) db c
                     | None \<Rightarrow>
                         insert_bundle_job D db_request_id (bj_content bundle) (cluster_name c) hash db c)
                  else
                    (case or_default None
                            (tb_one (db_bundle_jobs D) db
                              (\<lambda>r. bjr_bundle_hash r = hash \<and> bjr_cluster r = cluster_name c)) of
                       Some model \<Rightarrow>
                         update_bundle_job D db_request_id (bjr_id model) (bj_content bundle) db c
                     | None \<Rightarrow>
                         insert_bundle_job D db_request_id (bj_content bundle) (cluster_name c) hash db c))))"

definition handle_bundle_get_by_id ::
    "'db database \<Rightarrow> 'db \<Rightarrow> message \<Rightarrow> cluster \<Rightarrow> 'db \<times> cluster" where
  "handle_bundle_get_by_id D =
     handle_get_by_id_impl (db_bundle_jobs D) bjr_id bundle_job_of_row bundle_job_to_message"

section \<open>Dispatch\<close>

definition maybe_handle_cluster_db_message ::
    "'db database \<Rightarrow> 'db \<Rightarrow> message \<Rightarrow> cluster \<Rightarrow> bool \<times> 'db \<times> cluster" where
  "maybe_handle_cluster_db_message D db m c =
     (let i = m_id m in
      if i = DB_JOB_GET_BY_JOB_ID then (True, handle_job_get_by_job_id D db m c)
      else if i = DB_JOB_GET_BY_ID then (True, handle_job_get_by_id D db m c)
      else if i = DB_JOB_GET_RUNNING_JOBS then (True, handle_job_get_running_jobs D db m c)
      else if i = DB_JOB_DELETE then (True, handle_delete_by_id (db_cluster_jobs D) cjr_id db m c)
      else if i = DB_JOB_SAVE then (True, handle_job_save D db m c)
      else if i = DB_JOBSTATUS_GET_BY_JOB_ID_AND_WHAT then
        (True, handle_jobstatus_get_by_job_id_and_what D db m c)
      else if i = DB_JOBSTATUS_GET_BY_JOB_ID then (True, handle_jobstatus_get_by_job_id D db m c)
      else if i = DB_JOBSTATUS_DELETE_BY_ID_LIST then
        (True, handle_jobstatus_delete_by_id_list D db m c)
      else if i = DB_JOBSTATUS_SAVE then (True, handle_jobstatus_save D db m c)
      else if i = DB_BUNDLE_CREATE_OR_UPDATE_JOB then
        (True, handle_bundle_create_or_update D db m c)
      else if i = DB_BUNDLE_GET_JOB_BY_ID then (True, handle_bundle_get_by_id D db m c)
      else if i = DB_BUNDLE_DELETE_JOB then (True, handle_delete_by_id (db_bundle_jobs D) bjr_id db m c)
      else (False, db, c))"

section \<open>Replies\<close>

text \<open>\<open>answered rid body c\<close>: the cluster with one reply to request \<open>rid\<close> queued at the highest
  priority under the system source.\<close>

definition response_head :: "u32 \<Rightarrow> bytes" where
  "response_head rid = field_enc (FString SYSTEM_SOURCE) @ field_enc (FUInt DB_RESPONSE) @ to_le 4 (unat rid)"

definition answered :: "u32 \<Rightarrow> bytes \<Rightarrow> cluster \<Rightarrow> cluster" where
  "answered rid body c = queue_message SYSTEM_SOURCE (response_head rid @ body) Highest c"

lemma prepare_response_frame [simp]:
  "m_data (prepare_response rid) = response_head rid"
  "m_priority (prepare_response rid) = Highest" "m_source (prepare_response rid) = SYSTEM_SOURCE"
  by (simp_all add: prepare_response_def uint.put_enc message_new_data response_head_def
      del: field_enc.simps)

lemma send_reply:
  assumes "m_data r = response_head rid @ body" "m_priority r = Highest" "m_source r = SYSTEM_SOURCE"
  shows "send_message r c = answered rid body c"
  using assms by (simp add: send_message_def answered_def)

lemma reply_simps [simp]:
  "send_message (prepare_response rid) c = answered rid [] c"
  "send_message (push_ulong v (prepare_response rid)) c = answered rid (to_le 8 (unat v)) c"
  "send_message (push_uint n (prepare_response rid)) c = answered rid (to_le 4 (unat n)) c"
  "send_save_response rid v c = answered rid (to_le 8 (unat v)) c"
  by (simp_all add: send_reply ulong.put_enc uint.put_enc send_save_response_def)

context wire_codec
begin

lemma fold_put_frame:
  "m_priority (fold put vs m) = m_priority m" "m_source (fold put vs m) = m_source m"
  by (induction vs arbitrary: m) (simp_all add: put_frame)

lemma send_rows:
  "send_rows_response rid rows put c =
     answered rid (to_le 4 (unat (wire_row_count (length rows))) @ concat (map enc rows)) c"
  by (simp add: send_rows_response_def send_reply fold_put_data fold_put_frame uint.put_enc)

lemma send_single:
  "send_single_row_response rid row put c =
     answered rid (case row of None \<Rightarrow> to_le 4 0 | Some r \<Rightarrow> to_le 4 1 @ enc r) c"
  by (simp add: send_single_row_response_def send_reply put_data put_frame uint.put_enc Let_def
      split: option.split)

end

lemmas reply_rules [simp] = cj.send_rows cs.send_rows cj.send_single bj.send_single

text \<open>What a client reads from a reply.\<close>

lemma response_parsed:
  "\<exists>m. message_from_bytes (response_head rid @ body) = m \<and> m_id m = DB_RESPONSE \<and>
     fst (pop_uint m) = rid \<and> at_rest (snd (pop_uint m)) body"
proof -
  have "is_rust_string SYSTEM_SOURCE"
    by (simp add: is_rust_string_def SYSTEM_SOURCE_def str_bytes_def byte_of_char_def)
  from message_from_bytes_header [OF this, of DB_RESPONSE "to_le 4 (unat rid) @ body"]
  obtain m where m: "message_from_bytes (response_head rid @ body) = m" "m_id m = DB_RESPONSE"
      "at_rest m (to_le 4 (unat rid) @ body)"
    by (auto simp: response_head_def)
  have "pop_uint m = (rid, advance 4 m)"
    using uint.get_enc [OF TrueI m(3)] by (simp add: total_pop_eq)
  with m at_rest_advance(1) [OF m(3)] show ?thesis by simp
qed

section \<open>Requests that are answered or dropped\<close>

text \<open>What a handler does to the cluster: nothing, or one reply to the request.\<close>

definition handler_result :: "'db \<Rightarrow> message \<Rightarrow> cluster \<Rightarrow> 'db \<times> cluster \<Rightarrow> bool" where
  "handler_result db m c out \<longleftrightarrow>
     out = (db, c) \<or> (\<exists>body. snd out = answered (fst (pop_uint m)) body c)"

lemma handler_result_simps [simp]:
  "handler_result db m c (db, c)"
  "handler_result db m c (db', answered (fst (pop_uint m)) body c)"
  by (auto simp: handler_result_def)

lemma get_by_id_result:
  assumes "\<And>rid row. \<exists>body. send_single_row_response rid row f c = answered rid body c"
  shows "handler_result db m c (handle_get_by_id_impl T rid g f db m c)"
  using assms by (simp add: handle_get_by_id_impl_def case_prod_beta handler_result_def Let_def)

lemma delete_by_id_result [simp]: "handler_result db m c (handle_delete_by_id T rid db m c)"
  by (simp add: handle_delete_by_id_def case_prod_beta)

lemma job_queries_result [simp]:
  "handler_result db m c (handle_job_get_by_job_id D db m c)"
  "handler_result db m c (handle_job_get_running_jobs D db m c)"
  "handler_result db m c (handle_job_get_by_id D db m c)"
  "handler_result db m c (handle_bundle_get_by_id D db m c)"
proof -
  show "handler_result db m c (handle_job_get_by_id D db m c)"
    unfolding handle_job_get_by_id_def by (rule get_by_id_result, rule exI, rule cj.send_single)
  show "handler_result db m c (handle_bundle_get_by_id D db m c)"
    unfolding handle_bundle_get_by_id_def by (rule get_by_id_result, rule exI, rule bj.send_single)
qed (simp_all add: handle_job_get_by_job_id_def handle_job_get_running_jobs_def case_prod_beta Let_def)

lemma job_save_result [simp]: "handler_result db m c (handle_job_save D db m c)"
  by (simp add: handle_job_save_def case_prod_beta Let_def split: option.split)

lemma status_results [simp]:
  "handler_result db m c (handle_jobstatus_get_by_job_id_impl D w db m c)"
  "handler_result db m c (handle_jobstatus_delete_by_id_list D db m c)"
  "handler_result db m c (handle_jobstatus_save D db m c)"
  by (simp_all add: handle_jobstatus_get_by_job_id_impl_def handle_jobstatus_delete_by_id_list_def
      handle_jobstatus_save_def case_prod_beta Let_def split: option.split)

lemma insert_bundle_result [simp]:
  "handler_result db m c (insert_bundle_job D (fst (pop_uint m)) s n h db' c)"
  by (simp add: insert_bundle_job_def case_prod_beta Let_def split: sum.split)

lemma update_bundle_result [simp]:
  "handler_result db m c (update_bundle_job D (fst (pop_uint m)) i s db' c)"
  by (simp add: update_bundle_job_def case_prod_beta Let_def)

lemma bundle_result [simp]: "handler_result db m c (handle_bundle_create_or_update D db m c)"
  by (simp add: handle_bundle_create_or_update_def case_prod_beta Let_def split: option.split)

text \<open>The bytes a handler asks for before it acts: the request id with what follows it.\<close>

definition min_request :: "u32 \<Rightarrow> nat option" where
  "min_request i = map_of
     [(DB_JOB_GET_BY_JOB_ID, 12), (DB_JOB_GET_BY_ID, 12), (DB_JOB_GET_RUNNING_JOBS, 4),
      (DB_JOB_DELETE, 12), (DB_JOB_SAVE, 52), (DB_JOBSTATUS_GET_BY_JOB_ID_AND_WHAT, 20),
      (DB_JOBSTATUS_GET_BY_JOB_ID, 12), (DB_JOBSTATUS_DELETE_BY_ID_LIST, 8),
      (DB_JOBSTATUS_SAVE, 32), (DB_BUNDLE_CREATE_OR_UPDATE_JOB, 28),
      (DB_BUNDLE_GET_JOB_BY_ID, 12), (DB_BUNDLE_DELETE_JOB, 12)] i"

lemma min_request_cases:
  "min_request i = Some n \<Longrightarrow>
     i = DB_JOB_GET_BY_JOB_ID \<and> n = 12 \<or> i = DB_JOB_GET_BY_ID \<and> n = 12 \<or>
     i = DB_JOB_GET_RUNNING_JOBS \<and> n = 4 \<or> i = DB_JOB_DELETE \<and> n = 12 \<or>
     i = DB_JOB_SAVE \<and> n = 52 \<or> i = DB_JOBSTATUS_GET_BY_JOB_ID_AND_WHAT \<and> n = 20 \<or>
     i = DB_JOBSTATUS_GET_BY_JOB_ID \<and> n = 12 \<or> i = DB_JOBSTATUS_DELETE_BY_ID_LIST \<and> n = 8 \<or>
     i = DB_JOBSTATUS_SAVE \<and> n = 32 \<or> i = DB_BUNDLE_CREATE_OR_UPDATE_JOB \<and> n = 28 \<or>
     i = DB_BUNDLE_GET_JOB_BY_ID \<and> n = 12 \<or> i = DB_BUNDLE_DELETE_JOB \<and> n = 12"
  unfolding min_request_def by (drule map_of_SomeD) simp

lemma pop_remaining:
  "4 \<le> remaining m \<Longrightarrow> remaining (snd (pop_uint m)) = remaining m - 4"
  "remaining m < 4 \<Longrightarrow> remaining (snd (pop_uint m)) = remaining m"
  "8 \<le> remaining m \<Longrightarrow> remaining (snd (pop_ulong m)) = remaining m - 8"
  by (simp_all add: pop_uint_def pop_ulong_def pop_le_def check_remaining_def)

lemma pop_uint_short: "remaining m < n + 4 \<Longrightarrow> 4 \<le> n \<Longrightarrow> remaining (snd (pop_uint m)) < n"
  by (cases "4 \<le> remaining m") (simp_all add: pop_remaining)

text \<open>Every request that is shorter than the layout of its message is dropped.\<close>

lemma truncated_dropped:
  "remaining m < 12 \<Longrightarrow> handle_job_get_by_job_id D db m c = (db, c)"
  "remaining m < 12 \<Longrightarrow> handle_get_by_id_impl T rid f g db m c = (db, c)"
  "remaining m < 4 \<Longrightarrow> handle_job_get_running_jobs D db m c = (db, c)"
  "remaining m < 12 \<Longrightarrow> handle_delete_by_id T rid db m c = (db, c)"
  "remaining m < 52 \<Longrightarrow> handle_job_save D db m c = (db, c)"
  "remaining m < 20 \<Longrightarrow> handle_jobstatus_get_by_job_id_impl D True db m c = (db, c)"
  "remaining m < 12 \<Longrightarrow> handle_jobstatus_get_by_job_id_impl D w db m c = (db, c)"
  "remaining m < 8 \<Longrightarrow> handle_jobstatus_delete_by_id_list D db m c = (db, c)"
  "remaining m < 32 \<Longrightarrow> handle_jobstatus_save D db m c = (db, c)"
  "remaining m < 28 \<Longrightarrow> handle_bundle_create_or_update D db m c = (db, c)"
  using pop_uint_short [of m 48] pop_uint_short [of m 28] pop_uint_short [of m 24]
    diff_less_mono [of "remaining m" 20 12]
  by (simp_all add: handle_job_get_by_job_id_def handle_get_by_id_impl_def
      handle_job_get_running_jobs_def handle_delete_by_id_def handle_job_save_def
      handle_jobstatus_get_by_job_id_impl_def handle_jobstatus_delete_by_id_list_def
      handle_jobstatus_save_def handle_bundle_create_or_update_def case_prod_beta pop_remaining)

lemmas db_handlers =
  maybe_handle_cluster_db_message_def handle_job_get_by_id_def
  handle_jobstatus_get_by_job_id_and_what_def handle_jobstatus_get_by_job_id_def
  handle_bundle_get_by_id_def

lemma db_message_result: "handler_result db m c (snd (maybe_handle_cluster_db_message D db m c))"
  by (simp add: maybe_handle_cluster_db_message_def Let_def handle_jobstatus_get_by_job_id_and_what_def
      handle_jobstatus_get_by_job_id_def)

text \<open>C27: a message is treated as a database request exactly when its id is one of the twelve.
  It then changes nothing, or it queues exactly one reply, at the highest priority under the
  system source, which starts with the id of the request; a message that is not a request
  changes nothing.\<close>

theorem db_request_one_reply:
  "case maybe_handle_cluster_db_message D db m c of (handled, db', c') \<Rightarrow>
     (handled \<longleftrightarrow> min_request (m_id m) \<noteq> None) \<and>
     (db' = db \<and> c' = c \<or>
      handled \<and> (\<exists>body. c' = answered (fst (pop_uint m)) body c))"
proof -
  let ?out = "maybe_handle_cluster_db_message D db m c"
  have "handler_result db m c (snd ?out)" by (rule db_message_result)
  moreover have "fst ?out \<longleftrightarrow> min_request (m_id m) \<noteq> None"
    by (simp add: maybe_handle_cluster_db_message_def Let_def min_request_def)
  moreover have "fst ?out \<or> snd ?out = (db, c)"
    by (simp add: maybe_handle_cluster_db_message_def Let_def)
  ultimately show ?thesis
    by (cases ?out) (auto simp: handler_result_def)
qed

text \<open>A request too short for its layout is dropped whole: no reply is queued and the database
  is untouched.\<close>

theorem db_request_truncated:
  assumes "min_request (m_id m) = Some n" "remaining m < n"
  shows "maybe_handle_cluster_db_message D db m c = (True, db, c)"
  using min_request_cases [OF assms(1)] assms(2)
  by (elim disjE conjE) (simp_all add: db_handlers truncated_dropped wire_simps)

text \<open>Requests as a client builds them, for examples.\<close>

definition request_of :: "u32 \<Rightarrow> bytes \<Rightarrow> message" where
  "request_of i bs = message_from_bytes (m_data (push_raw bs (message_new i Medium SYSTEM_SOURCE)))"

lemma system_source_ok [simp]: "is_rust_string SYSTEM_SOURCE"
  by (simp add: is_rust_string_def SYSTEM_SOURCE_def str_bytes_def byte_of_char_def)

lemma request_of [simp]: "m_id (request_of i bs) = i" "at_rest (request_of i bs) bs"
  using message_from_bytes_header [OF system_source_ok, of i bs]
  unfolding request_of_def push_raw_simps message_new_data append_assoc by auto

lemma request_of_remaining [simp]: "remaining (request_of i bs) = length bs"
  by (rule at_rest_remaining) simp

theorem db_request_truncated_witness:
  "maybe_handle_cluster_db_message mem_database mem_empty
       (request_of DB_JOB_GET_RUNNING_JOBS [1, 0, 0]) demo_cluster =
     (True, mem_empty, demo_cluster)"
  by (rule db_request_truncated [where n = 4]) (simp_all add: min_request_def wire_simps)

section \<open>Queries\<close>

abbreviation job_table_laws ::
    "'db database \<Rightarrow> ('db \<Rightarrow> cluster_job_row list) \<Rightarrow> bool" where
  "job_table_laws D rows \<equiv> table_laws (db_cluster_jobs D) rows cjr_id (\<lambda>i r. r\<lparr>cjr_id := i\<rparr>)"

abbreviation status_table_laws ::
    "'db database \<Rightarrow> ('db \<Rightarrow> cluster_job_status_row list) \<Rightarrow> bool" where
  "status_table_laws D rows \<equiv> table_laws (db_job_statuses D) rows csr_id (\<lambda>i r. r\<lparr>csr_id := i\<rparr>)"

abbreviation bundle_table_laws ::
    "'db database \<Rightarrow> ('db \<Rightarrow> bundle_job_row list) \<Rightarrow> bool" where
  "bundle_table_laws D rows \<equiv> table_laws (db_bundle_jobs D) rows bjr_id (\<lambda>i r. r\<lparr>bjr_id := i\<rparr>)"

lemma request_uint:
  assumes "at_rest m (to_le 4 (unat v) @ rest)"
  shows "pop_uint m = (v, advance 4 m)" "at_rest (advance 4 m) rest"
    "remaining m = 4 + length rest"
  using uint.get_enc [OF TrueI assms] at_rest_advance(1) [OF assms] at_rest_remaining [OF assms]
  by (simp_all add: total_pop_eq)

lemma request_ulong:
  assumes "at_rest m (to_le 8 (unat v) @ rest)"
  shows "pop_ulong m = (v, advance 8 m)" "at_rest (advance 8 m) rest"
    "remaining m = 8 + length rest"
  using ulong.get_enc [OF TrueI assms] at_rest_advance(1) [OF assms] at_rest_remaining [OF assms]
  by (simp_all add: total_pop_eq)

text \<open>How a client reads a reply that carries rows.\<close>

definition read_rows ::
    "(message \<Rightarrow> 'a option \<times> message) \<Rightarrow> bytes \<Rightarrow> u32 \<times> u32 \<times> 'a list option" where
  "read_rows get bs =
     (let m = message_from_bytes bs;
          (rid, m1) = pop_uint m;
          (n, m2) = pop_uint m1
      in (m_id m, rid, fst (get_many get (unat n) m2)))"

context wire_codec
begin

lemma read_rows_reply:
  assumes "\<forall>v \<in> set vs. ok v" "length vs < 2 ^ 32"
  shows "read_rows get (response_head rid @
      to_le 4 (unat (wire_row_count (length vs))) @ concat (map enc vs)) =
    (DB_RESPONSE, rid, Some vs)"
proof -
  let ?body = "to_le 4 (unat (wire_row_count (length vs))) @ concat (map enc vs)"
  obtain m where m: "message_from_bytes (response_head rid @ ?body) = m" "m_id m = DB_RESPONSE"
      "fst (pop_uint m) = rid" and r1: "at_rest (snd (pop_uint m)) ?body"
    using response_parsed [of rid ?body] by blast
  have n: "unat (wire_row_count (length vs)) = length vs"
    using assms(2) by (simp add: wire_row_count_def unat_of_nat take_bit_nat_eq_self)
  note r2 = request_uint [OF r1]
  have "at_rest (advance 4 (snd (pop_uint m))) (concat (map enc vs) @ [])" using r2(2) by simp
  from get_many_rest [OF assms(1) this]
  show ?thesis using m r2(1) n by (auto simp: read_rows_def Let_def case_prod_beta)
qed

end

text \<open>The rows a successful query for a job id, and for the running jobs, is to return.\<close>

definition jobs_of :: "string \<Rightarrow> (cluster_job_row \<Rightarrow> bool) \<Rightarrow> cluster_job_row list \<Rightarrow> cluster_job set" where
  "jobs_of name P rs = cluster_job_of_row ` {r \<in> set rs. cjr_cluster r = name \<and> P r}"

lemma rows_query_scoped:
  assumes "job_table_laws D rows"
  shows "set (map cluster_job_of_row (or_default []
      (tb_all (db_cluster_jobs D) db (\<lambda>r. P r \<and> cjr_cluster r = name)))) \<subseteq> jobs_of name P (rows db)"
    and "tb_all (db_cluster_jobs D) db (\<lambda>r. P r \<and> cjr_cluster r = name) = Inr rs \<Longrightarrow>
      cluster_job_of_row ` set rs = jobs_of name P (rows db)"
proof -
  show eq: "tb_all (db_cluster_jobs D) db (\<lambda>r. P r \<and> cjr_cluster r = name) = Inr rs \<Longrightarrow>
      cluster_job_of_row ` set rs = jobs_of name P (rows db)" for rs
    using table_laws.all_rows [OF assms, of db _ rs] by (auto simp: jobs_of_def)
  show "set (map cluster_job_of_row (or_default []
      (tb_all (db_cluster_jobs D) db (\<lambda>r. P r \<and> cjr_cluster r = name)))) \<subseteq> jobs_of name P (rows db)"
    using eq by (cases "tb_all (db_cluster_jobs D) db (\<lambda>r. P r \<and> cjr_cluster r = name)") auto
qed

text \<open>The jobs a cluster receives for its query by job id are rows of the table with that job id
  that carry the name of this very cluster; all of them, when the query succeeds.  The database
  is not changed.\<close>

theorem job_query_scoped:
  assumes "job_table_laws D rows" "at_rest m (to_le 4 (unat rid) @ to_le 8 (unat jid))"
  shows "\<exists>rs. handle_job_get_by_job_id D db m c =
      (db, answered rid (to_le 4 (unat (wire_row_count (length rs))) @ concat (map cluster_job_enc rs)) c) \<and>
    set rs \<subseteq> jobs_of (cluster_name c) (\<lambda>r. cjr_job_id r = jid) (rows db) \<and>
    (\<forall>xs. tb_all (db_cluster_jobs D) db (\<lambda>r. cjr_job_id r = jid \<and> cjr_cluster r = cluster_name c) = Inr xs
      \<longrightarrow> set rs = jobs_of (cluster_name c) (\<lambda>r. cjr_job_id r = jid) (rows db))"
proof -
  note r1 = request_uint [OF assms(2)]
  note r2 = request_ulong [of "advance 4 m" jid "[]"]
  let ?rs = "map cluster_job_of_row (or_default [] (tb_all (db_cluster_jobs D) db
    (\<lambda>r. cjr_job_id r = jid \<and> cjr_cluster r = cluster_name c)))"
  have "handle_job_get_by_job_id D db m c =
      (db, answered rid (to_le 4 (unat (wire_row_count (length ?rs))) @ concat (map cluster_job_enc ?rs)) c)"
    using r1 r2 by (simp add: handle_job_get_by_job_id_def Let_def)
  then show ?thesis
    using rows_query_scoped [OF assms(1), where P = "\<lambda>r. cjr_job_id r = jid" and name = "cluster_name c"
        and db = db]
    by (intro exI [of _ ?rs]) auto
qed

text \<open>The running jobs a cluster receives are its own rows that are marked as running, and the
  client's reader gets back exactly the rows of the reply with the request's id.\<close>

theorem running_jobs_scoped:
  assumes "job_table_laws D rows" "at_rest m (to_le 4 (unat rid))"
    "tb_all (db_cluster_jobs D) db (\<lambda>r. cjr_cluster r = cluster_name c \<and> cjr_running r) = Inr xs"
    "length xs < 2 ^ 32" "\<forall>r \<in> set (rows db). cluster_job_ok (cluster_job_of_row r)"
  shows "\<exists>reply rs. handle_job_get_running_jobs D db m c = (db, queue_message SYSTEM_SOURCE reply Highest c) \<and>
    read_rows cluster_job_from_message reply = (DB_RESPONSE, rid, Some rs) \<and>
    set rs = jobs_of (cluster_name c) cjr_running (rows db)"
proof -
  note r1 = request_uint [of m rid "[]"]
  let ?rs = "map cluster_job_of_row xs"
  have xs: "set xs = {r \<in> set (rows db). cjr_cluster r = cluster_name c \<and> cjr_running r}"
    using table_laws.all_rows [OF assms(1,3)] .
  have h: "handle_job_get_running_jobs D db m c =
      (db, answered rid (to_le 4 (unat (wire_row_count (length ?rs))) @ concat (map cluster_job_enc ?rs)) c)"
    using r1 assms(2,3) by (simp add: handle_job_get_running_jobs_def Let_def)
  have rd: "read_rows cluster_job_from_message (response_head rid @
      to_le 4 (unat (wire_row_count (length ?rs))) @ concat (map cluster_job_enc ?rs)) =
      (DB_RESPONSE, rid, Some ?rs)"
    using assms(4,5) xs by (intro cj.read_rows_reply) auto
  have "set ?rs = jobs_of (cluster_name c) cjr_running (rows db)"
    using xs by (simp add: jobs_of_def)
  with h [unfolded answered_def] rd show ?thesis by blast
qed

section \<open>Insertions and updates\<close>

lemma cluster_job_enc_length: "48 \<le> length (cluster_job_enc j)"
  by (simp add: cluster_job_enc_def prefixed_def)

text \<open>A save of a new job (id zero) stores the job under the name of the cluster it came from,
  with every field as sent and a fresh positive id, and replies with that id; when the insertion
  fails, the table is unchanged and the reply carries id zero.\<close>

theorem job_save_inserts:
  assumes "job_table_laws D rows"
    "at_rest m (to_le 4 (unat rid) @ cluster_job_enc j @ rest)" "cluster_job_ok j" "cj_id j = 0"
  shows "\<exists>db' res. handle_job_save D db m c = (db', answered rid (to_le 8 (unat res)) c) \<and>
    (res = 0 \<and> rows db' = rows db \<or>
     0 < sint res \<and> res \<notin> cjr_id ` set (rows db) \<and>
     (\<exists>r. set (rows db') = insert r (set (rows db)) \<and> cjr_cluster r = cluster_name c \<and>
       cluster_job_of_row r = j\<lparr>cj_id := res\<rparr>))"
proof -
  note r1 = request_uint [OF assms(2)]
  note parsed = cj.get_enc [OF assms(3) r1(2)]
  let ?new = "cluster_job_new_row j (cluster_name c)"
  obtain res db' where ins: "tb_insert (db_cluster_jobs D) db ?new = (res, db')" by force
  let ?id = "case res of Inr model \<Rightarrow> cjr_id model | Inl _ \<Rightarrow> 0"
  have h: "handle_job_save D db m c = (db', answered rid (to_le 8 (unat ?id)) c)"
    using r1 parsed ins assms(4) cluster_job_enc_length [of j]
    by (simp add: handle_job_save_def Let_def)
  show ?thesis
  proof (cases res)
    case (Inl e)
    with ins have "rows db' = rows db" using table_laws.insert_err [OF assms(1)] by blast
    with h Inl show ?thesis by (intro exI [of _ db'] exI [of _ 0]) simp
  next
    case (Inr r)
    with ins have r: "r = ?new\<lparr>cjr_id := cjr_id r\<rparr>" "0 < sint (cjr_id r)"
        "cjr_id r \<notin> cjr_id ` set (rows db)" "set (rows db') = insert r (set (rows db))"
      using table_laws.insert_ok [OF assms(1), of db ?new r db'] by simp_all
    have "cjr_cluster r = cluster_name c" "cluster_job_of_row r = j\<lparr>cj_id := cjr_id r\<rparr>"
      by (subst r(1); simp add: cluster_job_new_row_def cluster_job_of_row_def)+
    with h Inr r(2-4) show ?thesis by auto
  qed
qed

text \<open>A save with an id other than zero overwrites the columns of the row with that id,
  whichever cluster the row belongs to, and leaves its owner and every other row as they were; the
  reply carries the id when a row was found, and zero when the update failed.\<close>

theorem job_save_updates:
  assumes "job_table_laws D rows"
    "at_rest m (to_le 4 (unat rid) @ cluster_job_enc j @ rest)" "cluster_job_ok j" "cj_id j \<noteq> 0"
  shows "\<exists>db'. handle_job_save D db m c = (db', answered rid (to_le 8 (unat (cj_id j))) c) \<and>
      cj_id j \<in> cjr_id ` set (rows db) \<and>
      set (rows db') = (\<lambda>r. if cjr_id r = cj_id j then cluster_job_set_columns j r else r) ` set (rows db) \<or>
    handle_job_save D db m c = (db', answered rid (to_le 8 0) c) \<and> rows db' = rows db"
proof -
  note r1 = request_uint [OF assms(2)]
  note parsed = cj.get_enc [OF assms(3) r1(2)]
  obtain res db' where upd: "tb_update (db_cluster_jobs D) db (cj_id j) (cluster_job_set_columns j) = (res, db')"
    by force
  have h: "handle_job_save D db m c =
      (db', answered rid (to_le 8 (unat (case res of Inr _ \<Rightarrow> cj_id j | Inl _ \<Rightarrow> 0))) c)"
    using r1 parsed upd assms(4) cluster_job_enc_length [of j]
    by (simp add: handle_job_save_def Let_def)
  show ?thesis
  proof (cases res)
    case (Inl e)
    then show ?thesis
      using h table_laws.update_err [OF assms(1) upd [unfolded Inl]] by (intro exI [of _ db']) simp
  next
    case (Inr r)
    then show ?thesis
      using h table_laws.update_ok [OF assms(1) upd [unfolded Inr]] by (intro exI [of _ db']) simp
  qed
qed

lemma set_columns_frame [simp]:
  "cjr_id (cluster_job_set_columns j r) = cjr_id r"
  "cjr_cluster (cluster_job_set_columns j r) = cjr_cluster r"
  "cluster_job_of_row (cluster_job_set_columns j r) = j\<lparr>cj_id := cjr_id r\<rparr>"
  by (simp_all add: cluster_job_set_columns_def cluster_job_of_row_def)

section \<open>Deletions\<close>

lemma delete_statuses_rows:
  assumes "status_table_laws D rows"
    "at_rest m (concat (map (\<lambda>i. to_le 8 (unat i)) ids) @ rest)"
  shows "\<exists>db' m'. delete_statuses D (length ids) db m = (db', m') \<and>
    set (rows db') \<subseteq> set (rows db) \<and> {r \<in> set (rows db). csr_id r \<notin> set ids} \<subseteq> set (rows db') \<and>
    ((\<forall>db P. \<exists>u db'. tb_delete (db_job_statuses D) db P = (Inr u, db')) \<longrightarrow>
      set (rows db') = {r \<in> set (rows db). csr_id r \<notin> set ids})"
  using assms(2)
proof (induction ids arbitrary: db m)
  case Nil
  then show ?case by simp
next
  case (Cons i ids)
  have r: "at_rest m (to_le 8 (unat i) @ (concat (map (\<lambda>i. to_le 8 (unat i)) ids) @ rest))"
    using Cons.prems by simp
  note r1 = request_ulong [OF r]
  obtain res db1 where d: "tb_delete (db_job_statuses D) db (\<lambda>r. csr_id r = i) = (res, db1)" by force
  obtain db' m' where IH: "delete_statuses D (length ids) db1 (advance 8 m) = (db', m')"
      "set (rows db') \<subseteq> set (rows db1)" "{r \<in> set (rows db1). csr_id r \<notin> set ids} \<subseteq> set (rows db')"
      "(\<forall>db P. \<exists>u db'. tb_delete (db_job_statuses D) db P = (Inr u, db')) \<longrightarrow>
        set (rows db') = {r \<in> set (rows db1). csr_id r \<notin> set ids}"
    using Cons.IH [OF r1(2), of db1] by blast
  have run: "delete_statuses D (length (i # ids)) db m = (db', m')"
    using r1(1) d IH(1) by simp
  have sub: "set (rows db1) \<subseteq> set (rows db)" using table_laws.delete_subset [OF assms(1) d] .
  have keep: "{r \<in> set (rows db). csr_id r \<noteq> i} \<subseteq> set (rows db1)"
    using table_laws.delete_other [OF assms(1) d] by blast
  have exact: "(\<forall>db P. \<exists>u db'. tb_delete (db_job_statuses D) db P = (Inr u, db')) \<Longrightarrow>
      set (rows db1) = {r \<in> set (rows db). csr_id r \<noteq> i}"
    using d table_laws.delete_ok [OF assms(1), of db "\<lambda>r. csr_id r = i" _ db1] by (metis Pair_inject)
  show ?case
  proof (intro exI conjI impI, rule run)
    show "set (rows db') \<subseteq> set (rows db)" using IH(2) sub by blast
    show "{r \<in> set (rows db). csr_id r \<notin> set (i # ids)} \<subseteq> set (rows db')" using IH(3) keep by auto
    assume total: "\<forall>db P. \<exists>u db'. tb_delete (db_job_statuses D) db P = (Inr u, db')"
    show "set (rows db') = {r \<in> set (rows db). csr_id r \<notin> set (i # ids)}"
      using IH(4) total exact [OF total] by auto
  qed
qed

lemma ids_length: "length (concat (map (\<lambda>i. to_le 8 (unat (i :: u64))) ids)) = 8 * length ids"
  by (induction ids) simp_all

text \<open>A deletion by list works through exactly the ids that the message really holds, however
  large the count it claims: no other status row is touched, and with deletions that succeed the
  named rows are gone.  One empty reply is queued.\<close>

theorem status_delete_list_bounded:
  assumes "status_table_laws D rows"
    "at_rest m (to_le 4 (unat rid) @ to_le 4 (unat (count :: u32)) @ concat (map (\<lambda>i. to_le 8 (unat i)) ids))"
    "length ids \<le> unat count"
  shows "\<exists>db'. handle_jobstatus_delete_by_id_list D db m c = (db', answered rid [] c) \<and>
    set (rows db') \<subseteq> set (rows db) \<and> {r \<in> set (rows db). csr_id r \<notin> set ids} \<subseteq> set (rows db') \<and>
    ((\<forall>db P. \<exists>u db'. tb_delete (db_job_statuses D) db P = (Inr u, db')) \<longrightarrow>
      set (rows db') = {r \<in> set (rows db). csr_id r \<notin> set ids})"
proof -
  note r1 = request_uint [OF assms(2)]
  note r2 = request_uint [OF r1(2)]
  have n: "min (unat count) (remaining (advance 4 (advance 4 m)) div 8) = length ids"
    using assms(3) at_rest_remaining [OF r2(2)] by (simp add: ids_length min_absorb2)
  have "at_rest (advance 4 (advance 4 m)) (concat (map (\<lambda>i. to_le 8 (unat i)) ids) @ [])"
    using r2(2) by simp
  from delete_statuses_rows [OF assms(1) this, of db]
  obtain db' m' where run: "delete_statuses D (length ids) db (advance 4 (advance 4 m)) = (db', m')"
    and post: "set (rows db') \<subseteq> set (rows db)" "{r \<in> set (rows db). csr_id r \<notin> set ids} \<subseteq> set (rows db')"
      "(\<forall>db P. \<exists>u db'. tb_delete (db_job_statuses D) db P = (Inr u, db')) \<longrightarrow>
        set (rows db') = {r \<in> set (rows db). csr_id r \<notin> set ids}"
    by blast
  have "handle_jobstatus_delete_by_id_list D db m c = (db', answered rid [] c)"
    using r1 r2 run n by (simp add: handle_jobstatus_delete_by_id_list_def Let_def case_prod_beta)
  with post show ?thesis by blast
qed

text \<open>Deletion by id looks at the id alone: a job row with the id is deleted although it belongs to
  a cluster other than the one that asked, and all other rows stay.\<close>

theorem job_delete_ignores_owner:
  assumes "job_table_laws D rows" "at_rest m (to_le 4 (unat rid) @ to_le 8 (unat i))"
    "tb_delete (db_cluster_jobs D) db (\<lambda>r. cjr_id r = i) = (Inr u, db')"
  shows "handle_delete_by_id (db_cluster_jobs D) cjr_id db m c = (db', answered rid [] c) \<and>
    set (rows db') = {r \<in> set (rows db). cjr_id r \<noteq> i}"
proof -
  note r1 = request_uint [OF assms(2)]
  note r2 = request_ulong [of "advance 4 m" i "[]"]
  show ?thesis
    using r1 r2 assms(3) table_laws.delete_ok [OF assms(1,3)]
    by (simp add: handle_delete_by_id_def)
qed

section \<open>Bundles\<close>

lemma bundle_job_enc_length: "length (bundle_job_enc b) = 16 + length (bj_content b)"
  by (simp add: bundle_job_enc_def prefixed_def str_bytes_def)

text \<open>What the handler does with a request it has parsed.\<close>

lemma bundle_request:
  assumes "at_rest m (to_le 4 (unat rid) @ bundle_job_enc b @ prefixed (str_bytes h) @ rest)"
    "is_rust_string (bj_content b)" "is_rust_string h"
  shows "pop_uint m = (rid, advance 4 m)" "\<not> remaining (advance 4 m) < 24"
    "\<exists>m1 m2. bundle_job_from_message (advance 4 m) = (Some b, m1) \<and> try_pop_string m1 = (Some h, m2)"
proof -
  note r1 = request_uint [OF assms(1)]
  then show "pop_uint m = (rid, advance 4 m)" by simp
  show "\<not> remaining (advance 4 m) < 24"
    using at_rest_remaining [OF r1(2)] by (simp add: bundle_job_enc_length prefixed_def)
  show "\<exists>m1 m2. bundle_job_from_message (advance 4 m) = (Some b, m1) \<and> try_pop_string m1 = (Some h, m2)"
    using bj.get_rest [OF assms(2) r1(2)] try_str.get_rest [OF assms(3)] by metis
qed

definition bundle_rows_kept :: "bundle_job_row list \<Rightarrow> bundle_job_row list \<Rightarrow> bool" where
  "bundle_rows_kept rs rs' \<longleftrightarrow>
     (\<forall>r \<in> set rs. \<exists>r' \<in> set rs'. bjr_id r' = bjr_id r \<and> bjr_cluster r' = bjr_cluster r \<and>
        bjr_bundle_hash r' = bjr_bundle_hash r)"

lemma bundle_rows_kept_refl [simp]: "bundle_rows_kept rs rs"
  by (auto simp: bundle_rows_kept_def)

lemma update_bundle_kept:
  assumes "bundle_table_laws D rows"
  shows "bundle_rows_kept (rows db) (rows (fst (update_bundle_job D rid i s db c)))"
proof -
  obtain res db' where u: "tb_update (db_bundle_jobs D) db i (\<lambda>r. r\<lparr>bjr_content := s\<rparr>) = (res, db')"
    by force
  have "bundle_rows_kept (rows db) (rows db')"
  proof (cases res)
    case (Inl e)
    with u show ?thesis using table_laws.update_err [OF assms] by (metis bundle_rows_kept_refl)
  next
    case (Inr r)
    with u have "set (rows db') = (\<lambda>r. if bjr_id r = i then r\<lparr>bjr_content := s\<rparr> else r) ` set (rows db)"
      using table_laws.update_ok [OF assms] by blast
    note rows' = this
    show ?thesis
      unfolding bundle_rows_kept_def
    proof
      fix r assume r: "r \<in> set (rows db)"
      let ?r' = "if bjr_id r = i then r\<lparr>bjr_content := s\<rparr> else r"
      have "?r' \<in> set (rows db')" unfolding rows' using r by (rule imageI)
      then show "\<exists>r' \<in> set (rows db'). bjr_id r' = bjr_id r \<and> bjr_cluster r' = bjr_cluster r \<and>
          bjr_bundle_hash r' = bjr_bundle_hash r" by (rule bexI [rotated]) simp
    qed
  qed
  with u show ?thesis by (simp add: update_bundle_job_def)
qed

lemma insert_bundle_kept:
  assumes "bundle_table_laws D rows"
  shows "bundle_rows_kept (rows db) (rows (fst (insert_bundle_job D rid s n h db c)))"
proof -
  obtain res db' where u: "tb_insert (db_bundle_jobs D) db
      \<lparr>bjr_id = 0, bjr_content = s, bjr_cluster = n, bjr_bundle_hash = h\<rparr> = (res, db')" by force
  then have "set (rows db) \<subseteq> set (rows db')" using table_laws.insert_other [OF assms] by blast
  with u show ?thesis by (auto simp: insert_bundle_job_def bundle_rows_kept_def Let_def)
qed

text \<open>Whatever bundle request arrives, no bundle row ever disappears or changes its owner or its
  hash: a create-or-update writes the content column only.\<close>

theorem bundle_identity_stable:
  assumes "bundle_table_laws D rows"
  shows "bundle_rows_kept (rows db) (rows (fst (handle_bundle_create_or_update D db m c)))"
  using update_bundle_kept [OF assms] insert_bundle_kept [OF assms]
  by (simp add: handle_bundle_create_or_update_def case_prod_beta Let_def split: option.split)

text \<open>No two rows of one cluster share a hash.\<close>

definition bundle_keys_unique :: "bundle_job_row list \<Rightarrow> bool" where
  "bundle_keys_unique rs \<longleftrightarrow>
     (\<forall>r \<in> set rs. \<forall>r' \<in> set rs. bjr_cluster r = bjr_cluster r' \<and> bjr_bundle_hash r = bjr_bundle_hash r'
        \<longrightarrow> bjr_id r = bjr_id r')"

lemma bundle_keys_unique_content:
  assumes "bundle_keys_unique rs" "set rs' = g ` set rs"
    "\<And>r. bjr_id (g r) = bjr_id r \<and> bjr_cluster (g r) = bjr_cluster r \<and>
       bjr_bundle_hash (g r) = bjr_bundle_hash r"
  shows "bundle_keys_unique rs'"
  unfolding bundle_keys_unique_def assms(2)
proof (intro ballI impI; elim imageE; hypsubst)
  fix x y
  assume "x \<in> set rs" "y \<in> set rs"
    and "bjr_cluster (g x) = bjr_cluster (g y) \<and> bjr_bundle_hash (g x) = bjr_bundle_hash (g y)"
  then have "bjr_id x = bjr_id y"
    using assms(1) unfolding bundle_keys_unique_def assms(3) [THEN conjunct2, THEN conjunct1]
      assms(3) [THEN conjunct2, THEN conjunct2] by blast
  then show "bjr_id (g x) = bjr_id (g y)" by (simp only: assms(3))
qed

lemma bundle_keys_unique_insert:
  assumes "bundle_keys_unique rs" "set rs' = insert r (set rs)"
    "\<forall>x \<in> set rs. \<not> (bjr_bundle_hash x = bjr_bundle_hash r \<and> bjr_cluster x = bjr_cluster r)"
  shows "bundle_keys_unique rs'"
  unfolding bundle_keys_unique_def assms(2)
proof (intro ballI impI)
  fix x y
  assume xy: "x \<in> insert r (set rs)" "y \<in> insert r (set rs)"
    and eq: "bjr_cluster x = bjr_cluster y \<and> bjr_bundle_hash x = bjr_bundle_hash y"
  show "bjr_id x = bjr_id y"
  proof (cases "x = r \<or> y = r")
    case True
    then have "x = y" using xy eq assms(3) by (metis insertE)
    then show ?thesis by simp
  next
    case False
    with xy have "x \<in> set rs" "y \<in> set rs" by simp_all
    with eq assms(1) show ?thesis unfolding bundle_keys_unique_def by blast
  qed
qed

text \<open>What an upsert leaves: \<open>res\<close> is the id it answers with.\<close>

definition upserted ::
    "bundle_job_row list \<Rightarrow> bundle_job_row list \<Rightarrow> i64 \<Rightarrow> string \<Rightarrow> string \<Rightarrow> string \<Rightarrow> bool" where
  "upserted rs rs' res content name h \<longleftrightarrow> bundle_keys_unique rs' \<and>
     (res = 0 \<and> rs' = rs \<or>
      (\<exists>r \<in> set rs'. bjr_id r = res \<and> bjr_content r = content \<and> bjr_cluster r = name \<and> bjr_bundle_hash r = h))"

lemma upsert_update:
  assumes laws: "bundle_table_laws D rows" and uniq: "bundle_keys_unique (rows db)"
    and r0: "r0 \<in> set (rows db)" "bjr_bundle_hash r0 = h" "bjr_cluster r0 = name"
    and u: "tb_update (db_bundle_jobs D) db (bjr_id r0) (\<lambda>r. r\<lparr>bjr_content := content\<rparr>) = (res, db')"
  shows "upserted (rows db) (rows db') (case res of Inr _ \<Rightarrow> bjr_id r0 | Inl _ \<Rightarrow> 0) content name h"
proof (cases res)
  case (Inl e)
  then show ?thesis using uniq table_laws.update_err [OF laws u [unfolded Inl]] by (simp add: upserted_def)
next
  case (Inr r)
  have rows': "set (rows db') = (\<lambda>r. if bjr_id r = bjr_id r0 then r\<lparr>bjr_content := content\<rparr> else r) ` set (rows db)"
    using table_laws.update_ok [OF laws u [unfolded Inr]] by simp
  then have "r0\<lparr>bjr_content := content\<rparr> \<in> set (rows db')" using r0(1) by force
  then have "\<exists>r \<in> set (rows db'). bjr_id r = bjr_id r0 \<and> bjr_content r = content \<and> bjr_cluster r = name \<and>
      bjr_bundle_hash r = h" using r0(2, 3) by (intro bexI) simp_all
  moreover have "bundle_keys_unique (rows db')" by (rule bundle_keys_unique_content [OF uniq rows']) simp
  ultimately show ?thesis using Inr by (simp add: upserted_def)
qed

lemma upsert_insert:
  assumes laws: "bundle_table_laws D rows" and uniq: "bundle_keys_unique (rows db)"
    and none: "\<forall>r \<in> set (rows db). \<not> (bjr_bundle_hash r = h \<and> bjr_cluster r = name)"
    and u: "tb_insert (db_bundle_jobs D) db
      \<lparr>bjr_id = 0, bjr_content = content, bjr_cluster = name, bjr_bundle_hash = h\<rparr> = (res, db')"
  shows "upserted (rows db) (rows db') (case res of Inr x \<Rightarrow> bjr_id x | Inl _ \<Rightarrow> 0) content name h"
proof (cases res)
  case (Inl e)
  then show ?thesis using uniq table_laws.insert_err [OF laws u [unfolded Inl]] by (simp add: upserted_def)
next
  case (Inr r)
  have r: "r = \<lparr>bjr_id = 0, bjr_content = content, bjr_cluster = name, bjr_bundle_hash = h\<rparr>\<lparr>bjr_id := bjr_id r\<rparr>"
    and rows': "set (rows db') = insert r (set (rows db))"
    using table_laws.insert_ok [OF laws u [unfolded Inr]] by auto
  have f: "bjr_content r = content" "bjr_cluster r = name" "bjr_bundle_hash r = h"
    by (subst r; simp)+
  have "bundle_keys_unique (rows db')"
    using none f by (intro bundle_keys_unique_insert [OF uniq rows']) auto
  then show ?thesis using Inr rows' f by (simp add: upserted_def)
qed

text \<open>A request without an id (zero or negative) whose look-up succeeds stores the content in the one
  row its cluster has for the hash, which is created under this cluster's name when there is
  none; the reply names that row, or is zero when the write failed and nothing changed.  Hashes
  stay unique within a cluster.\<close>

theorem bundle_upsert:
  assumes "bundle_table_laws D rows"
    "at_rest m (to_le 4 (unat rid) @ bundle_job_enc b @ prefixed (str_bytes h) @ rest)"
    "is_rust_string (bj_content b)" "is_rust_string h" "\<not> 0 < sint (bj_id b)"
    "tb_one (db_bundle_jobs D) db (\<lambda>r. bjr_bundle_hash r = h \<and> bjr_cluster r = cluster_name c) = Inr found"
    "bundle_keys_unique (rows db)"
  shows "\<exists>db' res. handle_bundle_create_or_update D db m c = (db', answered rid (to_le 8 (unat res)) c) \<and>
    bundle_keys_unique (rows db') \<and>
    (res = 0 \<and> rows db' = rows db \<or>
     (\<exists>r \<in> set (rows db'). bjr_id r = res \<and> bjr_content r = bj_content b \<and>
        bjr_cluster r = cluster_name c \<and> bjr_bundle_hash r = h))"
proof -
  note req = bundle_request [OF assms(2-4)] and one = assms(6)
  then obtain m1 m2 where p: "bundle_job_from_message (advance 4 m) = (Some b, m1)"
      "try_pop_string m1 = (Some h, m2)" by blast
  have "\<exists>db' res. handle_bundle_create_or_update D db m c = (db', answered rid (to_le 8 (unat res)) c) \<and>
      upserted (rows db) (rows db') res (bj_content b) (cluster_name c) h"
  proof (cases found)
    case (Some r0)
    obtain res db' where u: "tb_update (db_bundle_jobs D) db (bjr_id r0)
        (\<lambda>r. r\<lparr>bjr_content := bj_content b\<rparr>) = (res, db')" by force
    have "handle_bundle_create_or_update D db m c =
        (db', answered rid (to_le 8 (unat (case res of Inr _ \<Rightarrow> bjr_id r0 | Inl _ \<Rightarrow> 0))) c)"
      using req(1,2) p one Some u assms(5)
      by (simp add: handle_bundle_create_or_update_def update_bundle_job_def)
    moreover have "r0 \<in> set (rows db)" "bjr_bundle_hash r0 = h" "bjr_cluster r0 = cluster_name c"
      using table_laws.one_row [OF assms(1) one [unfolded Some]] by auto
    ultimately show ?thesis using upsert_update [OF assms(1,7) _ _ _ u] by blast
  next
    case None
    obtain res db' where u: "tb_insert (db_bundle_jobs D) db
        \<lparr>bjr_id = 0, bjr_content = bj_content b, bjr_cluster = cluster_name c, bjr_bundle_hash = h\<rparr> = (res, db')"
      by force
    have "handle_bundle_create_or_update D db m c =
        (db', answered rid (to_le 8 (unat (case res of Inr x \<Rightarrow> bjr_id x | Inl _ \<Rightarrow> 0))) c)"
      using req(1,2) p one None u assms(5)
      by (simp add: handle_bundle_create_or_update_def insert_bundle_job_def Let_def split: sum.split)
    then show ?thesis
      using upsert_insert [OF assms(1,7) table_laws.one_none [OF assms(1) one [unfolded None]] u] by blast
  qed
  then show ?thesis by (simp add: upserted_def)
qed

text \<open>A create-or-update whose bundle hash is missing altogether is not dropped as truncated: with
  a content of at least eight bytes it is handled exactly as a request with an empty hash.\<close>

theorem bundle_missing_hash_accepted:
  assumes "at_rest m (to_le 4 (unat (rid :: u32)) @ bundle_job_enc b)" "is_rust_string (bj_content b)"
    "8 \<le> length (bj_content b)"
    "at_rest m' (to_le 4 (unat rid) @ bundle_job_enc b @ prefixed (str_bytes ''''))"
  shows "handle_bundle_create_or_update D db m c = handle_bundle_create_or_update D db m' c"
proof -
  note r1 = request_uint [OF assms(1)]
  have "at_rest m' (to_le 4 (unat rid) @ bundle_job_enc b @ prefixed (str_bytes '''') @ [])"
    using assms(4) by simp
  moreover have "is_rust_string ''''" by (simp add: is_rust_string_def str_bytes_def)
  ultimately obtain m1 m2 where full: "pop_uint m' = (rid, advance 4 m')" "\<not> remaining (advance 4 m') < 24"
      "bundle_job_from_message (advance 4 m') = (Some b, m1)" "try_pop_string m1 = (Some '''', m2)"
    using bundle_request assms(2) by blast
  have "at_rest (advance 4 m) (bundle_job_enc b @ [])" using r1(2) by simp
  then obtain m3 where m3: "bundle_job_from_message (advance 4 m) = (Some b, m3)" "at_rest m3 []"
    by (rule bj.get_rest [OF assms(2)])
  have "try_pop_string m3 = (Some '''', m3)"
    using at_rest_remaining [OF m3(2)]
    by (simp add: try_pop_string_def pop_ulong_def check_remaining_def read_slice_def
        from_utf8_or_default_def bytes_str_def advance_def)
  moreover have "\<not> remaining (advance 4 m) < 24"
    using at_rest_remaining [OF r1(2)] assms(3) by (simp add: bundle_job_enc_length)
  ultimately show ?thesis
    using r1 m3 full by (simp add: handle_bundle_create_or_update_def)
qed

section \<open>Examples\<close>

text \<open>A database with a job of the cluster \<open>ozstar\<close> and one of another cluster, a status and a
  bundle.\<close>

definition demo_job :: cluster_job where
  "demo_job =
     \<lparr>cj_id = 0, cj_job_id = 8, cj_scheduler_id = 0, cj_submitting = True, cj_submitting_count = 1,
      cj_bundle_hash = ''ab'', cj_working_directory = ''/w'', cj_running = True, cj_deleting = False,
      cj_deleted = False\<rparr>"

definition demo_db :: mem_db where
  "demo_db = mem_empty
     \<lparr>m_cluster_jobs := \<lparr>mt_rows = [(cluster_job_new_row demo_job ''ozstar'')\<lparr>cjr_id := 1\<rparr>,
        (cluster_job_new_row demo_job ''other'')\<lparr>cjr_id := 2\<rparr>], mt_next = 2\<rparr>,
      m_job_statuses := \<lparr>mt_rows =
        [\<lparr>csr_id = 1, csr_job_id = 8, csr_what = ''system'', csr_state = 500\<rparr>], mt_next = 1\<rparr>,
      m_bundle_jobs := \<lparr>mt_rows =
        [\<lparr>bjr_id = 1, bjr_content = ''x'', bjr_cluster = ''ozstar'', bjr_bundle_hash = ''h''\<rparr>],
        mt_next = 1\<rparr>\<rparr>"

lemma demo_job_ok [simp]: "cluster_job_ok demo_job" "cluster_job_ok (demo_job\<lparr>cj_id := i\<rparr>)"
  by (simp_all add: demo_job_def cluster_job_ok_def is_rust_string_def str_bytes_def byte_of_char_def)

lemma demo_rows [simp]:
  "mt_rows (m_cluster_jobs demo_db) = [(cluster_job_new_row demo_job ''ozstar'')\<lparr>cjr_id := 1\<rparr>,
     (cluster_job_new_row demo_job ''other'')\<lparr>cjr_id := 2\<rparr>]"
  by (simp add: demo_db_def mem_empty_def)

lemma demo_name [simp]: "cluster_name demo_cluster = ''ozstar''"
  by (simp add: cluster_name_def demo_cluster_def cluster_new_with_role_def demo_config_def)

lemma demo_of_row [simp]:
  "cluster_job_of_row ((cluster_job_new_row j n)\<lparr>cjr_id := i\<rparr>) = j\<lparr>cj_id := i\<rparr>"
  "cjr_cluster (cluster_job_new_row j n) = n" "cjr_running (cluster_job_new_row j n) = cj_running j"
  by (simp_all add: cluster_job_of_row_def cluster_job_new_row_def)

theorem job_query_scoped_witness:
  "\<exists>rs. handle_job_get_by_job_id mem_database demo_db
      (request_of DB_JOB_GET_BY_JOB_ID (to_le 4 (unat (7 :: u32)) @ to_le 8 (unat (8 :: u64)))) demo_cluster =
    (demo_db, answered 7 (to_le 4 (unat (wire_row_count (length rs))) @ concat (map cluster_job_enc rs))
      demo_cluster) \<and>
    set rs \<subseteq> jobs_of ''ozstar'' (\<lambda>r. cjr_job_id r = 8) (mt_rows (m_cluster_jobs demo_db))"
  using job_query_scoped [OF mem_cluster_jobs.table_laws_axioms
      request_of(2) [of DB_JOB_GET_BY_JOB_ID "to_le 4 (unat (7 :: u32)) @ to_le 8 (unat (8 :: u64))"],
      of demo_db demo_cluster]
  unfolding demo_name by blast

theorem running_jobs_scoped_witness:
  "\<exists>reply rs. handle_job_get_running_jobs mem_database demo_db
      (request_of DB_JOB_GET_RUNNING_JOBS (to_le 4 (unat (7 :: u32)))) demo_cluster =
    (demo_db, queue_message SYSTEM_SOURCE reply Highest demo_cluster) \<and>
    read_rows cluster_job_from_message reply = (DB_RESPONSE, 7, Some rs) \<and>
    set rs = jobs_of (cluster_name demo_cluster) cjr_running (mt_rows (m_cluster_jobs demo_db))"
proof (rule running_jobs_scoped [OF mem_cluster_jobs.table_laws_axioms request_of(2)])
  show "tb_all (db_cluster_jobs mem_database) demo_db
      (\<lambda>r. cjr_cluster r = cluster_name demo_cluster \<and> cjr_running r) =
      Inr [(cluster_job_new_row demo_job ''ozstar'')\<lparr>cjr_id := 1\<rparr>]"
    by (simp add: mem_database_def mem_ops_def mem_select_def) (simp add: demo_job_def)
qed simp_all

theorem job_save_inserts_witness:
  "\<exists>db' res. handle_job_save mem_database demo_db
      (request_of DB_JOB_SAVE (to_le 4 (unat (7 :: u32)) @ cluster_job_enc demo_job @ [])) demo_cluster =
      (db', answered 7 (to_le 8 (unat res)) demo_cluster) \<and>
    (res = 0 \<and> mt_rows (m_cluster_jobs db') = mt_rows (m_cluster_jobs demo_db) \<or>
     0 < sint res \<and> res \<notin> cjr_id ` set (mt_rows (m_cluster_jobs demo_db)) \<and>
     (\<exists>r. set (mt_rows (m_cluster_jobs db')) = insert r (set (mt_rows (m_cluster_jobs demo_db))) \<and>
       cjr_cluster r = cluster_name demo_cluster \<and> cluster_job_of_row r = demo_job\<lparr>cj_id := res\<rparr>))"
  by (rule job_save_inserts [OF mem_cluster_jobs.table_laws_axioms request_of(2)])
    (simp_all add: demo_job_def cluster_job_ok_def is_rust_string_def str_bytes_def byte_of_char_def)

theorem job_save_updates_witness:
  "\<exists>db'. handle_job_save mem_database demo_db (request_of DB_JOB_SAVE
      (to_le 4 (unat (7 :: u32)) @ cluster_job_enc (demo_job\<lparr>cj_id := 2\<rparr>) @ [])) demo_cluster =
      (db', answered 7 (to_le 8 (unat (cj_id (demo_job\<lparr>cj_id := 2\<rparr>)))) demo_cluster) \<and>
      cj_id (demo_job\<lparr>cj_id := 2\<rparr>) \<in> cjr_id ` set (mt_rows (m_cluster_jobs demo_db)) \<and>
      set (mt_rows (m_cluster_jobs db')) =
        (\<lambda>r. if cjr_id r = cj_id (demo_job\<lparr>cj_id := 2\<rparr>)
             then cluster_job_set_columns (demo_job\<lparr>cj_id := 2\<rparr>) r else r) `
        set (mt_rows (m_cluster_jobs demo_db)) \<or>
    handle_job_save mem_database demo_db (request_of DB_JOB_SAVE
      (to_le 4 (unat (7 :: u32)) @ cluster_job_enc (demo_job\<lparr>cj_id := 2\<rparr>) @ [])) demo_cluster =
      (db', answered 7 (to_le 8 0) demo_cluster) \<and>
      mt_rows (m_cluster_jobs db') = mt_rows (m_cluster_jobs demo_db)"
  by (rule job_save_updates [OF mem_cluster_jobs.table_laws_axioms request_of(2) demo_job_ok(2)]) simp

theorem status_delete_list_bounded_witness:
  "\<exists>db'. handle_jobstatus_delete_by_id_list mem_database demo_db
      (request_of DB_JOBSTATUS_DELETE_BY_ID_LIST
        (to_le 4 (unat (7 :: u32)) @ to_le 4 (unat (4000000000 :: u32)) @ concat (map (\<lambda>i. to_le 8 (unat i)) [1 :: u64])))
      demo_cluster = (db', answered 7 [] demo_cluster)"
proof -
  have "length [1 :: u64] \<le> unat (4000000000 :: u32)" by simp
  from status_delete_list_bounded [OF mem_job_statuses.table_laws_axioms
      request_of(2) [of DB_JOBSTATUS_DELETE_BY_ID_LIST] this, where rid = 7 and db = demo_db and c = demo_cluster]
  show ?thesis by blast
qed

theorem job_delete_ignores_owner_witness:
  "set (mt_rows (m_cluster_jobs (fst (handle_delete_by_id (db_cluster_jobs mem_database) cjr_id demo_db
      (request_of DB_JOB_DELETE (to_le 4 (unat (7 :: u32)) @ to_le 8 (unat (2 :: u64)))) demo_cluster)))) =
    {(cluster_job_new_row demo_job ''ozstar'')\<lparr>cjr_id := 1\<rparr>}"
proof -
  obtain db' where d: "tb_delete (db_cluster_jobs mem_database) demo_db (\<lambda>r. cjr_id r = 2) = (Inr (), db')"
    by (simp add: mem_database_def mem_ops_def)
  show ?thesis
    using job_delete_ignores_owner [OF mem_cluster_jobs.table_laws_axioms request_of(2) d, of DB_JOB_DELETE 7]
    by auto
qed

theorem bundle_identity_stable_witness:
  "bundle_rows_kept (mt_rows (m_bundle_jobs demo_db)) (mt_rows (m_bundle_jobs
     (fst (handle_bundle_create_or_update mem_database demo_db (request_of DB_BUNDLE_CREATE_OR_UPDATE_JOB [])
        demo_cluster))))"
  by (rule bundle_identity_stable [OF mem_bundle_jobs.table_laws_axioms])

theorem bundle_upsert_witness:
  "\<exists>db' res. handle_bundle_create_or_update mem_database demo_db
      (request_of DB_BUNDLE_CREATE_OR_UPDATE_JOB
        (to_le 4 (unat (7 :: u32)) @ bundle_job_enc \<lparr>bj_id = 0, bj_content = ''new''\<rparr> @
          prefixed (str_bytes ''h'') @ [])) demo_cluster =
      (db', answered 7 (to_le 8 (unat res)) demo_cluster) \<and>
    bundle_keys_unique (mt_rows (m_bundle_jobs db')) \<and>
    (res = 0 \<and> mt_rows (m_bundle_jobs db') = mt_rows (m_bundle_jobs demo_db) \<or>
     (\<exists>r \<in> set (mt_rows (m_bundle_jobs db')). bjr_id r = res \<and>
        bjr_content r = bj_content \<lparr>bj_id = 0, bj_content = ''new''\<rparr> \<and>
        bjr_cluster r = cluster_name demo_cluster \<and> bjr_bundle_hash r = ''h''))"
proof -
  have one: "tb_one (db_bundle_jobs mem_database) demo_db
      (\<lambda>r. bjr_bundle_hash r = ''h'' \<and> bjr_cluster r = cluster_name demo_cluster) =
      Inr (Some \<lparr>bjr_id = 1, bjr_content = ''x'', bjr_cluster = ''ozstar'', bjr_bundle_hash = ''h''\<rparr>)"
    by (simp add: mem_database_def mem_ops_def mem_select_def mem_first_def demo_db_def)
  have uniq: "bundle_keys_unique (mt_rows (m_bundle_jobs demo_db))"
    by (simp add: bundle_keys_unique_def demo_db_def)
  show ?thesis
    by (rule bundle_upsert [OF mem_bundle_jobs.table_laws_axioms request_of(2) _ _ _ one uniq])
      (simp_all add: is_rust_string_def str_bytes_def byte_of_char_def)
qed

theorem bundle_missing_hash_accepted_witness:
  "handle_bundle_create_or_update mem_database demo_db (request_of DB_BUNDLE_CREATE_OR_UPDATE_JOB
      (to_le 4 (unat (7 :: u32)) @ bundle_job_enc \<lparr>bj_id = 0, bj_content = ''contents''\<rparr>)) demo_cluster =
   handle_bundle_create_or_update mem_database demo_db (request_of DB_BUNDLE_CREATE_OR_UPDATE_JOB
      (to_le 4 (unat (7 :: u32)) @ bundle_job_enc \<lparr>bj_id = 0, bj_content = ''contents''\<rparr> @
        prefixed (str_bytes ''''))) demo_cluster"
  by (rule bundle_missing_hash_accepted [OF request_of(2) _ _ request_of(2)])
    (simp_all add: is_rust_string_def str_bytes_def byte_of_char_def)

end
