(* ===== verification/Cluster_Handlers.thy ===== *)
theory Cluster_Handlers
  imports Cluster_DB
begin

text \<open>
  What a cluster does with a message from its remote client (\<open>handle_message\<close> and the handlers
  of \<open>src/cluster/cluster.rs\<close>), the resend checks of a master cluster, and the file-list cache
  of \<open>src/db/file_list_cache.rs\<close>.  A handler takes the cluster and the application context
  (database, waiting file-list requests and spawned cache tasks) and returns both.  The clock, a
  generated UUID and the settings are the record \<open>env\<close>.
\<close>

section \<open>Context\<close>

record 'db app_context =
  cx_db :: 'db
  cx_file_lists :: "string \<Rightarrow> file_list_state option"
  cx_cache_tasks :: "(string \<times> i64) list"

record env =
  ev_now :: int
  ev_cutoff :: int
  ev_uuid :: string
  ev_max_file_buffer :: u64

definition job_source_key :: "int \<Rightarrow> string \<Rightarrow> string" where
  "job_source_key jid name = show_int jid @ ''_'' @ name"

section \<open>File lists\<close>

definition file_list_state_for_uuid ::
    "cluster \<Rightarrow> 'db app_context \<Rightarrow> string \<Rightarrow> file_list_state option" where
  "file_list_state_for_uuid c cx uid = (if cl_has_context c then cx_file_lists cx uid else None)"

definition put_file_list :: "string \<Rightarrow> file_list_state \<Rightarrow> 'db app_context \<Rightarrow> 'db app_context" where
  "put_file_list uid st cx = cx\<lparr>cx_file_lists := (cx_file_lists cx)(uid \<mapsto> st)\<rparr>"

text \<open>The entries of a file list; a truncated entry ends the list.\<close>

definition MIN_FILE_LIST_ENTRY_BYTES :: nat where
  "MIN_FILE_LIST_ENTRY_BYTES = 17"

fun parse_file_entries :: "nat \<Rightarrow> message \<Rightarrow> file_info list" where
  "parse_file_entries 0 m = []"
| "parse_file_entries (Suc n) m =
     (if remaining m < MIN_FILE_LIST_ENTRY_BYTES then []
      else
        (case try_pop_string m of
           (None, _) \<Rightarrow> []
         | (Some name, m1) \<Rightarrow>
             if remaining m1 < 9 then []
             else
               (let (is_dir, m2) = pop_bool m1;
                    (size_bytes, m3) = pop_ulong m2
                in \<lparr>file_name = name, file_size = size_bytes, permissions = 0,
                     is_directory = is_dir\<rparr> # parse_file_entries n m3)))"

definition handle_file_list_response ::
    "message \<Rightarrow> cluster \<Rightarrow> 'db app_context \<Rightarrow> cluster \<times> 'db app_context" where
  "handle_file_list_response m c cx =
     (case try_pop_string m of
        (None, _) \<Rightarrow> (c, cx)
      | (Some uid, m1) \<Rightarrow>
          (case file_list_state_for_uuid c cx uid of
             None \<Rightarrow> (c, cx)
           | Some st \<Rightarrow>
               if remaining m1 < 4 then
                 (c, put_file_list uid
                       (st\<lparr>fl_error := True,
                           fl_error_details := ''Truncated FILE_LIST response (missing num_files)'',
                           fl_data_ready := True, fl_notify := True\<rparr>) cx)
               else
                 (let (num_files, m2) = pop_uint m1
                  in (c, put_file_list uid
                           (st\<lparr>fl_files := parse_file_entries (unat num_files) m2,
                               fl_data_ready := True, fl_notify := True\<rparr>) cx))))"

definition handle_file_list_error ::
    "message \<Rightarrow> cluster \<Rightarrow> 'db app_context \<Rightarrow> cluster \<times> 'db app_context" where
  "handle_file_list_error m c cx =
     (case try_pop_string m of
        (None, _) \<Rightarrow> (c, cx)
      | (Some uid, m1) \<Rightarrow>
          (case file_list_state_for_uuid c cx uid of
             None \<Rightarrow> (c, cx)
           | Some st \<Rightarrow>
               (let detail = (case fst (try_pop_string m1) of
                      Some d \<Rightarrow> d | None \<Rightarrow> ''truncated FILE_LIST_ERROR detail'')
                in (c, put_file_list uid
                         (st\<lparr>fl_error := True, fl_error_details := detail,
                             fl_data_ready := True, fl_notify := True\<rparr>) cx))))"

text \<open>The transaction that replaces the cached list of a job.\<close>

fun insert_files ::
    "'db database \<Rightarrow> i64 \<Rightarrow> file_info list \<Rightarrow> 'db \<Rightarrow> unit db_result \<times> 'db" where
  "insert_files D jid [] db = (Inr (), db)"
| "insert_files D jid (f # fs) db =
     (case tb_insert (db_file_list_cache D) db
             \<lparr>flc_id = 0, flc_job_id = jid, flc_path = file_name f, flc_is_dir = is_directory f,
              flc_file_size = file_size f, flc_permissions = permissions f\<rparr> of
        (Inl e, db) \<Rightarrow> (Inl e, db)
      | (Inr _, db) \<Rightarrow> insert_files D jid fs db)"

definition replace_file_list :: "'db database \<Rightarrow> 'db \<Rightarrow> i64 \<Rightarrow> file_info list \<Rightarrow> 'db" where
  "replace_file_list D db jid files =
     snd (transaction D
       (\<lambda>txn. case tb_delete (db_file_list_cache D) txn (\<lambda>r. flc_job_id r = jid) of
          (Inl e, txn) \<Rightarrow> (Inl e, txn)
        | (Inr _, txn) \<Rightarrow> insert_files D jid files txn) db)"

definition cache_file_list_on_completion ::
    "'db database \<Rightarrow> env \<Rightarrow> u32 \<Rightarrow> cluster \<Rightarrow> 'db app_context \<Rightarrow> cluster \<times> 'db app_context" where
  "cache_file_list_on_completion D ev jid c cx =
     (let job_key = (ucast jid :: i64) in
      case or_default None (tb_one (db_jobs D) (cx_db cx) (\<lambda>r. job_id r = job_key)) of
        None \<Rightarrow> (c, cx)
      | Some job \<Rightarrow>
          (let uid = ev_uuid ev;
               cx = put_file_list uid file_list_state_new cx;
               msg = message_new FILE_LIST Highest uid;
               msg = push_uint jid msg;
               msg = push_string uid msg;
               msg = push_string (job_bundle job) msg;
               msg = push_string '''' msg;
               msg = push_bool True msg;
               c = send_message_internal msg c
           in (c, cx\<lparr>cx_cache_tasks := cx_cache_tasks cx @ [(uid, job_key)]\<rparr>)))"

text \<open>The spawned task, once the list has arrived or the wait has timed out.\<close>

definition finish_cache_task ::
    "'db database \<Rightarrow> string \<Rightarrow> i64 \<Rightarrow> 'db app_context \<Rightarrow> 'db app_context" where
  "finish_cache_task D uid jid cx =
     (let files = (case cx_file_lists cx uid of
            None \<Rightarrow> None
          | Some st \<Rightarrow> if \<not> fl_error st \<and> fl_data_ready st then Some (fl_files st) else None);
          db = (case files of None \<Rightarrow> cx_db cx | Some fs \<Rightarrow> replace_file_list D (cx_db cx) jid fs)
      in cx\<lparr>cx_db := db, cx_file_lists := (cx_file_lists cx)(uid := None),
            cx_cache_tasks := remove1 (uid, jid) (cx_cache_tasks cx)\<rparr>)"

section \<open>Job updates\<close>

definition handle_update_job ::
    "'db database \<Rightarrow> env \<Rightarrow> message \<Rightarrow> cluster \<Rightarrow> 'db app_context \<Rightarrow> cluster \<times> 'db app_context" where
  "handle_update_job D ev m c cx =
     (let (jid, m1) = pop_uint m in
      case try_pop_string m1 of
        (None, _) \<Rightarrow> (c, cx)
      | (Some what, m2) \<Rightarrow>
          if remaining m2 < 4 then (c, cx)
          else
            (let (status, m3) = pop_uint m2 in
             case try_pop_string m3 of
               (None, _) \<Rightarrow> (c, cx)
             | (Some details, _) \<Rightarrow>
                 if \<not> cl_has_context c then (c, cx)
                 else if isl (job_status_try_from status) then (c, cx)
                 else
                   (let (_, db) = tb_insert (db_histories D) (cx_db cx)
                          \<lparr>jh_id = 0, jh_job_id = ucast jid, jh_timestamp = ev_now ev, jh_what = what,
                           jh_state = status, jh_details = details\<rparr>;
                        cx = cx\<lparr>cx_db := db\<rparr>
                    in if what = JOB_COMPLETION_SOURCE
                       then cache_file_list_on_completion D ev jid c cx
                       else (c, cx))))"

section \<open>Downloads\<close>

definition record_download_error :: "string \<Rightarrow> file_download_state \<Rightarrow> file_download_state" where
  "record_download_error details st =
     st\<lparr>fd_error_details := details, fd_error := True, fd_data_ready := True, fd_data_notify := True\<rparr>"

definition record_upload_error :: "string \<Rightarrow> file_upload_state \<Rightarrow> file_upload_state" where
  "record_upload_error details st =
     st\<lparr>fu_error_details := details, fu_error := True, fu_data_ready := True, fu_data_notify := True\<rparr>"

definition ERR_DOWNLOAD_ABORTED_CLIENT_DISCONNECTED :: string where
  "ERR_DOWNLOAD_ABORTED_CLIENT_DISCONNECTED = ''Download aborted: HTTP client disconnected''"

definition ERR_DOWNLOAD_INVALID :: string where
  "ERR_DOWNLOAD_INVALID = ''Download failed: invalid FILE_DETAILS message''"

definition ERR_DOWNLOAD_INVALID_CHUNK :: string where
  "ERR_DOWNLOAD_INVALID_CHUNK = ''Download failed: truncated FILE_CHUNK message''"

definition saturating_sub :: "u64 \<Rightarrow> u64 \<Rightarrow> u64" where
  "saturating_sub a b = (if b \<le> a then a - b else 0)"

definition handle_file_chunk :: "u64 \<Rightarrow> message \<Rightarrow> cluster \<Rightarrow> cluster" where
  "handle_file_chunk max_buffer m c =
     (case cl_download c of
        None \<Rightarrow> c
      | Some st \<Rightarrow>
          (case try_pop_bytes m of
             (None, _) \<Rightarrow> c\<lparr>cl_download := Some (record_download_error ERR_DOWNLOAD_INVALID_CHUNK st)\<rparr>
           | (Some chunk, _) \<Rightarrow>
               (let st = st\<lparr>fd_received_bytes := fd_received_bytes st + word_of_nat (length chunk)\<rparr> in
                if \<not> fd_receiver_alive st then
                  c\<lparr>cl_download :=
                      Some (record_download_error ERR_DOWNLOAD_ABORTED_CLIENT_DISCONNECTED st)\<rparr>
                else
                  (let st = st\<lparr>fd_chunks := fd_chunks st @ [chunk]\<rparr>;
                       pause = (\<not> fd_client_paused st \<and>
                         max_buffer < saturating_sub (fd_received_bytes st) (fd_sent_bytes st));
                       st = (if pause then st\<lparr>fd_client_paused := True\<rparr> else st);
                       uid = (case cl_uuid c of None \<Rightarrow> '''' | Some u \<Rightarrow> u);
                       c = (if pause
                            then send_message_internal (message_new PAUSE_FILE_CHUNK_STREAM Highest uid) c
                            else c)
                   in c\<lparr>cl_download := Some (st\<lparr>fd_data_ready := True, fd_data_notify := True\<rparr>)\<rparr>))))"

definition handle_file_details :: "message \<Rightarrow> cluster \<Rightarrow> cluster" where
  "handle_file_details m c =
     (case cl_download c of
        None \<Rightarrow> c
      | Some st \<Rightarrow>
          if remaining m < 8 then c\<lparr>cl_download := Some (record_download_error ERR_DOWNLOAD_INVALID st)\<rparr>
          else
            (let (size_bytes, _) = pop_ulong m
             in c\<lparr>cl_download := Some (st\<lparr>fd_file_size := size_bytes, fd_received_data := True,
                   fd_data_ready := True, fd_data_notify := True\<rparr>)\<rparr>))"

text \<open>\<open>handle_transfer_error\<close>: the details popped, or a text that says they were truncated.\<close>

definition transfer_error_details :: "message \<Rightarrow> string \<Rightarrow> string" where
  "transfer_error_details m message_name =
     (case fst (try_pop_string m) of
        Some d \<Rightarrow> d
      | None \<Rightarrow> ''truncated '' @ message_name @ '' detail'')"

definition handle_file_error :: "message \<Rightarrow> cluster \<Rightarrow> cluster" where
  "handle_file_error m c =
     (case cl_download c of
        None \<Rightarrow> c
      | Some st \<Rightarrow>
          c\<lparr>cl_download := Some (record_download_error (transfer_error_details m ''FILE_ERROR'') st)\<rparr>)"

section \<open>Uploads\<close>

definition handle_server_ready :: "cluster \<Rightarrow> cluster" where
  "handle_server_ready c =
     (case cl_upload c of
        None \<Rightarrow> c
      | Some st \<Rightarrow> c\<lparr>cl_upload := Some (st\<lparr>fu_data_ready := True, fu_data_notify := True\<rparr>)\<rparr>)"

definition handle_file_upload_error :: "message \<Rightarrow> cluster \<Rightarrow> cluster" where
  "handle_file_upload_error m c =
     (case cl_upload c of
        None \<Rightarrow> c
      | Some st \<Rightarrow>
          c\<lparr>cl_upload := Some (record_upload_error (transfer_error_details m ''FILE_UPLOAD_ERROR'') st)\<rparr>)"

definition handle_file_upload_complete :: "cluster \<Rightarrow> cluster" where
  "handle_file_upload_complete c =
     (case cl_upload c of
        None \<Rightarrow> c
      | Some st \<Rightarrow>
          c\<lparr>cl_upload := Some (st\<lparr>fu_complete := True, fu_data_ready := True, fu_data_notify := True\<rparr>)\<rparr>)"

section \<open>Dispatch\<close>

definition dispatch_message ::
    "'db database \<Rightarrow> env \<Rightarrow> message \<Rightarrow> cluster \<Rightarrow> 'db app_context \<Rightarrow> cluster \<times> 'db app_context" where
  "dispatch_message D ev m c cx =
     (let i = m_id m in
      if i = UPDATE_JOB then
        (if cl_role c = Master then handle_update_job D ev m c cx else (c, cx))
      else if i = FILE_LIST then
        (if cl_role c = Master then handle_file_list_response m c cx else (c, cx))
      else if i = FILE_LIST_ERROR then
        (if cl_role c = Master then handle_file_list_error m c cx else (c, cx))
      else if i = FILE_CHUNK then
        (if cl_role c = FileDownload then (handle_file_chunk (ev_max_file_buffer ev) m c, cx) else (c, cx))
      else if i = FILE_DETAILS then
        (if cl_role c = FileDownload then (handle_file_details m c, cx) else (c, cx))
      else if i = FILE_ERROR then
        (if cl_role c = FileDownload then (handle_file_error m c, cx) else (c, cx))
      else if i = SERVER_READY then
        (if cl_role c = FileUpload then (handle_server_ready c, cx) else (c, cx))
      else if i = FILE_UPLOAD_ERROR then
        (if cl_role c = FileUpload then (handle_file_upload_error m c, cx) else (c, cx))
      else if i = FILE_UPLOAD_COMPLETE then
        (if cl_role c = FileUpload then (handle_file_upload_complete c, cx) else (c, cx))
      else (c, cx))"

definition handle_message ::
    "'db database \<Rightarrow> env \<Rightarrow> message \<Rightarrow> cluster \<Rightarrow> 'db app_context \<Rightarrow> cluster \<times> 'db app_context" where
  "handle_message D ev m c cx =
     (if cl_role c = Master \<and> cl_has_context c then
        (case maybe_handle_cluster_db_message D (cx_db cx) m c of
           (True, db, c') \<Rightarrow> (c', cx\<lparr>cx_db := db\<rparr>)
         | (False, _, _) \<Rightarrow> dispatch_message D ev m c cx)
      else dispatch_message D ev m c cx)"

section \<open>Resending\<close>

definition latest_per_job :: "job_history_row list \<Rightarrow> i64 \<Rightarrow> job_history_row option" where
  "latest_per_job hs =
     foldl (\<lambda>latest h. if latest (jh_job_id h) = None then latest(jh_job_id h \<mapsto> h) else latest)
       Map.empty hs"

definition job_id_to_wire :: "i64 \<Rightarrow> u32 option" where
  "job_id_to_wire i = (if 0 \<le> sint i \<and> sint i < 2 ^ 32 then Some (ucast i) else None)"

definition resend_message ::
    "u32 \<Rightarrow> bool \<Rightarrow> string \<Rightarrow> job_row \<Rightarrow> message option" where
  "resend_message message_id push_bundle_and_params name j =
     (let msg = message_new message_id Medium (job_source_key (sint (job_id j)) name) in
      case job_id_to_wire (job_id j) of
        None \<Rightarrow> None
      | Some jid \<Rightarrow>
          (let msg = push_uint jid msg
           in Some (if push_bundle_and_params
                    then push_string (job_parameters j) (push_string (job_bundle j) msg)
                    else msg)))"

definition due_for_resend ::
    "job_history_row list \<Rightarrow> int \<Rightarrow> i32 list \<Rightarrow> job_row \<Rightarrow> bool" where
  "due_for_resend hs cutoff states j =
     (case latest_per_job hs (job_id j) of
        None \<Rightarrow> False
      | Some h \<Rightarrow> jh_timestamp h \<le> cutoff \<and> jh_state h \<in> set states)"

definition resend_one ::
    "job_history_row list \<Rightarrow> int \<Rightarrow> i32 list \<Rightarrow> u32 \<Rightarrow> bool \<Rightarrow> job_row \<Rightarrow> cluster \<Rightarrow> cluster" where
  "resend_one hs cutoff states message_id push_bundle_and_params j c =
     (if due_for_resend hs cutoff states j then
        (case resend_message message_id push_bundle_and_params (cluster_name c) j of
           None \<Rightarrow> c
         | Some msg \<Rightarrow> send_message_internal msg c)
      else c)"

definition check_resend_jobs ::
    "'db database \<Rightarrow> 'db \<Rightarrow> int \<Rightarrow> i32 list \<Rightarrow> u32 \<Rightarrow> bool \<Rightarrow> cluster \<Rightarrow> cluster" where
  "check_resend_jobs D db cutoff states message_id push_bundle_and_params c =
     (if \<not> is_online c then c
      else if \<not> cl_has_context c then c
      else
        (let jobs = or_default [] (tb_all (db_jobs D) db (\<lambda>j. job_cluster j = cluster_name c)) in
         if jobs = [] then c
         else
           (let job_ids = map job_id jobs;
                all_histories = or_default []
                  (tb_all_desc (db_histories D) db (\<lambda>h. jh_job_id h \<in> set job_ids)
                    (\<lambda>h. (jh_timestamp h, sint (jh_id h))))
            in fold (resend_one all_histories cutoff states message_id push_bundle_and_params) jobs c)))"

definition check_unsubmitted_jobs :: "'db database \<Rightarrow> 'db \<Rightarrow> int \<Rightarrow> cluster \<Rightarrow> cluster" where
  "check_unsubmitted_jobs D db cutoff =
     check_resend_jobs D db cutoff [job_status_code Pending, job_status_code Submitting] SUBMIT_JOB True"

definition check_cancelling_jobs :: "'db database \<Rightarrow> 'db \<Rightarrow> int \<Rightarrow> cluster \<Rightarrow> cluster" where
  "check_cancelling_jobs D db cutoff =
     check_resend_jobs D db cutoff [job_status_code Cancelling] CANCEL_JOB False"

definition check_deleting_jobs :: "'db database \<Rightarrow> 'db \<Rightarrow> int \<Rightarrow> cluster \<Rightarrow> cluster" where
  "check_deleting_jobs D db cutoff =
     check_resend_jobs D db cutoff [job_status_code Deleting] DELETE_JOB False"

section \<open>Frames\<close>

lemma cluster_new_fields [simp]:
  "cl_role (cluster_new_with_role d r rs dl ul u ctx) = r"
  "cl_download (cluster_new_with_role d r rs dl ul u ctx) = dl"
  "cl_upload (cluster_new_with_role d r rs dl ul u ctx) = ul"
  "cl_uuid (cluster_new_with_role d r rs dl ul u ctx) = u"
  "cl_has_context (cluster_new_with_role d r rs dl ul u ctx) = ctx"
  "cl_connection (cluster_new_with_role d r rs dl ul u ctx) = None"
  by (simp_all add: cluster_new_with_role_def)

lemma queue_message_frame [simp]:
  "cl_download (queue_message s d p c) = cl_download c" "cl_upload (queue_message s d p c) = cl_upload c"
  "cl_role (queue_message s d p c) = cl_role c" "cl_connection (queue_message s d p c) = cl_connection c"
  "cl_has_context (queue_message s d p c) = cl_has_context c" "cl_uuid (queue_message s d p c) = cl_uuid c"
  "cl_details (queue_message s d p c) = cl_details c" "cl_running (queue_message s d p c) = cl_running c"
  by (simp_all add: queue_message_def Let_def split: option.split)

lemma send_internal_frame [simp]:
  "cl_download (send_message_internal m c) = cl_download c"
  "cl_upload (send_message_internal m c) = cl_upload c"
  "cl_role (send_message_internal m c) = cl_role c"
  "cl_connection (send_message_internal m c) = cl_connection c"
  "cl_uuid (send_message_internal m c) = cl_uuid c" "cl_details (send_message_internal m c) = cl_details c"
  by (simp_all add: send_message_internal_def)

lemma send_internal_wf:
  assumes "cluster_wf c"
  shows "cluster_wf (send_message_internal m c)"
    and "queue_view (send_message_internal m c) p s =
      (if p = m_priority m \<and> s = '''' then queue_view c p s @ [m_data m] else queue_view c p s)"
  using queue_message_wf [OF assms] by (auto simp: send_message_internal_def)

lemma put_file_list_frame [simp]:
  "cx_db (put_file_list u st cx) = cx_db cx"
  "cx_file_lists (put_file_list u st cx) = (cx_file_lists cx)(u \<mapsto> st)"
  by (simp_all add: put_file_list_def)

text \<open>What a handler of a master cluster may touch of the cluster: its queues.\<close>

definition queues_only :: "cluster \<Rightarrow> cluster \<Rightarrow> bool" where
  "queues_only c c' \<longleftrightarrow>
     c' = c\<lparr>cl_queue := cl_queue c', cl_queued_size := cl_queued_size c', cl_data_permit := cl_data_permit c'\<rparr>"

lemma queues_only_refl [simp]: "queues_only c c"
  by (simp add: queues_only_def)

lemma queues_only_message [simp]: "queues_only c (queue_message s d p c)"
  "queues_only c (send_message_internal m c)" "queues_only c (answered rid body c)"
  by (simp_all add: queues_only_def queue_message_def Let_def send_message_internal_def answered_def
      split: option.split)

lemma queues_only_frame:
  assumes "queues_only c c'"
  shows "cl_download c' = cl_download c" "cl_upload c' = cl_upload c" "cl_role c' = cl_role c"
    "cl_connection c' = cl_connection c"
  by (subst assms [unfolded queues_only_def], simp)+

lemma master_handlers_queues_only [simp]:
  "queues_only c (fst (cache_file_list_on_completion D ev jid c cx))"
  "queues_only c (fst (handle_update_job D ev m c cx))"
  "queues_only c (fst (handle_file_list_response m c cx))"
  "queues_only c (fst (handle_file_list_error m c cx))"
proof -
  show cache: "queues_only c (fst (cache_file_list_on_completion D ev jid c cx))" for cx jid
    by (simp add: cache_file_list_on_completion_def Let_def split: option.split)
  show "queues_only c (fst (handle_update_job D ev m c cx))"
    by (simp add: handle_update_job_def Let_def case_prod_beta cache split: option.split)
  show "queues_only c (fst (handle_file_list_response m c cx))"
    by (simp add: handle_file_list_response_def Let_def case_prod_beta split: option.split)
  show "queues_only c (fst (handle_file_list_error m c cx))"
    by (simp add: handle_file_list_error_def Let_def case_prod_beta split: option.split)
qed

lemma db_message_queues_only:
  "queues_only c (snd (snd (maybe_handle_cluster_db_message D db m c)))"
  using db_message_result [of db m c D] by (auto simp: handler_result_def)

lemma download_handlers_frame [simp]:
  "cl_role (handle_file_chunk b m c) = cl_role c" "cl_upload (handle_file_chunk b m c) = cl_upload c"
  "cl_connection (handle_file_chunk b m c) = cl_connection c"
  "cl_role (handle_file_details m c) = cl_role c" "cl_upload (handle_file_details m c) = cl_upload c"
  "cl_connection (handle_file_details m c) = cl_connection c"
  "cl_role (handle_file_error m c) = cl_role c" "cl_upload (handle_file_error m c) = cl_upload c"
  "cl_connection (handle_file_error m c) = cl_connection c"
  by (simp_all add: handle_file_chunk_def handle_file_details_def handle_file_error_def Let_def
      case_prod_beta split: option.split)

lemma upload_handlers_frame [simp]:
  "cl_role (handle_server_ready c) = cl_role c" "cl_download (handle_server_ready c) = cl_download c"
  "cl_connection (handle_server_ready c) = cl_connection c"
  "cl_role (handle_file_upload_error m c) = cl_role c"
  "cl_download (handle_file_upload_error m c) = cl_download c"
  "cl_connection (handle_file_upload_error m c) = cl_connection c"
  "cl_role (handle_file_upload_complete c) = cl_role c"
  "cl_download (handle_file_upload_complete c) = cl_download c"
  "cl_connection (handle_file_upload_complete c) = cl_connection c"
  by (simp_all add: handle_server_ready_def handle_file_upload_error_def handle_file_upload_complete_def
      split: option.split)

section \<open>Roles\<close>

definition confined :: "cluster \<Rightarrow> 'db app_context \<Rightarrow> cluster \<times> 'db app_context \<Rightarrow> bool" where
  "confined c cx out \<longleftrightarrow>
     cl_role (fst out) = cl_role c \<and> cl_connection (fst out) = cl_connection c \<and>
     (cl_role c = Master \<or> snd out = cx) \<and>
     (cl_role c = FileDownload \<or> cl_download (fst out) = cl_download c) \<and>
     (cl_role c = FileUpload \<or> cl_upload (fst out) = cl_upload c)"

lemma confined_simps [simp]:
  "confined c cx (c, cx)"
  "cl_role c = FileDownload \<Longrightarrow> confined c cx (handle_file_chunk b m c, cx)"
  "cl_role c = FileDownload \<Longrightarrow> confined c cx (handle_file_details m c, cx)"
  "cl_role c = FileDownload \<Longrightarrow> confined c cx (handle_file_error m c, cx)"
  "cl_role c = FileUpload \<Longrightarrow> confined c cx (handle_server_ready c, cx)"
  "cl_role c = FileUpload \<Longrightarrow> confined c cx (handle_file_upload_error m c, cx)"
  "cl_role c = FileUpload \<Longrightarrow> confined c cx (handle_file_upload_complete c, cx)"
  by (simp_all add: confined_def)

lemma confined_master: "cl_role c = Master \<Longrightarrow> queues_only c (fst out) \<Longrightarrow> confined c cx out"
  by (simp add: confined_def queues_only_frame)

lemma confined_dispatch: "confined c cx (dispatch_message D ev m c cx)"
  by (simp add: dispatch_message_def Let_def confined_master)

text \<open>C20: the role of a connection confines what its messages can do, whatever their id: only a master
  cluster's messages reach the database and the waiting file-list requests, only a download
  connection's reach a download state and only an upload connection's an upload state; no message
  changes the role or the connection.\<close>

theorem message_role_confined: "confined c cx (handle_message D ev m c cx)"
proof (cases "cl_role c = Master \<and> cl_has_context c")
  case True
  then show ?thesis
    using db_message_queues_only [of c D "cx_db cx" m]
    by (simp add: handle_message_def case_prod_beta confined_dispatch confined_master
        split: bool.split)
next
  case False
  then show ?thesis by (auto simp: handle_message_def confined_dispatch)
qed

section \<open>File lists on the wire\<close>

definition file_entry_enc :: "file_info \<Rightarrow> bytes" where
  "file_entry_enc f =
     prefixed (str_bytes (file_name f)) @ [if is_directory f then 1 else 0] @ to_le 8 (unat (file_size f))"

text \<open>Permissions are not sent.\<close>

definition file_entry_ok :: "file_info \<Rightarrow> bool" where
  "file_entry_ok f \<longleftrightarrow> is_rust_string (file_name f) \<and> permissions f = 0"

lemma file_entry_enc_length: "17 \<le> length (file_entry_enc f)"
  by (simp add: file_entry_enc_def prefixed_def)

lemma parse_file_entries_at_rest:
  assumes "\<forall>f \<in> set fs. file_entry_ok f" "at_rest m (concat (map file_entry_enc fs) @ rest)"
    "length fs \<le> n" "length fs = n \<or> length rest < 17"
  shows "parse_file_entries n m = fs"
  using assms
proof (induction fs arbitrary: n m)
  case Nil
  have "remaining m = length rest" using at_rest_remaining [OF Nil.prems(2)] by simp
  then show ?case using Nil.prems(4) by (cases n) (auto simp: MIN_FILE_LIST_ENTRY_BYTES_def)
next
  case (Cons f fs)
  then obtain n' where n: "n = Suc n'" by (cases n) auto
  have ok: "is_rust_string (file_name f)" "permissions f = 0"
    using Cons.prems(1) by (auto simp: file_entry_ok_def)
  let ?tl = "concat (map file_entry_enc fs) @ rest"
  let ?e = "prefixed (str_bytes (file_name f))" and ?b = "[if is_directory f then 1 else 0 :: u8]"
  have r0: "at_rest m (?e @ (?b @ (to_le 8 (unat (file_size f)) @ ?tl)))"
    using Cons.prems(2) by (simp add: file_entry_enc_def [of f])
  note r1 = at_rest_step [OF r0 refl]
  note r2 = at_rest_step [OF r1 refl]
  note r3 = at_rest_step [OF r2 refl]
  have len: "17 \<le> remaining m" "\<not> remaining (advance (length ?e) m) < 9"
    using at_rest_remaining [OF r0] at_rest_remaining [OF r1] by (simp_all add: prefixed_def)
  let ?m3 = "advance (length (to_le 8 (unat (file_size f)))) (advance (length ?b) (advance (length ?e) m))"
  have IH: "parse_file_entries n' ?m3 = fs"
    using Cons.IH [of ?m3 n'] r3 Cons.prems(1,3,4) n by auto
  have f: "\<lparr>file_name = file_name f, file_size = file_size f, permissions = 0,
      is_directory = is_directory f\<rparr> = f"
    using ok(2) by (cases f) simp
  show ?case
    using len IH try_str.get_enc [OF ok(1) r0] pop_at_rest(3) [OF r1] pop_at_rest(2) [OF r2]
    by (simp add: n MIN_FILE_LIST_ENTRY_BYTES_def f)
qed

lemma parse_file_entries_bound:
  "msg_wf m \<Longrightarrow> length (parse_file_entries n m) \<le> n \<and> 17 * length (parse_file_entries n m) \<le> remaining m"
proof (induction n arbitrary: m)
  case (Suc n)
  show ?case
  proof (cases "remaining m < 17")
    case False
    then have long: "17 \<le> remaining m" by simp
    show ?thesis
    proof (cases "fst (try_pop_string m)")
      case None
      then show ?thesis using long by (simp add: case_prod_beta MIN_FILE_LIST_ENTRY_BYTES_def)
    next
      case (Some name)
      define m1 where "m1 = snd (try_pop_string m)"
      have p: "try_pop_string m = (Some name, m1)" using Some by (simp add: m1_def prod_eq_iff)
      have w1: "msg_wf m1" using well_behavedD(1) [OF well_behaved_try_pop_string Suc.prems p] .
      have c1: "remaining m1 + 8 \<le> remaining m"
        using p long by (auto simp: try_pop_string_def Let_def pop_ulong_def pop_le_def check_remaining_def
            split: if_splits)
      show ?thesis
      proof (cases "remaining m1 < 9")
        case True
        then show ?thesis using p long by (simp add: MIN_FILE_LIST_ENTRY_BYTES_def)
      next
        case False
        obtain d m2 where p2: "pop_bool m1 = (d, m2)" by force
        obtain s m3 where p3: "pop_ulong m2 = (s, m3)" by force
        have w2: "msg_wf m2" using well_behavedD(1) [OF well_behaved_pop_bool w1 p2] .
        have w3: "msg_wf m3" using well_behavedD(1) [OF well_behaved_pop_ulong w2 p3] .
        have c2: "remaining m2 + 1 \<le> remaining m1"
          using p2 False by (auto simp: pop_bool_def pop_ubyte_def check_remaining_def)
        have c3: "remaining m3 + 8 \<le> remaining m2"
          using p3 p2 False
          by (auto simp: pop_ulong_def pop_le_def check_remaining_def pop_bool_def pop_ubyte_def
              split: if_splits)
        show ?thesis
          using Suc.IH [OF w3] p p2 p3 False long c1 c2 c3
          by (simp add: MIN_FILE_LIST_ENTRY_BYTES_def)
      qed
    qed
  qed (simp add: MIN_FILE_LIST_ENTRY_BYTES_def)
qed simp

lemma list_response_delivers:
  assumes "cl_has_context c" "cx_file_lists cx uid = Some st" "is_rust_string uid"
    "\<forall>f \<in> set fs. file_entry_ok f"
    "at_rest m (prefixed (str_bytes uid) @ to_le 4 (unat (n :: u32)) @ concat (map file_entry_enc fs) @ rest)"
    "length fs = unat n \<or> length fs < unat n \<and> length rest < 17"
  shows "handle_file_list_response m c cx =
    (c, cx\<lparr>cx_file_lists := (cx_file_lists cx)
         (uid \<mapsto> st\<lparr>fl_files := fs, fl_data_ready := True, fl_notify := True\<rparr>)\<rparr>)"
proof -
  note r1 = at_rest_step [OF assms(5) refl]
  note r2 = request_uint [OF r1]
  have "parse_file_entries (unat n) (advance 4 (advance (length (prefixed (str_bytes uid))) m)) = fs"
    using assms(6) by (intro parse_file_entries_at_rest [OF assms(4) r2(2)]) auto
  then show ?thesis
    using assms(1,2) try_str.get_enc [OF assms(3,5)] r2
    by (simp add: handle_file_list_response_def file_list_state_for_uuid_def put_file_list_def)
qed

text \<open>A FILE_LIST response for a waiting request delivers to that request, and to no other, exactly
  the entries the client wrote, marks it ready and wakes its waiter.  This also holds when the
  count in the message claims more entries than follow and at most a partial entry is left over.\<close>

theorem file_list_delivered:
  assumes "cl_has_context c" "cx_file_lists cx uid = Some st" "is_rust_string uid"
    "\<forall>f \<in> set fs. file_entry_ok f"
    "at_rest m (prefixed (str_bytes uid) @ to_le 4 (unat (n :: u32)) @ concat (map file_entry_enc fs) @ rest)"
    "length fs = unat n \<or> length fs < unat n \<and> length rest < 17"
  shows "handle_file_list_response m c cx =
    (c, cx\<lparr>cx_file_lists := (cx_file_lists cx)
         (uid \<mapsto> st\<lparr>fl_files := fs, fl_data_ready := True, fl_notify := True\<rparr>)\<rparr>)"
  using assms by (rule list_response_delivers)

text \<open>Whatever bytes a FILE_LIST response holds, the list it produces is no longer than the count it
  claims and than a seventeenth of the bytes that are left, so a huge count cannot make the
  server allocate.\<close>

theorem file_list_bounded:
  assumes "msg_wf m"
  shows "length (parse_file_entries n m) \<le> n \<and> 17 * length (parse_file_entries n m) \<le> remaining m"
  using assms by (rule parse_file_entries_bound)

section \<open>Downloads and backpressure\<close>

definition pause_message :: "cluster \<Rightarrow> message" where
  "pause_message c = message_new PAUSE_FILE_CHUNK_STREAM Highest (case cl_uuid c of None \<Rightarrow> '''' | Some u \<Rightarrow> u)"

text \<open>What holds of a download connection between messages: the stream has been paused, with one
  PAUSE queued, or the bytes waiting for the HTTP client are within the limit.\<close>

definition download_inv :: "u64 \<Rightarrow> string option \<Rightarrow> cluster \<Rightarrow> bool" where
  "download_inv limit uid c \<longleftrightarrow>
     cluster_wf c \<and> cl_role c = FileDownload \<and> cl_uuid c = uid \<and>
     (case cl_download c of
        None \<Rightarrow> False
      | Some st \<Rightarrow>
          fd_receiver_alive st \<and>
          (fd_client_paused st \<or> saturating_sub (fd_received_bytes st) (fd_sent_bytes st) \<le> limit) \<and>
          queue_view c Highest '''' = (if fd_client_paused st then [m_data (pause_message c)] else []))"

lemma cluster_wf_download [simp]:
  "cluster_wf (c\<lparr>cl_download := d\<rparr>) \<longleftrightarrow> cluster_wf c"
  "queue_view (c\<lparr>cl_download := d\<rparr>) = queue_view c"
  "cluster_wf (c\<lparr>cl_upload := u\<rparr>) \<longleftrightarrow> cluster_wf c"
  "queue_view (c\<lparr>cl_upload := u\<rparr>) = queue_view c"
  by (simp_all add: cluster_wf_def queue_view_def fun_eq_iff)

lemma pause_message_frame [simp]: "pause_message (c\<lparr>cl_download := d\<rparr>) = pause_message c"
  by (simp add: pause_message_def)

lemma download_inv_chunk:
  assumes "download_inv limit uid c"
  shows "download_inv limit uid (handle_file_chunk limit m c)"
proof -
  from assms obtain st where inv: "cluster_wf c" "cl_role c = FileDownload" "cl_uuid c = uid"
      "cl_download c = Some st" "fd_receiver_alive st"
      "fd_client_paused st \<or> saturating_sub (fd_received_bytes st) (fd_sent_bytes st) \<le> limit"
      "queue_view c Highest '''' = (if fd_client_paused st then [m_data (pause_message c)] else [])"
    by (auto simp: download_inv_def split: option.splits)
  show ?thesis
  proof (cases "fst (try_pop_bytes m)")
    case None
    then show ?thesis
      using inv by (simp add: download_inv_def handle_file_chunk_def case_prod_beta
          record_download_error_def pause_message_def)
  next
    case (Some chunk)
    let ?rec = "fd_received_bytes st + word_of_nat (length chunk)"
    show ?thesis
    proof (cases "\<not> fd_client_paused st \<and> limit < saturating_sub ?rec (fd_sent_bytes st)")
      case True
      then show ?thesis
        using inv Some send_internal_wf [OF inv(1)]
        by (simp add: download_inv_def handle_file_chunk_def case_prod_beta Let_def pause_message_def
            split: option.splits)
    next
      case False
      then show ?thesis
        using inv Some
        by (auto simp: download_inv_def handle_file_chunk_def case_prod_beta Let_def pause_message_def)
    qed
  qed
qed

lemma download_inv_details:
  assumes "download_inv limit uid c"
  shows "download_inv limit uid (handle_file_details m c)"
  using assms
  by (auto simp: download_inv_def handle_file_details_def case_prod_beta record_download_error_def
      split: option.splits)

lemma download_inv_error:
  assumes "download_inv limit uid c"
  shows "download_inv limit uid (handle_file_error m c)"
  using assms
  by (auto simp: download_inv_def handle_file_error_def record_download_error_def split: option.splits)

lemma download_inv_message:
  assumes "download_inv (ev_max_file_buffer ev) uid c"
  shows "download_inv (ev_max_file_buffer ev) uid (fst (handle_message D ev m c cx))"
proof -
  have "cl_role c = FileDownload" using assms by (simp add: download_inv_def)
  then show ?thesis
    using assms download_inv_chunk [OF assms] download_inv_details [OF assms] download_inv_error [OF assms]
    by (simp add: handle_message_def dispatch_message_def Let_def)
qed

definition handle_messages ::
    "'db database \<Rightarrow> env \<Rightarrow> message list \<Rightarrow> cluster \<times> 'db app_context \<Rightarrow> cluster \<times> 'db app_context" where
  "handle_messages D ev ms out = foldl (\<lambda>(c, cx) m. handle_message D ev m c cx) out ms"

lemma handle_messages_simps [simp]:
  "handle_messages D ev [] out = out"
  "handle_messages D ev (m # ms) (c, cx) = handle_messages D ev ms (handle_message D ev m c cx)"
  by (simp_all add: handle_messages_def)

text \<open>C21: backpressure.  After any messages whatsoever on a new download connection, either the bytes
  buffered for the HTTP client do not exceed the limit and no PAUSE was queued, or the stream is
  marked as paused and exactly one PAUSE for it has been queued.\<close>

theorem download_backpressure:
  "download_inv (ev_max_file_buffer ev) (Some uid)
     (fst (handle_messages D ev ms
        (cluster_new_file_download details uid file_download_state_new has_context, cx)))"
proof -
  have run: "download_inv (ev_max_file_buffer ev) u (fst out) \<Longrightarrow>
      download_inv (ev_max_file_buffer ev) u (fst (handle_messages D ev ms out))" for u out
  proof (induction ms arbitrary: out)
    case (Cons m ms)
    obtain c cx where out: "out = (c, cx)" by force
    have "download_inv (ev_max_file_buffer ev) u (fst (handle_message D ev m c cx))"
      using Cons.prems out by (simp add: download_inv_message)
    from Cons.IH [OF this] show ?case by (simp add: out)
  qed simp
  show ?thesis
    by (rule run) (simp add: download_inv_def cluster_new_file_download_def file_download_state_new_def
        saturating_sub_def)
qed

text \<open>The chunks that arrive on a download connection are forwarded to the HTTP side complete and in
  order, and the count of received bytes grows by their total length.\<close>

theorem download_chunks_in_order:
  assumes "list_all2 (\<lambda>m chunk. m_id m = FILE_CHUNK \<and> fst (try_pop_bytes m) = Some chunk) ms chunks"
    "cl_role c = FileDownload" "cl_download c = Some st" "fd_receiver_alive st"
  shows "\<exists>st'. cl_download (fst (handle_messages D ev ms (c, cx))) = Some st' \<and>
    fd_chunks st' = fd_chunks st @ chunks \<and>
    fd_received_bytes st' = fd_received_bytes st + word_of_nat (length (concat chunks))"
  using assms
proof (induction ms arbitrary: chunks c st)
  case Nil
  then show ?case by simp
next
  case (Cons m ms)
  then obtain chunk rest where ch: "chunks = chunk # rest" "m_id m = FILE_CHUNK"
      "fst (try_pop_bytes m) = Some chunk"
      "list_all2 (\<lambda>m chunk. m_id m = FILE_CHUNK \<and> fst (try_pop_bytes m) = Some chunk) ms rest"
    by (auto simp: list_all2_Cons1)
  let ?c = "handle_file_chunk (ev_max_file_buffer ev) m c"
  have h: "handle_message D ev m c cx = (?c, cx)"
    using Cons.prems(2) ch(2) by (simp add: handle_message_def dispatch_message_def wire_simps)
  obtain st1 where st1: "cl_download ?c = Some st1" "fd_chunks st1 = fd_chunks st @ [chunk]"
      "fd_received_bytes st1 = fd_received_bytes st + word_of_nat (length chunk)" "fd_receiver_alive st1"
    using Cons.prems(3,4) ch(3) by (simp add: handle_file_chunk_def Let_def case_prod_beta)
  have "cl_role ?c = FileDownload" using Cons.prems(2) by simp
  from Cons.IH [OF ch(4) this st1(1,4)] st1(2,3) h ch(1) show ?case
    by (auto simp: add.assoc)
qed

definition waiter_woken :: "cluster \<Rightarrow> bool" where
  "waiter_woken c \<longleftrightarrow>
     (case cl_download c of None \<Rightarrow> True | Some st \<Rightarrow> fd_data_ready st \<and> fd_data_notify st) \<and>
     (case cl_upload c of None \<Rightarrow> True | Some st \<Rightarrow> fu_data_ready st \<and> fu_data_notify st)"

text \<open>No message about a transfer leaves its waiter asleep: on every path, truncated messages
  included, a download or upload connection ends with the data flag set and the notification
  stored.\<close>

theorem transfer_message_wakes:
  assumes "cl_role c = FileDownload \<and> cl_upload c = None \<and> m_id m \<in> {FILE_CHUNK, FILE_DETAILS, FILE_ERROR} \<or>
    cl_role c = FileUpload \<and> cl_download c = None \<and>
      m_id m \<in> {SERVER_READY, FILE_UPLOAD_ERROR, FILE_UPLOAD_COMPLETE}"
  shows "waiter_woken (fst (handle_message D ev m c cx))"
proof -
  have d: "cl_upload c = None \<Longrightarrow> waiter_woken (handle_file_chunk b m c)"
    "cl_upload c = None \<Longrightarrow> waiter_woken (handle_file_details m c)"
    "cl_upload c = None \<Longrightarrow> waiter_woken (handle_file_error m c)" for b
    by (simp_all add: waiter_woken_def handle_file_chunk_def handle_file_details_def handle_file_error_def
        record_download_error_def Let_def case_prod_beta split: option.split)
  have u: "cl_download c = None \<Longrightarrow> waiter_woken (handle_server_ready c)"
    "cl_download c = None \<Longrightarrow> waiter_woken (handle_file_upload_error m c)"
    "cl_download c = None \<Longrightarrow> waiter_woken (handle_file_upload_complete c)"
    by (simp_all add: waiter_woken_def handle_server_ready_def handle_file_upload_error_def
        handle_file_upload_complete_def record_upload_error_def split: option.split)
  from assms show ?thesis
    by (elim disjE conjE insertE emptyE)
      (simp_all add: handle_message_def dispatch_message_def wire_simps d u)
qed

section \<open>Job updates and the cached file list\<close>

abbreviation history_table_laws ::
    "'db database \<Rightarrow> ('db \<Rightarrow> job_history_row list) \<Rightarrow> bool" where
  "history_table_laws D rows \<equiv> table_laws (db_histories D) rows jh_id (\<lambda>i r. r\<lparr>jh_id := i\<rparr>)"

abbreviation file_cache_laws ::
    "'db database \<Rightarrow> ('db \<Rightarrow> file_list_cache_row list) \<Rightarrow> bool" where
  "file_cache_laws D rows \<equiv> table_laws (db_file_list_cache D) rows flc_id (\<lambda>i r. r\<lparr>flc_id := i\<rparr>)"

lemma cache_on_completion_db [simp]:
  "cx_db (snd (cache_file_list_on_completion D ev jid c cx)) = cx_db cx"
  by (simp add: cache_file_list_on_completion_def Let_def split: option.split)

text \<open>A complete UPDATE_JOB with a known status appends exactly one history row, with the job, source,
  status and details of the message and the present time, or none when the insertion fails; with
  an unknown status it changes nothing at all.\<close>

theorem update_job_recorded:
  assumes "history_table_laws D rows" "cl_has_context c" "is_rust_string what" "is_rust_string details"
    "at_rest m (to_le 4 (unat (jid :: u32)) @ prefixed (str_bytes what) @ to_le 4 (unat (status :: u32)) @
       prefixed (str_bytes details) @ rest)"
  shows "if known_status status
    then (let db' = cx_db (snd (handle_update_job D ev m c cx)) in
      rows db' = rows (cx_db cx) \<or>
      (\<exists>i. i \<notin> jh_id ` set (rows (cx_db cx)) \<and>
        set (rows db') = insert \<lparr>jh_id = i, jh_job_id = ucast jid, jh_timestamp = ev_now ev,
          jh_what = what, jh_state = status, jh_details = details\<rparr> (set (rows (cx_db cx)))))
    else handle_update_job D ev m c cx = (c, cx)"
proof -
  note r1 = request_uint [OF assms(5)]
  note p2 = try_str.get_enc [OF assms(3) r1(2)]
  note r2 = at_rest_step [OF r1(2) refl]
  note r3 = request_uint [OF r2]
  note p4 = try_str.get_enc [OF assms(4) r3(2)]
  let ?row = "\<lparr>jh_id = 0, jh_job_id = ucast jid, jh_timestamp = ev_now ev, jh_what = what,
    jh_state = status, jh_details = details\<rparr>"
  obtain res db' where ins: "tb_insert (db_histories D) (cx_db cx) ?row = (res, db')" by force
  have long: "\<not> remaining (advance (length (prefixed (str_bytes what))) (advance 4 m)) < 4"
    using r3(3) by simp
  show ?thesis
  proof (cases "known_status status")
    case True
    then have "\<not> isl (job_status_try_from status)"
      by (simp add: known_status_def)
    then have db: "cx_db (snd (handle_update_job D ev m c cx)) = db'"
      using r1(1) p2 r3(1) p4 long assms(2) ins by (simp add: handle_update_job_def Let_def)
    show ?thesis
    proof (cases res)
      case (Inl e)
      then show ?thesis
        using True db table_laws.insert_err [OF assms(1) ins [unfolded Inl]] by simp
    next
      case (Inr r)
      have r: "?row\<lparr>jh_id := jh_id r\<rparr> = r" and fresh: "jh_id r \<notin> jh_id ` set (rows (cx_db cx))"
        and rows': "set (rows db') = insert r (set (rows (cx_db cx)))"
        using table_laws.insert_ok [OF assms(1) ins [unfolded Inr]] by simp_all
      have "set (rows db') = insert (?row\<lparr>jh_id := jh_id r\<rparr>) (set (rows (cx_db cx)))"
        unfolding r by (rule rows')
      then show ?thesis
        using True db fresh unfolding Let_def job_history_row.update_convs by auto
    qed
  next
    case False
    then have "isl (job_status_try_from status)"
      by (simp add: known_status_def)
    then show ?thesis
      using r1(1) p2 r3(1) p4 long assms(2) False by (simp add: handle_update_job_def Let_def)
  qed
qed

text \<open>The files the cache holds for a job, and the rows of other jobs.\<close>

definition cached_files :: "i64 \<Rightarrow> file_list_cache_row set \<Rightarrow> (string \<times> bool \<times> i64 \<times> i32) set" where
  "cached_files jid rs =
     (\<lambda>r. (flc_path r, flc_is_dir r, flc_file_size r, flc_permissions r)) ` {r \<in> rs. flc_job_id r = jid}"

definition file_columns :: "file_info \<Rightarrow> string \<times> bool \<times> i64 \<times> i32" where
  "file_columns f = (file_name f, is_directory f, file_size f, permissions f)"

lemma insert_files_rows:
  assumes laws: "file_cache_laws D rows"
  shows "insert_files D jid fs db = (Inr u, db') \<Longrightarrow>
    cached_files jid (set (rows db')) = cached_files jid (set (rows db)) \<union> file_columns ` set fs \<and>
    {r \<in> set (rows db'). flc_job_id r \<noteq> jid} = {r \<in> set (rows db). flc_job_id r \<noteq> jid}"
proof (induction fs arbitrary: db)
  case Nil
  then show ?case by simp
next
  case (Cons f fs)
  let ?row = "\<lparr>flc_id = 0, flc_job_id = jid, flc_path = file_name f, flc_is_dir = is_directory f,
    flc_file_size = file_size f, flc_permissions = permissions f\<rparr>"
  obtain res db1 where ins: "tb_insert (db_file_list_cache D) db ?row = (res, db1)" by force
  with Cons.prems obtain r where r: "res = Inr r" by (cases res) auto
  have rest: "insert_files D jid fs db1 = (Inr u, db')" using Cons.prems ins r by simp
  have row: "?row\<lparr>flc_id := flc_id r\<rparr> = r" and rows1: "set (rows db1) = insert r (set (rows db))"
    using table_laws.insert_ok [OF laws ins [unfolded r]] by simp_all
  have job: "flc_job_id r = jid"
    "(flc_path r, flc_is_dir r, flc_file_size r, flc_permissions r) = file_columns f"
    by (subst row [symmetric], simp add: file_columns_def)+
  have "cached_files jid (set (rows db1)) = insert (file_columns f) (cached_files jid (set (rows db)))"
    unfolding cached_files_def rows1 job(2) [symmetric] using job(1) by auto
  moreover have "{r \<in> set (rows db1). flc_job_id r \<noteq> jid} = {r \<in> set (rows db). flc_job_id r \<noteq> jid}"
    unfolding rows1 using job(1) by auto
  ultimately show ?case using Cons.IH [OF rest] by auto
qed

lemma replace_file_list_rows:
  assumes laws: "file_cache_laws D rows"
    and "\<And>db t. db_begin D db = Inr t \<Longrightarrow> rows t = rows db"
    and "\<And>t db. db_commit D t = Inr db \<Longrightarrow> rows db = rows t"
  shows "replace_file_list D db jid files = db \<or>
    cached_files jid (set (rows (replace_file_list D db jid files))) = file_columns ` set files \<and>
    {r \<in> set (rows (replace_file_list D db jid files)). flc_job_id r \<noteq> jid} =
      {r \<in> set (rows db). flc_job_id r \<noteq> jid}"
proof (cases "db_begin D db")
  case (Inl e)
  then show ?thesis by (simp add: replace_file_list_def transaction_def)
next
  case (Inr t)
  obtain dres t1 where del: "tb_delete (db_file_list_cache D) t (\<lambda>r. flc_job_id r = jid) = (dres, t1)"
    by force
  show ?thesis
  proof (cases dres)
    case (Inl e)
    then show ?thesis using Inr del by (simp add: replace_file_list_def transaction_def)
  next
    case dok: (Inr u)
    obtain ires t2 where ins: "insert_files D jid files t1 = (ires, t2)" by force
    show ?thesis
    proof (cases ires)
      case (Inl e)
      then show ?thesis using Inr del dok ins by (simp add: replace_file_list_def transaction_def)
    next
      case iok: (Inr v)
      show ?thesis
      proof (cases "db_commit D t2")
        case (Inl e)
        then show ?thesis using Inr del dok ins iok by (simp add: replace_file_list_def transaction_def)
      next
        case cok: (Inr db')
        have "replace_file_list D db jid files = db'"
          using Inr del dok ins iok cok by (simp add: replace_file_list_def transaction_def)
        moreover have "set (rows t1) = {r \<in> set (rows db). flc_job_id r \<noteq> jid}"
          using table_laws.delete_ok [OF laws del [unfolded dok]] assms(2) [OF Inr] by simp
        moreover have "cached_files jid {r \<in> set (rows db). flc_job_id r \<noteq> jid} = {}"
          by (auto simp: cached_files_def)
        moreover note insert_files_rows [OF laws ins [unfolded iok]] assms(3) [OF cok]
        ultimately show ?thesis by auto
      qed
    qed
  qed
qed

text \<open>Caching a file list is atomic: either the database is as before, or the cache holds for the job
  exactly the listed files and for every other job what it held before.\<close>

theorem replace_file_list_atomic:
  assumes laws: "file_cache_laws D rows"
    and "\<And>db t. db_begin D db = Inr t \<Longrightarrow> rows t = rows db"
    and "\<And>t db. db_commit D t = Inr db \<Longrightarrow> rows db = rows t"
  shows "replace_file_list D db jid files = db \<or>
    cached_files jid (set (rows (replace_file_list D db jid files))) = file_columns ` set files \<and>
    {r \<in> set (rows (replace_file_list D db jid files)). flc_job_id r \<noteq> jid} =
      {r \<in> set (rows db). flc_job_id r \<noteq> jid}"
  using assms by (rule replace_file_list_rows)

section \<open>Resending\<close>

abbreviation jobs_table_laws :: "'db database \<Rightarrow> ('db \<Rightarrow> job_row list) \<Rightarrow> bool" where
  "jobs_table_laws D rows \<equiv> table_laws (db_jobs D) rows job_id (\<lambda>i r. r\<lparr>job_id := i\<rparr>)"

text \<open>A history row is the latest of its job when none of the job's rows has a later time, or the same
  time and a greater key.\<close>

definition history_before :: "job_history_row \<Rightarrow> job_history_row \<Rightarrow> bool" where
  "history_before h h' \<longleftrightarrow>
     jh_timestamp h < jh_timestamp h' \<or> jh_timestamp h = jh_timestamp h' \<and> sint (jh_id h) \<le> sint (jh_id h')"

definition latest_history :: "job_history_row set \<Rightarrow> i64 \<Rightarrow> job_history_row \<Rightarrow> bool" where
  "latest_history hs jid h \<longleftrightarrow>
     h \<in> hs \<and> jh_job_id h = jid \<and> (\<forall>h' \<in> hs. jh_job_id h' = jid \<longrightarrow> history_before h' h)"

lemma latest_per_job_find:
  "latest_per_job hs jid = find (\<lambda>h. jh_job_id h = jid) hs"
proof -
  have "foldl (\<lambda>latest h. if latest (jh_job_id h) = None then latest(jh_job_id h \<mapsto> h) else latest) m hs jid =
      (case m jid of None \<Rightarrow> find (\<lambda>h. jh_job_id h = jid) hs | Some h \<Rightarrow> Some h)" for m
    by (induction hs arbitrary: m) (auto split: option.split)
  then show ?thesis by (simp add: latest_per_job_def)
qed

lemma find_sorted_latest:
  assumes "sorted_wrt (\<lambda>a b. history_before b a) hs"
  shows "find (\<lambda>h. jh_job_id h = jid) hs = Some h \<Longrightarrow> latest_history (set hs) jid h"
    and "find (\<lambda>h. jh_job_id h = jid) hs = None \<Longrightarrow> \<not> latest_history (set hs) jid h'"
proof -
  show "find (\<lambda>h. jh_job_id h = jid) hs = None \<Longrightarrow> \<not> latest_history (set hs) jid h'"
    by (auto simp: find_None_iff latest_history_def)
  show "find (\<lambda>h. jh_job_id h = jid) hs = Some h \<Longrightarrow> latest_history (set hs) jid h"
    using assms
  proof (induction hs)
    case (Cons x hs)
    show ?case
    proof (cases "jh_job_id x = jid")
      case True
      with Cons.prems show ?thesis
        by (auto simp: latest_history_def history_before_def)
    next
      case False
      with Cons show ?thesis by (auto simp: latest_history_def)
    qed
  qed simp
qed

lemma latest_history_unique:
  assumes "inj_on jh_id hs" "latest_history hs jid h" "latest_history hs jid h'"
  shows "h = h'"
proof -
  from assms(2,3) have "history_before h h'" "history_before h' h" "h \<in> hs" "h' \<in> hs"
    by (auto simp: latest_history_def)
  then have "sint (jh_id h) = sint (jh_id h')" by (auto simp: history_before_def)
  then have "jh_id h = jh_id h'" by (rule signed_word_eqI)
  with assms(1) \<open>h \<in> hs\<close> \<open>h' \<in> hs\<close> show ?thesis by (auto dest: inj_onD)
qed

text \<open>What is due: the latest row of the job is old enough and in one of the states.\<close>

definition resend_due :: "job_history_row set \<Rightarrow> int \<Rightarrow> i32 list \<Rightarrow> job_row \<Rightarrow> bool" where
  "resend_due hs cutoff states j \<longleftrightarrow>
     (\<exists>h. latest_history hs (job_id j) h \<and> jh_timestamp h \<le> cutoff \<and> jh_state h \<in> set states)"

lemma due_for_resend_iff:
  assumes "sorted_wrt (\<lambda>a b. history_before b a) hs" "inj_on jh_id (set hs)"
  shows "due_for_resend hs cutoff states j \<longleftrightarrow> resend_due (set hs) cutoff states j"
proof (cases "find (\<lambda>h. jh_job_id h = job_id j) hs")
  case None
  then show ?thesis
    using find_sorted_latest(2) [OF assms(1) None]
    by (simp add: due_for_resend_def resend_due_def latest_per_job_find)
next
  case (Some h)
  note l = find_sorted_latest(1) [OF assms(1) Some]
  have due: "due_for_resend hs cutoff states j \<longleftrightarrow> jh_timestamp h \<le> cutoff \<and> jh_state h \<in> set states"
    using Some by (simp add: due_for_resend_def latest_per_job_find)
  show ?thesis
  proof
    assume "due_for_resend hs cutoff states j"
    with l due show "resend_due (set hs) cutoff states j" unfolding resend_due_def by blast
  next
    assume "resend_due (set hs) cutoff states j"
    then obtain h' where h': "latest_history (set hs) (job_id j) h'" "jh_timestamp h' \<le> cutoff"
        "jh_state h' \<in> set states" unfolding resend_due_def by blast
    have "h = h'" using latest_history_unique [OF assms(2) l h'(1)] .
    with h' due show "due_for_resend hs cutoff states j" by simp
  qed
qed

lemma latest_history_filter:
  assumes "jid \<in> ids"
  shows "latest_history {h \<in> hs. jh_job_id h \<in> ids} jid h \<longleftrightarrow> latest_history hs jid h"
  using assms by (auto simp: latest_history_def)

lemma resend_due_filter:
  "job_id j \<in> ids \<Longrightarrow> resend_due {h \<in> hs. jh_job_id h \<in> ids} cutoff states j \<longleftrightarrow> resend_due hs cutoff states j"
  by (simp add: resend_due_def latest_history_filter)

definition resend_frames :: "u32 \<Rightarrow> bool \<Rightarrow> string \<Rightarrow> job_row \<Rightarrow> bytes list" where
  "resend_frames i full name j =
     (case resend_message i full name j of None \<Rightarrow> [] | Some msg \<Rightarrow> [m_data msg])"

lemma resend_message_priority: "resend_message i full name j = Some msg \<Longrightarrow> m_priority msg = Medium"
  by (auto simp: resend_message_def Let_def split: option.splits if_splits)

lemma resend_one_queue:
  assumes "cluster_wf c"
  shows "cluster_wf (resend_one hs cutoff states i full j c)"
    and "cluster_name (resend_one hs cutoff states i full j c) = cluster_name c"
    and "queue_view (resend_one hs cutoff states i full j c) p s = queue_view c p s @
      (if p = Medium \<and> s = '''' \<and> due_for_resend hs cutoff states j
       then resend_frames i full (cluster_name c) j else [])"
  using send_internal_wf [OF assms] resend_message_priority [of i full "cluster_name c" j] assms
  by (auto simp: resend_one_def resend_frames_def cluster_name_def split: option.split)

lemma resend_fold_queue:
  assumes "cluster_wf c"
  shows "queue_view (fold (resend_one hs cutoff states i full) jobs c) p s = queue_view c p s @
      (if p = Medium \<and> s = '''' then
         concat (map (resend_frames i full (cluster_name c)) (filter (due_for_resend hs cutoff states) jobs))
       else [])"
  using assms
proof (induction jobs arbitrary: c)
  case (Cons j jobs)
  note r = resend_one_queue [OF Cons.prems, of hs cutoff states i full j]
  show ?case
    using Cons.IH [OF r(1)] r(2,3) by simp
qed simp

lemma resend_queue:
  assumes "jobs_table_laws D jrows" "history_table_laws D hrows" "cluster_wf c" "is_online c" "cl_has_context c"
    "tb_all (db_jobs D) db (\<lambda>j. job_cluster j = cluster_name c) = Inr jobs"
    "tb_all_desc (db_histories D) db (\<lambda>h. jh_job_id h \<in> set (map job_id jobs))
       (\<lambda>h. (jh_timestamp h, sint (jh_id h))) = Inr hs"
    "inj_on jh_id (set (hrows db))"
  shows "set jobs = {j \<in> set (jrows db). job_cluster j = cluster_name c} \<and>
    queue_view (check_resend_jobs D db cutoff states i full c) p s = queue_view c p s @
      (if p = Medium \<and> s = '''' then
         concat (map (resend_frames i full (cluster_name c))
           (filter (resend_due (set (hrows db)) cutoff states) jobs))
       else [])"
proof -
  have jobs: "set jobs = {j \<in> set (jrows db). job_cluster j = cluster_name c}"
    using table_laws.all_rows [OF assms(1,6)] .
  have hs: "set hs = {h \<in> set (hrows db). jh_job_id h \<in> set (map job_id jobs)}"
    and sorted: "sorted_wrt (\<lambda>a b. history_before b a) hs"
    using table_laws.all_desc_rows [OF assms(2,7)] unfolding history_before_def by simp_all
  have inj: "inj_on jh_id (set hs)"
    using assms(8) by (rule inj_on_subset) (auto simp: hs)
  have "due_for_resend hs cutoff states j = resend_due (set (hrows db)) cutoff states j" if "j \<in> set jobs" for j
    using that unfolding due_for_resend_iff [OF sorted inj] hs
    by (intro resend_due_filter) simp
  then have due: "filter (due_for_resend hs cutoff states) jobs =
      filter (resend_due (set (hrows db)) cutoff states) jobs"
    by (rule filter_cong [OF refl])
  have "check_resend_jobs D db cutoff states i full c = fold (resend_one hs cutoff states i full) jobs c"
    using assms(4-7) by (cases "jobs = []") (simp_all add: check_resend_jobs_def Let_def)
  then show ?thesis
    using jobs resend_fold_queue [OF assms(3), of hs cutoff states i full jobs p s] unfolding due by simp
qed

text \<open>C26: resending is exact.  On an online cluster whose queries succeed, a resend check queues one
  message, at medium priority under the empty source, for each of the cluster's jobs whose latest
  history row is at or before the cut-off and in one of the wanted states, and for no other job;
  nothing else is queued.  Jobs whose id does not fit the wire are skipped.\<close>

theorem resend_exact:
  assumes "jobs_table_laws D jrows" "history_table_laws D hrows" "cluster_wf c" "is_online c" "cl_has_context c"
    "tb_all (db_jobs D) db (\<lambda>j. job_cluster j = cluster_name c) = Inr jobs"
    "tb_all_desc (db_histories D) db (\<lambda>h. jh_job_id h \<in> set (map job_id jobs))
       (\<lambda>h. (jh_timestamp h, sint (jh_id h))) = Inr hs"
    "inj_on jh_id (set (hrows db))"
  shows "set jobs = {j \<in> set (jrows db). job_cluster j = cluster_name c} \<and>
    queue_view (check_resend_jobs D db cutoff states i full c) p s = queue_view c p s @
      (if p = Medium \<and> s = '''' then
         concat (map (resend_frames i full (cluster_name c))
           (filter (resend_due (set (hrows db)) cutoff states) jobs))
       else [])"
  by (rule resend_queue [OF assms])

section \<open>Examples\<close>

definition demo_context :: "mem_db app_context" where
  "demo_context =
     \<lparr>cx_db = demo_db, cx_file_lists = [''u'' \<mapsto> file_list_state_new], cx_cache_tasks = []\<rparr>"

definition demo_env :: env where
  "demo_env = \<lparr>ev_now = 1000, ev_cutoff = 940, ev_uuid = ''v'', ev_max_file_buffer = 50\<rparr>"

definition demo_download :: cluster where
  "demo_download = cluster_new_file_download demo_config ''dl'' file_download_state_new True"

definition demo_file :: file_info where
  "demo_file = \<lparr>file_name = ''a'', file_size = 3, permissions = 0, is_directory = False\<rparr>"

lemma demo_fields [simp]:
  "cl_has_context demo_cluster" "cl_role demo_cluster = Master" "cl_role demo_download = FileDownload"
  "cl_upload demo_download = None" "cl_download demo_download = Some file_download_state_new"
  "cluster_wf demo_cluster"
  by (simp_all add: demo_cluster_def demo_download_def cluster_new_file_download_def)

lemma rust_literals [simp]:
  "is_rust_string ''u''" "is_rust_string ''a''" "is_rust_string ''system''" "is_rust_string ''all done''"
  by (simp_all add: is_rust_string_def str_bytes_def byte_of_char_def)

theorem file_list_delivered_witness:
  "handle_file_list_response (request_of FILE_LIST (prefixed (str_bytes ''u'') @ to_le 4 (unat (9 :: u32)) @
      concat (map file_entry_enc [demo_file]) @ [1, 2])) demo_cluster demo_context =
   (demo_cluster, demo_context\<lparr>cx_file_lists := (cx_file_lists demo_context)
      (''u'' \<mapsto> file_list_state_new\<lparr>fl_files := [demo_file], fl_data_ready := True, fl_notify := True\<rparr>)\<rparr>)"
  by (rule file_list_delivered [OF _ _ _ _ request_of(2)])
    (simp_all add: demo_context_def demo_file_def file_entry_ok_def)

theorem file_list_bounded_witness:
  "17 * length (parse_file_entries 4000000 (request_of FILE_LIST [1, 2, 3])) \<le> 3"
proof -
  have "msg_wf (request_of FILE_LIST [1, 2, 3])"
    using request_of(2) [of FILE_LIST "[1, 2, 3]"] by (simp add: at_rest_def)
  from file_list_bounded [OF this, of 4000000] show ?thesis by (simp add: request_of_remaining)
qed

theorem download_chunks_in_order_witness:
  "\<exists>st'. cl_download (fst (handle_messages mem_database demo_env
      [request_of FILE_CHUNK (prefixed [1, 2] @ []), request_of FILE_CHUNK (prefixed [3] @ [])]
      (demo_download, demo_context))) = Some st' \<and>
    fd_chunks st' = fd_chunks file_download_state_new @ [[1, 2], [3]] \<and>
    fd_received_bytes st' = fd_received_bytes file_download_state_new + word_of_nat (length (concat [[1, 2], [3 :: u8]]))"
proof (rule download_chunks_in_order)
  have "try_pop_bytes (request_of FILE_CHUNK (prefixed bs @ [])) =
      (Some bs, advance (length (prefixed bs)) (request_of FILE_CHUNK (prefixed bs @ [])))"
    if "length bs < 2 ^ 64" for bs
    using that request_of(2) by (rule try_byte_seq.get_enc)
  from this [of "[1, 2]"] this [of "[3]"]
  show "list_all2 (\<lambda>m chunk. m_id m = FILE_CHUNK \<and>
      fst (try_pop_bytes m) = Some chunk)
    [request_of FILE_CHUNK (prefixed [1, 2] @ []), request_of FILE_CHUNK (prefixed [3] @ [])] [[1, 2], [3]]"
    by simp
qed (simp_all add: file_download_state_new_def)

theorem transfer_message_wakes_witness:
  "waiter_woken (fst (handle_message mem_database demo_env (request_of FILE_CHUNK [9]) demo_download demo_context))"
  by (rule transfer_message_wakes) simp

theorem update_job_recorded_witness:
  "let m = request_of UPDATE_JOB (to_le 4 (unat (8 :: u32)) @ prefixed (str_bytes ''system'') @
      to_le 4 (unat (500 :: u32)) @ prefixed (str_bytes ''all done'') @ []);
    db' = cx_db (snd (handle_update_job mem_database demo_env m demo_cluster demo_context)) in
    mt_rows (m_histories db') = mt_rows (m_histories demo_db) \<or>
    (\<exists>i. i \<notin> jh_id ` set (mt_rows (m_histories demo_db)) \<and>
      set (mt_rows (m_histories db')) = insert \<lparr>jh_id = i, jh_job_id = 8, jh_timestamp = 1000,
        jh_what = ''system'', jh_state = 500, jh_details = ''all done''\<rparr> (set (mt_rows (m_histories demo_db))))"
proof -
  have "known_status 500" unfolding known_status_iff by (rule exI [of _ Completed]) simp
  moreover have "cx_db demo_context = demo_db" "ev_now demo_env = 1000"
    by (simp_all add: demo_context_def demo_env_def)
  ultimately show ?thesis
    using update_job_recorded [OF mem_histories.table_laws_axioms demo_fields(1) rust_literals(3,4)
        request_of(2), where jid = 8 and status = 500 and rest = "[]" and ev = demo_env and cx = demo_context]
    by (simp add: Let_def)
qed

theorem replace_file_list_atomic_witness:
  "replace_file_list mem_database demo_db 8 [demo_file] = demo_db \<or>
    cached_files 8 (set (mt_rows (m_file_list_cache (replace_file_list mem_database demo_db 8 [demo_file])))) =
      file_columns ` set [demo_file] \<and>
    {r \<in> set (mt_rows (m_file_list_cache (replace_file_list mem_database demo_db 8 [demo_file]))).
        flc_job_id r \<noteq> 8} = {r \<in> set (mt_rows (m_file_list_cache demo_db)). flc_job_id r \<noteq> 8}"
  by (rule replace_file_list_atomic [OF mem_file_lists.table_laws_axioms]) (simp_all add: mem_database_def)

text \<open>A database with one submitted job whose submission is overdue.\<close>

definition demo_job_row :: job_row where
  "demo_job_row =
     \<lparr>job_id = 8, job_user = 1, job_parameters = ''p'', job_cluster = ''ozstar'', job_bundle = ''b'',
      job_application = ''app''\<rparr>"

definition demo_history_row :: job_history_row where
  "demo_history_row =
     \<lparr>jh_id = 1, jh_job_id = 8, jh_timestamp = 900, jh_what = ''system'', jh_state = 10, jh_details = ''''\<rparr>"

definition demo_jobs_db :: mem_db where
  "demo_jobs_db = demo_db\<lparr>m_jobs := \<lparr>mt_rows = [demo_job_row], mt_next = 8\<rparr>,
     m_histories := \<lparr>mt_rows = [demo_history_row], mt_next = 1\<rparr>\<rparr>"

definition demo_online :: cluster where
  "demo_online = set_connection (Some \<lparr>ch_open = True, ch_sent = []\<rparr>) demo_cluster"

theorem resend_exact_witness:
  "set [demo_job_row] = {j \<in> set (mt_rows (m_jobs demo_jobs_db)). job_cluster j = cluster_name demo_online} \<and>
   queue_view (check_resend_jobs mem_database demo_jobs_db 940 [10, 20] SUBMIT_JOB True demo_online) Medium '''' =
     queue_view demo_online Medium '''' @ (if Medium = Medium \<and> '''' = ('''' :: string) then
       concat (map (resend_frames SUBMIT_JOB True (cluster_name demo_online))
         (filter (resend_due (set (mt_rows (m_histories demo_jobs_db))) 940 [10, 20]) [demo_job_row])) else [])"
proof (rule resend_exact [OF mem_jobs.table_laws_axioms mem_histories.table_laws_axioms])
  have name: "cluster_name demo_online = ''ozstar''"
    using demo_name by (simp add: demo_online_def set_connection_def cluster_name_def)
  show "cluster_wf demo_online" "is_online demo_online" "cl_has_context demo_online"
    using demo_fields(1) set_connection_wf(1) [of "Some \<lparr>ch_open = True, ch_sent = []\<rparr>" demo_cluster]
    by (simp_all add: demo_online_def is_online_def, simp_all add: set_connection_def)
  show "tb_all (db_jobs mem_database) demo_jobs_db (\<lambda>j. job_cluster j = cluster_name demo_online) =
      Inr [demo_job_row]"
    by (simp add: mem_database_def mem_ops_def mem_select_def demo_jobs_db_def name demo_job_row_def)
  show "tb_all_desc (db_histories mem_database) demo_jobs_db
      (\<lambda>h. jh_job_id h \<in> set (map job_id [demo_job_row])) (\<lambda>h. (jh_timestamp h, sint (jh_id h))) =
      Inr [demo_history_row]"
    by (simp add: mem_database_def mem_ops_def mem_select_def demo_jobs_db_def sort_desc_def
        demo_job_row_def demo_history_row_def)
  show "inj_on jh_id (set (mt_rows (m_histories demo_jobs_db)))"
    by (simp add: demo_jobs_db_def)
qed

end
