(* ===== verification/Cluster_Manager.thy ===== *)
theory Cluster_Manager
  imports Cluster_Handlers Download_Session
begin

text \<open>
  The cluster manager (\<open>src/cluster/manager.rs\<close>): registration and authentication of WebSocket
  connections, dedicated download and upload clusters, health checks, reconnection with
  backoff, and the start of an application shutdown.

  Shared allocations (\<open>Arc\<close>) are numbers into two heaps, one of clusters and one of download
  sessions, so that pointer equality is equality of numbers and an update is seen through every
  map that holds the number.  A \<open>DashMap\<close> is an association list; its order stands for the
  unspecified iteration order.  Instants are nanoseconds.
\<close>

section \<open>Secrets\<close>

definition constant_time_eq :: "string \<Rightarrow> string \<Rightarrow> bool" where
  "constant_time_eq a b =
     (let a = str_bytes a;
          b = str_bytes b;
          len = min (length a) (length b);
          diff = (word_of_nat (length a) XOR word_of_nat (length b) :: u64);
          diff = foldl (\<lambda>diff i. diff OR ucast (a ! i XOR b ! i)) diff [0..<len]
      in diff = 0)"

section \<open>State\<close>

record 'db manager =
  mg_clusters :: "(string \<times> nat) list"
  mg_connection_map :: "(connection_id \<times> nat) list"
  mg_downloads :: "(string \<times> nat) list"
  mg_download_clusters :: "(nat \<times> nat) list"
  mg_cleanup_queue :: "cleanup_request list"
  mg_uploads :: "(string \<times> nat) list"
  mg_db :: 'db
  mg_shutdown :: bool
  mg_pong_times :: "(connection_id \<times> int) list"
  mg_ping_times :: "(connection_id \<times> int) list"
  mg_missed_pongs :: "(connection_id \<times> u32) list"
  mg_reconnect_attempts :: "string \<Rightarrow> u32 option"
  mg_last_attempt :: "string \<Rightarrow> int option"
  mg_cluster_heap :: "nat \<Rightarrow> cluster"
  mg_session_heap :: "nat \<Rightarrow> session"
  mg_next :: nat

definition with_cluster :: "nat \<Rightarrow> (cluster \<Rightarrow> cluster) \<Rightarrow> 'db manager \<Rightarrow> 'db manager" where
  "with_cluster r f mg = mg\<lparr>mg_cluster_heap := (mg_cluster_heap mg)(r := f (mg_cluster_heap mg r))\<rparr>"

definition with_session :: "nat \<Rightarrow> (session \<Rightarrow> session) \<Rightarrow> 'db manager \<Rightarrow> 'db manager" where
  "with_session r f mg = mg\<lparr>mg_session_heap := (mg_session_heap mg)(r := f (mg_session_heap mg r))\<rparr>"

definition forget_tracking :: "connection_id \<Rightarrow> 'db manager \<Rightarrow> 'db manager" where
  "forget_tracking cid mg =
     mg\<lparr>mg_pong_times := AList.delete cid (mg_pong_times mg),
        mg_ping_times := AList.delete cid (mg_ping_times mg),
        mg_missed_pongs := AList.delete cid (mg_missed_pongs mg)\<rparr>"

text \<open>The clusters of the configuration are allocated in order; a repeated name keeps the last.\<close>

fun register_configs :: "cluster_config list \<Rightarrow> 'db manager \<Rightarrow> 'db manager" where
  "register_configs [] mg = mg"
| "register_configs (cfg # cfgs) mg =
     (let r = mg_next mg in
      register_configs cfgs
        (mg\<lparr>mg_cluster_heap := (mg_cluster_heap mg)(r := cluster_new cfg True),
            mg_clusters := AList.update (cc_name cfg) r (mg_clusters mg), mg_next := r + 1\<rparr>))"

definition manager_new :: "cluster_config list \<Rightarrow> 'db \<Rightarrow> 'db manager" where
  "manager_new cfgs db =
     register_configs cfgs
       \<lparr>mg_clusters = [], mg_connection_map = [], mg_downloads = [], mg_download_clusters = [],
        mg_cleanup_queue = [], mg_uploads = [], mg_db = db, mg_shutdown = False, mg_pong_times = [],
        mg_ping_times = [], mg_missed_pongs = [], mg_reconnect_attempts = (\<lambda>_. None),
        mg_last_attempt = (\<lambda>_. None), mg_cluster_heap = (\<lambda>_. cluster_new demo_config False),
        mg_session_heap = (\<lambda>_. session_new '''' 0), mg_next = 0\<rparr>"

section \<open>Download clean-up\<close>

definition remove_exact_download_session :: "string \<Rightarrow> nat \<Rightarrow> 'db manager \<Rightarrow> bool \<times> 'db manager" where
  "remove_exact_download_session download_id s mg =
     (if map_of (mg_downloads mg) download_id = Some s
      then (True, mg\<lparr>mg_downloads := AList.delete download_id (mg_downloads mg)\<rparr>)
      else (False, mg))"

definition remove_exact_connection :: "connection_id \<Rightarrow> nat \<Rightarrow> 'db manager \<Rightarrow> bool \<times> 'db manager" where
  "remove_exact_connection cid r mg =
     (if map_of (mg_connection_map mg) cid = Some r
      then (True, mg\<lparr>mg_connection_map := AList.delete cid (mg_connection_map mg)\<rparr>)
      else (False, mg))"

definition cleanup_file_download :: "cleanup_request \<Rightarrow> 'db manager \<Rightarrow> 'db manager" where
  "cleanup_file_download request mg =
     (let s = cr_session request in
      if ds_download_id (mg_session_heap mg s) \<noteq> cr_download_id request then mg
      else
        (case map_of (mg_download_clusters mg) s of
           None \<Rightarrow> mg
         | Some r \<Rightarrow>
             (case remove_exact_download_session (cr_download_id request) s mg of
                (False, mg) \<Rightarrow> mg
              | (True, mg) \<Rightarrow>
                  (let mg = mg\<lparr>mg_download_clusters := AList.delete s (mg_download_clusters mg)\<rparr> in
                   case cr_connection_id request of
                     Some cid \<Rightarrow>
                       (let mg = snd (remove_exact_connection cid r mg);
                            mg = forget_tracking cid mg;
                            mg = with_cluster r (\<lambda>c. fst (close c)) mg
                        in with_cluster r terminate_download_tasks mg)
                   | None \<Rightarrow>
                       (let mg = with_cluster r (set_connection None) mg;
                            mg = with_cluster r terminate_download_tasks mg
                        in with_session s (\<lambda>x. snd (session_complete None x)) mg)))))"

text \<open>The worker takes the next request from the channel.\<close>

definition cleanup_worker_step :: "'db manager \<Rightarrow> 'db manager" where
  "cleanup_worker_step mg =
     (case mg_cleanup_queue mg of
        [] \<Rightarrow> mg
      | request # rest \<Rightarrow> cleanup_file_download request (mg\<lparr>mg_cleanup_queue := rest\<rparr>))"

text \<open>A trigger on a session: the request of the winner goes to the worker's channel.\<close>

definition trigger_session :: "shutdown_reason \<Rightarrow> nat \<Rightarrow> 'db manager \<Rightarrow> bool \<times> 'db manager" where
  "trigger_session reason s mg =
     (let (won, x, requests) = session_trigger reason (mg_session_heap mg s) in
      (won, mg\<lparr>mg_session_heap := (mg_session_heap mg)(s := x),
               mg_cleanup_queue := mg_cleanup_queue mg @ requests\<rparr>))"

section \<open>Shutdown and admission\<close>

fun trigger_all :: "(string \<times> nat) list \<Rightarrow> 'db manager \<Rightarrow> nat \<times> 'db manager" where
  "trigger_all [] mg = (0, mg)"
| "trigger_all ((_, s) # rest) mg =
     (let (won, mg) = trigger_session ApplicationShutdown s mg;
          (n, mg) = trigger_all rest mg
      in ((if won then n + 1 else n), mg))"

definition begin_application_shutdown :: "'db manager \<Rightarrow> nat \<times> 'db manager" where
  "begin_application_shutdown mg =
     (if mg_shutdown mg then (0, mg)
      else (let mg = mg\<lparr>mg_shutdown := True\<rparr> in trigger_all (mg_downloads mg) mg))"

definition file_download_entry :: "string \<Rightarrow> 'db manager \<Rightarrow> nat option" where
  "file_download_entry uid mg = (if mg_shutdown mg then None else map_of (mg_downloads mg) uid)"

definition admit_file_download :: "connection_id \<Rightarrow> 'db manager \<Rightarrow> (nat \<times> nat) option" where
  "admit_file_download cid mg =
     (case map_of (mg_connection_map mg) cid of
        None \<Rightarrow> None
      | Some r \<Rightarrow>
          if cl_role (mg_cluster_heap mg r) \<noteq> FileDownload then None
          else
            (case cl_uuid (mg_cluster_heap mg r) of
               None \<Rightarrow> None
             | Some download_id \<Rightarrow>
                 (case map_of (mg_downloads mg) download_id of
                    None \<Rightarrow> None
                  | Some s \<Rightarrow>
                      if ds_state (mg_session_heap mg s) \<noteq> Connected cid then None else Some (s, r))))"

definition create_file_download :: "nat \<Rightarrow> string \<Rightarrow> 'db manager \<Rightarrow> nat \<times> 'db manager" where
  "create_file_download cluster uid mg =
     (if mg_shutdown mg then (cluster, mg)
      else
        (let details = cl_details (mg_cluster_heap mg cluster);
             r = mg_next mg;
             dl = start_tasks (cluster_new_file_download details uid file_download_state_new True);
             s = mg_next mg + 1
         in (r, mg\<lparr>mg_cluster_heap := (mg_cluster_heap mg)(r := dl),
                   mg_session_heap := (mg_session_heap mg)(s := session_new uid s),
                   mg_download_clusters := AList.update s r (mg_download_clusters mg),
                   mg_downloads := AList.update uid s (mg_downloads mg),
                   mg_next := mg_next mg + 2\<rparr>)))"

definition create_file_upload :: "nat \<Rightarrow> string \<Rightarrow> 'db manager \<Rightarrow> nat \<times> 'db manager" where
  "create_file_upload cluster uid mg =
     (if mg_shutdown mg then (cluster, mg)
      else
        (let details = cl_details (mg_cluster_heap mg cluster);
             r = mg_next mg;
             ul = start_tasks (cluster_new_file_upload details uid file_upload_state_new True)
         in (r, mg\<lparr>mg_cluster_heap := (mg_cluster_heap mg)(r := ul),
                   mg_uploads := AList.update uid r (mg_uploads mg),
                   mg_next := mg_next mg + 1\<rparr>)))"

definition get_file_upload :: "string \<Rightarrow> 'db manager \<Rightarrow> file_upload_state option" where
  "get_file_upload uid mg =
     (case map_of (mg_uploads mg) uid of None \<Rightarrow> None | Some r \<Rightarrow> cl_upload (mg_cluster_heap mg r))"

definition get_file_download :: "string \<Rightarrow> 'db manager \<Rightarrow> file_download_state option" where
  "get_file_download uid mg =
     (case file_download_entry uid mg of
        None \<Rightarrow> None
      | Some s \<Rightarrow>
          (case map_of (mg_download_clusters mg) s of
             None \<Rightarrow> None | Some r \<Rightarrow> cl_download (mg_cluster_heap mg r)))"

definition remove_file_upload :: "string \<Rightarrow> 'db manager \<Rightarrow> 'db manager" where
  "remove_file_upload uid mg = mg\<lparr>mg_uploads := AList.delete uid (mg_uploads mg)\<rparr>"

section \<open>Connections\<close>

definition register_connection ::
    "int \<Rightarrow> connection_id \<Rightarrow> ws_channel \<Rightarrow> string \<Rightarrow> nat \<Rightarrow> 'db manager \<Rightarrow> 'db manager" where
  "register_connection now cid sender name r mg =
     (let mg = with_cluster r (set_connection (Some sender)) mg
      in mg\<lparr>mg_connection_map := AList.update cid r (mg_connection_map mg),
            mg_pong_times := AList.update cid now (mg_pong_times mg),
            mg_reconnect_attempts := (mg_reconnect_attempts mg)(name := None),
            mg_last_attempt := (mg_last_attempt mg)(name := None)\<rparr>)"

text \<open>
  A connection is refused, accepted for a cluster, or, when it presented a long-term key, first
  made to wait: \<open>Throttled\<close> is the state in which the code sleeps before it registers the
  connection, and in which other connections are served.
\<close>

datatype admission = Refused | Accepted nat | Throttled string nat

definition admit_download_connection ::
    "connection_id \<Rightarrow> ws_channel \<Rightarrow> nat \<Rightarrow> 'db manager \<Rightarrow> admission \<times> 'db manager" where
  "admit_download_connection cid sender s mg =
     (case bind_connection cid (mg_session_heap mg s) of
        (Inl _, _) \<Rightarrow> (Refused, mg)
      | (Inr _, x) \<Rightarrow>
          (let mg = mg\<lparr>mg_session_heap := (mg_session_heap mg)(s := x)\<rparr> in
           case map_of (mg_download_clusters mg) s of
             None \<Rightarrow> (Refused, snd (trigger_session ClusterOffline s mg))
           | Some r \<Rightarrow>
               (let mg = with_cluster r (set_connection (Some sender)) mg in
                if ds_state (mg_session_heap mg s) \<noteq> Connected cid
                then (Refused, with_cluster r (set_connection None) mg)
                else
                  (let mg = mg\<lparr>mg_connection_map := AList.update cid r (mg_connection_map mg)\<rparr> in
                   if ds_state (mg_session_heap mg s) \<noteq> Connected cid
                   then (Refused, with_cluster r (set_connection None)
                           (snd (remove_exact_connection cid r mg)))
                   else (Accepted r, mg)))))"

definition admit_upload_connection ::
    "connection_id \<Rightarrow> ws_channel \<Rightarrow> nat \<Rightarrow> 'db manager \<Rightarrow> admission \<times> 'db manager" where
  "admit_upload_connection cid sender r mg =
     (if is_online (mg_cluster_heap mg r) then (Refused, mg)
      else
        (let mg = with_cluster r (set_connection (Some sender)) mg
         in (Accepted r, mg\<lparr>mg_connection_map := AList.update cid r (mg_connection_map mg)\<rparr>)))"

text \<open>The first cluster whose long-term key is the token.\<close>

definition ltk_cluster :: "string \<Rightarrow> 'db manager \<Rightarrow> (string \<times> nat) option" where
  "ltk_cluster token mg =
     find (\<lambda>(name, r). case cc_ltk (cl_details (mg_cluster_heap mg r)) of
         None \<Rightarrow> False | Some ltk \<Rightarrow> constant_time_eq ltk token)
       (mg_clusters mg)"

definition admit_token_connection ::
    "'db database \<Rightarrow> int \<Rightarrow> int \<Rightarrow> connection_id \<Rightarrow> ws_channel \<Rightarrow> string \<Rightarrow> 'db manager \<Rightarrow>
     admission \<times> 'db manager" where
  "admit_token_connection D now cutoff cid sender token mg =
     (let (_, db) = tb_delete (db_cluster_uuids D) (mg_db mg) (\<lambda>u. cu_timestamp u \<le> cutoff);
          row = or_default None (tb_one (db_cluster_uuids D) db (\<lambda>u. cu_uuid u = token))
      in case row of
           None \<Rightarrow> (Refused, mg\<lparr>mg_db := db\<rparr>)
         | Some u \<Rightarrow>
             (let name = cu_cluster u;
                  (_, db) = tb_delete (db_cluster_uuids D) db (\<lambda>u. cu_cluster u = name);
                  mg = mg\<lparr>mg_db := db\<rparr>
              in case map_of (mg_clusters mg) name of
                   None \<Rightarrow> (Refused, mg)
                 | Some r \<Rightarrow>
                     if is_online (mg_cluster_heap mg r) then (Refused, mg)
                     else (Accepted r, register_connection now cid sender name r mg)))"

definition admit_connection ::
    "'db database \<Rightarrow> int \<Rightarrow> int \<Rightarrow> connection_id \<Rightarrow> ws_channel \<Rightarrow> string \<Rightarrow> 'db manager \<Rightarrow>
     admission \<times> 'db manager" where
  "admit_connection D now cutoff cid sender token mg =
     (if mg_shutdown mg \<and> map_of (mg_downloads mg) token \<noteq> None then (Refused, mg)
      else
        (case map_of (mg_downloads mg) token of
           Some s \<Rightarrow> admit_download_connection cid sender s mg
         | None \<Rightarrow>
             (case map_of (mg_uploads mg) token of
                Some r \<Rightarrow> admit_upload_connection cid sender r mg
              | None \<Rightarrow>
                  (case ltk_cluster token mg of
                     Some (name, r) \<Rightarrow>
                       if is_online (mg_cluster_heap mg r) then (Refused, mg)
                       else (Throttled name r, mg)
                   | None \<Rightarrow> admit_token_connection D now cutoff cid sender token mg))))"

definition handle_new_connection ::
    "'db database \<Rightarrow> int \<Rightarrow> int \<Rightarrow> connection_id \<Rightarrow> ws_channel \<Rightarrow> string \<Rightarrow> 'db manager \<Rightarrow>
     nat option \<times> 'db manager" where
  "handle_new_connection D now cutoff cid sender token mg =
     (case admit_connection D now cutoff cid sender token mg of
        (Refused, mg) \<Rightarrow> (None, mg)
      | (Accepted r, mg) \<Rightarrow> (Some r, mg)
      | (Throttled name r, mg) \<Rightarrow> (Some r, register_connection now cid sender name r mg))"

definition remove_connection :: "connection_id \<Rightarrow> bool \<Rightarrow> 'db manager \<Rightarrow> 'db manager" where
  "remove_connection cid close_it mg =
     (case map_of (mg_connection_map mg) cid of
        None \<Rightarrow> mg
      | Some r \<Rightarrow>
          (let c = mg_cluster_heap mg r in
           if cl_role c = FileDownload then
             (let mg =
                (case cl_uuid c of
                   None \<Rightarrow> mg
                 | Some uid \<Rightarrow>
                     (case map_of (mg_downloads mg) uid of
                        None \<Rightarrow> mg
                      | Some s \<Rightarrow>
                          if ds_state (mg_session_heap mg s) \<noteq> Connected cid then mg
                          else
                            (let reason = (if close_it then WebSocketError else WebSocketClosed);
                                 (won, mg) = trigger_session reason s mg
                             in if won then
                                  cleanup_file_download
                                    \<lparr>cr_download_id = uid, cr_connection_id = Some cid, cr_reason = reason,
                                     cr_session = s\<rparr> mg
                                else mg)))
              in forget_tracking cid mg)
           else
             (case remove_exact_connection cid r mg of
                (False, mg) \<Rightarrow> mg
              | (True, mg) \<Rightarrow>
                  (let mg = (if close_it then with_cluster r (\<lambda>c. fst (close c)) mg else mg);
                       mg = with_cluster r (set_connection None) mg;
                       mg = forget_tracking cid mg
                   in if cl_role c = FileUpload then
                        (case cl_uuid c of
                           None \<Rightarrow> mg
                         | Some uid \<Rightarrow> mg\<lparr>mg_uploads := AList.delete uid (mg_uploads mg)\<rparr>)
                      else mg))))"

definition handle_pong :: "int \<Rightarrow> connection_id \<Rightarrow> 'db manager \<Rightarrow> 'db manager" where
  "handle_pong now cid mg =
     (if map_of (mg_connection_map mg) cid = None then mg
      else mg\<lparr>mg_pong_times := AList.update cid now (mg_pong_times mg),
              mg_missed_pongs := AList.update cid 0 (mg_missed_pongs mg)\<rparr>)"

section \<open>Health checks\<close>

definition no_pong :: "'db manager \<Rightarrow> connection_id list" where
  "no_pong mg = filter (\<lambda>cid. map_of (mg_pong_times mg) cid = None) (map fst (mg_ping_times mg))"

definition miss :: "connection_id \<Rightarrow> 'db manager \<Rightarrow> u32 \<times> 'db manager" where
  "miss cid mg =
     (let missed = (case map_of (mg_missed_pongs mg) cid of None \<Rightarrow> 0 | Some n \<Rightarrow> n) + 1
      in (missed, mg\<lparr>mg_missed_pongs := AList.update cid missed (mg_missed_pongs mg)\<rparr>))"

fun count_misses :: "connection_id list \<Rightarrow> 'db manager \<Rightarrow> connection_id list \<times> 'db manager" where
  "count_misses [] mg = ([], mg)"
| "count_misses (cid # cids) mg =
     (let (missed, mg) = miss cid mg;
          (dead, mg) = count_misses cids mg
      in (if 2 \<le> missed then cid # dead else dead, mg))"

definition evict :: "connection_id \<Rightarrow> 'db manager \<Rightarrow> 'db manager" where
  "evict cid mg =
     remove_connection cid True (mg\<lparr>mg_ping_times := AList.delete cid (mg_ping_times mg)\<rparr>)"

definition ping_connection :: "int \<Rightarrow> connection_id \<times> nat \<Rightarrow> 'db manager \<Rightarrow> 'db manager" where
  "ping_connection now entry mg =
     (let (cid, r) = entry; c = mg_cluster_heap mg r in
      if cl_role c \<noteq> Master \<or> \<not> is_online c then mg
      else
        (let mg = with_cluster r send_ping mg
         in mg\<lparr>mg_ping_times := AList.update cid now (mg_ping_times mg),
               mg_pong_times := AList.delete cid (mg_pong_times mg)\<rparr>))"

definition check_pings :: "int \<Rightarrow> 'db manager \<Rightarrow> 'db manager" where
  "check_pings now mg =
     (let (dead_conn_ids, mg) = count_misses (no_pong mg) mg;
          mg = fold evict dead_conn_ids mg
      in fold (ping_connection now) (mg_connection_map mg) mg)"

section \<open>Reconnection\<close>

datatype launch = ManualToken string string | LaunchSsh cluster_config string

definition saturating_mul :: "nat \<Rightarrow> nat \<Rightarrow> nat" where
  "saturating_mul a b = min (a * b) (2 ^ 64 - 1)"

definition saturating_pow2 :: "nat \<Rightarrow> nat" where
  "saturating_pow2 n = min (2 ^ n) (2 ^ 64 - 1)"

definition backoff_secs :: "nat \<Rightarrow> u32 \<Rightarrow> nat" where
  "backoff_secs base attempt = saturating_mul base (saturating_pow2 (unat (attempt - 1)))"

definition in_backoff :: "nat \<Rightarrow> int \<Rightarrow> u32 \<Rightarrow> int option \<Rightarrow> bool" where
  "in_backoff base now attempt previous \<longleftrightarrow>
     0 < attempt \<and>
     (case previous of
        None \<Rightarrow> False
      | Some t \<Rightarrow> (now - t) div 1000000000 < int (backoff_secs base attempt))"

definition reconnect_one ::
    "'db database \<Rightarrow> nat \<Rightarrow> int \<Rightarrow> int \<Rightarrow> (string \<Rightarrow> string) \<Rightarrow> string \<times> nat \<Rightarrow>
     launch list \<times> 'db manager \<Rightarrow> launch list \<times> 'db manager" where
  "reconnect_one D base now wall uuids entry out =
     (let (name, r) = entry; (launches, mg) = out; c = mg_cluster_heap mg r; details = cl_details c in
      if is_online c then (launches, mg)
      else if cc_ltk details \<noteq> None then (launches, mg)
      else
        (let attempt = (case mg_reconnect_attempts mg name of None \<Rightarrow> 0 | Some n \<Rightarrow> n) in
         if in_backoff base now attempt (mg_last_attempt mg name) then (launches, mg)
         else
           (let mg = mg\<lparr>mg_reconnect_attempts := (mg_reconnect_attempts mg)(name \<mapsto> attempt + 1),
                        mg_last_attempt := (mg_last_attempt mg)(name \<mapsto> now)\<rparr>;
                uid = uuids name;
                (_, db) = tb_delete (db_cluster_uuids D) (mg_db mg) (\<lambda>u. cu_cluster u = name);
                (res, db) = tb_insert (db_cluster_uuids D) db
                  \<lparr>cu_id = 0, cu_cluster = name, cu_uuid = uid, cu_timestamp = wall\<rparr>;
                mg = mg\<lparr>mg_db := db\<rparr>
            in case res of
                 Inl _ \<Rightarrow> (launches, mg)
               | Inr _ \<Rightarrow>
                   (launches @ [if cc_connection_type details = ''manual'' then ManualToken name uid
                                else LaunchSsh details uid], mg))))"

definition reconnect_clusters ::
    "'db database \<Rightarrow> nat \<Rightarrow> int \<Rightarrow> int \<Rightarrow> (string \<Rightarrow> string) \<Rightarrow> 'db manager \<Rightarrow>
     launch list \<times> 'db manager" where
  "reconnect_clusters D base now wall uuids mg =
     fold (reconnect_one D base now wall uuids) (mg_clusters mg) ([], mg)"

section \<open>Comparison of secrets\<close>

lemma fold_or_zero:
  "foldl (\<lambda>diff i. diff OR f i) d is = (0 :: u64) \<longleftrightarrow> d = 0 \<and> (\<forall>i \<in> set is. f i = 0)"
  by (induction "is" arbitrary: d) (auto simp: or_eq_0_iff)

lemma ucast_xor_zero: "(ucast (a XOR b :: u8) :: u64) = 0 \<longleftrightarrow> a = b"
proof -
  have "(ucast w :: u64) = 0 \<longleftrightarrow> w = 0" for w :: u8
    by transfer (simp add: take_bit_take_bit)
  moreover have "a XOR b = 0 \<longleftrightarrow> a = b"
    by (auto simp: bit_eq_iff bit_xor_iff)
  ultimately show ?thesis by simp
qed

lemma xor_lengths_zero:
  assumes "m < 2 ^ 64" "n < 2 ^ 64"
  shows "(word_of_nat m XOR word_of_nat n :: u64) = 0 \<longleftrightarrow> m = n"
proof -
  have "(word_of_nat m XOR word_of_nat n :: u64) = 0 \<longleftrightarrow> (word_of_nat m :: u64) = word_of_nat n"
    by (auto simp: bit_eq_iff bit_xor_iff)
  also have "\<dots> \<longleftrightarrow> m = n"
  proof
    assume eq: "(word_of_nat m :: u64) = word_of_nat n"
    have "unat (word_of_nat m :: u64) = m" "unat (word_of_nat n :: u64) = n"
      using assms by (simp_all add: unat_of_nat take_bit_nat_eq_self)
    with eq show "m = n" by metis
  qed simp
  finally show ?thesis .
qed

text \<open>The constant-time comparison that guards the long-term keys is equality of the two strings: no
  other token passes, whatever its length.\<close>

theorem constant_time_eq_iff:
  assumes "is_rust_string a" "is_rust_string b"
  shows "constant_time_eq a b \<longleftrightarrow> a = b"
proof -
  have len: "length a < 2 ^ 64" "length b < 2 ^ 64"
    using assms by (simp_all add: is_rust_string_def)
  have "constant_time_eq a b \<longleftrightarrow> length (str_bytes a) = length (str_bytes b) \<and>
      (\<forall>i \<in> set [0..<min (length (str_bytes a)) (length (str_bytes b))]. str_bytes a ! i = str_bytes b ! i)"
    by (simp add: constant_time_eq_def Let_def fold_or_zero ucast_xor_zero xor_lengths_zero [OF len])
  also have "\<dots> \<longleftrightarrow> str_bytes a = str_bytes b"
    using list_eq_iff_nth_eq [of "str_bytes a" "str_bytes b"]
    by (cases "length a = length b") (simp_all del: str_bytes_inject add: Ball_def)
  also have "\<dots> \<longleftrightarrow> a = b"
    by simp
  finally show ?thesis .
qed

section \<open>Frames\<close>

lemma with_cluster_frame [simp]:
  "mg_clusters (with_cluster r f mg) = mg_clusters mg"
  "mg_connection_map (with_cluster r f mg) = mg_connection_map mg"
  "mg_downloads (with_cluster r f mg) = mg_downloads mg"
  "mg_download_clusters (with_cluster r f mg) = mg_download_clusters mg"
  "mg_cleanup_queue (with_cluster r f mg) = mg_cleanup_queue mg"
  "mg_uploads (with_cluster r f mg) = mg_uploads mg" "mg_db (with_cluster r f mg) = mg_db mg"
  "mg_shutdown (with_cluster r f mg) = mg_shutdown mg"
  "mg_pong_times (with_cluster r f mg) = mg_pong_times mg"
  "mg_ping_times (with_cluster r f mg) = mg_ping_times mg"
  "mg_missed_pongs (with_cluster r f mg) = mg_missed_pongs mg"
  "mg_session_heap (with_cluster r f mg) = mg_session_heap mg"
  "mg_cluster_heap (with_cluster r f mg) = (mg_cluster_heap mg)(r := f (mg_cluster_heap mg r))"
  by (simp_all add: with_cluster_def)

lemma with_session_frame [simp]:
  "mg_connection_map (with_session r f mg) = mg_connection_map mg"
  "mg_downloads (with_session r f mg) = mg_downloads mg"
  "mg_download_clusters (with_session r f mg) = mg_download_clusters mg"
  "mg_shutdown (with_session r f mg) = mg_shutdown mg"
  "mg_uploads (with_session r f mg) = mg_uploads mg"
  "mg_pong_times (with_session r f mg) = mg_pong_times mg"
  "mg_ping_times (with_session r f mg) = mg_ping_times mg"
  "mg_missed_pongs (with_session r f mg) = mg_missed_pongs mg"
  "mg_cluster_heap (with_session r f mg) = mg_cluster_heap mg"
  "mg_session_heap (with_session r f mg) = (mg_session_heap mg)(r := f (mg_session_heap mg r))"
  by (simp_all add: with_session_def)

lemma forget_tracking_frame [simp]:
  "mg_connection_map (forget_tracking cid mg) = mg_connection_map mg"
  "mg_downloads (forget_tracking cid mg) = mg_downloads mg"
  "mg_download_clusters (forget_tracking cid mg) = mg_download_clusters mg"
  "mg_shutdown (forget_tracking cid mg) = mg_shutdown mg"
  "mg_uploads (forget_tracking cid mg) = mg_uploads mg"
  "mg_cluster_heap (forget_tracking cid mg) = mg_cluster_heap mg"
  "mg_session_heap (forget_tracking cid mg) = mg_session_heap mg"
  "mg_pong_times (forget_tracking cid mg) = AList.delete cid (mg_pong_times mg)"
  "mg_ping_times (forget_tracking cid mg) = AList.delete cid (mg_ping_times mg)"
  "mg_missed_pongs (forget_tracking cid mg) = AList.delete cid (mg_missed_pongs mg)"
  by (simp_all add: forget_tracking_def)

lemma trigger_session_frame [simp]:
  "mg_connection_map (snd (trigger_session reason s mg)) = mg_connection_map mg"
  "mg_downloads (snd (trigger_session reason s mg)) = mg_downloads mg"
  "mg_download_clusters (snd (trigger_session reason s mg)) = mg_download_clusters mg"
  "mg_shutdown (snd (trigger_session reason s mg)) = mg_shutdown mg"
  "mg_uploads (snd (trigger_session reason s mg)) = mg_uploads mg"
  "mg_pong_times (snd (trigger_session reason s mg)) = mg_pong_times mg"
  "mg_ping_times (snd (trigger_session reason s mg)) = mg_ping_times mg"
  "mg_missed_pongs (snd (trigger_session reason s mg)) = mg_missed_pongs mg"
  "mg_cluster_heap (snd (trigger_session reason s mg)) = mg_cluster_heap mg"
  by (simp_all add: trigger_session_def case_prod_beta)

lemma map_of_delete: "map_of (AList.delete k m) k' = (if k' = k then None else map_of m k')"
  by (simp add: delete_conv')

lemma map_of_update: "map_of (AList.update k v m) k' = (if k' = k then Some v else map_of m k')"
  by (simp add: update_conv')

lemma register_connection_frame [simp]:
  "mg_connection_map (register_connection now cid sender name r mg) =
     AList.update cid r (mg_connection_map mg)"
  "mg_pong_times (register_connection now cid sender name r mg) = AList.update cid now (mg_pong_times mg)"
  "mg_cluster_heap (register_connection now cid sender name r mg) =
     (mg_cluster_heap mg)(r := set_connection (Some sender) (mg_cluster_heap mg r))"
  "mg_downloads (register_connection now cid sender name r mg) = mg_downloads mg"
  "mg_uploads (register_connection now cid sender name r mg) = mg_uploads mg"
  "mg_clusters (register_connection now cid sender name r mg) = mg_clusters mg"
  "mg_shutdown (register_connection now cid sender name r mg) = mg_shutdown mg"
  "mg_db (register_connection now cid sender name r mg) = mg_db mg"
  "mg_ping_times (register_connection now cid sender name r mg) = mg_ping_times mg"
  "mg_missed_pongs (register_connection now cid sender name r mg) = mg_missed_pongs mg"
  by (simp_all add: register_connection_def Let_def)

section \<open>Clean-up\<close>

text \<open>Clean-up is exact and idempotent.  A request whose session is not the one registered under its
  download id, because it was cleaned up before or replaced by a newer session, has no effect; a
  second run of a request has none; and no request touches another download, the upload map or a
  connection other than its own.\<close>

theorem cleanup_exact:
  "(map_of (mg_downloads mg) (cr_download_id rq) = Some (cr_session rq) \<or>
      cleanup_file_download rq mg = mg) \<and>
   cleanup_file_download rq (cleanup_file_download rq mg) = cleanup_file_download rq mg \<and>
   (uid = cr_download_id rq \<or>
      map_of (mg_downloads (cleanup_file_download rq mg)) uid = map_of (mg_downloads mg) uid) \<and>
   (cr_connection_id rq = Some cid \<or>
      map_of (mg_connection_map (cleanup_file_download rq mg)) cid = map_of (mg_connection_map mg) cid) \<and>
   mg_uploads (cleanup_file_download rq mg) = mg_uploads mg"
proof -
  let ?out = "cleanup_file_download rq mg"
  have stale: "map_of (mg_downloads m) (cr_download_id rq) = Some (cr_session rq) \<or>
      cleanup_file_download rq m = m" for m :: "'a manager"
    by (simp add: cleanup_file_download_def Let_def remove_exact_download_session_def split: option.split)
  have gone: "?out = mg \<or> map_of (mg_downloads ?out) (cr_download_id rq) = None"
    by (simp add: cleanup_file_download_def Let_def remove_exact_download_session_def
        remove_exact_connection_def map_of_delete split: option.split)
  have "cleanup_file_download rq ?out = ?out"
    using gone stale [of ?out] by (metis option.distinct(1))
  moreover have "uid = cr_download_id rq \<or>
      map_of (mg_downloads ?out) uid = map_of (mg_downloads mg) uid"
    by (simp add: cleanup_file_download_def Let_def remove_exact_download_session_def
        remove_exact_connection_def map_of_delete split: option.split)
  moreover have "cr_connection_id rq = Some cid \<or>
      map_of (mg_connection_map ?out) cid = map_of (mg_connection_map mg) cid"
    by (simp add: cleanup_file_download_def Let_def remove_exact_download_session_def
        remove_exact_connection_def map_of_delete split: option.split)
  moreover have "mg_uploads ?out = mg_uploads mg"
    by (simp add: cleanup_file_download_def Let_def remove_exact_download_session_def
        remove_exact_connection_def split: option.split)
  ultimately show ?thesis using stale [of mg] by blast
qed

section \<open>Shutdown\<close>

lemma trigger_session_effect:
  "fst (trigger_session reason s mg) = session_open (mg_session_heap mg s)"
  "\<not> session_open (mg_session_heap (snd (trigger_session reason s mg)) s)"
  "s' \<noteq> s \<Longrightarrow> mg_session_heap (snd (trigger_session reason s mg)) s' = mg_session_heap mg s'"
  by (simp_all add: trigger_session_def session_trigger_def enter_closing_def session_open_def case_prod_beta
      split: session_state.split)

lemma trigger_session_open:
  "session_open (mg_session_heap (snd (trigger_session reason s mg)) s') \<longleftrightarrow>
     session_open (mg_session_heap mg s') \<and> s' \<noteq> s"
  using trigger_session_effect(2,3) [where reason = reason and s = s and mg = mg] by (cases "s' = s") auto

lemma trigger_all_Cons:
  "snd (trigger_all (x # xs) mg) =
     snd (trigger_all xs (snd (trigger_session ApplicationShutdown (snd x) mg)))"
  by (cases x) (simp add: case_prod_beta)

lemma trigger_all_effect:
  "mg_downloads (snd (trigger_all xs mg)) = mg_downloads mg"
  "mg_shutdown (snd (trigger_all xs mg)) = mg_shutdown mg"
  "session_open (mg_session_heap (snd (trigger_all xs mg)) s) \<longleftrightarrow>
     session_open (mg_session_heap mg s) \<and> s \<notin> set (map snd xs)"
  by (induction xs arbitrary: mg) (auto simp: trigger_all_Cons trigger_session_open)

lemma trigger_all_count:
  "distinct (map snd xs) \<Longrightarrow>
     fst (trigger_all xs mg) = length (filter (\<lambda>s. session_open (mg_session_heap mg s)) (map snd xs))"
proof (induction xs arbitrary: mg)
  case (Cons x xs)
  obtain u s where x: "x = (u, s)" by (cases x)
  let ?mg = "snd (trigger_session ApplicationShutdown s mg)"
  have "filter (\<lambda>s. session_open (mg_session_heap ?mg s)) (map snd xs) =
      filter (\<lambda>s. session_open (mg_session_heap mg s)) (map snd xs)"
    using Cons.prems x by (intro filter_cong [OF refl]) (auto simp: trigger_session_open)
  then have "fst (trigger_all xs ?mg) =
      length (filter (\<lambda>s. session_open (mg_session_heap mg s)) (map snd xs))"
    using Cons.IH [of ?mg] Cons.prems by simp
  then show ?case by (simp add: x case_prod_beta trigger_session_effect(1) del: filter_map)
qed simp

text \<open>The start of an application shutdown closes every registered download session, counting each
  open one once, and is final: a second call does nothing, no download or upload can be created
  any more, no download connection is admitted, and look-ups of downloads report nothing.\<close>

theorem shutdown_final:
  assumes "distinct (map snd (mg_downloads mg))" "\<not> mg_shutdown mg"
    "begin_application_shutdown mg = (n, mg')"
  shows "n = length (filter (\<lambda>s. session_open (mg_session_heap mg s)) (map snd (mg_downloads mg))) \<and>
    mg_shutdown mg' \<and> mg_downloads mg' = mg_downloads mg \<and>
    (\<forall>(uid, s) \<in> set (mg_downloads mg'). \<not> session_open (mg_session_heap mg' s)) \<and>
    begin_application_shutdown mg' = (0, mg') \<and>
    create_file_download r uid mg' = (r, mg') \<and> create_file_upload r uid mg' = (r, mg') \<and>
    (map_of (mg_downloads mg') token = None \<or>
      handle_new_connection D now cutoff cid sender token mg' = (None, mg')) \<and>
    file_download_entry uid mg' = None"
proof -
  let ?mg = "mg\<lparr>mg_shutdown := True\<rparr>"
  have mg': "trigger_all (mg_downloads mg) ?mg = (n, mg')"
    using assms(2,3) by (simp add: begin_application_shutdown_def)
  note eff = trigger_all_effect [where xs = "mg_downloads mg" and mg = ?mg, unfolded mg' snd_conv]
  have down: "mg_shutdown mg'" "mg_downloads mg' = mg_downloads mg" using eff by simp_all
  have "\<forall>(uid, s) \<in> set (mg_downloads mg'). \<not> session_open (mg_session_heap mg' s)"
    using eff(3) down(2) by force
  moreover have "handle_new_connection D now cutoff cid sender token mg' = (None, mg')"
    if "map_of (mg_downloads mg') token \<noteq> None"
    using that down(1) by (simp add: handle_new_connection_def admit_connection_def)
  moreover have "begin_application_shutdown mg' = (0, mg')" "create_file_download r uid mg' = (r, mg')"
      "create_file_upload r uid mg' = (r, mg')" "file_download_entry uid mg' = None"
    using down(1) by (simp_all add: begin_application_shutdown_def create_file_download_def
        create_file_upload_def file_download_entry_def)
  moreover have "n = length (filter (\<lambda>s. session_open (mg_session_heap mg s)) (map snd (mg_downloads mg)))"
    using trigger_all_count [OF assms(1), of ?mg] by (simp add: mg')
  ultimately show ?thesis using down by blast
qed

section \<open>Authentication\<close>

abbreviation uuid_table_laws :: "'db database \<Rightarrow> ('db \<Rightarrow> cluster_uuid_row list) \<Rightarrow> bool" where
  "uuid_table_laws D rows \<equiv> table_laws (db_cluster_uuids D) rows cu_id (\<lambda>i r. r\<lparr>cu_id := i\<rparr>)"

text \<open>The four credentials a connection can present for a cluster.\<close>

definition download_credential :: "string \<Rightarrow> nat \<Rightarrow> 'db manager \<Rightarrow> bool" where
  "download_credential token r mg \<longleftrightarrow>
     \<not> mg_shutdown mg \<and>
     (\<exists>s. map_of (mg_downloads mg) token = Some s \<and> ds_state (mg_session_heap mg s) = SessionPending \<and>
        map_of (mg_download_clusters mg) s = Some r)"

definition upload_credential :: "string \<Rightarrow> nat \<Rightarrow> 'db manager \<Rightarrow> bool" where
  "upload_credential token r mg \<longleftrightarrow>
     map_of (mg_uploads mg) token = Some r \<and> \<not> is_online (mg_cluster_heap mg r)"

definition ltk_credential :: "string \<Rightarrow> nat \<Rightarrow> 'db manager \<Rightarrow> bool" where
  "ltk_credential token r mg \<longleftrightarrow>
     \<not> is_online (mg_cluster_heap mg r) \<and> r \<in> snd ` set (mg_clusters mg) \<and>
     (\<exists>ltk. cc_ltk (cl_details (mg_cluster_heap mg r)) = Some ltk \<and> constant_time_eq ltk token)"

text \<open>A stored token counts while it is younger than the expiry, or when the deletion of expired
  tokens failed.\<close>

definition uuid_credential ::
    "'db database \<Rightarrow> int \<Rightarrow> cluster_uuid_row list \<Rightarrow> string \<Rightarrow> nat \<Rightarrow> 'db manager \<Rightarrow> bool" where
  "uuid_credential D cutoff rs token r mg \<longleftrightarrow>
     \<not> is_online (mg_cluster_heap mg r) \<and>
     (\<exists>u \<in> set rs. cu_uuid u = token \<and> map_of (mg_clusters mg) (cu_cluster u) = Some r \<and>
        (cutoff < cu_timestamp u \<or>
         isl (fst (tb_delete (db_cluster_uuids D) (mg_db mg) (\<lambda>u. cu_timestamp u \<le> cutoff)))))"

lemma admit_token_accepted:
  assumes laws: "uuid_table_laws D rows"
    and acc: "admit_token_connection D now cutoff cid sender token mg = (adm, mg')"
    and adm: "adm = Accepted r \<or> adm = Throttled name r"
  shows "adm = Accepted r" "uuid_credential D cutoff (rows (mg_db mg)) token r mg"
    "map_of (mg_connection_map mg') cid = Some r"
    "cl_connection (mg_cluster_heap mg' r) = Some sender"
proof -
  obtain res1 db1 where d1: "tb_delete (db_cluster_uuids D) (mg_db mg) (\<lambda>u. cu_timestamp u \<le> cutoff) = (res1, db1)"
    by force
  have "or_default None (tb_one (db_cluster_uuids D) db1 (\<lambda>u. cu_uuid u = token)) \<noteq> None"
  proof
    assume "or_default None (tb_one (db_cluster_uuids D) db1 (\<lambda>u. cu_uuid u = token)) = None"
    then show False using acc adm d1 by (auto simp: admit_token_connection_def)
  qed
  then obtain u where one: "tb_one (db_cluster_uuids D) db1 (\<lambda>u. cu_uuid u = token) = Inr (Some u)"
    by (cases "tb_one (db_cluster_uuids D) db1 (\<lambda>u. cu_uuid u = token)") auto
  obtain res2 db2 where d2: "tb_delete (db_cluster_uuids D) db1 (\<lambda>x. cu_cluster x = cu_cluster u) = (res2, db2)"
    by force
  have step: "(adm, mg') = (case map_of (mg_clusters mg) (cu_cluster u) of
      None \<Rightarrow> (Refused, mg\<lparr>mg_db := db2\<rparr>)
    | Some r \<Rightarrow> if is_online (mg_cluster_heap mg r) then (Refused, mg\<lparr>mg_db := db2\<rparr>)
        else (Accepted r, register_connection now cid sender (cu_cluster u) r (mg\<lparr>mg_db := db2\<rparr>)))"
    using acc d1 one d2
    by (cases "map_of (mg_clusters mg) (cu_cluster u)") (auto simp: admit_token_connection_def Let_def split: if_splits)
  then have reg: "map_of (mg_clusters mg) (cu_cluster u) = Some r" "\<not> is_online (mg_cluster_heap mg r)"
      "adm = Accepted r"
      "mg' = register_connection now cid sender (cu_cluster u) r (mg\<lparr>mg_db := db2\<rparr>)"
    using adm by (auto split: option.splits if_splits)
  show "adm = Accepted r" by (rule reg(3))
  show "map_of (mg_connection_map mg') cid = Some r" "cl_connection (mg_cluster_heap mg' r) = Some sender"
    by (simp_all add: reg(4) map_of_update set_connection_def)
  have u: "u \<in> set (rows db1)" "cu_uuid u = token" using table_laws.one_row [OF laws one] by auto
  have "u \<in> set (rows (mg_db mg))" using table_laws.delete_subset [OF laws d1] u(1) by blast
  moreover have "cutoff < cu_timestamp u \<or> isl res1"
  proof (cases res1)
    case (Inr v)
    then show ?thesis using table_laws.delete_ok [OF laws d1 [unfolded Inr]] u(1) by auto
  qed simp
  ultimately show "uuid_credential D cutoff (rows (mg_db mg)) token r mg"
    using reg(1,2) u(2) d1 unfolding uuid_credential_def by auto
qed

lemma admitted_download:
  assumes "map_of (mg_downloads mg) token = Some s"
    and "handle_new_connection D now cutoff cid sender token mg = (Some r, mg')"
  shows "download_credential token r mg \<and> map_of (mg_connection_map mg') cid = Some r \<and>
    cl_connection (mg_cluster_heap mg' r) = Some sender"
proof -
  have on: "\<not> mg_shutdown mg"
    using assms by (auto simp: handle_new_connection_def admit_connection_def)
  then have "admit_connection D now cutoff cid sender token mg = admit_download_connection cid sender s mg"
    using assms(1) by (simp add: admit_connection_def)
  then have "ds_state (mg_session_heap mg s) = SessionPending \<and>
      map_of (mg_download_clusters mg) s = Some r \<and> map_of (mg_connection_map mg') cid = Some r \<and>
      cl_connection (mg_cluster_heap mg' r) = Some sender"
    using assms(2) by (auto simp: handle_new_connection_def admit_download_connection_def Let_def
        bind_connection_def map_of_update set_connection_def split: session_state.splits option.splits
        if_splits)
  then show ?thesis using assms(1) on by (auto simp: download_credential_def)
qed

lemma admitted_ltk:
  assumes "map_of (mg_downloads mg) token = None" "map_of (mg_uploads mg) token = None"
    and "ltk_cluster token mg = Some (name, r')"
    and "handle_new_connection D now cutoff cid sender token mg = (Some r, mg')"
  shows "ltk_credential token r mg \<and> map_of (mg_connection_map mg') cid = Some r \<and>
    cl_connection (mg_cluster_heap mg' r) = Some sender"
proof -
  have f: "(name, r') \<in> set (mg_clusters mg)"
      "\<exists>ltk. cc_ltk (cl_details (mg_cluster_heap mg r')) = Some ltk \<and> constant_time_eq ltk token"
    using assms(3) unfolding ltk_cluster_def by (auto simp: find_Some_iff split: option.splits)
  have "r' = r \<and> \<not> is_online (mg_cluster_heap mg r) \<and> map_of (mg_connection_map mg') cid = Some r \<and>
      cl_connection (mg_cluster_heap mg' r) = Some sender"
    using assms by (auto simp: handle_new_connection_def admit_connection_def
        map_of_update set_connection_def split: if_splits)
  then show ?thesis using f by (force simp: ltk_credential_def)
qed

lemma admitted_token:
  assumes "uuid_table_laws D rows"
    and "map_of (mg_downloads mg) token = None" "map_of (mg_uploads mg) token = None"
    and "ltk_cluster token mg = None"
    and "handle_new_connection D now cutoff cid sender token mg = (Some r, mg')"
  shows "uuid_credential D cutoff (rows (mg_db mg)) token r mg \<and> map_of (mg_connection_map mg') cid = Some r \<and>
    cl_connection (mg_cluster_heap mg' r) = Some sender"
proof -
  obtain adm mg1 where a: "admit_connection D now cutoff cid sender token mg = (adm, mg1)" by force
  have t: "admit_token_connection D now cutoff cid sender token mg = (adm, mg1)"
    using a assms(2-4) by (simp add: admit_connection_def)
  have "adm = Accepted r \<or> (\<exists>name. adm = Throttled name r)"
    using assms(5) a by (auto simp: handle_new_connection_def split: admission.splits)
  then obtain name where "adm = Accepted r \<or> adm = Throttled name r" by blast
  note acc = admit_token_accepted [OF assms(1) t this]
  then have "mg' = mg1" using assms(5) a by (simp add: handle_new_connection_def)
  then show ?thesis using acc by blast
qed

text \<open>C13: authentication.  A WebSocket connection is accepted for a cluster only with a credential for
  it: the id of a pending download session, the id of an upload, the long-term key of the cluster, or
  a stored one-time token of the cluster; never for a cluster that already has a connection.  The
  accepted connection is then the one the cluster sends on.\<close>

theorem connection_authenticated:
  assumes "uuid_table_laws D rows"
    "handle_new_connection D now cutoff cid sender token mg = (Some r, mg')"
  shows "(download_credential token r mg \<or> upload_credential token r mg \<or> ltk_credential token r mg \<or>
      uuid_credential D cutoff (rows (mg_db mg)) token r mg) \<and>
    map_of (mg_connection_map mg') cid = Some r \<and> cl_connection (mg_cluster_heap mg' r) = Some sender"
proof (cases "map_of (mg_downloads mg) token")
  case (Some s)
  then show ?thesis using admitted_download [OF Some assms(2)] by blast
next
  case None
  show ?thesis
  proof (cases "map_of (mg_uploads mg) token")
    case (Some r')
    then show ?thesis
      using None assms(2) by (auto simp: handle_new_connection_def admit_connection_def
          admit_upload_connection_def upload_credential_def map_of_update set_connection_def Let_def
          split: if_splits)
  next
    case up: None
    show ?thesis
    proof (cases "ltk_cluster token mg")
      case (Some e)
      then show ?thesis using admitted_ltk [OF None up _ assms(2)] by (cases e) blast
    next
      case lt: None
      then show ?thesis using admitted_token [OF assms(1) None up lt assms(2)] by blast
    qed
  qed
qed

section \<open>One connection per download; two per long-term key\<close>

text \<open>Once a download session has admitted a connection, every further connection with its id is
  refused and changes nothing, whatever id and time it comes with.\<close>

theorem download_admitted_once:
  assumes "map_of (mg_downloads mg) token = Some s"
    "handle_new_connection D now cutoff cid sender token mg = (Some r, mg')"
  shows "handle_new_connection D' now' cutoff' cid' sender' token mg' = (None, mg')"
proof -
  have "\<not> mg_shutdown mg"
    using assms by (auto simp: handle_new_connection_def admit_connection_def)
  then have "ds_state (mg_session_heap mg' s) = Connected cid \<and> mg_downloads mg' = mg_downloads mg \<and>
      mg_shutdown mg' = mg_shutdown mg"
    using assms by (auto simp: handle_new_connection_def admit_connection_def
        admit_download_connection_def Let_def bind_connection_def
        split: session_state.splits option.splits if_splits)
  then show ?thesis
    using assms(1) \<open>\<not> mg_shutdown mg\<close>
    by (simp add: handle_new_connection_def admit_connection_def admit_download_connection_def
        bind_connection_def)
qed

text \<open>The duplicate check for a long-term key does not cover the wait that follows it.  Two
  connections with the key of one offline cluster both pass the check before either is registered;
  the second registration takes the cluster over from the first, and when the first connection ends,
  the cluster is marked offline although the second is still registered.\<close>

theorem ltk_check_races:
  assumes "map_of (mg_downloads mg) token = None" "map_of (mg_uploads mg) token = None"
    "ltk_cluster token mg = Some (name, r)" "\<not> is_online (mg_cluster_heap mg r)"
    "cl_role (mg_cluster_heap mg r) = Master" "cid1 \<noteq> cid2"
  shows "admit_connection D now cutoff cid1 s1 token mg = (Throttled name r, mg) \<and>
    admit_connection D now cutoff cid2 s2 token mg = (Throttled name r, mg) \<and>
    (let both = register_connection now cid2 s2 name r (register_connection now cid1 s1 name r mg);
         after = remove_connection cid1 False both
     in cl_connection (mg_cluster_heap both r) = Some s2 \<and>
        map_of (mg_connection_map both) cid1 = Some r \<and> map_of (mg_connection_map both) cid2 = Some r \<and>
        map_of (mg_connection_map after) cid2 = Some r \<and> \<not> is_online (mg_cluster_heap after r))"
  using assms
  by (simp add: admit_connection_def remove_connection_def remove_exact_connection_def map_of_update
      map_of_delete Let_def is_online_def set_connection_def)

section \<open>Health checks\<close>

definition missed_count :: "'db manager \<Rightarrow> connection_id \<Rightarrow> u32" where
  "missed_count mg cid = (case map_of (mg_missed_pongs mg) cid of None \<Rightarrow> 0 | Some n \<Rightarrow> n)"

lemma miss_effect:
  "fst (miss cid mg) = missed_count mg cid + 1"
  "missed_count (snd (miss cid mg)) cid' = (if cid' = cid then missed_count mg cid + 1 else missed_count mg cid')"
  "mg_connection_map (snd (miss cid mg)) = mg_connection_map mg"
  "mg_cluster_heap (snd (miss cid mg)) = mg_cluster_heap mg"
  by (simp_all add: miss_def missed_count_def Let_def map_of_update)

lemma count_misses_effect:
  assumes "distinct cids"
  shows "fst (count_misses cids mg) = filter (\<lambda>cid. 2 \<le> missed_count mg cid + 1) cids"
    and "missed_count (snd (count_misses cids mg)) cid =
      (if cid \<in> set cids then missed_count mg cid + 1 else missed_count mg cid)"
    and "mg_connection_map (snd (count_misses cids mg)) = mg_connection_map mg"
    and "mg_cluster_heap (snd (count_misses cids mg)) = mg_cluster_heap mg"
  using assms
proof (induction cids arbitrary: mg)
  case (Cons x xs)
  {
    case 1
    have "filter (\<lambda>cid. 2 \<le> missed_count (snd (miss x mg)) cid + 1) xs =
        filter (\<lambda>cid. 2 \<le> missed_count mg cid + 1) xs"
      using 1 by (intro filter_cong [OF refl]) (auto simp: miss_effect)
    then show ?case using Cons.IH(1) [of "snd (miss x mg)"] 1
      by (simp add: case_prod_beta miss_effect)
  next
    case 2
    then show ?case using Cons.IH(2) [of "snd (miss x mg)"]
      by (auto simp: case_prod_beta miss_effect)
  next
    case 3
    then show ?case using Cons.IH(3) [of "snd (miss x mg)"] by (simp add: case_prod_beta miss_effect)
  next
    case 4
    then show ?case using Cons.IH(4) [of "snd (miss x mg)"] by (simp add: case_prod_beta miss_effect)
  }
qed simp_all

lemma role_frame [simp]:
  "cl_role (set_connection x c) = cl_role c" "cl_role (terminate_download_tasks c) = cl_role c"
  "cl_role (fst (close c)) = cl_role c" "cl_role (send_ping c) = cl_role c"
  by (simp_all add: set_connection_def terminate_download_tasks_def stop_def close_def send_ping_def Let_def
      split: option.split)

lemma cleanup_frame:
  "cl_role (mg_cluster_heap (cleanup_file_download rq mg) r) = cl_role (mg_cluster_heap mg r)"
  "mg_missed_pongs (cleanup_file_download rq mg) =
     (case cr_connection_id rq of
        None \<Rightarrow> mg_missed_pongs mg
      | Some cid \<Rightarrow> (if cleanup_file_download rq mg = mg then mg_missed_pongs mg
          else AList.delete cid (mg_missed_pongs mg)))"
  by (simp_all add: cleanup_file_download_def Let_def remove_exact_download_session_def
      remove_exact_connection_def split: option.split)

lemma cleanup_other:
  "cr_connection_id rq = Some cid \<Longrightarrow> cid' \<noteq> cid \<Longrightarrow>
     map_of (mg_connection_map (cleanup_file_download rq mg)) cid' = map_of (mg_connection_map mg) cid'"
  "cr_connection_id rq = Some cid \<Longrightarrow> cid' \<noteq> cid \<Longrightarrow>
     map_of (mg_missed_pongs (cleanup_file_download rq mg)) cid' = map_of (mg_missed_pongs mg) cid'"
  by (simp_all add: cleanup_file_download_def Let_def remove_exact_download_session_def
      remove_exact_connection_def map_of_delete split: option.split)

text \<open>The part of \<open>remove_connection\<close> that ends a download.\<close>

definition end_download :: "connection_id \<Rightarrow> bool \<Rightarrow> nat \<Rightarrow> 'db manager \<Rightarrow> 'db manager" where
  "end_download cid close_it r mg =
     (case cl_uuid (mg_cluster_heap mg r) of
        None \<Rightarrow> mg
      | Some uid \<Rightarrow>
          (case map_of (mg_downloads mg) uid of
             None \<Rightarrow> mg
           | Some s \<Rightarrow>
               if ds_state (mg_session_heap mg s) \<noteq> Connected cid then mg
               else
                 (let reason = (if close_it then WebSocketError else WebSocketClosed);
                      (won, mg) = trigger_session reason s mg
                  in if won then
                       cleanup_file_download
                         \<lparr>cr_download_id = uid, cr_connection_id = Some cid, cr_reason = reason,
                          cr_session = s\<rparr> mg
                     else mg)))"

lemma remove_absent_connection:
  "map_of (mg_connection_map mg) cid = None \<Longrightarrow> remove_connection cid b mg = mg"
  by (simp add: remove_connection_def)

lemma remove_download_connection:
  "map_of (mg_connection_map mg) cid = Some r \<Longrightarrow> cl_role (mg_cluster_heap mg r) = FileDownload \<Longrightarrow>
     remove_connection cid b mg = forget_tracking cid (end_download cid b r mg)"
  by (simp add: remove_connection_def end_download_def Let_def)

lemma end_download_other:
  "cid' \<noteq> cid \<Longrightarrow>
     map_of (mg_connection_map (end_download cid b r mg)) cid' = map_of (mg_connection_map mg) cid'"
  "cid' \<noteq> cid \<Longrightarrow>
     map_of (mg_missed_pongs (end_download cid b r mg)) cid' = map_of (mg_missed_pongs mg) cid'"
  "cl_role (mg_cluster_heap (end_download cid b r mg) x) = cl_role (mg_cluster_heap mg x)"
  by (auto simp: end_download_def case_prod_beta Let_def cleanup_other cleanup_frame split: option.split)

lemma remove_plain_connection:
  assumes "map_of (mg_connection_map mg) cid = Some r" "cl_role (mg_cluster_heap mg r) \<noteq> FileDownload"
  shows "mg_connection_map (remove_connection cid b mg) = AList.delete cid (mg_connection_map mg)"
    and "mg_missed_pongs (remove_connection cid b mg) = AList.delete cid (mg_missed_pongs mg)"
    and "mg_ping_times (remove_connection cid b mg) = AList.delete cid (mg_ping_times mg)"
    and "mg_pong_times (remove_connection cid b mg) = AList.delete cid (mg_pong_times mg)"
    and "cl_role (mg_cluster_heap (remove_connection cid b mg) x) = cl_role (mg_cluster_heap mg x)"
  using assms
  by (simp_all add: remove_connection_def remove_exact_connection_def Let_def split: option.split)

lemma remove_connection_other:
  "cid' \<noteq> cid \<Longrightarrow>
     map_of (mg_connection_map (remove_connection cid b mg)) cid' = map_of (mg_connection_map mg) cid'"
  "cid' \<noteq> cid \<Longrightarrow> missed_count (remove_connection cid b mg) cid' = missed_count mg cid'"
  "cl_role (mg_cluster_heap (remove_connection cid b mg) x) = cl_role (mg_cluster_heap mg x)"
proof -
  consider "map_of (mg_connection_map mg) cid = None"
    | r where "map_of (mg_connection_map mg) cid = Some r" "cl_role (mg_cluster_heap mg r) = FileDownload"
    | r where "map_of (mg_connection_map mg) cid = Some r" "cl_role (mg_cluster_heap mg r) \<noteq> FileDownload"
    by (cases "map_of (mg_connection_map mg) cid") auto
  note cases = this
  show "cid' \<noteq> cid \<Longrightarrow>
      map_of (mg_connection_map (remove_connection cid b mg)) cid' = map_of (mg_connection_map mg) cid'"
    by (rule cases) (simp_all add: remove_absent_connection
        remove_download_connection remove_plain_connection end_download_other map_of_delete)
  show "cid' \<noteq> cid \<Longrightarrow> missed_count (remove_connection cid b mg) cid' = missed_count mg cid'"
    by (rule cases) (simp_all add: remove_absent_connection
        remove_download_connection remove_plain_connection end_download_other map_of_delete missed_count_def)
  show "cl_role (mg_cluster_heap (remove_connection cid b mg) x) = cl_role (mg_cluster_heap mg x)"
    by (rule cases) (simp_all add: remove_absent_connection
        remove_download_connection remove_plain_connection end_download_other)
qed

lemma evict_fold:
  assumes "map_of (mg_connection_map mg) cid = Some r" "cl_role (mg_cluster_heap mg r) = Master"
  shows "map_of (mg_connection_map (fold evict dead mg)) cid = (if cid \<in> set dead then None else Some r) \<and>
    (cid \<in> set dead \<or> missed_count (fold evict dead mg) cid = missed_count mg cid)"
  using assms
proof (induction dead arbitrary: mg)
  case (Cons d dead)
  let ?mg = "mg\<lparr>mg_ping_times := AList.delete d (mg_ping_times mg)\<rparr>"
  have ev: "evict d mg = remove_connection d True ?mg" by (simp add: evict_def)
  show ?case
  proof (cases "d = cid")
    case True
    have gone: "map_of (mg_connection_map (evict cid mg)) cid = None"
      using remove_plain_connection(1) [of ?mg cid r True] Cons.prems by (simp add: ev True [symmetric] map_of_delete)
    have "map_of (mg_connection_map (fold evict dead m)) cid = None"
      if "map_of (mg_connection_map m) cid = None" for m
      using that
    proof (induction dead arbitrary: m)
      case (Cons e es)
      have "map_of (mg_connection_map (evict e m)) cid = None"
        using Cons.prems remove_connection_other(1) [of cid e True "m\<lparr>mg_ping_times := AList.delete e (mg_ping_times m)\<rparr>"]
        by (cases "e = cid") (simp_all add: evict_def remove_absent_connection)
      from Cons.IH [OF this] show ?case by simp
    qed simp
    from this [OF gone] show ?thesis by (simp add: True)
  next
    case False
    then have "map_of (mg_connection_map (evict d mg)) cid = Some r"
        "cl_role (mg_cluster_heap (evict d mg) r) = Master" "missed_count (evict d mg) cid = missed_count mg cid"
      using Cons.prems by (simp_all add: ev remove_connection_other) (simp add: missed_count_def)
    with Cons.IH [of "evict d mg"] False show ?thesis by simp
  qed
qed simp

lemma ping_fold:
  "mg_connection_map (fold (ping_connection now) es mg) = mg_connection_map mg"
  "mg_missed_pongs (fold (ping_connection now) es mg) = mg_missed_pongs mg"
  by (induction es arbitrary: mg) (simp_all add: ping_connection_def Let_def split: prod.split)

text \<open>A ping was sent and no pong has come since.\<close>

definition unanswered :: "'db manager \<Rightarrow> connection_id \<Rightarrow> bool" where
  "unanswered mg cid \<longleftrightarrow> map_of (mg_ping_times mg) cid \<noteq> None \<and> map_of (mg_pong_times mg) cid = None"

text \<open>A health check drops a master connection exactly when its last ping is unanswered and one miss
  or more was counted before; otherwise the connection stays, and its miss count grows by one when
  the ping is unanswered and is kept when it was answered.  What happens to other connections has
  no influence.\<close>

theorem ping_eviction:
  assumes "distinct (map fst (mg_ping_times mg))" "map_of (mg_connection_map mg) cid = Some r"
    "cl_role (mg_cluster_heap mg r) = Master"
  shows "map_of (mg_connection_map (check_pings now mg)) cid =
      (if unanswered mg cid \<and> 2 \<le> missed_count mg cid + 1 then None else Some r) \<and>
    (map_of (mg_connection_map (check_pings now mg)) cid = None \<or>
     missed_count (check_pings now mg) cid = missed_count mg cid + (if unanswered mg cid then 1 else 0))"
proof -
  let ?c = "count_misses (no_pong mg) mg"
  have d: "distinct (no_pong mg)" using assms(1) by (simp add: no_pong_def)
  have mem: "cid \<in> set (no_pong mg) \<longleftrightarrow> unanswered mg cid"
    by (auto simp: no_pong_def unanswered_def map_of_eq_None_iff)
  note cm = count_misses_effect [OF d, where mg = mg]
  have c1: "map_of (mg_connection_map (snd ?c)) cid = Some r" "cl_role (mg_cluster_heap (snd ?c) r) = Master"
    using assms(2,3) by (simp_all add: cm(3,4))
  have dead: "cid \<in> set (fst ?c) \<longleftrightarrow> unanswered mg cid \<and> 2 \<le> missed_count mg cid + 1"
    by (simp add: cm(1) mem)
  have out: "check_pings now mg = fold (ping_connection now)
      (mg_connection_map (fold evict (fst ?c) (snd ?c))) (fold evict (fst ?c) (snd ?c))"
    by (simp add: check_pings_def case_prod_beta Let_def)
  show ?thesis
    using evict_fold [OF c1, of "fst ?c"] dead cm(2) [of cid] mem
    by (auto simp: out ping_fold missed_count_def [of "fold (ping_connection now) _ _"]
        missed_count_def [of "fold evict _ _"])
qed

section \<open>No tracking entry outlives its connection\<close>

definition tracked :: "'db manager \<Rightarrow> bool" where
  "tracked mg \<longleftrightarrow>
     distinct (map fst (mg_ping_times mg)) \<and>
     (\<forall>cid. map_of (mg_connection_map mg) cid = None \<longrightarrow>
        map_of (mg_pong_times mg) cid = None \<and> map_of (mg_ping_times mg) cid = None \<and>
        map_of (mg_missed_pongs mg) cid = None)"

lemma tracked_frame:
  assumes "tracked mg" "mg_connection_map mg' = mg_connection_map mg" "mg_pong_times mg' = mg_pong_times mg"
    "mg_ping_times mg' = mg_ping_times mg" "mg_missed_pongs mg' = mg_missed_pongs mg"
  shows "tracked mg'"
  using assms by (simp add: tracked_def)

lemma tracked_cleanup: "tracked mg \<Longrightarrow> tracked (cleanup_file_download rq mg)"
  by (simp add: cleanup_file_download_def Let_def remove_exact_download_session_def tracked_def
      remove_exact_connection_def map_of_delete distinct_delete split: option.split)

lemma tracked_trigger: "tracked mg \<Longrightarrow> tracked (snd (trigger_session reason s mg))"
  by (rule tracked_frame) simp_all

lemma tracked_forget: "tracked mg \<Longrightarrow> tracked (forget_tracking cid mg)"
  by (simp add: tracked_def map_of_delete distinct_delete)

lemma tracked_end_download: "tracked mg \<Longrightarrow> tracked (end_download cid b r mg)"
  by (simp add: end_download_def case_prod_beta Let_def tracked_cleanup tracked_trigger split: option.split)

lemma tracked_remove:
  assumes "tracked mg"
  shows "tracked (remove_connection cid b mg)"
proof (cases "map_of (mg_connection_map mg) cid")
  case None
  then show ?thesis using assms by (simp add: remove_absent_connection)
next
  case (Some r)
  show ?thesis
  proof (cases "cl_role (mg_cluster_heap mg r) = FileDownload")
    case True
    then show ?thesis
      using assms Some by (simp add: remove_download_connection tracked_forget tracked_end_download)
  next
    case False
    then show ?thesis
      using assms remove_plain_connection [OF Some False, of b]
      by (simp add: tracked_def map_of_delete distinct_delete)
  qed
qed

lemma tracked_register: "tracked mg \<Longrightarrow> tracked (register_connection now cid sender name r mg)"
  by (simp add: tracked_def map_of_update)

lemma tracked_pong: "tracked mg \<Longrightarrow> tracked (handle_pong now cid mg)"
  by (auto simp: tracked_def handle_pong_def map_of_update)

lemma tracked_admit:
  assumes "tracked mg"
  shows "tracked (snd (admit_connection D now cutoff cid sender token mg))"
proof -
  have conn: "tracked mg \<Longrightarrow> mg_pong_times m = mg_pong_times mg \<Longrightarrow> mg_ping_times m = mg_ping_times mg \<Longrightarrow>
      mg_missed_pongs m = mg_missed_pongs mg \<Longrightarrow>
      mg_connection_map m = AList.update cid r (mg_connection_map mg) \<Longrightarrow> tracked m" for m r
    by (auto simp: tracked_def map_of_update split: if_splits)
  have dl: "tracked (snd (admit_download_connection cid sender s mg))" for s
  proof (cases "fst (bind_connection cid (mg_session_heap mg s))")
    case (Inl e)
    then show ?thesis using assms by (simp add: admit_download_connection_def case_prod_beta)
  next
    case (Inr u)
    define x where "x = snd (bind_connection cid (mg_session_heap mg s))"
    have x: "ds_state x = Connected cid"
      using Inr by (auto simp: x_def bind_connection_def split: session_state.splits)
    have b: "bind_connection cid (mg_session_heap mg s) = (Inr u, x)"
      using Inr by (simp add: x_def prod_eq_iff)
    let ?m = "mg\<lparr>mg_session_heap := (mg_session_heap mg)(s := x)\<rparr>"
    have m: "tracked ?m" using assms by (rule tracked_frame) simp_all
    show ?thesis
    proof (cases "map_of (mg_download_clusters mg) s")
      case None
      then show ?thesis using b tracked_trigger [OF m] by (simp add: admit_download_connection_def)
    next
      case (Some r)
      then show ?thesis
        using b x by (simp add: admit_download_connection_def Let_def) (rule conn [OF assms], simp_all)
    qed
  qed
  have up: "tracked (snd (admit_upload_connection cid sender r mg))" for r
    using assms by (auto simp: admit_upload_connection_def Let_def intro!: conn)
  have tok: "tracked (snd (admit_token_connection D now cutoff cid sender token mg))"
  proof -
    have db: "tracked (mg\<lparr>mg_db := db\<rparr>)" for db using assms by (rule tracked_frame) simp_all
    show ?thesis
      by (simp add: admit_token_connection_def case_prod_beta Let_def db tracked_register split: option.split)
  qed
  show ?thesis
    using assms dl up tok by (simp add: admit_connection_def case_prod_beta split: option.split)
qed

lemma tracked_miss:
  "tracked mg \<Longrightarrow> map_of (mg_connection_map mg) cid \<noteq> None \<Longrightarrow> tracked (snd (miss cid mg))"
  by (auto simp: tracked_def miss_def Let_def map_of_update)

lemma tracked_count_misses:
  "tracked mg \<Longrightarrow> (\<forall>cid \<in> set cids. map_of (mg_connection_map mg) cid \<noteq> None) \<Longrightarrow>
     tracked (snd (count_misses cids mg))"
proof (induction cids arbitrary: mg)
  case (Cons cid cids)
  have "tracked (snd (miss cid mg))" using Cons.prems by (intro tracked_miss) auto
  with Cons show ?case by (simp add: case_prod_beta miss_effect)
qed simp

lemma tracked_evict: "tracked mg \<Longrightarrow> tracked (fold evict cids mg)"
proof (induction cids arbitrary: mg)
  case (Cons cid cids)
  have "tracked (mg\<lparr>mg_ping_times := AList.delete cid (mg_ping_times mg)\<rparr>)"
    using Cons.prems by (auto simp: tracked_def map_of_delete distinct_delete)
  then have "tracked (evict cid mg)" unfolding evict_def by (rule tracked_remove)
  with Cons show ?case by simp
qed simp

lemma tracked_ping:
  "tracked mg \<Longrightarrow> (\<forall>e \<in> set es. map_of (mg_connection_map mg) (fst e) \<noteq> None) \<Longrightarrow>
     tracked (fold (ping_connection now) es mg)"
proof (induction es arbitrary: mg)
  case (Cons e es)
  have c: "mg_connection_map (ping_connection now e mg) = mg_connection_map mg"
    using ping_fold(1) [of now "[e]" mg] by simp
  have "tracked (ping_connection now e mg)"
    using Cons.prems by (auto simp: tracked_def ping_connection_def Let_def case_prod_beta map_of_update
        map_of_delete distinct_update)
  with Cons c show ?case by simp
qed simp

lemma tracked_check_pings:
  assumes "tracked mg"
  shows "tracked (check_pings now mg)"
proof -
  have "\<forall>cid \<in> set (no_pong mg). map_of (mg_connection_map mg) cid \<noteq> None"
    using assms by (force simp: no_pong_def tracked_def map_of_eq_None_iff)
  then have t: "tracked (fold evict (fst (count_misses (no_pong mg) mg)) (snd (count_misses (no_pong mg) mg)))"
    (is "tracked ?m") by (intro tracked_evict tracked_count_misses assms)
  have "\<forall>e \<in> set (mg_connection_map ?m). map_of (mg_connection_map ?m) (fst e) \<noteq> None"
    by (auto simp: map_of_eq_None_iff)
  then show ?thesis
    unfolding check_pings_def case_prod_beta Let_def by (rule tracked_ping [OF t])
qed

text \<open>The events of a manager's life.  An admission that is throttled is registered by a later event,
  so any other events can come between.\<close>

datatype manager_op =
    AdmitOp int int connection_id ws_channel string
  | RegisterOp int connection_id ws_channel string nat
  | RemoveOp connection_id bool
  | PongOp int connection_id
  | PingsOp int
  | SessionOp shutdown_reason nat
  | WorkerOp
  | ShutdownOp
  | CreateDownloadOp nat string
  | CreateUploadOp nat string
  | RemoveUploadOp string
  | ReconnectOp nat int int "string \<Rightarrow> string"

fun manager_step :: "'db database \<Rightarrow> manager_op \<Rightarrow> 'db manager \<Rightarrow> 'db manager" where
  "manager_step D (AdmitOp now cutoff cid sender token) mg =
     snd (admit_connection D now cutoff cid sender token mg)"
| "manager_step D (RegisterOp now cid sender name r) mg = register_connection now cid sender name r mg"
| "manager_step D (RemoveOp cid b) mg = remove_connection cid b mg"
| "manager_step D (PongOp now cid) mg = handle_pong now cid mg"
| "manager_step D (PingsOp now) mg = check_pings now mg"
| "manager_step D (SessionOp reason s) mg = snd (trigger_session reason s mg)"
| "manager_step D WorkerOp mg = cleanup_worker_step mg"
| "manager_step D ShutdownOp mg = snd (begin_application_shutdown mg)"
| "manager_step D (CreateDownloadOp r uid) mg = snd (create_file_download r uid mg)"
| "manager_step D (CreateUploadOp r uid) mg = snd (create_file_upload r uid mg)"
| "manager_step D (RemoveUploadOp uid) mg = remove_file_upload uid mg"
| "manager_step D (ReconnectOp base now wall uuids) mg = snd (reconnect_clusters D base now wall uuids mg)"

lemma tracked_trigger_all: "tracked mg \<Longrightarrow> tracked (snd (trigger_all xs mg))"
  by (induction xs arbitrary: mg) (simp_all add: trigger_all_Cons tracked_trigger)

lemma tracked_reconnect: "tracked mg \<Longrightarrow> tracked (snd (reconnect_clusters D base now wall uuids mg))"
proof -
  have one: "tracked (snd out) \<Longrightarrow> tracked (snd (reconnect_one D base now wall uuids e out))" for e out
    by (simp add: reconnect_one_def case_prod_beta Let_def tracked_def split: sum.split)
  have "tracked (snd out) \<Longrightarrow> tracked (snd (fold (reconnect_one D base now wall uuids) es out))" for es out
    by (induction es arbitrary: out) (simp_all add: one)
  then show "tracked mg \<Longrightarrow> ?thesis" by (simp add: reconnect_clusters_def)
qed

lemma tracked_create:
  assumes "tracked mg"
  shows "tracked (snd (create_file_download r uid mg))" "tracked (snd (create_file_upload r uid mg))"
    "tracked (remove_file_upload uid mg)"
  by (rule tracked_frame [OF assms];
    simp add: create_file_download_def create_file_upload_def remove_file_upload_def Let_def)+

lemma tracked_step:
  assumes "tracked mg"
  shows "tracked (manager_step D x mg)"
proof (cases x)
  case WorkerOp
  have "tracked (mg\<lparr>mg_cleanup_queue := q\<rparr>)" for q using assms by (rule tracked_frame) simp_all
  then show ?thesis
    using assms WorkerOp by (simp add: cleanup_worker_step_def tracked_cleanup split: list.split)
next
  case ShutdownOp
  have "tracked (mg\<lparr>mg_shutdown := b\<rparr>)" for b using assms by (rule tracked_frame) simp_all
  then show ?thesis
    using assms ShutdownOp by (simp add: begin_application_shutdown_def tracked_trigger_all)
qed (simp_all add: assms tracked_admit tracked_register tracked_remove tracked_pong
    tracked_check_pings tracked_trigger tracked_reconnect tracked_create)

lemma manager_new_tracked: "tracked (manager_new cfgs db)"
proof -
  have "tracked mg \<Longrightarrow> tracked (register_configs cfgs mg)" for mg :: "'a manager"
    by (induction cfgs arbitrary: mg) (simp_all add: Let_def tracked_def)
  then show ?thesis by (simp add: manager_new_def tracked_def)
qed

text \<open>Over any sequence of events on a new manager, in any interleaving, ping, pong and miss records
  exist only for registered connections, and a connection has at most one ping record: nothing about
  a connection survives its removal.\<close>

theorem tracking_never_leaks: "tracked (fold (manager_step D) ops (manager_new cfgs db))"
proof -
  have run: "tracked mg \<Longrightarrow> tracked (fold (manager_step D) ops mg)" for mg
    by (induction ops arbitrary: mg) (simp_all add: tracked_step)
  show ?thesis by (rule run) (rule manager_new_tracked)
qed

section \<open>Reconnection\<close>

lemma reconnect_one_launched:
  assumes laws: "uuid_table_laws D rows"
    and run: "reconnect_one D base now wall uuids (name, r) ([], mg) = ([l], mg1)"
  shows "\<exists>u. u \<in> set (rows (mg_db mg1)) \<and> cu_uuid u = uuids name \<and> cu_cluster u = name \<and>
      cu_timestamp u = wall \<and> set (rows (mg_db mg1)) \<subseteq> insert u (set (rows (mg_db mg)))"
    and "\<not> is_online (mg_cluster_heap mg r)"
    and "mg_cluster_heap mg1 = mg_cluster_heap mg \<and> mg_clusters mg1 = mg_clusters mg \<and>
      mg_downloads mg1 = mg_downloads mg \<and> mg_uploads mg1 = mg_uploads mg"
proof -
  let ?row = "\<lparr>cu_id = 0, cu_cluster = name, cu_uuid = uuids name, cu_timestamp = wall\<rparr>"
  obtain res1 db1 where d: "tb_delete (db_cluster_uuids D) (mg_db mg) (\<lambda>u. cu_cluster u = name) = (res1, db1)"
    by force
  obtain res2 db2 where i: "tb_insert (db_cluster_uuids D) db1 ?row = (res2, db2)" by force
  show off: "\<not> is_online (mg_cluster_heap mg r)"
  proof
    assume "is_online (mg_cluster_heap mg r)"
    then show False using run by (simp add: reconnect_one_def)
  qed
  have go: "cc_ltk (cl_details (mg_cluster_heap mg r)) = None"
      "\<not> in_backoff base now (case mg_reconnect_attempts mg name of None \<Rightarrow> 0 | Some n \<Rightarrow> n)
        (mg_last_attempt mg name)"
    using run off by (auto simp: reconnect_one_def Let_def split: if_splits)
  obtain x where x: "res2 = Inr x"
    using run off go d i by (cases res2) (simp_all add: reconnect_one_def Let_def)
  have mg1: "mg_db mg1 = db2" "mg_cluster_heap mg1 = mg_cluster_heap mg \<and> mg_clusters mg1 = mg_clusters mg \<and>
      mg_downloads mg1 = mg_downloads mg \<and> mg_uploads mg1 = mg_uploads mg"
    using run off go d i x by (auto simp: reconnect_one_def Let_def)
  then show "mg_cluster_heap mg1 = mg_cluster_heap mg \<and> mg_clusters mg1 = mg_clusters mg \<and>
      mg_downloads mg1 = mg_downloads mg \<and> mg_uploads mg1 = mg_uploads mg" by blast
  have row: "?row\<lparr>cu_id := cu_id x\<rparr> = x" and rows2: "set (rows db2) = insert x (set (rows db1))"
    using table_laws.insert_ok [OF laws i [unfolded x]] by simp_all
  have "cu_uuid x = uuids name" "cu_cluster x = name" "cu_timestamp x = wall"
    by (subst row [symmetric], simp)+
  moreover have "set (rows db1) \<subseteq> set (rows (mg_db mg))" using table_laws.delete_subset [OF laws d] .
  ultimately show "\<exists>u. u \<in> set (rows (mg_db mg1)) \<and> cu_uuid u = uuids name \<and> cu_cluster u = name \<and>
      cu_timestamp u = wall \<and> set (rows (mg_db mg1)) \<subseteq> insert u (set (rows (mg_db mg)))"
    unfolding mg1(1) rows2 by blast
qed

text \<open>The reconnection handshake completes.  When a reconnect launches a client for an offline
  cluster, the token it hands out is stored for that cluster, and a connection that presents the
  token before it expires is accepted for exactly this cluster, unless its look-up fails; the
  backoff of the cluster is then reset.\<close>

theorem reconnect_handshake:
  assumes laws: "uuid_table_laws D rows"
    and run: "reconnect_one D base now wall uuids (name, r) ([], mg) = ([l], mg1)"
    and reg: "map_of (mg_clusters mg) name = Some r"
    and fresh: "map_of (mg_downloads mg) (uuids name) = None" "map_of (mg_uploads mg) (uuids name) = None"
      "ltk_cluster (uuids name) mg = None" "uuids name \<notin> cu_uuid ` set (rows (mg_db mg))"
    and time: "cutoff < wall"
    and query: "\<And>db P. \<exists>x. tb_one (db_cluster_uuids D) db P = Inr x"
  shows "\<exists>mg2. handle_new_connection D now' cutoff cid sender (uuids name) mg1 = (Some r, mg2) \<and>
    is_online (mg_cluster_heap mg2 r) \<and> mg_reconnect_attempts mg2 name = None"
proof -
  let ?uid = "uuids name"
  note l = reconnect_one_launched [OF laws run]
  obtain u where u: "u \<in> set (rows (mg_db mg1))" "cu_uuid u = ?uid" "cu_cluster u = name"
      "cu_timestamp u = wall" "set (rows (mg_db mg1)) \<subseteq> insert u (set (rows (mg_db mg)))"
    using l(1) by blast
  have same: "map_of (mg_downloads mg1) ?uid = None" "map_of (mg_uploads mg1) ?uid = None"
      "ltk_cluster ?uid mg1 = None" "map_of (mg_clusters mg1) name = Some r"
      "\<not> is_online (mg_cluster_heap mg1 r)"
    using l(2,3) fresh reg by (simp_all add: ltk_cluster_def)
  obtain res1 db1 where d1: "tb_delete (db_cluster_uuids D) (mg_db mg1) (\<lambda>u. cu_timestamp u \<le> cutoff) = (res1, db1)"
    by force
  have kept: "u \<in> set (rows db1)"
    using table_laws.delete_other [OF laws d1 u(1)] u(4) time by simp
  obtain x where x: "tb_one (db_cluster_uuids D) db1 (\<lambda>v. cu_uuid v = ?uid) = Inr x" using query by blast
  have "x \<noteq> None"
    using table_laws.one_none [OF laws, of db1 "\<lambda>v. cu_uuid v = ?uid"] x kept u(2) by auto
  then obtain v where v: "x = Some v" by blast
  have vv: "v \<in> set (rows db1)" "cu_uuid v = ?uid" using table_laws.one_row [OF laws x [unfolded v]] by auto
  have "v \<in> set (rows (mg_db mg1))" using table_laws.delete_subset [OF laws d1] vv(1) by blast
  then have "v = u" using u(5) vv(2) fresh(4) by force
  obtain res2 db2 where d2: "tb_delete (db_cluster_uuids D) db1 (\<lambda>x. cu_cluster x = name) = (res2, db2)" by force
  have "handle_new_connection D now' cutoff cid sender ?uid mg1 =
      (Some r, register_connection now' cid sender name r (mg1\<lparr>mg_db := db2\<rparr>))"
    using same d1 x v \<open>v = u\<close> u(3) d2
    by (simp add: handle_new_connection_def admit_connection_def admit_token_connection_def Let_def)
  then show ?thesis
    by (simp add: is_online_def set_connection_def, simp add: register_connection_def Let_def)
qed

section \<open>Examples\<close>

definition demo_manager :: "mem_db manager" where
  "demo_manager = manager_new [demo_config] demo_db"

definition demo_ltk_config :: cluster_config where
  "demo_ltk_config = demo_config\<lparr>cc_name := ''ltk'', cc_ltk := Some ''key''\<rparr>"

definition demo_ltk_manager :: "mem_db manager" where
  "demo_ltk_manager = manager_new [demo_ltk_config] demo_db"

definition demo_channel :: ws_channel where
  "demo_channel = \<lparr>ch_open = True, ch_sent = []\<rparr>"

definition demo_transfer_manager :: "mem_db manager" where
  "demo_transfer_manager = snd (create_file_download 0 ''d'' demo_manager)"

lemma demo_manager_fields [simp]:
  "mg_clusters demo_manager = [(''ozstar'', 0)]" "mg_downloads demo_manager = []"
  "mg_uploads demo_manager = []" "mg_shutdown demo_manager = False" "mg_connection_map demo_manager = []"
  "mg_cluster_heap demo_manager 0 = cluster_new demo_config True" "mg_db demo_manager = demo_db"
  "mg_next demo_manager = 1" "mg_ping_times demo_manager = []" "mg_reconnect_attempts demo_manager = (\<lambda>_. None)"
  by (simp_all add: demo_manager_def manager_new_def Let_def demo_config_def)

lemma demo_new_cluster [simp]:
  "cl_details (cluster_new cfg ctx) = cfg" "\<not> is_online (cluster_new cfg ctx)"
  "cl_role (cluster_new cfg ctx) = Master"
  by (simp_all add: cluster_new_def is_online_def, simp add: cluster_new_with_role_def)

lemma demo_ltk_fields [simp]:
  "mg_clusters demo_ltk_manager = [(''ltk'', 0)]" "mg_downloads demo_ltk_manager = []"
  "mg_uploads demo_ltk_manager = []" "mg_cluster_heap demo_ltk_manager 0 = cluster_new demo_ltk_config True"
  by (simp_all add: demo_ltk_manager_def manager_new_def Let_def demo_ltk_config_def)

theorem constant_time_eq_iff_witness: "\<not> constant_time_eq ''key'' ''kez''"
  using constant_time_eq_iff [of "''key''" "''kez''"]
  by (simp add: is_rust_string_def str_bytes_def byte_of_char_def)

lemma demo_transfer_fields [simp]:
  "mg_downloads demo_transfer_manager = [(''d'', 2)]" "mg_shutdown demo_transfer_manager = False"
  "mg_download_clusters demo_transfer_manager = [(2, 1)]"
  "mg_session_heap demo_transfer_manager 2 = session_new ''d'' 2"
  by (simp_all add: demo_transfer_manager_def create_file_download_def Let_def)
    (simp_all add: demo_manager_def manager_new_def Let_def eval_nat_numeral)

theorem shutdown_final_witness:
  "\<exists>n mg'. begin_application_shutdown demo_transfer_manager = (n, mg') \<and> n = 1 \<and>
     create_file_download 0 ''e'' mg' = (0, mg')"
proof -
  obtain n mg' where b: "begin_application_shutdown demo_transfer_manager = (n, mg')" by force
  show ?thesis
    using shutdown_final [OF _ _ b, where r = 0 and uid = "''e''"] b
    by (auto simp: session_open_def session_new_def)
qed

lemma demo_transfer_connect:
  "\<exists>mg'. handle_new_connection mem_database 0 0 7 demo_channel ''d'' demo_transfer_manager = (Some 1, mg')"
  by (simp add: handle_new_connection_def admit_connection_def admit_download_connection_def Let_def
      bind_connection_def session_new_def)

theorem download_admitted_once_witness:
  "\<exists>mg'. handle_new_connection mem_database 0 0 7 demo_channel ''d'' demo_transfer_manager = (Some 1, mg') \<and>
    handle_new_connection mem_database 1 1 8 demo_channel ''d'' mg' = (None, mg')"
proof -
  have d: "map_of (mg_downloads demo_transfer_manager) ''d'' = Some 2" by simp
  obtain mg' where a: "handle_new_connection mem_database 0 0 7 demo_channel ''d'' demo_transfer_manager =
      (Some 1, mg')" using demo_transfer_connect by blast
  from download_admitted_once [OF d a, of mem_database 1 1 8 demo_channel] a show ?thesis by blast
qed

theorem connection_authenticated_witness:
  "\<exists>mg'. handle_new_connection mem_database 0 0 7 demo_channel ''d'' demo_transfer_manager = (Some 1, mg') \<and>
    map_of (mg_connection_map mg') 7 = Some 1 \<and> cl_connection (mg_cluster_heap mg' 1) = Some demo_channel"
proof -
  obtain mg' where a: "handle_new_connection mem_database 0 0 7 demo_channel ''d'' demo_transfer_manager =
      (Some 1, mg')" using demo_transfer_connect by blast
  from connection_authenticated [OF mem_uuids.table_laws_axioms a] a show ?thesis by blast
qed

theorem ltk_check_races_witness:
  "let both = register_connection 0 8 demo_channel ''ltk'' 0
       (register_connection 0 7 demo_channel ''ltk'' 0 demo_ltk_manager);
     after = remove_connection 7 False both
   in map_of (mg_connection_map after) 8 = Some 0 \<and> \<not> is_online (mg_cluster_heap after 0)"
proof -
  have l: "ltk_cluster ''key'' demo_ltk_manager = Some (''ltk'', 0)"
    using constant_time_eq_iff [of "''key''" "''key''"]
    by (simp add: ltk_cluster_def demo_ltk_config_def is_rust_string_def str_bytes_def byte_of_char_def)
  show ?thesis
    using ltk_check_races [where mg = demo_ltk_manager and token = "''key''" and name = "''ltk''" and r = 0
        and ?cid1.0 = 7 and ?cid2.0 = 8 and now = 0 and ?s1.0 = demo_channel and ?s2.0 = demo_channel
        and D = mem_database and cutoff = 0] l
    unfolding Let_def by simp
qed

text \<open>A manager with a registered master connection whose ping was answered neither before the last
  check nor since.\<close>

definition demo_silent_manager :: "mem_db manager" where
  "demo_silent_manager = (register_connection 0 7 demo_channel ''ozstar'' 0 demo_manager)
     \<lparr>mg_ping_times := [(7, 10)], mg_pong_times := [], mg_missed_pongs := [(7, 1)]\<rparr>"

theorem ping_eviction_witness:
  "map_of (mg_connection_map (check_pings 20 demo_silent_manager)) 7 = None"
  using ping_eviction [of demo_silent_manager 7 0 20]
  by (simp add: demo_silent_manager_def unanswered_def missed_count_def)

lemma demo_launch:
  "\<exists>mg1. reconnect_one mem_database 60 0 1000 (\<lambda>_. ''tok'') (''ozstar'', 0) ([], demo_manager) =
     ([LaunchSsh demo_config ''tok''], mg1)"
  "mt_rows (m_cluster_uuids demo_db) = []" "ltk_cluster ''tok'' demo_manager = None"
  "\<exists>x. tb_one (db_cluster_uuids mem_database) db P = Inr x"
  by (simp_all add: reconnect_one_def in_backoff_def mem_database_def mem_ops_def mem_delete_def mem_insert_def
      mem_wf_def Let_def demo_db_def mem_empty_def ltk_cluster_def demo_config_def)

theorem reconnect_handshake_witness:
  "\<exists>mg1 mg2. reconnect_one mem_database 60 0 1000 (\<lambda>_. ''tok'') (''ozstar'', 0) ([], demo_manager) =
      ([LaunchSsh demo_config ''tok''], mg1) \<and>
    handle_new_connection mem_database 5 400 7 demo_channel ''tok'' mg1 = (Some 0, mg2) \<and>
    is_online (mg_cluster_heap mg2 0)"
proof -
  obtain mg1 where run: "reconnect_one mem_database 60 0 1000 (\<lambda>_. ''tok'') (''ozstar'', 0) ([], demo_manager) =
      ([LaunchSsh demo_config ''tok''], mg1)"
    using demo_launch(1) by blast
  have "\<exists>mg2. handle_new_connection mem_database 5 400 7 demo_channel ((\<lambda>_. ''tok'') ''ozstar'') mg1 =
        (Some 0, mg2) \<and> is_online (mg_cluster_heap mg2 0) \<and> mg_reconnect_attempts mg2 ''ozstar'' = None"
    by (rule reconnect_handshake [OF mem_uuids.table_laws_axioms run]) (simp_all add: demo_launch)
  with run show ?thesis by blast
qed

end
