(* ===== verification/Http_Auth.thy ===== *)
theory Http_Auth
  imports Cluster_Manager
begin

text \<open>
  Authorisation of HTTP requests (\<open>src/http/auth.rs\<close>, the secrets of
  \<open>src/config/access_secrets.rs\<close> and the error helpers of \<open>src/http/utils.rs\<close>).  The JSON Web
  Token library is not part of the repository: \<open>decode jwt secret\<close> is the payload of a token that
  is valid (HS256, not expired) under a secret, and \<open>user_claim\<close> reads the numeric user id of a
  payload.
\<close>

type_synonym http_error = "nat \<times> string"

section \<open>Secrets and errors\<close>

record access_secret =
  as_name :: string
  as_secret :: string
  as_applications :: "string list"
  as_clusters :: "string list"

record 'p auth_result =
  au_payload :: 'p
  au_secret :: access_secret

definition FORBIDDEN :: nat where "FORBIDDEN = 403"
definition BAD_REQUEST :: nat where "BAD_REQUEST = 400"
definition SERVICE_UNAVAILABLE :: nat where "SERVICE_UNAVAILABLE = 503"
definition INTERNAL_SERVER_ERROR :: nat where "INTERNAL_SERVER_ERROR = 500"

definition NOT_AUTHORIZED_MSG :: string where
  "NOT_AUTHORIZED_MSG = ''Not authorized''"

definition BEARER_PREFIX :: string where
  "BEARER_PREFIX = ''Bearer ''"

definition INVALID_CLUSTER_MSG :: string where
  "INVALID_CLUSTER_MSG = ''Invalid cluster''"

definition app_no_cluster_access_msg :: "string \<Rightarrow> string \<Rightarrow> string" where
  "app_no_cluster_access_msg app cluster =
     ''Application '' @ app @ '' does not have access to cluster '' @ cluster"

definition db_error :: "db_err \<Rightarrow> http_error" where
  "db_error e = (case e of DbErr s \<Rightarrow> (INTERNAL_SERVER_ERROR, ''DB error: '' @ s))"

definition job_id_to_u32 :: "u64 \<Rightarrow> http_error + u32" where
  "job_id_to_u32 i =
     (if uint i < 2 ^ 32 then Inr (ucast i)
      else Inl (BAD_REQUEST, ''Job ID '' @ show_int (uint i) @ '' exceeds maximum supported value''))"

section \<open>The authorization header\<close>

definition ascii_lower :: "char \<Rightarrow> char" where
  "ascii_lower c =
     (if 65 \<le> (of_char c :: nat) \<and> (of_char c :: nat) \<le> 90 then char_of ((of_char c :: nat) + 32) else c)"

definition eq_ignore_ascii_case :: "string \<Rightarrow> string \<Rightarrow> bool" where
  "eq_ignore_ascii_case a b \<longleftrightarrow> map ascii_lower a = map ascii_lower b"

definition bearer_token :: "string \<Rightarrow> string" where
  "bearer_token header =
     (if length BEARER_PREFIX \<le> length header \<and>
         eq_ignore_ascii_case (take (length BEARER_PREFIX) header) BEARER_PREFIX
      then drop (length BEARER_PREFIX) header
      else header)"

fun try_secrets ::
    "(string \<Rightarrow> string \<Rightarrow> 'p option) \<Rightarrow> access_secret list \<Rightarrow> string \<Rightarrow> http_error + 'p auth_result" where
  "try_secrets decode [] jwt = Inl (FORBIDDEN, NOT_AUTHORIZED_MSG)"
| "try_secrets decode (s # ss) jwt =
     (case decode jwt (as_secret s) of
        Some claims \<Rightarrow> Inr \<lparr>au_payload = claims, au_secret = s\<rparr>
      | None \<Rightarrow> try_secrets decode ss jwt)"

definition auth_from_request ::
    "(string \<Rightarrow> string \<Rightarrow> 'p option) \<Rightarrow> access_secret list \<Rightarrow> string option \<Rightarrow>
     http_error + 'p auth_result" where
  "auth_from_request decode secrets header =
     (case header of
        None \<Rightarrow> Inl (FORBIDDEN, NOT_AUTHORIZED_MSG)
      | Some h \<Rightarrow> try_secrets decode secrets (bearer_token h))"

definition get_applications :: "access_secret \<Rightarrow> string list" where
  "get_applications s = as_name s # as_applications s"

definition auth_user_id :: "('p \<Rightarrow> i64 option) \<Rightarrow> 'p auth_result \<Rightarrow> i64" where
  "auth_user_id user_claim auth = (case user_claim (au_payload auth) of None \<Rightarrow> 0 | Some i \<Rightarrow> i)"

section \<open>Who is authorised\<close>

lemma try_secrets_Inr:
  "try_secrets decode ss jwt = Inr a \<Longrightarrow>
     au_secret a \<in> set ss \<and> decode jwt (as_secret (au_secret a)) = Some (au_payload a)"
  by (induction ss) (auto split: option.splits)

lemma try_secrets_Inl:
  "try_secrets decode ss jwt = Inl e \<longleftrightarrow>
     (\<forall>s \<in> set ss. decode jwt (as_secret s) = None) \<and> e = (FORBIDDEN, NOT_AUTHORIZED_MSG)"
  by (induction ss) (auto split: option.splits)

text \<open>A request is authorised exactly when it carries an authorization header whose token, with or
  without the bearer scheme in any case, is valid under one of the configured secrets; the result then
  holds such a secret with the payload it gave.  Every other request gets 403.\<close>

theorem auth_exact:
  "case auth_from_request decode secrets header of
     Inr a \<Rightarrow> (\<exists>h. header = Some h \<and> au_secret a \<in> set secrets \<and>
       decode (bearer_token h) (as_secret (au_secret a)) = Some (au_payload a))
   | Inl e \<Rightarrow> e = (FORBIDDEN, NOT_AUTHORIZED_MSG) \<and>
       (header = None \<or> (\<exists>h. header = Some h \<and>
          (\<forall>s \<in> set secrets. decode (bearer_token h) (as_secret s) = None)))"
proof (cases header)
  case None
  then show ?thesis by (simp add: auth_from_request_def)
next
  case (Some h)
  show ?thesis
  proof (cases "try_secrets decode secrets (bearer_token h)")
    case (Inl e)
    have "auth_from_request decode secrets header = Inl e" by (simp add: auth_from_request_def Some Inl)
    with Inl [unfolded try_secrets_Inl] Some show ?thesis by simp
  next
    case (Inr a)
    then show ?thesis using Some try_secrets_Inr [OF Inr] by (simp add: auth_from_request_def)
  qed
qed

lemma bearer_any_case: "eq_ignore_ascii_case ''bEaReR '' ''Bearer ''"
  by code_simp

lemma bearer_token_scheme:
  "bearer_token (''bEaReR '' @ jwt) = jwt" "bearer_token ''abc'' = ''abc''"
  using bearer_any_case by (simp_all add: bearer_token_def BEARER_PREFIX_def)

text \<open>A library that accepts the token \<open>t\<close> under the secret \<open>k\<close> only.\<close>

theorem auth_exact_witness:
  "case auth_from_request (\<lambda>jwt s. if jwt = ''t'' \<and> s = ''k'' then Some (7 :: int) else None)
       [\<lparr>as_name = ''app'', as_secret = ''k'', as_applications = [], as_clusters = []\<rparr>] (Some ''bearer t'') of
     Inr a \<Rightarrow> (\<exists>h. Some ''bearer t'' = Some h \<and>
       au_secret a \<in> set [\<lparr>as_name = ''app'', as_secret = ''k'', as_applications = [], as_clusters = []\<rparr>] \<and>
       (\<lambda>jwt s. if jwt = ''t'' \<and> s = ''k'' then Some (7 :: int) else None) (bearer_token h) (as_secret (au_secret a)) =
         Some (au_payload a))
   | Inl e \<Rightarrow> e = (FORBIDDEN, NOT_AUTHORIZED_MSG) \<and>
       (Some ''bearer t'' = None \<or> (\<exists>h. Some ''bearer t'' = Some h \<and>
          (\<forall>s \<in> set [\<lparr>as_name = ''app'', as_secret = ''k'', as_applications = [], as_clusters = []\<rparr>].
            (\<lambda>jwt s. if jwt = ''t'' \<and> s = ''k'' then Some (7 :: int) else None) (bearer_token h) (as_secret s) = None)))"
  by (rule auth_exact)

end
