(* ===== verification/Http_Job.thy ===== *)
theory Http_Job
  imports Http_Auth
begin

text \<open>
  The HTTP operations that create, cancel and delete jobs (\<open>src/http/job.rs\<close>).  A handler takes
  the authorised caller, the request and the manager, whose database is the one the handlers
  share, and returns the answer or the error together with the new manager.
\<close>

section \<open>Requests\<close>

record create_job_request =
  cr_cluster :: string
  cr_parameters :: string
  cr_bundle :: string

definition ERR_JOB_INVALID_STATE :: string where
  "ERR_JOB_INVALID_STATE = ''Job is in invalid state''"

definition ERR_CLUSTER_DID_NOT_EXIST :: string where
  "ERR_CLUSTER_DID_NOT_EXIST = ''Cluster for job did not exist''"

definition ERR_APPLICATION_SHUTDOWN :: string where
  "ERR_APPLICATION_SHUTDOWN = ''Application is shutting down''"

definition MAX_PARAMETERS_LEN :: nat where "MAX_PARAMETERS_LEN = 100000"
definition MAX_BUNDLE_LEN :: nat where "MAX_BUNDLE_LEN = 10000"

definition history_entry :: "i64 \<Rightarrow> int \<Rightarrow> i32 \<Rightarrow> string \<Rightarrow> job_history_row" where
  "history_entry jid now code details =
     \<lparr>jh_id = 0, jh_job_id = jid, jh_timestamp = now, jh_what = SYSTEM_SOURCE, jh_state = code,
      jh_details = details\<rparr>"

section \<open>Creation\<close>

definition insert_pending_job ::
    "'db database \<Rightarrow> int \<Rightarrow> job_row \<Rightarrow> 'db \<Rightarrow> i64 db_result \<times> 'db" where
  "insert_pending_job D now row txn =
     (case tb_insert (db_jobs D) txn row of
        (Inl e, txn) \<Rightarrow> (Inl e, txn)
      | (Inr job, txn) \<Rightarrow>
          (let jid = job_id job in
           case tb_insert (db_histories D) txn
                  (history_entry jid now (job_status_code Pending) ''Job pending'') of
             (Inl e, txn) \<Rightarrow> (Inl e, txn)
           | (Inr _, txn) \<Rightarrow> (Inr jid, txn)))"

definition submit_message :: "i64 \<Rightarrow> u32 \<Rightarrow> create_job_request \<Rightarrow> message" where
  "submit_message jid wire_id body =
     push_string (cr_parameters body)
       (push_string (cr_bundle body)
         (push_uint wire_id
           (message_new SUBMIT_JOB Medium (job_source_key (sint jid) (cr_cluster body)))))"

definition submit_job ::
    "'db database \<Rightarrow> int \<Rightarrow> i64 \<Rightarrow> create_job_request \<Rightarrow> nat \<Rightarrow> 'db manager \<Rightarrow>
     (http_error + i64) \<times> 'db manager" where
  "submit_job D now jid body r mg =
     (case job_id_to_u32 jid of
        Inl e \<Rightarrow>
          (let (_, db) = tb_delete (db_histories D) (mg_db mg) (\<lambda>h. jh_job_id h = jid);
               (_, db) = tb_delete (db_jobs D) db (\<lambda>j. job_id j = jid)
           in (Inl e, mg\<lparr>mg_db := db\<rparr>))
      | Inr wire_id \<Rightarrow>
          (let mg = with_cluster r (send_message (submit_message jid wire_id body)) mg;
               (_, db) = tb_insert (db_histories D) (mg_db mg)
                 (history_entry jid now (job_status_code Submitting) ''Job submitting'')
           in (Inr jid, mg\<lparr>mg_db := db\<rparr>)))"

definition create_job ::
    "'db database \<Rightarrow> ('p \<Rightarrow> i64 option) \<Rightarrow> int \<Rightarrow> 'p auth_result \<Rightarrow> create_job_request \<Rightarrow> 'db manager \<Rightarrow>
     (http_error + i64) \<times> 'db manager" where
  "create_job D user_claim now auth body mg =
     (if MAX_PARAMETERS_LEN < length (cr_parameters body) then
        (Inl (BAD_REQUEST, ''parameters too long''), mg)
      else if MAX_BUNDLE_LEN < length (cr_bundle body) then
        (Inl (BAD_REQUEST, ''bundle too long''), mg)
      else if cr_cluster body \<notin> set (as_clusters (au_secret auth)) then
        (Inl (BAD_REQUEST, app_no_cluster_access_msg (as_name (au_secret auth)) (cr_cluster body)), mg)
      else
        (case map_of (mg_clusters mg) (cr_cluster body) of
           None \<Rightarrow> (Inl (BAD_REQUEST, INVALID_CLUSTER_MSG), mg)
         | Some r \<Rightarrow>
             if mg_shutdown mg then (Inl (SERVICE_UNAVAILABLE, ERR_APPLICATION_SHUTDOWN), mg)
             else
               (case transaction D
                       (insert_pending_job D now
                         \<lparr>job_id = 0, job_user = auth_user_id user_claim auth,
                          job_parameters = cr_parameters body, job_cluster = cr_cluster body,
                          job_bundle = cr_bundle body, job_application = as_name (au_secret auth)\<rparr>)
                       (mg_db mg) of
                  (Inl e, db) \<Rightarrow> (Inl (db_error e), mg\<lparr>mg_db := db\<rparr>)
                | (Inr jid, db) \<Rightarrow>
                    (let mg = mg\<lparr>mg_db := db\<rparr> in
                     if is_online (mg_cluster_heap mg r) then submit_job D now jid body r mg
                     else (Inr jid, mg)))))"

section \<open>Cancellation and deletion\<close>

definition get_latest_job_history ::
    "'db database \<Rightarrow> 'db \<Rightarrow> i64 \<Rightarrow> http_error + job_history_row" where
  "get_latest_job_history D db jid =
     (case tb_all_desc (db_histories D) db (\<lambda>h. jh_job_id h = jid)
             (\<lambda>h. (jh_timestamp h, sint (jh_id h))) of
        Inl e \<Rightarrow> Inl (db_error e)
      | Inr [] \<Rightarrow> Inl (BAD_REQUEST, ''No history for job'')
      | Inr (h # _) \<Rightarrow> Inr h)"

definition get_job_with_access_check ::
    "'db database \<Rightarrow> 'db \<Rightarrow> 'p auth_result \<Rightarrow> u64 \<Rightarrow> http_error + job_row" where
  "get_job_with_access_check D db auth jid =
     (case tb_one (db_jobs D) db
             (\<lambda>j. job_id j = jid \<and> job_application j \<in> set (get_applications (au_secret auth))) of
        Inl e \<Rightarrow> Inl (db_error e)
      | Inr None \<Rightarrow> Inl (BAD_REQUEST, ''Job did not exist with the specified jobId'')
      | Inr (Some j) \<Rightarrow>
          if job_cluster j \<notin> set (as_clusters (au_secret auth)) then
            Inl (BAD_REQUEST, app_no_cluster_access_msg (as_name (au_secret auth)) (job_cluster j))
          else Inr j)"

definition load_job_for_transition ::
    "'db database \<Rightarrow> 'p auth_result \<Rightarrow> u64 \<Rightarrow> i32 list \<Rightarrow> 'db manager \<Rightarrow>
     http_error + (job_row \<times> nat \<times> i32)" where
  "load_job_for_transition D auth jid invalid_states mg =
     (case job_id_to_u32 jid of
        Inl e \<Rightarrow> Inl e
      | Inr _ \<Rightarrow>
          (case get_job_with_access_check D (mg_db mg) auth jid of
             Inl e \<Rightarrow> Inl e
           | Inr j \<Rightarrow>
               (case get_latest_job_history D (mg_db mg) (job_id j) of
                  Inl e \<Rightarrow> Inl e
                | Inr latest \<Rightarrow>
                    if jh_state latest \<in> set invalid_states then
                      Inl (BAD_REQUEST, ERR_JOB_INVALID_STATE)
                    else
                      (case map_of (mg_clusters mg) (job_cluster j) of
                         None \<Rightarrow> Inl (BAD_REQUEST, ERR_CLUSTER_DID_NOT_EXIST)
                       | Some r \<Rightarrow> Inr (j, r, jh_state latest)))))"

definition record_job_transition ::
    "'db database \<Rightarrow> int \<Rightarrow> nat \<Rightarrow> job_row \<Rightarrow> u64 \<Rightarrow> i32 \<Rightarrow> job_status \<Rightarrow> string \<Rightarrow> job_status \<Rightarrow> string \<Rightarrow>
     u32 \<Rightarrow> 'db manager \<Rightarrow> (http_error + unit) \<times> 'db manager" where
  "record_job_transition D now r job jid current_state terminal_state terminal_details
       intermediate_state intermediate_details wire_msg_id mg =
     (let pending = (current_state = job_status_code Pending);
          (new_state, details) =
            (if pending then (job_status_code terminal_state, terminal_details)
             else (job_status_code intermediate_state, intermediate_details));
          send_wire = (\<not> pending \<and> is_online (mg_cluster_heap mg r));
          insert_row = tb_insert (db_histories D) (mg_db mg)
            (history_entry (job_id job) now new_state details)
      in case (if send_wire then map_sum id Some (job_id_to_u32 jid) else Inr None) of
           Inl e \<Rightarrow> (Inl e, mg)
         | Inr wire_id \<Rightarrow>
             (case insert_row of
                (Inl e, db) \<Rightarrow> (Inl (db_error e), mg\<lparr>mg_db := db\<rparr>)
              | (Inr _, db) \<Rightarrow>
                  (let mg = mg\<lparr>mg_db := db\<rparr> in
                   case wire_id of
                     None \<Rightarrow> (Inr (), mg)
                   | Some i \<Rightarrow>
                       (let msg = push_uint i
                              (message_new wire_msg_id Medium (job_source_key (uint jid) (job_cluster job)))
                        in (Inr (), with_cluster r (send_message msg) mg)))))"

definition cancel_invalid_states :: "i32 list" where
  "cancel_invalid_states = map job_status_code
     [Cancelling, Cancelled, Deleting, Deleted, JobError, WallTimeExceeded, OutOfMemory, Completed]"

definition delete_invalid_states :: "i32 list" where
  "delete_invalid_states = map job_status_code
     [Submitting, Submitted, Queued, Running, Cancelling, Deleting, Deleted]"

definition cancel_job ::
    "'db database \<Rightarrow> int \<Rightarrow> 'p auth_result \<Rightarrow> u64 \<Rightarrow> 'db manager \<Rightarrow> (http_error + u64) \<times> 'db manager" where
  "cancel_job D now auth jid mg =
     (if mg_shutdown mg then (Inl (SERVICE_UNAVAILABLE, ERR_APPLICATION_SHUTDOWN), mg)
      else
        (case load_job_for_transition D auth jid cancel_invalid_states mg of
           Inl e \<Rightarrow> (Inl e, mg)
         | Inr (job, r, current_state) \<Rightarrow>
             (case record_job_transition D now r job jid current_state Cancelled ''Job cancelled''
                     Cancelling ''Job cancelling'' CANCEL_JOB mg of
                (Inl e, mg) \<Rightarrow> (Inl e, mg)
              | (Inr _, mg) \<Rightarrow> (Inr jid, mg))))"

definition delete_job ::
    "'db database \<Rightarrow> int \<Rightarrow> 'p auth_result \<Rightarrow> u64 \<Rightarrow> 'db manager \<Rightarrow> (http_error + u64) \<times> 'db manager" where
  "delete_job D now auth jid mg =
     (if mg_shutdown mg then (Inl (SERVICE_UNAVAILABLE, ERR_APPLICATION_SHUTDOWN), mg)
      else
        (case load_job_for_transition D auth jid delete_invalid_states mg of
           Inl e \<Rightarrow> (Inl e, mg)
         | Inr (job, r, current_state) \<Rightarrow>
             (case record_job_transition D now r job jid current_state Deleted ''Job deleted''
                     Deleting ''Job deleting'' DELETE_JOB mg of
                (Inl e, mg) \<Rightarrow> (Inl e, mg)
              | (Inr _, mg) \<Rightarrow> (Inr jid, mg))))"

section \<open>What a transition does\<close>

lemma latest_history_lookup:
  assumes laws: "history_table_laws D hrows" and q: "get_latest_job_history D db jid = Inr h"
  shows "latest_history (set (hrows db)) jid h"
proof -
  obtain hs where hs: "tb_all_desc (db_histories D) db (\<lambda>h. jh_job_id h = jid)
      (\<lambda>h. (jh_timestamp h, sint (jh_id h))) = Inr (h # hs)"
    using q by (auto simp: get_latest_job_history_def split: sum.splits list.splits)
  have "set (h # hs) = {x \<in> set (hrows db). jh_job_id x = jid}"
    and "sorted_wrt (\<lambda>a b. history_before b a) (h # hs)"
    using table_laws.all_desc_rows [OF laws hs] unfolding history_before_def by simp_all
  then show ?thesis
    by (auto simp: latest_history_def history_before_def)
qed

lemma access_check:
  assumes laws: "jobs_table_laws D jrows" and q: "get_job_with_access_check D db auth jid = Inr j"
  shows "j \<in> set (jrows db) \<and> job_id j = jid \<and> job_application j \<in> set (get_applications (au_secret auth)) \<and>
    job_cluster j \<in> set (as_clusters (au_secret auth))"
  using q table_laws.one_row [OF laws, of db _ j]
  by (auto simp: get_job_with_access_check_def split: sum.splits option.splits if_splits)

text \<open>The outcome of a cancellation or deletion of job \<open>jid\<close> that was not refused.\<close>

definition transition_done ::
    "job_row set \<Rightarrow> job_history_row set \<Rightarrow> job_history_row set \<Rightarrow> 'p auth_result \<Rightarrow> int \<Rightarrow> u64 \<Rightarrow> i32 list \<Rightarrow>
     job_status \<times> string \<Rightarrow> job_status \<times> string \<Rightarrow> u32 \<Rightarrow> 'db manager \<Rightarrow> 'db manager \<Rightarrow> bool" where
  "transition_done jobs hist hist' auth now jid invalid terminal intermediate wire mg mg' \<longleftrightarrow>
     (\<exists>j \<in> jobs. \<exists>h r i.
        job_id j = jid \<and> job_application j \<in> set (get_applications (au_secret auth)) \<and>
        job_cluster j \<in> set (as_clusters (au_secret auth)) \<and>
        map_of (mg_clusters mg) (job_cluster j) = Some r \<and>
        latest_history hist jid h \<and> jh_state h \<notin> set invalid \<and> i \<notin> jh_id ` hist \<and>
        (let pending = (jh_state h = job_status_code Pending);
             (new_state, details) = (if pending then terminal else intermediate)
         in hist' = insert ((history_entry jid now (job_status_code new_state) details)\<lparr>jh_id := i\<rparr>) hist \<and>
            mg_cluster_heap mg' =
              (if pending \<or> \<not> is_online (mg_cluster_heap mg r) then mg_cluster_heap mg
               else (mg_cluster_heap mg)(r := send_message
                 (push_uint (ucast jid) (message_new wire Medium (job_source_key (uint jid) (job_cluster j))))
                 (mg_cluster_heap mg r)))))"

lemma record_transition_effect:
  assumes laws: "history_table_laws D hrows" and wire_ok: "job_id_to_u32 jid = Inr wid"
  shows "case record_job_transition D now r j jid current ts td ims imd wire mg of
      (Inl e, mg') \<Rightarrow> mg_cluster_heap mg' = mg_cluster_heap mg \<and> hrows (mg_db mg') = hrows (mg_db mg)
    | (Inr _, mg') \<Rightarrow>
        (\<exists>i. i \<notin> jh_id ` set (hrows (mg_db mg)) \<and>
          (let pending = (current = job_status_code Pending);
               (new_state, details) = (if pending then (ts, td) else (ims, imd))
           in set (hrows (mg_db mg')) =
                insert ((history_entry (job_id j) now (job_status_code new_state) details)\<lparr>jh_id := i\<rparr>)
                  (set (hrows (mg_db mg))) \<and>
              mg_cluster_heap mg' =
                (if pending \<or> \<not> is_online (mg_cluster_heap mg r) then mg_cluster_heap mg
                 else (mg_cluster_heap mg)(r := send_message
                   (push_uint wid (message_new wire Medium (job_source_key (uint jid) (job_cluster j))))
                   (mg_cluster_heap mg r)))))"
proof -
  let ?p = "current = job_status_code Pending"
  let ?row = "history_entry (job_id j) now (job_status_code (if ?p then ts else ims)) (if ?p then td else imd)"
  obtain res db' where ins: "tb_insert (db_histories D) (mg_db mg) ?row = (res, db')" by force
  show ?thesis
  proof (cases res)
    case (Inl e)
    have "hrows db' = hrows (mg_db mg)" using table_laws.insert_err [OF laws ins [unfolded Inl]] .
    then show ?thesis
      using ins Inl wire_ok by (auto simp: record_job_transition_def Let_def)
  next
    case (Inr x)
    have row: "?row\<lparr>jh_id := jh_id x\<rparr> = x" and fresh: "jh_id x \<notin> jh_id ` set (hrows (mg_db mg))"
      and rows': "set (hrows db') = insert x (set (hrows (mg_db mg)))"
      using table_laws.insert_ok [OF laws ins [unfolded Inr]] by simp_all
    have set': "set (hrows db') = insert (?row\<lparr>jh_id := jh_id x\<rparr>) (set (hrows (mg_db mg)))"
      unfolding row by (rule rows')
    show ?thesis
      using ins Inr wire_ok fresh set'
      by (cases ?p; cases "is_online (mg_cluster_heap mg r)")
        (auto simp: record_job_transition_def Let_def intro!: exI [of _ "jh_id x"])
  qed
qed

lemma load_job_Inr:
  assumes laws: "jobs_table_laws D jrows" "history_table_laws D hrows"
    and load: "load_job_for_transition D auth jid invalid mg = Inr (j, r, st)"
  shows "j \<in> set (jrows (mg_db mg)) \<and> job_id j = jid \<and>
      job_application j \<in> set (get_applications (au_secret auth)) \<and>
      job_cluster j \<in> set (as_clusters (au_secret auth)) \<and> map_of (mg_clusters mg) (job_cluster j) = Some r \<and>
      st \<notin> set invalid \<and> job_id_to_u32 jid = Inr (ucast jid)"
    and "\<exists>h. latest_history (set (hrows (mg_db mg))) jid h \<and> jh_state h = st"
proof -
  obtain w where w: "job_id_to_u32 jid = Inr w"
    using load by (cases "job_id_to_u32 jid") (simp_all add: load_job_for_transition_def)
  then have wid: "job_id_to_u32 jid = Inr (ucast jid)" by (simp add: job_id_to_u32_def split: if_splits)
  obtain j' where j: "get_job_with_access_check D (mg_db mg) auth jid = Inr j'"
    using load w by (cases "get_job_with_access_check D (mg_db mg) auth jid")
      (simp_all add: load_job_for_transition_def)
  obtain h where h: "get_latest_job_history D (mg_db mg) (job_id j') = Inr h"
    using load w j by (cases "get_latest_job_history D (mg_db mg) (job_id j')")
      (simp_all add: load_job_for_transition_def)
  have rest: "j' = j" "jh_state h = st" "st \<notin> set invalid" "map_of (mg_clusters mg) (job_cluster j) = Some r"
    using load w j h by (auto simp: load_job_for_transition_def split: if_splits option.splits)
  note acc = access_check [OF laws(1) j]
  show "\<exists>h. latest_history (set (hrows (mg_db mg))) jid h \<and> jh_state h = st"
    using latest_history_lookup [OF laws(2) h] rest(2) acc by blast
  show "j \<in> set (jrows (mg_db mg)) \<and> job_id j = jid \<and>
      job_application j \<in> set (get_applications (au_secret auth)) \<and>
      job_cluster j \<in> set (as_clusters (au_secret auth)) \<and> map_of (mg_clusters mg) (job_cluster j) = Some r \<and>
      st \<notin> set invalid \<and> job_id_to_u32 jid = Inr (ucast jid)"
    using acc rest wid by simp
qed

lemma transition_outcome:
  assumes laws: "jobs_table_laws D jrows" "history_table_laws D hrows"
    and load: "load_job_for_transition D auth jid invalid mg = Inr (j, r, st)"
  shows "case record_job_transition D now r j jid st ts td ims imd wire mg of
      (Inl e, mg') \<Rightarrow> mg_cluster_heap mg' = mg_cluster_heap mg \<and> hrows (mg_db mg') = hrows (mg_db mg)
    | (Inr _, mg') \<Rightarrow> transition_done (set (jrows (mg_db mg))) (set (hrows (mg_db mg))) (set (hrows (mg_db mg')))
        auth now jid invalid (ts, td) (ims, imd) wire mg mg'"
proof -
  note l = load_job_Inr [OF laws load]
  obtain h where h: "latest_history (set (hrows (mg_db mg))) jid h" "jh_state h = st" using l(2) by blast
  note eff = record_transition_effect [OF laws(2), where jid = jid and wid = "ucast jid" and now = now
      and r = r and j = j and current = st and ts = ts and td = td and ims = ims and imd = imd
      and wire = wire and mg = mg]
  obtain res mg' where out: "record_job_transition D now r j jid st ts td ims imd wire mg = (res, mg')" by force
  show ?thesis
  proof (cases res)
    case (Inl e)
    with eff l(1) out show ?thesis by simp
  next
    case (Inr u)
    then obtain i where i: "i \<notin> jh_id ` set (hrows (mg_db mg))"
        "let pending = (st = job_status_code Pending); (new_state, details) = (if pending then (ts, td) else (ims, imd))
         in set (hrows (mg_db mg')) = insert ((history_entry (job_id j) now (job_status_code new_state) details)\<lparr>jh_id := i\<rparr>)
              (set (hrows (mg_db mg))) \<and>
            mg_cluster_heap mg' = (if pending \<or> \<not> is_online (mg_cluster_heap mg r) then mg_cluster_heap mg
              else (mg_cluster_heap mg)(r := send_message
                (push_uint (ucast jid) (message_new wire Medium (job_source_key (uint jid) (job_cluster j))))
                (mg_cluster_heap mg r)))"
      using eff l(1) out by auto
    have "transition_done (set (jrows (mg_db mg))) (set (hrows (mg_db mg))) (set (hrows (mg_db mg')))
        auth now jid invalid (ts, td) (ims, imd) wire mg mg'"
      unfolding transition_done_def
      by (rule bexI [of _ j], rule exI [of _ h], rule exI [of _ r], rule exI [of _ i])
        (use l(1) h i in auto)
    with out Inr show ?thesis by simp
  qed
qed

text \<open>C29: cancellation.  A refused request changes neither the job history nor any queue.  A request that
  succeeds was made for a job of one of the caller's applications on a cluster the caller may use,
  whose latest state allows it; it appends exactly one history row, Cancelled for a pending job and
  Cancelling otherwise, and sends one CANCEL_JOB to the job's cluster unless the job was pending or
  the cluster is offline.\<close>

theorem cancel_job_effect:
  assumes "jobs_table_laws D jrows" "history_table_laws D hrows"
  shows "case cancel_job D now auth jid mg of
      (Inl e, mg') \<Rightarrow> mg_cluster_heap mg' = mg_cluster_heap mg \<and> hrows (mg_db mg') = hrows (mg_db mg)
    | (Inr _, mg') \<Rightarrow> transition_done (set (jrows (mg_db mg))) (set (hrows (mg_db mg))) (set (hrows (mg_db mg')))
        auth now jid cancel_invalid_states (Cancelled, ''Job cancelled'') (Cancelling, ''Job cancelling'')
        CANCEL_JOB mg mg'"
proof (cases "mg_shutdown mg")
  case True
  then show ?thesis by (simp add: cancel_job_def)
next
  case False
  show ?thesis
  proof (cases "load_job_for_transition D auth jid cancel_invalid_states mg")
    case (Inl e)
    with False show ?thesis by (simp add: cancel_job_def)
  next
    case (Inr x)
    obtain j r st where x: "x = (j, r, st)" by (cases x)
    obtain res mg' where out: "record_job_transition D now r j jid st Cancelled ''Job cancelled'' Cancelling
        ''Job cancelling'' CANCEL_JOB mg = (res, mg')" by force
    from transition_outcome [OF assms Inr [unfolded x], of now Cancelled "''Job cancelled''" Cancelling
        "''Job cancelling''" CANCEL_JOB] out False Inr x
    show ?thesis by (cases res) (simp_all add: cancel_job_def)
  qed
qed

text \<open>Deletion, in the same terms: Deleted for a pending job, Deleting with one DELETE_JOB to an online
  cluster otherwise, and nothing at all when the request is refused.\<close>

theorem delete_job_effect:
  assumes "jobs_table_laws D jrows" "history_table_laws D hrows"
  shows "case delete_job D now auth jid mg of
      (Inl e, mg') \<Rightarrow> mg_cluster_heap mg' = mg_cluster_heap mg \<and> hrows (mg_db mg') = hrows (mg_db mg)
    | (Inr _, mg') \<Rightarrow> transition_done (set (jrows (mg_db mg))) (set (hrows (mg_db mg))) (set (hrows (mg_db mg')))
        auth now jid delete_invalid_states (Deleted, ''Job deleted'') (Deleting, ''Job deleting'')
        DELETE_JOB mg mg'"
proof (cases "mg_shutdown mg")
  case True
  then show ?thesis by (simp add: delete_job_def)
next
  case False
  show ?thesis
  proof (cases "load_job_for_transition D auth jid delete_invalid_states mg")
    case (Inl e)
    with False show ?thesis by (simp add: delete_job_def)
  next
    case (Inr x)
    obtain j r st where x: "x = (j, r, st)" by (cases x)
    obtain res mg' where out: "record_job_transition D now r j jid st Deleted ''Job deleted'' Deleting
        ''Job deleting'' DELETE_JOB mg = (res, mg')" by force
    from transition_outcome [OF assms Inr [unfolded x], of now Deleted "''Job deleted''" Deleting
        "''Job deleting''" DELETE_JOB] out False Inr x
    show ?thesis by (cases res) (simp_all add: delete_job_def)
  qed
qed

section \<open>Creation\<close>

text \<open>The jobs of a database: the two tables a creation writes, each untouched by the operations on the
  other, and transactions that start from and commit the rows they saw.\<close>

locale job_store =
  jobs: table_laws "db_jobs D" jrows job_id "\<lambda>i r. r\<lparr>job_id := i\<rparr>" +
  histories: table_laws "db_histories D" hrows jh_id "\<lambda>i r. r\<lparr>jh_id := i\<rparr>"
  for D :: "'db database" and jrows :: "'db \<Rightarrow> job_row list" and hrows :: "'db \<Rightarrow> job_history_row list" +
  assumes job_insert_frame: "hrows (snd (tb_insert (db_jobs D) db j)) = hrows db"
    and history_insert_frame: "jrows (snd (tb_insert (db_histories D) db h)) = jrows db"
    and history_delete_frame: "jrows (snd (tb_delete (db_histories D) db P)) = jrows db"
    and begin_frame: "db_begin D db = Inr t \<Longrightarrow> jrows t = jrows db \<and> hrows t = hrows db"
    and commit_frame: "db_commit D t = Inr db \<Longrightarrow> jrows db = jrows t \<and> hrows db = hrows t"
begin

lemma insert_pending:
  assumes "insert_pending_job D now row t = (Inr jid, t')"
  shows "jid \<notin> job_id ` set (jrows t) \<and> 0 < sint jid \<and>
    set (jrows t') = insert (row\<lparr>job_id := jid\<rparr>) (set (jrows t)) \<and>
    (\<exists>i. i \<notin> jh_id ` set (hrows t) \<and>
      set (hrows t') = insert ((history_entry jid now (job_status_code Pending) ''Job pending'')\<lparr>jh_id := i\<rparr>)
        (set (hrows t)))"
proof -
  obtain res t1 where a: "tb_insert (db_jobs D) t row = (res, t1)" by force
  obtain job where r: "res = Inr job" using assms a by (cases res) (simp_all add: insert_pending_job_def)
  let ?h = "history_entry (job_id job) now (job_status_code Pending) ''Job pending''"
  obtain res2 t2 where b: "tb_insert (db_histories D) t1 ?h = (res2, t2)" by force
  obtain h where r2: "res2 = Inr h" using assms a r b by (cases res2) (simp_all add: insert_pending_job_def)
  have eq: "jid = job_id job" "t' = t2" using assms a r b r2 by (simp_all add: insert_pending_job_def)
  have frames: "hrows t1 = hrows t" "jrows t2 = jrows t1"
    using job_insert_frame [of t row] history_insert_frame [of t1 ?h] a b by simp_all
  note ji = jobs.insert_ok [OF a [unfolded r]] and hi = histories.insert_ok [OF b [unfolded r2]]
  have row: "row\<lparr>job_id := job_id job\<rparr> = job" using conjunct1 [OF ji] by (rule sym)
  have entry: "?h\<lparr>jh_id := jh_id h\<rparr> = h" using conjunct1 [OF hi] by (rule sym)
  have "jh_id h \<notin> jh_id ` set (hrows t) \<and> set (hrows t') = insert (?h\<lparr>jh_id := jh_id h\<rparr>) (set (hrows t))"
    unfolding entry eq using hi frames by simp
  moreover have "job_id job \<notin> job_id ` set (jrows t) \<and> 0 < sint (job_id job) \<and>
      set (jrows t') = insert (row\<lparr>job_id := job_id job\<rparr>) (set (jrows t))"
    unfolding row eq using ji frames by simp
  ultimately show ?thesis unfolding eq(1) by blast
qed

lemma pending_transaction:
  assumes "transaction D (insert_pending_job D now row) db = (Inr jid, db')"
  shows "jid \<notin> job_id ` set (jrows db) \<and> 0 < sint jid \<and>
    set (jrows db') = insert (row\<lparr>job_id := jid\<rparr>) (set (jrows db)) \<and>
    (\<exists>i. i \<notin> jh_id ` set (hrows db) \<and>
      set (hrows db') = insert ((history_entry jid now (job_status_code Pending) ''Job pending'')\<lparr>jh_id := i\<rparr>)
        (set (hrows db)))"
proof -
  obtain t where t: "db_begin D db = Inr t"
    using assms by (cases "db_begin D db") (simp_all add: transaction_def)
  obtain res t' where f: "insert_pending_job D now row t = (res, t')" by force
  obtain v where v: "res = Inr v" using assms t f by (cases res) (simp_all add: transaction_def)
  obtain d where c: "db_commit D t' = Inr d"
    using assms t f v by (cases "db_commit D t'") (simp_all add: transaction_def)
  have "v = jid" "d = db'" using assms t f v c by (simp_all add: transaction_def)
  with insert_pending [OF f [unfolded v]] begin_frame [OF t] commit_frame [OF c] show ?thesis by simp
qed

lemma insert_history_rows:
  "let db' = snd (tb_insert (db_histories D) db h) in jrows db' = jrows db \<and>
     (set (hrows db') = set (hrows db) \<or>
      (\<exists>i. i \<notin> jh_id ` set (hrows db) \<and> set (hrows db') = insert (h\<lparr>jh_id := i\<rparr>) (set (hrows db))))"
proof -
  obtain res db' where a: "tb_insert (db_histories D) db h = (res, db')" by force
  show ?thesis
  proof (cases res)
    case (Inl e)
    with a histories.insert_err [OF a [unfolded Inl]] history_insert_frame [of db h] show ?thesis by simp
  next
    case (Inr r)
    with a histories.insert_ok [OF a [unfolded Inr]] history_insert_frame [of db h] show ?thesis
      by (simp add: Let_def) metis
  qed
qed

lemma remove_job_rows:
  assumes "tb_delete (db_histories D) db P = (u, d)" "tb_delete (db_jobs D) d (\<lambda>j. job_id j = jid) = (v, d')"
    "j \<in> set (jrows db)" "job_id j \<noteq> jid"
  shows "j \<in> set (jrows d')"
  using jobs.delete_other [OF assms(2), of j] history_delete_frame [of db P] assms by simp

end

interpretation mem_job_store: job_store mem_database "\<lambda>db. mt_rows (m_jobs db)" "\<lambda>db. mt_rows (m_histories db)"
proof
  fix db t :: mem_db and j :: job_row and h :: job_history_row and P
  show "mt_rows (m_histories (snd (tb_insert (db_jobs mem_database) db j))) = mt_rows (m_histories db)"
    by (simp add: mem_database_def mem_ops_def split: prod.split)
  show "mt_rows (m_jobs (snd (tb_insert (db_histories mem_database) db h))) = mt_rows (m_jobs db)"
    by (simp add: mem_database_def mem_ops_def split: prod.split)
  show "mt_rows (m_jobs (snd (tb_delete (db_histories mem_database) db P))) = mt_rows (m_jobs db)"
    by (simp add: mem_database_def mem_ops_def)
  show "db_begin mem_database db = Inr t \<Longrightarrow> mt_rows (m_jobs t) = mt_rows (m_jobs db) \<and>
      mt_rows (m_histories t) = mt_rows (m_histories db)"
    by (simp add: mem_database_def)
  show "db_commit mem_database t = Inr db \<Longrightarrow> mt_rows (m_jobs db) = mt_rows (m_jobs t) \<and>
      mt_rows (m_histories db) = mt_rows (m_histories t)"
    by (simp add: mem_database_def)
qed

text \<open>The outcome of a creation that succeeded with id \<open>jid\<close>.\<close>

definition new_job_row :: "i64 \<Rightarrow> 'p auth_result \<Rightarrow> create_job_request \<Rightarrow> i64 \<Rightarrow> job_row" where
  "new_job_row user auth body jid =
     \<lparr>job_id = jid, job_user = user, job_parameters = cr_parameters body, job_cluster = cr_cluster body,
      job_bundle = cr_bundle body, job_application = as_name (au_secret auth)\<rparr>"

definition creation_done ::
    "job_row set \<Rightarrow> job_row set \<Rightarrow> job_history_row set \<Rightarrow> job_history_row set \<Rightarrow> int \<Rightarrow> i64 \<Rightarrow> 'p auth_result \<Rightarrow>
     create_job_request \<Rightarrow> i64 \<Rightarrow> 'db manager \<Rightarrow> 'db manager \<Rightarrow> bool" where
  "creation_done jobs jobs' hist hist' now user auth body jid mg mg' \<longleftrightarrow>
     \<not> mg_shutdown mg \<and> cr_cluster body \<in> set (as_clusters (au_secret auth)) \<and> jid \<notin> job_id ` jobs \<and>
     jobs' = insert (new_job_row user auth body jid) jobs \<and>
     (\<exists>r i. map_of (mg_clusters mg) (cr_cluster body) = Some r \<and> i \<notin> jh_id ` hist \<and>
       (let pending = (history_entry jid now (job_status_code Pending) ''Job pending'')\<lparr>jh_id := i\<rparr>;
            submitting = history_entry jid now (job_status_code Submitting) ''Job submitting''
        in if is_online (mg_cluster_heap mg r) then
             uint jid < 2 ^ 32 \<and>
             mg_cluster_heap mg' = (mg_cluster_heap mg)
               (r := send_message (submit_message jid (ucast jid) body) (mg_cluster_heap mg r)) \<and>
             (hist' = insert pending hist \<or>
              (\<exists>k. k \<notin> jh_id ` insert pending hist \<and> hist' = insert (submitting\<lparr>jh_id := k\<rparr>) (insert pending hist)))
           else mg_cluster_heap mg' = mg_cluster_heap mg \<and> hist' = insert pending hist))"

lemma submit_job_effect:
  assumes store: "job_store D jrows hrows"
  shows "case submit_job D now jid body r mg of
      (Inl e, mg') \<Rightarrow> mg_cluster_heap mg' = mg_cluster_heap mg \<and> 2 ^ 32 \<le> uint jid \<and>
        set (jrows (mg_db mg')) \<subseteq> set (jrows (mg_db mg)) \<and>
        (\<forall>j \<in> set (jrows (mg_db mg)). job_id j \<noteq> jid \<longrightarrow> j \<in> set (jrows (mg_db mg')))
    | (Inr jid', mg') \<Rightarrow> jid' = jid \<and> uint jid < 2 ^ 32 \<and> jrows (mg_db mg') = jrows (mg_db mg) \<and>
        mg_cluster_heap mg' = (mg_cluster_heap mg)
          (r := send_message (submit_message jid (ucast jid) body) (mg_cluster_heap mg r)) \<and>
        (set (hrows (mg_db mg')) = set (hrows (mg_db mg)) \<or>
         (\<exists>k. k \<notin> jh_id ` set (hrows (mg_db mg)) \<and> set (hrows (mg_db mg')) =
           insert ((history_entry jid now (job_status_code Submitting) ''Job submitting'')\<lparr>jh_id := k\<rparr>)
             (set (hrows (mg_db mg)))))"
proof (cases "uint jid < 2 ^ 32")
  case True
  let ?h = "history_entry jid now (job_status_code Submitting) ''Job submitting''"
  obtain res db' where i: "tb_insert (db_histories D) (mg_db mg) ?h = (res, db')" by force
  have "submit_job D now jid body r mg =
      (Inr jid, (with_cluster r (send_message (submit_message jid (ucast jid) body)) mg)\<lparr>mg_db := db'\<rparr>)"
    using True i by (simp add: submit_job_def job_id_to_u32_def with_cluster_def Let_def)
  then show ?thesis
    using True job_store.insert_history_rows [OF store, of "mg_db mg" ?h] i
    by (simp add: with_cluster_def Let_def)
next
  case False
  obtain u d where h: "tb_delete (db_histories D) (mg_db mg) (\<lambda>h. jh_job_id h = jid) = (u, d)" by force
  obtain v d' where j: "tb_delete (db_jobs D) d (\<lambda>j. job_id j = jid) = (v, d')" by force
  have "table_laws (db_jobs D) jrows job_id (\<lambda>i r. r\<lparr>job_id := i\<rparr>)"
    using store unfolding job_store_def by blast
  then have "set (jrows d') \<subseteq> set (jrows d)" by (rule table_laws.delete_subset [OF _ j])
  moreover have "jrows d = jrows (mg_db mg)"
    using job_store.history_delete_frame [OF store, of "mg_db mg" "\<lambda>h. jh_job_id h = jid"] h by simp
  moreover have "\<forall>x \<in> set (jrows (mg_db mg)). job_id x \<noteq> jid \<longrightarrow> x \<in> set (jrows d')"
    using job_store.remove_job_rows [OF store h j] by blast
  moreover have "\<exists>e. submit_job D now jid body r mg = (Inl e, mg\<lparr>mg_db := d'\<rparr>)"
    using False h j by (simp add: submit_job_def job_id_to_u32_def)
  ultimately show ?thesis using False by auto
qed

lemma creation_committed:
  assumes store: "job_store D jrows hrows" and sd: "\<not> mg_shutdown mg"
    and access: "cr_cluster body \<in> set (as_clusters (au_secret auth))"
    and r: "map_of (mg_clusters mg) (cr_cluster body) = Some r"
    and t: "transaction D (insert_pending_job D now (new_job_row user auth body 0)) (mg_db mg) = (Inr jid, db')"
  shows "case (if is_online (mg_cluster_heap mg r) then submit_job D now jid body r (mg\<lparr>mg_db := db'\<rparr>)
        else (Inr jid, mg\<lparr>mg_db := db'\<rparr>)) of
      (Inl e, mg') \<Rightarrow> mg_cluster_heap mg' = mg_cluster_heap mg \<and> set (jrows (mg_db mg)) \<subseteq> set (jrows (mg_db mg')) \<and>
        (\<forall>j \<in> set (jrows (mg_db mg')) - set (jrows (mg_db mg)). 2 ^ 32 \<le> uint (job_id j))
    | (Inr jid', mg') \<Rightarrow> creation_done (set (jrows (mg_db mg))) (set (jrows (mg_db mg'))) (set (hrows (mg_db mg)))
        (set (hrows (mg_db mg'))) now user auth body jid' mg mg'"
proof -
  have row: "(new_job_row user auth body 0)\<lparr>job_id := jid\<rparr> = new_job_row user auth body jid"
    by (simp add: new_job_row_def)
  note p = job_store.pending_transaction [OF store t, unfolded row]
  then obtain i where i: "i \<notin> jh_id ` set (hrows (mg_db mg))" "set (hrows db') =
      insert ((history_entry jid now (job_status_code Pending) ''Job pending'')\<lparr>jh_id := i\<rparr>)
        (set (hrows (mg_db mg)))" by blast
  show ?thesis
  proof (cases "is_online (mg_cluster_heap mg r)")
    case False
    have "creation_done (set (jrows (mg_db mg))) (set (jrows db')) (set (hrows (mg_db mg))) (set (hrows db'))
        now user auth body jid mg (mg\<lparr>mg_db := db'\<rparr>)"
      unfolding creation_done_def using sd access r p i False by simp
    with False show ?thesis by simp
  next
    case True
    obtain res mg' where out: "submit_job D now jid body r (mg\<lparr>mg_db := db'\<rparr>) = (res, mg')" by force
    note e = submit_job_effect [OF store, where now = now and jid = jid and body = body and r = r
        and mg = "mg\<lparr>mg_db := db'\<rparr>", unfolded out]
    show ?thesis
    proof (cases res)
      case (Inl err)
      have new: "job_id j \<noteq> jid" if "j \<in> set (jrows (mg_db mg))" for j using p that by blast
      have kept: "set (jrows (mg_db mg)) \<subseteq> set (jrows (mg_db mg'))" using e Inl p new by auto
      have "2 ^ 32 \<le> uint (job_id j)" if "j \<in> set (jrows (mg_db mg'))" "j \<notin> set (jrows (mg_db mg))" for j
      proof -
        from that e Inl p have "j = new_job_row user auth body jid" by auto
        with e Inl show ?thesis by (simp add: new_job_row_def)
      qed
      with kept e Inl True out show ?thesis by simp
    next
      case (Inr jid')
      have "creation_done (set (jrows (mg_db mg))) (set (jrows (mg_db mg'))) (set (hrows (mg_db mg)))
          (set (hrows (mg_db mg'))) now user auth body jid mg mg'"
        unfolding creation_done_def Let_def
        by (intro conjI exI [of _ r] exI [of _ i]) (use sd access r p i True e Inr in auto)
      with e Inr True out show ?thesis by simp
    qed
  qed
qed

lemma create_job_outcome:
  assumes "job_store D jrows hrows"
  shows "case create_job D user_claim now auth body mg of
      (Inl e, mg') \<Rightarrow> mg_cluster_heap mg' = mg_cluster_heap mg \<and> set (jrows (mg_db mg)) \<subseteq> set (jrows (mg_db mg')) \<and>
        (\<forall>j \<in> set (jrows (mg_db mg')) - set (jrows (mg_db mg)). 2 ^ 32 \<le> uint (job_id j))
    | (Inr jid, mg') \<Rightarrow> creation_done (set (jrows (mg_db mg))) (set (jrows (mg_db mg'))) (set (hrows (mg_db mg)))
        (set (hrows (mg_db mg'))) now (auth_user_id user_claim auth) auth body jid mg mg'"
proof (cases "length (cr_parameters body) \<le> MAX_PARAMETERS_LEN \<and> length (cr_bundle body) \<le> MAX_BUNDLE_LEN \<and>
    cr_cluster body \<in> set (as_clusters (au_secret auth)) \<and> \<not> mg_shutdown mg")
  case False
  then show ?thesis by (auto simp: create_job_def split: option.split)
next
  case True
  show ?thesis
  proof (cases "map_of (mg_clusters mg) (cr_cluster body)")
    case None
    then show ?thesis by (simp add: create_job_def)
  next
    case (Some r)
    let ?t = "transaction D (insert_pending_job D now (new_job_row (auth_user_id user_claim auth) auth body 0)) (mg_db mg)"
    obtain res db' where t: "?t = (res, db')" by force
    show ?thesis
    proof (cases res)
      case (Inl e)
      have "db' = mg_db mg" using t [unfolded Inl] by (rule transaction_failed)
      with t Inl True Some show ?thesis by (simp add: create_job_def new_job_row_def)
    next
      case (Inr jid)
      have "create_job D user_claim now auth body mg =
          (if is_online (mg_cluster_heap mg r) then submit_job D now jid body r (mg\<lparr>mg_db := db'\<rparr>)
           else (Inr jid, mg\<lparr>mg_db := db'\<rparr>))"
        using t Inr True Some by (simp add: create_job_def new_job_row_def)
      with creation_committed [OF assms _ _ Some t [unfolded Inr]] True show ?thesis by simp
    qed
  qed
qed

text \<open>C28: creation.  A refused request reaches no queue and keeps every job, and the only row it can leave
  behind has an id too large for the wire.  A request that succeeds was not made during shutdown and
  names a registered cluster the caller may use; it adds one job with a fresh id and the caller's
  application, with one Pending row; and if and only if the cluster is online it queues one SUBMIT_JOB
  for it, adding at most one Submitting row.  So a request for a cluster that is offline succeeds, and its
  job waits as Pending for a resend check; the documentation of \<open>create_job\<close> lists an offline cluster
  among the errors, which the code does not report.\<close>

theorem create_job_effect:
  assumes "job_store D jrows hrows"
  shows "case create_job D user_claim now auth body mg of
      (Inl e, mg') \<Rightarrow> mg_cluster_heap mg' = mg_cluster_heap mg \<and> set (jrows (mg_db mg)) \<subseteq> set (jrows (mg_db mg')) \<and>
        (\<forall>j \<in> set (jrows (mg_db mg')) - set (jrows (mg_db mg)). 2 ^ 32 \<le> uint (job_id j))
    | (Inr jid, mg') \<Rightarrow> creation_done (set (jrows (mg_db mg))) (set (jrows (mg_db mg'))) (set (hrows (mg_db mg)))
        (set (hrows (mg_db mg'))) now (auth_user_id user_claim auth) auth body jid mg mg'"
  using assms by (rule create_job_outcome)

section \<open>A job cancelled after its resubmission\<close>

lemma cancel_pending:
  assumes laws: "jobs_table_laws D jrows" "history_table_laws D hrows"
    and load: "load_job_for_transition D auth jid cancel_invalid_states mg = Inr (j, r, job_status_code Pending)"
    and out: "cancel_job D now auth jid mg = (Inr jid', mg')"
  shows "mg_cluster_heap mg' = mg_cluster_heap mg \<and>
    (\<exists>i. i \<notin> jh_id ` set (hrows (mg_db mg)) \<and> set (hrows (mg_db mg')) =
      insert ((history_entry jid now (job_status_code Cancelled) ''Job cancelled'')\<lparr>jh_id := i\<rparr>)
        (set (hrows (mg_db mg))))"
proof -
  note l = load_job_Inr(1) [OF laws load]
  have sd: "\<not> mg_shutdown mg" using out by (auto simp: cancel_job_def)
  obtain res mg1 where rec: "record_job_transition D now r j jid (job_status_code Pending) Cancelled
      ''Job cancelled'' Cancelling ''Job cancelling'' CANCEL_JOB mg = (res, mg1)" by force
  have "\<exists>u. res = Inr u" "mg1 = mg'" using out sd load rec by (auto simp: cancel_job_def split: sum.splits)
  with record_transition_effect [OF laws(2), where jid = jid and wid = "ucast jid" and now = now and r = r
      and j = j and current = "job_status_code Pending" and ts = Cancelled and td = "''Job cancelled''"
      and ims = Cancelling and imd = "''Job cancelling''" and wire = CANCEL_JOB and mg = mg] rec l
  show ?thesis by auto
qed

lemma wire_id_signed:
  assumes "uint (i :: i64) < 2 ^ 32"
  shows "sint i = uint i"
  unfolding sint_uint by (rule signed_take_bit_int_eq_self) (use assms order_trans [OF _ uint_ge_0 [of i]] in simp_all)

lemma load_job_with_cluster [simp]:
  "load_job_for_transition D auth jid invalid (with_cluster r f mg) = load_job_for_transition D auth jid invalid mg"
  by (simp add: load_job_for_transition_def with_cluster_def cong: sum.case_cong option.case_cong if_cong)

text \<open>A reconnecting cluster is sent the jobs that still wait, but nothing records it: such a job stays
  Pending until the cluster reports on it.  When it is cancelled in the meantime, the history says
  Cancelled, no CANCEL_JOB is sent, and the SUBMIT_JOB is still in the queue.\<close>

theorem pending_cancel_leaves_submission:
  assumes c_def: "c = mg_cluster_heap mg r"
    and resent_def: "resent = with_cluster r (check_unsubmitted_jobs D (mg_db mg) cutoff) mg"
    and "jobs_table_laws D jrows" "history_table_laws D hrows" "cluster_wf c" "is_online c" "cl_has_context c"
    "tb_all (db_jobs D) (mg_db mg) (\<lambda>j. job_cluster j = cluster_name c) = Inr jobs"
    "tb_all_desc (db_histories D) (mg_db mg) (\<lambda>h. jh_job_id h \<in> set (map job_id jobs))
       (\<lambda>h. (jh_timestamp h, sint (jh_id h))) = Inr hs"
    "inj_on jh_id (set (hrows (mg_db mg)))"
    and "load_job_for_transition D auth jid cancel_invalid_states mg = Inr (j, r, job_status_code Pending)"
    "job_cluster j = cluster_name c" "resend_due (set (hrows (mg_db mg))) cutoff [job_status_code Pending] j"
    and "cancel_job D now auth jid resent = (Inr jid', mg')"
  shows "(\<exists>i. i \<notin> jh_id ` set (hrows (mg_db mg)) \<and> set (hrows (mg_db mg')) =
      insert ((history_entry jid now (job_status_code Cancelled) ''Job cancelled'')\<lparr>jh_id := i\<rparr>)
        (set (hrows (mg_db mg)))) \<and>
    mg_cluster_heap mg' = mg_cluster_heap resent \<and>
    set (resend_frames SUBMIT_JOB True (cluster_name c) j) \<subseteq> set (queue_view (mg_cluster_heap mg' r) Medium '''') \<and>
    resend_frames SUBMIT_JOB True (cluster_name c) j \<noteq> []"
proof -
  have load: "load_job_for_transition D auth jid cancel_invalid_states resent = Inr (j, r, job_status_code Pending)"
    using assms(11) unfolding resent_def by simp
  note cancel = cancel_pending [OF assms(3,4) load assms(14)]
  have db: "mg_db resent = mg_db mg" by (simp add: resent_def with_cluster_def)
  have heap: "mg_cluster_heap resent r = check_unsubmitted_jobs D (mg_db mg) cutoff c"
    by (simp add: resent_def with_cluster_def c_def)
  let ?states = "[job_status_code Pending, job_status_code Submitting]"
  note q = resend_queue [OF assms(3-10), of cutoff ?states SUBMIT_JOB True Medium "''''"]
  have j: "j \<in> set (jrows (mg_db mg))" and wire: "job_id_to_u32 jid = Inr (ucast jid)" and id: "job_id j = jid"
    using load_job_Inr(1) [OF assms(3,4,11)] by simp_all
  have due: "resend_due (set (hrows (mg_db mg))) cutoff ?states j"
    using assms(13) by (auto simp: resend_due_def)
  have mem: "j \<in> set jobs" using q j assms(12) by simp
  have small: "uint (job_id j) < 2 ^ 32" using wire id by (simp add: job_id_to_u32_def split: if_splits)
  have "set (resend_frames SUBMIT_JOB True (cluster_name c) j) \<subseteq> set (queue_view (mg_cluster_heap resent r) Medium '''')"
    unfolding heap check_unsubmitted_jobs_def conjunct2 [OF q] using mem due by auto
  moreover have "resend_frames SUBMIT_JOB True (cluster_name c) j \<noteq> []"
    using small wire_id_signed [OF small] uint_ge_0 [of "job_id j"]
    by (simp add: resend_frames_def resend_message_def job_id_to_wire_def Let_def)
  ultimately show ?thesis using cancel unfolding db by simp
qed

section \<open>Examples\<close>

definition demo_secret :: access_secret where
  "demo_secret = \<lparr>as_name = ''app'', as_secret = ''s'', as_applications = [], as_clusters = [''ozstar'']\<rparr>"

definition demo_caller :: "int auth_result" where
  "demo_caller = \<lparr>au_payload = 5, au_secret = demo_secret\<rparr>"

definition demo_request :: create_job_request where
  "demo_request = \<lparr>cr_cluster = ''ozstar'', cr_parameters = ''p'', cr_bundle = ''b''\<rparr>"

definition demo_jobs_manager :: "mem_db manager" where
  "demo_jobs_manager =
     demo_manager\<lparr>mg_db := demo_jobs_db, mg_cluster_heap := (\<lambda>_. demo_online)\<rparr>"

lemma demo_jobs_manager_fields [simp]:
  "mg_clusters demo_jobs_manager = [(''ozstar'', 0)]" "mg_shutdown demo_jobs_manager = False"
  "mg_db demo_jobs_manager = demo_jobs_db" "mg_cluster_heap demo_jobs_manager r = demo_online"
  by (simp_all add: demo_jobs_manager_def)

lemma demo_load: "load_job_for_transition mem_database demo_caller 8 cancel_invalid_states demo_jobs_manager =
    Inr (demo_job_row, 0, job_status_code Pending)"
  by (simp add: load_job_for_transition_def job_id_to_u32_def get_job_with_access_check_def
      get_latest_job_history_def mem_database_def mem_ops_def mem_select_def mem_first_def sort_desc_def
      demo_jobs_db_def demo_job_row_def demo_history_row_def demo_caller_def demo_secret_def get_applications_def
      cancel_invalid_states_def)

theorem cancel_job_effect_witness:
  "case cancel_job mem_database 1000 demo_caller 8 demo_jobs_manager of
      (Inl e, mg') \<Rightarrow> mg_cluster_heap mg' = mg_cluster_heap demo_jobs_manager \<and>
        mt_rows (m_histories (mg_db mg')) = mt_rows (m_histories (mg_db demo_jobs_manager))
    | (Inr _, mg') \<Rightarrow> transition_done (set (mt_rows (m_jobs (mg_db demo_jobs_manager))))
        (set (mt_rows (m_histories (mg_db demo_jobs_manager)))) (set (mt_rows (m_histories (mg_db mg'))))
        demo_caller 1000 8 cancel_invalid_states (Cancelled, ''Job cancelled'') (Cancelling, ''Job cancelling'')
        CANCEL_JOB demo_jobs_manager mg'"
  by (rule cancel_job_effect [OF mem_jobs.table_laws_axioms mem_histories.table_laws_axioms])

theorem delete_job_effect_witness:
  "case delete_job mem_database 1000 demo_caller 8 demo_jobs_manager of
      (Inl e, mg') \<Rightarrow> mg_cluster_heap mg' = mg_cluster_heap demo_jobs_manager \<and>
        mt_rows (m_histories (mg_db mg')) = mt_rows (m_histories (mg_db demo_jobs_manager))
    | (Inr _, mg') \<Rightarrow> transition_done (set (mt_rows (m_jobs (mg_db demo_jobs_manager))))
        (set (mt_rows (m_histories (mg_db demo_jobs_manager)))) (set (mt_rows (m_histories (mg_db mg'))))
        demo_caller 1000 8 delete_invalid_states (Deleted, ''Job deleted'') (Deleting, ''Job deleting'')
        DELETE_JOB demo_jobs_manager mg'"
  by (rule delete_job_effect [OF mem_jobs.table_laws_axioms mem_histories.table_laws_axioms])

theorem create_job_effect_witness:
  "case create_job mem_database (\<lambda>p. Some (word_of_int p)) 1000 demo_caller demo_request demo_jobs_manager of
      (Inl e, mg') \<Rightarrow> mg_cluster_heap mg' = mg_cluster_heap demo_jobs_manager \<and>
        set (mt_rows (m_jobs (mg_db demo_jobs_manager))) \<subseteq> set (mt_rows (m_jobs (mg_db mg'))) \<and>
        (\<forall>j \<in> set (mt_rows (m_jobs (mg_db mg'))) - set (mt_rows (m_jobs (mg_db demo_jobs_manager))).
           2 ^ 32 \<le> uint (job_id j))
    | (Inr jid, mg') \<Rightarrow> creation_done (set (mt_rows (m_jobs (mg_db demo_jobs_manager))))
        (set (mt_rows (m_jobs (mg_db mg')))) (set (mt_rows (m_histories (mg_db demo_jobs_manager))))
        (set (mt_rows (m_histories (mg_db mg')))) 1000 (auth_user_id (\<lambda>p. Some (word_of_int p)) demo_caller)
        demo_caller demo_request jid demo_jobs_manager mg'"
  by (rule create_job_effect [OF mem_job_store.job_store_axioms])

lemma demo_cancels:
  "\<exists>mg'. cancel_job mem_database 1000 demo_caller 8 (with_cluster 0 f demo_jobs_manager) = (Inr 8, mg')"
proof -
  have db: "mg_db (with_cluster 0 f demo_jobs_manager) = demo_jobs_db"
    and sd: "\<not> mg_shutdown (with_cluster 0 f demo_jobs_manager)"
    by (simp_all add: with_cluster_def)
  obtain h db' where i: "tb_insert (db_histories mem_database) demo_jobs_db
      (history_entry 8 1000 (job_status_code Cancelled) ''Job cancelled'') = (Inr h, db')"
    by (simp add: mem_database_def mem_ops_def mem_wf_def mem_insert_def demo_jobs_db_def demo_history_row_def Let_def)
  have "job_id demo_job_row = 8" by (simp add: demo_job_row_def)
  then show ?thesis
    using i sd demo_load by (simp add: cancel_job_def record_job_transition_def db)
qed

theorem pending_cancel_leaves_submission_witness:
  "\<exists>mg' :: mem_db manager. (\<exists>i. i \<notin> jh_id ` set (mt_rows (m_histories demo_jobs_db)) \<and> set (mt_rows (m_histories (mg_db mg'))) =
      insert ((history_entry 8 1000 (job_status_code Cancelled) ''Job cancelled'')\<lparr>jh_id := i\<rparr>)
        (set (mt_rows (m_histories demo_jobs_db)))) \<and>
    set (resend_frames SUBMIT_JOB True (cluster_name demo_online) demo_job_row) \<subseteq>
      set (queue_view (mg_cluster_heap mg' 0) Medium '''') \<and>
    resend_frames SUBMIT_JOB True (cluster_name demo_online) demo_job_row \<noteq> []"
proof -
  let ?f = "check_unsubmitted_jobs mem_database demo_jobs_db 940"
  obtain mg' where c: "cancel_job mem_database 1000 demo_caller 8 (with_cluster 0 ?f demo_jobs_manager) =
      (Inr 8, mg')" using demo_cancels by blast
  have name: "cluster_name demo_online = ''ozstar''"
    using demo_name by (simp add: demo_online_def set_connection_def cluster_name_def)
  have wf: "cluster_wf demo_online" "is_online demo_online" "cl_has_context demo_online"
    using demo_fields(1) set_connection_wf(1) [of "Some \<lparr>ch_open = True, ch_sent = []\<rparr>" demo_cluster]
    by (simp_all add: demo_online_def is_online_def, simp_all add: set_connection_def)
  have jobs: "tb_all (db_jobs mem_database) demo_jobs_db (\<lambda>j. job_cluster j = cluster_name demo_online) =
      Inr [demo_job_row]"
    by (simp add: mem_database_def mem_ops_def mem_select_def demo_jobs_db_def name demo_job_row_def)
  have hs: "tb_all_desc (db_histories mem_database) demo_jobs_db
      (\<lambda>h. jh_job_id h \<in> set (map job_id [demo_job_row])) (\<lambda>h. (jh_timestamp h, sint (jh_id h))) =
      Inr [demo_history_row]"
    by (simp add: mem_database_def mem_ops_def mem_select_def demo_jobs_db_def sort_desc_def
        demo_job_row_def demo_history_row_def)
  have due: "resend_due (set (mt_rows (m_histories demo_jobs_db))) 940 [job_status_code Pending] demo_job_row"
    by (simp add: resend_due_def latest_history_def demo_jobs_db_def demo_job_row_def demo_history_row_def
        history_before_def)
  have on_cluster: "job_cluster demo_job_row = cluster_name demo_online" by (simp add: name demo_job_row_def)
  have inj: "inj_on jh_id (set (mt_rows (m_histories demo_jobs_db)))" by (simp add: demo_jobs_db_def)
  note p = pending_cancel_leaves_submission [OF refl refl mem_jobs.table_laws_axioms
      mem_histories.table_laws_axioms, where mg = demo_jobs_manager and r = 0,
      unfolded demo_jobs_manager_fields, OF wf jobs hs inj demo_load on_cluster due c]
  show ?thesis by (rule exI [of _ mg']) (use p in blast)
qed

end
