(* ===== verification/Unix_Path.thy ===== *)
theory Unix_Path
  imports Prelude "HOL-Library.Sublist"
begin

text \<open>
  The paths of the standard library (\<open>std::path\<close> on Unix), as the helpers of \<open>src/http/utils.rs\<close> and
  \<open>src/http/file.rs\<close> use them: splitting at slashes, components, \<open>parent\<close>, \<open>file_name\<close>, \<open>push\<close> and
  \<open>pop\<close>.  A path is its string; separators and \<open>.\<close> components are skipped the way the iterator skips
  them.
\<close>

section \<open>Splitting and joining\<close>

text \<open>\<open>s.split(c)\<close>: the pieces between the separators, one more than there are separators.\<close>

fun split_on :: "char \<Rightarrow> string \<Rightarrow> string list" where
  "split_on c [] = [[]]"
| "split_on c (x # xs) =
     (if x = c then [] # split_on c xs
      else (case split_on c xs of [] \<Rightarrow> [[x]] | p # ps \<Rightarrow> (x # p) # ps))"

fun join_with :: "char \<Rightarrow> string list \<Rightarrow> string" where
  "join_with c [] = []"
| "join_with c [p] = p"
| "join_with c (p # q # ps) = p @ c # join_with c (q # ps)"

lemma split_on_not_Nil [simp]: "split_on c s \<noteq> []"
  by (induction s) (auto split: list.split)

lemma join_with_split_on [simp]: "join_with c (split_on c s) = s"
proof (induction s)
  case (Cons x xs)
  obtain p ps where "split_on c xs = p # ps" by (cases "split_on c xs") auto
  with Cons show ?case by (cases ps) auto
qed simp

lemma split_on_none: "c \<notin> set p \<Longrightarrow> split_on c p = [p]"
  by (induction p) auto

lemma split_on_append: "c \<notin> set p \<Longrightarrow> split_on c (p @ c # s) = p # split_on c s"
  by (induction p) auto

lemma split_on_join_with:
  assumes "ps \<noteq> []" "\<forall>p \<in> set ps. c \<notin> set p"
  shows "split_on c (join_with c ps) = ps"
  using assms by (induction ps rule: join_with.induct) (simp_all add: split_on_none split_on_append)

lemma split_on_parts: "p \<in> set (split_on c s) \<Longrightarrow> c \<notin> set p"
proof (induction s arbitrary: p)
  case (Cons x xs)
  show ?case
  proof (cases "x = c")
    case True
    with Cons show ?thesis by auto
  next
    case False
    obtain q qs where "split_on c xs = q # qs" by (cases "split_on c xs") auto
    with Cons False show ?thesis by auto
  qed
qed simp

lemma join_with_snoc: "ps \<noteq> [] \<Longrightarrow> join_with c (ps @ [p]) = join_with c ps @ c # p"
  by (induction ps rule: join_with.induct) simp_all

section \<open>Components\<close>

datatype component = RootDir | CurDir | ParentDir | Normal string

abbreviation slash :: char where "slash \<equiv> CHR ''/''"

definition is_absolute :: "string \<Rightarrow> bool" where
  "is_absolute p \<longleftrightarrow> (case p of [] \<Rightarrow> False | c # _ \<Rightarrow> c = slash)"

text \<open>A piece that the iterator skips, and the component of one that it does not.\<close>

definition skipped :: "string \<Rightarrow> bool" where
  "skipped part \<longleftrightarrow> part = '''' \<or> part = ''.''"

definition part_component :: "string \<Rightarrow> component" where
  "part_component part = (if part = ''..'' then ParentDir else Normal part)"

text \<open>A leading \<open>.\<close> of a relative path is a component.\<close>

definition starts_with_cur_dir :: "string \<Rightarrow> bool" where
  "starts_with_cur_dir p \<longleftrightarrow> hd (split_on slash p) = ''.''"

definition path_start :: "string \<Rightarrow> component list" where
  "path_start p = (if is_absolute p then [RootDir] else if starts_with_cur_dir p then [CurDir] else [])"

definition body_parts :: "string \<Rightarrow> string list" where
  "body_parts p = filter (\<lambda>part. \<not> skipped part) (split_on slash p)"

definition path_components :: "string \<Rightarrow> component list" where
  "path_components p = path_start p @ map part_component (body_parts p)"

section \<open>Parent, last component, push and pop\<close>

definition drop_skipped_back :: "string list \<Rightarrow> string list" where
  "drop_skipped_back parts = rev (dropWhile skipped (rev parts))"

text \<open>The text before the body of a path (the root or a leading \<open>.\<close>) and the pieces of its body.\<close>

definition split_body :: "string \<Rightarrow> string \<times> string list" where
  "split_body p =
     (if is_absolute p \<or> starts_with_cur_dir p then (take 1 p, split_on slash (drop 1 p))
      else ('''', split_on slash p))"

definition path_parent :: "string \<Rightarrow> string option" where
  "path_parent p =
     (let (start, parts) = split_body p; parts = drop_skipped_back parts in
      if parts = [] then (if starts_with_cur_dir p \<and> \<not> is_absolute p then Some '''' else None)
      else Some (start @ join_with slash (drop_skipped_back (butlast parts))))"

definition path_file_name :: "string \<Rightarrow> string option" where
  "path_file_name p =
     (if body_parts p = [] \<or> last (body_parts p) = ''..'' then None else Some (last (body_parts p)))"

definition component_str :: "component \<Rightarrow> string" where
  "component_str c =
     (case c of RootDir \<Rightarrow> ''/'' | CurDir \<Rightarrow> ''.'' | ParentDir \<Rightarrow> ''..'' | Normal s \<Rightarrow> s)"

definition path_push :: "string \<Rightarrow> string \<Rightarrow> string" where
  "path_push buf p =
     (if is_absolute p then p
      else if buf \<noteq> [] \<and> last buf \<noteq> slash then buf @ slash # p
      else buf @ p)"

definition path_pop :: "string \<Rightarrow> string" where
  "path_pop buf = (case path_parent buf of None \<Rightarrow> buf | Some p \<Rightarrow> p)"

section \<open>Canonical paths\<close>

text \<open>A piece of a canonical path, and the two forms of such a path.\<close>

definition is_part :: "string \<Rightarrow> bool" where
  "is_part part \<longleftrightarrow> part \<noteq> '''' \<and> part \<noteq> ''.'' \<and> slash \<notin> set part"

definition abs_path :: "string list \<Rightarrow> string" where
  "abs_path parts = slash # join_with slash parts"

abbreviation rel_path :: "string list \<Rightarrow> string" where
  "rel_path parts \<equiv> join_with slash parts"

lemma abs_path_Nil [simp]: "abs_path [] = ''/''"
  by (simp add: abs_path_def)

lemma abs_path_not_empty [simp]: "abs_path parts \<noteq> ''''"
  by (simp add: abs_path_def)

lemma is_part_not_skipped [simp]: "is_part part \<Longrightarrow> \<not> skipped part"
  by (simp add: is_part_def skipped_def)

lemma body_parts_are_parts: "part \<in> set (body_parts p) \<Longrightarrow> is_part part"
  using split_on_parts by (auto simp: body_parts_def is_part_def skipped_def)

lemma split_on_slash_abs [simp]: "split_on slash (slash # s) = [] # split_on slash s"
  by simp

lemma split_rel:
  "\<forall>p \<in> set ps. is_part p \<Longrightarrow> split_on slash (rel_path ps) = (if ps = [] then [''''] else ps)"
  by (cases "ps = []") (simp_all add: split_on_join_with is_part_def)

lemma filter_parts [simp]: "\<forall>p \<in> set ps. is_part p \<Longrightarrow> filter (\<lambda>p. \<not> skipped p) ps = ps"
  by (simp add: filter_id_conv)

lemma body_parts_rel [simp]: "\<forall>p \<in> set ps. is_part p \<Longrightarrow> body_parts (rel_path ps) = ps"
  by (cases "ps = []") (simp_all add: body_parts_def split_rel, simp add: skipped_def)

lemma body_parts_abs [simp]: "\<forall>p \<in> set ps. is_part p \<Longrightarrow> body_parts (abs_path ps) = ps"
  using body_parts_rel [of ps] by (simp add: body_parts_def abs_path_def skipped_def)

lemma rel_path_start:
  assumes "\<forall>p \<in> set ps. is_part p"
  shows "\<not> is_absolute (rel_path ps)"
proof (cases ps)
  case (Cons p qs)
  with assms obtain c cs where "p = c # cs" "c \<noteq> slash" by (cases p) (auto simp: is_part_def)
  with Cons show ?thesis by (cases qs) (simp_all add: is_absolute_def)
qed (simp add: is_absolute_def)

lemma rel_path_no_cur_dir: "\<forall>p \<in> set ps. is_part p \<Longrightarrow> \<not> starts_with_cur_dir (rel_path ps)"
  by (cases "ps = []") (simp_all add: starts_with_cur_dir_def split_rel, use is_part_def in force)

lemma is_absolute_abs [simp]: "is_absolute (abs_path ps)"
  by (simp add: is_absolute_def abs_path_def)

lemma components_abs [simp]:
  "\<forall>p \<in> set ps. is_part p \<Longrightarrow> path_components (abs_path ps) = RootDir # map part_component ps"
  by (simp add: path_components_def path_start_def)

lemma components_rel [simp]:
  "\<forall>p \<in> set ps. is_part p \<Longrightarrow> path_components (rel_path ps) = map part_component ps"
  by (simp add: path_components_def path_start_def rel_path_start rel_path_no_cur_dir)

lemma drop_skipped_back_parts [simp]: "\<forall>p \<in> set ps. is_part p \<Longrightarrow> drop_skipped_back ps = ps"
  by (cases ps rule: rev_cases) (simp_all add: drop_skipped_back_def)

lemma path_parent_abs:
  assumes "\<forall>p \<in> set ps. is_part p"
  shows "path_parent (abs_path ps) = (if ps = [] then None else Some (abs_path (butlast ps)))"
proof -
  have "drop_skipped_back [''''] = []" by (simp add: drop_skipped_back_def skipped_def)
  moreover have "\<forall>p \<in> set (butlast ps). is_part p" using assms by (auto dest: in_set_butlastD)
  ultimately show ?thesis
    using assms is_absolute_abs [of ps] is_absolute_abs [of "[]"]
    by (simp add: path_parent_def split_body_def split_rel abs_path_def Let_def)
qed

lemma path_parent_rel:
  assumes "\<forall>p \<in> set ps. is_part p"
  shows "path_parent (rel_path ps) = (if ps = [] then None else Some (rel_path (butlast ps)))"
proof -
  have "drop_skipped_back [''''] = []" by (simp add: drop_skipped_back_def skipped_def)
  moreover have "\<forall>p \<in> set (butlast ps). is_part p" using assms by (auto dest: in_set_butlastD)
  ultimately show ?thesis
    using assms rel_path_start [OF assms] rel_path_no_cur_dir [OF assms] rel_path_no_cur_dir [of "[]"]
    by (simp add: path_parent_def split_body_def split_rel Let_def)
qed

lemma path_pop_abs: "\<forall>p \<in> set ps. is_part p \<Longrightarrow> path_pop (abs_path ps) = abs_path (butlast ps)"
  by (simp add: path_pop_def path_parent_abs)

lemma path_pop_rel: "\<forall>p \<in> set ps. is_part p \<Longrightarrow> path_pop (rel_path ps) = rel_path (butlast ps)"
  by (simp add: path_pop_def path_parent_rel)

lemma rel_path_last:
  assumes "\<forall>p \<in> set ps. is_part p" "ps \<noteq> []"
  shows "rel_path ps \<noteq> [] \<and> last (rel_path ps) \<noteq> slash"
proof -
  obtain qs p where ps: "ps = qs @ [p]" using assms(2) by (cases ps rule: rev_cases) auto
  have part: "is_part p" using assms ps by simp
  then have p: "p \<noteq> []" "last p \<noteq> slash" using last_in_set [of p] by (metis is_part_def)+
  then show ?thesis using ps by (cases "qs = []") (simp_all add: join_with_snoc)
qed

lemma part_relative: "is_part p \<Longrightarrow> \<not> is_absolute p"
  by (cases p) (auto simp: is_absolute_def is_part_def)

lemma path_push_rel:
  assumes "\<forall>p \<in> set ps. is_part p" "is_part p"
  shows "path_push (rel_path ps) p = rel_path (ps @ [p])"
  using rel_path_last [OF assms(1)] part_relative [OF assms(2)]
  by (cases "ps = []") (simp_all add: path_push_def join_with_snoc)

lemma path_push_abs:
  assumes "\<forall>p \<in> set ps. is_part p" "is_part p"
  shows "path_push (abs_path ps) p = abs_path (ps @ [p])"
  using rel_path_last [OF assms(1)] part_relative [OF assms(2)]
  by (cases "ps = []") (simp_all add: path_push_def join_with_snoc abs_path_def)

end
