(* ===== verification/Http_Utils.thy ===== *)
theory Http_Utils
  imports Unix_Path Protocol_Types
begin

text \<open>
  The helpers of the HTTP layer (\<open>src/http/utils.rs\<close>): the selection of a directory's files by
  \<open>filter_files\<close> with its canonical paths, and the filter of a job listing, \<open>parse_job_steps\<close>, with the
  trimming and the number parsing of the standard library it rests on.
\<close>

section \<open>Paths\<close>

definition canonical_step :: "bool \<Rightarrow> string \<Rightarrow> component \<Rightarrow> string" where
  "canonical_step absolute result component =
     (case component of
        ParentDir \<Rightarrow>
          if absolute then
            (let r = path_pop result in if r = '''' then path_push r ''/'' else r)
          else if result = '''' \<or> list_all (\<lambda>c. c = ParentDir) (path_components result) then
            path_push result ''..''
          else path_pop result
      | CurDir \<Rightarrow> result
      | other \<Rightarrow> path_push result (component_str other))"

definition weak_canonical :: "string \<Rightarrow> string" where
  "weak_canonical p = foldl (canonical_step (is_absolute p)) '''' (path_components p)"

fun within :: "component list \<Rightarrow> component list \<Rightarrow> bool" where
  "within (p # ps) (d # ds) = (if p \<noteq> d then False else within ps ds)"
| "within ps [] = True"
| "within [] (d # ds) = False"

definition is_within :: "string \<Rightarrow> string \<Rightarrow> bool" where
  "is_within path dir = within (path_components path) (path_components dir)"

definition ends_with :: "char \<Rightarrow> string \<Rightarrow> bool" where
  "ends_with c s \<longleftrightarrow> s \<noteq> [] \<and> last s = c"

definition trim_end_matches :: "char \<Rightarrow> string \<Rightarrow> string" where
  "trim_end_matches c s = rev (dropWhile (\<lambda>x. x = c) (rev s))"

definition target_dir :: "string \<Rightarrow> string" where
  "target_dir file_path =
     (let p = weak_canonical file_path;
          p = (if p = '''' \<or> \<not> is_absolute p then slash # p else p)
      in if ends_with slash p then p else p @ [slash])"

definition normalized_name :: "string \<Rightarrow> string" where
  "normalized_name name =
     (if is_absolute name then name else slash # dropWhile (\<lambda>x. x = slash) name)"

definition parent_or_empty :: "string \<Rightarrow> string" where
  "parent_or_empty p = (case path_parent p of None \<Rightarrow> '''' | Some s \<Rightarrow> s)"

definition matches_recursive :: "string \<Rightarrow> string \<Rightarrow> bool" where
  "matches_recursive dir name =
     (let s = parent_or_empty name;
          parent_path = (if s \<noteq> '''' \<and> \<not> ends_with slash s then s @ [slash] else s)
      in name = dir \<or> is_within parent_path dir \<or> name = trim_end_matches slash dir)"

definition matches_directory :: "string \<Rightarrow> string \<Rightarrow> bool" where
  "matches_directory dir name =
     (let parent = parent_or_empty name; no_trail = trim_end_matches slash dir
      in parent = dir \<or> parent = no_trail \<or> name = no_trail)"

definition filter_files :: "file_info list \<Rightarrow> string \<Rightarrow> bool \<Rightarrow> file_info list" where
  "filter_files files file_path recursive =
     (let dir = target_dir file_path in
      filter (\<lambda>f. let name = normalized_name (file_name f) in
        if recursive then matches_recursive dir name else matches_directory dir name) files)"

section \<open>Canonical paths, piece by piece\<close>

text \<open>The reference: the pieces of a path, read left to right on a stack of names.  Above the root
  there is nothing; above a relative start there are parents.\<close>

definition resolve_step :: "bool \<Rightarrow> string list \<Rightarrow> string \<Rightarrow> string list" where
  "resolve_step absolute st part =
     (if part \<noteq> ''..'' then st @ [part]
      else if absolute then butlast st
      else if list_all (\<lambda>s. s = ''..'') st then st @ [''..'']
      else butlast st)"

definition resolve :: "string \<Rightarrow> string list" where
  "resolve p = foldl (resolve_step (is_absolute p)) [] (body_parts p)"

lemma dotdot_part [simp]: "is_part ''..''"
  by (simp add: is_part_def)

lemma resolve_step_parts:
  "\<forall>s \<in> set st. is_part s \<Longrightarrow> is_part part \<Longrightarrow> \<forall>s \<in> set (resolve_step absolute st part). is_part s"
  by (auto simp: resolve_step_def dest: in_set_butlastD)

lemma resolve_fold_parts:
  "\<forall>s \<in> set st. is_part s \<Longrightarrow> \<forall>p \<in> set parts. is_part p \<Longrightarrow>
     \<forall>s \<in> set (foldl (resolve_step absolute) st parts). is_part s"
proof (induction parts arbitrary: st)
  case (Cons part parts)
  have part: "is_part part" and parts: "\<forall>p \<in> set parts. is_part p" using Cons.prems(2) by simp_all
  note st = resolve_step_parts [OF Cons.prems(1) part, of absolute]
  show ?case using Cons.IH [OF st parts] by simp
qed simp

lemma resolve_parts: "\<forall>s \<in> set (resolve p). is_part s"
  unfolding resolve_def by (rule resolve_fold_parts) (simp_all add: body_parts_are_parts)

lemma canonical_step_abs:
  assumes "\<forall>s \<in> set st. is_part s" "is_part part"
  shows "canonical_step True (abs_path st) (part_component part) = abs_path (resolve_step True st part)"
proof -
  show ?thesis
    using path_push_abs [OF assms] path_pop_abs [OF assms(1)]
    by (simp add: canonical_step_def part_component_def resolve_step_def component_str_def Let_def)
qed

lemma all_parents: "list_all (\<lambda>c. c = ParentDir) (map part_component st) = list_all (\<lambda>s. s = ''..'') st"
  by (induction st) (simp_all add: part_component_def)

lemma canonical_step_rel:
  assumes "\<forall>s \<in> set st. is_part s" "is_part part"
  shows "canonical_step False (rel_path st) (part_component part) = rel_path (resolve_step False st part)"
proof -
  have "rel_path st = '''' \<longleftrightarrow> st = []"
    using rel_path_last [OF assms(1)] by auto
  then show ?thesis
    using path_push_rel [OF assms] path_pop_rel [OF assms(1)] path_push_rel [OF assms(1) dotdot_part]
      components_rel [OF assms(1)]
    by (auto simp: canonical_step_def part_component_def resolve_step_def component_str_def all_parents
        simp del: join_with.simps)
qed

lemma canonical_fold_abs:
  "\<forall>s \<in> set st. is_part s \<Longrightarrow> \<forall>p \<in> set parts. is_part p \<Longrightarrow>
     foldl (canonical_step True) (abs_path st) (map part_component parts) =
       abs_path (foldl (resolve_step True) st parts)"
proof (induction parts arbitrary: st)
  case (Cons part parts)
  have part: "is_part part" and parts: "\<forall>p \<in> set parts. is_part p" using Cons.prems(2) by simp_all
  note st = resolve_step_parts [OF Cons.prems(1) part, of True]
  show ?case using Cons.IH [OF st parts] canonical_step_abs [OF Cons.prems(1) part] by simp
qed simp

lemma canonical_fold_rel:
  "\<forall>s \<in> set st. is_part s \<Longrightarrow> \<forall>p \<in> set parts. is_part p \<Longrightarrow>
     foldl (canonical_step False) (rel_path st) (map part_component parts) =
       rel_path (foldl (resolve_step False) st parts)"
proof (induction parts arbitrary: st)
  case (Cons part parts)
  have part: "is_part part" and parts: "\<forall>p \<in> set parts. is_part p" using Cons.prems(2) by simp_all
  note st = resolve_step_parts [OF Cons.prems(1) part, of False]
  show ?case using Cons.IH [OF st parts] canonical_step_rel [OF Cons.prems(1) part] by simp
qed simp

lemma weak_canonical_resolve:
  "weak_canonical p = (if is_absolute p then abs_path (resolve p) else rel_path (resolve p))"
proof (cases "is_absolute p")
  case True
  have "canonical_step True '''' RootDir = abs_path []"
    by (simp add: canonical_step_def component_str_def path_push_def is_absolute_def abs_path_def)
  with True canonical_fold_abs [of "[]" "body_parts p"] show ?thesis
    by (simp add: weak_canonical_def path_components_def path_start_def resolve_def body_parts_are_parts)
next
  case False
  have "foldl (canonical_step False) '''' (path_start p) = rel_path []"
    using False by (simp add: path_start_def canonical_step_def)
  with False canonical_fold_rel [of "[]" "body_parts p"] show ?thesis
    by (simp add: weak_canonical_def path_components_def resolve_def body_parts_are_parts)
qed

text \<open>Parents survive only at the start of a relative path.\<close>

lemma resolve_absolute_names:
  "''..'' \<notin> set st \<Longrightarrow> ''..'' \<notin> set (foldl (resolve_step True) st parts)"
  by (induction parts arbitrary: st) (auto simp: resolve_step_def dest: in_set_butlastD)

definition parents_first :: "string list \<Rightarrow> bool" where
  "parents_first st \<longleftrightarrow> ''..'' \<notin> set (dropWhile (\<lambda>s. s = ''..'') st)"

lemma parents_first_butlast: "parents_first st \<Longrightarrow> parents_first (butlast st)"
  unfolding parents_first_def
  by (induction st) (auto dest: in_set_butlastD split: if_splits)

lemma parents_first_snoc: "parents_first st \<Longrightarrow> s \<noteq> ''..'' \<Longrightarrow> parents_first (st @ [s])"
  unfolding parents_first_def by (induction st) auto

lemma parents_first_all: "list_all (\<lambda>s. s = ''..'') st \<Longrightarrow> parents_first (st @ [''..''])"
  unfolding parents_first_def by (induction st) auto

lemma resolve_relative_names:
  "parents_first st \<Longrightarrow> parents_first (foldl (resolve_step False) st parts)"
  by (induction parts arbitrary: st)
    (simp_all add: resolve_step_def parents_first_butlast parents_first_snoc parents_first_all)

text \<open>C35: the canonical form of a path is the one that reading its names on a stack gives: every
  \<open>..\<close> removes the name before it and nothing at the root, so the form of an absolute path has none, and
  that of a relative path has them only at its start.\<close>

theorem weak_canonical_exact:
  "weak_canonical p = (if is_absolute p then abs_path (resolve p) else rel_path (resolve p)) \<and>
   (if is_absolute p then ''..'' \<notin> set (resolve p) else parents_first (resolve p))"
  using weak_canonical_resolve [of p] resolve_absolute_names [of "[]" "body_parts p"]
    resolve_relative_names [of "[]" "body_parts p"]
  by (auto simp: resolve_def parents_first_def)

section \<open>Which files a listing contains\<close>

lemma within_prefix: "within ps ds \<longleftrightarrow> prefix ds ps"
  by (induction ps ds rule: within.induct) simp_all

lemma inj_part_component: "inj part_component"
  by (rule injI) (simp add: part_component_def split: if_splits)

lemma prefix_components [simp]:
  "prefix (map part_component ds) (map part_component ps) \<longleftrightarrow> prefix ds ps"
  unfolding prefix_def using inj_part_component
  by (auto simp: map_eq_append_conv inj_map_eq_map)

lemma split_on_trailing: "split_on c (s @ [c]) = split_on c s @ [[]]"
proof (induction s)
  case (Cons x xs)
  obtain p ps where "split_on c xs = p # ps" by (cases "split_on c xs") auto
  with Cons show ?case by simp
qed simp

lemma components_trailing_slash: "s \<noteq> '''' \<Longrightarrow> path_components (s @ [slash]) = path_components s"
proof -
  assume s: "s \<noteq> ''''"
  have "body_parts (s @ [slash]) = body_parts s"
    by (simp add: body_parts_def split_on_trailing skipped_def)
  moreover have "is_absolute (s @ [slash]) = is_absolute s"
    using s by (cases s) (simp_all add: is_absolute_def)
  moreover have "starts_with_cur_dir (s @ [slash]) = starts_with_cur_dir s"
    by (simp add: starts_with_cur_dir_def split_on_trailing hd_append)
  ultimately show ?thesis by (simp add: path_components_def path_start_def)
qed

definition dir_path :: "string list \<Rightarrow> string" where
  "dir_path ds = (if ds = [] then ''/'' else abs_path ds @ [slash])"

lemma abs_path_last:
  assumes "\<forall>p \<in> set ds. is_part p" "ds \<noteq> []"
  shows "abs_path ds \<noteq> [] \<and> last (abs_path ds) \<noteq> slash"
  using rel_path_last [OF assms] by (simp add: abs_path_def)

lemma target_dir_resolve: "target_dir p = dir_path (resolve p)"
proof (cases "is_absolute p")
  case True
  then show ?thesis
    using abs_path_last [OF resolve_parts [of p]] is_absolute_abs [of "resolve p"]
    by (cases "resolve p = []")
      (simp_all add: target_dir_def weak_canonical_resolve dir_path_def ends_with_def Let_def)
next
  case False
  have "slash # rel_path (resolve p) = abs_path (resolve p)" by (simp add: abs_path_def)
  then show ?thesis
    using False abs_path_last [OF resolve_parts [of p]] rel_path_start [OF resolve_parts [of p]]
    by (cases "resolve p = []")
      (simp_all add: target_dir_def weak_canonical_resolve dir_path_def ends_with_def Let_def)
qed

lemma trim_end_dir_path:
  assumes "\<forall>p \<in> set ds. is_part p"
  shows "trim_end_matches slash (dir_path ds) = (if ds = [] then '''' else abs_path ds)"
proof (cases "ds = []")
  case False
  obtain s x where sx: "abs_path ds = s @ [x]" "x \<noteq> slash"
    using abs_path_last [OF assms False] by (cases "abs_path ds" rule: rev_cases) auto
  then show ?thesis using False by (simp add: trim_end_matches_def dir_path_def)
qed (simp add: trim_end_matches_def dir_path_def)

lemma components_dir_path:
  "\<forall>p \<in> set ds. is_part p \<Longrightarrow> path_components (dir_path ds) = RootDir # map part_component ds"
  using components_abs [of ds] components_abs [of "[]"] components_trailing_slash [of "abs_path ds"]
  by (simp add: dir_path_def abs_path_def)

lemma abs_path_inject:
  assumes "\<forall>p \<in> set ds. is_part p" "\<forall>p \<in> set ns. is_part p"
  shows "abs_path ns = abs_path ds \<longleftrightarrow> ns = ds"
  using body_parts_abs [OF assms(1)] body_parts_abs [OF assms(2)] by metis

lemma abs_path_not_dir:
  assumes "\<forall>p \<in> set ds. is_part p" "\<forall>p \<in> set ns. is_part p" "ns \<noteq> []"
  shows "abs_path ns \<noteq> dir_path ds"
  using abs_path_last [OF assms(2,3)] by (auto simp: dir_path_def)

text \<open>A file is named by its absolute or relative path, with no empty or \<open>.\<close> pieces.\<close>

definition clean_name :: "string \<Rightarrow> bool" where
  "clean_name s \<longleftrightarrow> body_parts s \<noteq> [] \<and> (s = abs_path (body_parts s) \<or> s = rel_path (body_parts s))"

lemma normalized_clean:
  assumes "clean_name s"
  shows "normalized_name s = abs_path (body_parts s)"
proof (cases "is_absolute s")
  case True
  have "\<not> is_absolute (rel_path (body_parts s))" by (rule rel_path_start) (simp add: body_parts_are_parts)
  with True assms have "s = abs_path (body_parts s)" by (metis clean_name_def)
  with True show ?thesis by (simp add: normalized_name_def)
next
  case False
  then have s: "s = rel_path (body_parts s)" using assms is_absolute_abs by (metis clean_name_def)
  have "dropWhile (\<lambda>x. x = slash) s = s" using False by (cases s) (simp_all add: is_absolute_def)
  then have "normalized_name s = slash # s" using False by (simp add: normalized_name_def)
  also have "\<dots> = abs_path (body_parts s)" using s by (metis abs_path_def)
  finally show ?thesis .
qed

lemma matches_recursive_iff:
  assumes ds: "\<forall>p \<in> set ds. is_part p" and ns: "\<forall>p \<in> set ns. is_part p" "ns \<noteq> []"
  shows "matches_recursive (dir_path ds) (abs_path ns) \<longleftrightarrow> prefix ds ns"
proof -
  have bl: "\<forall>p \<in> set (butlast ns). is_part p" using ns by (auto dest: in_set_butlastD)
  have parent: "parent_or_empty (abs_path ns) = abs_path (butlast ns)"
    using ns by (simp add: parent_or_empty_def path_parent_abs)
  have "path_components (if abs_path (butlast ns) \<noteq> '''' \<and> \<not> ends_with slash (abs_path (butlast ns))
      then abs_path (butlast ns) @ [slash] else abs_path (butlast ns)) = RootDir # map part_component (butlast ns)"
    using components_trailing_slash [of "abs_path (butlast ns)"] components_abs [OF bl] by simp
  then have "matches_recursive (dir_path ds) (abs_path ns) \<longleftrightarrow>
      prefix ds (butlast ns) \<or> (ds \<noteq> [] \<and> ns = ds)"
    using abs_path_not_dir [OF ds ns] abs_path_inject [OF ds ns(1)]
    by (auto simp: matches_recursive_def parent is_within_def components_dir_path [OF ds] within_prefix
        trim_end_dir_path [OF ds] Let_def)
  also have "\<dots> \<longleftrightarrow> prefix ds ns"
    using ns(2) by (cases ns rule: rev_cases) (auto simp: prefix_snoc)
  finally show ?thesis .
qed

lemma matches_directory_iff:
  assumes ds: "\<forall>p \<in> set ds. is_part p" and ns: "\<forall>p \<in> set ns. is_part p" "ns \<noteq> []"
  shows "matches_directory (dir_path ds) (abs_path ns) \<longleftrightarrow> butlast ns = ds \<or> ns = ds"
proof -
  have bl: "\<forall>p \<in> set (butlast ns). is_part p" using ns by (auto dest: in_set_butlastD)
  have parent: "parent_or_empty (abs_path ns) = abs_path (butlast ns)"
    using ns by (simp add: parent_or_empty_def path_parent_abs)
  have root: "abs_path (butlast ns) = dir_path ds \<longleftrightarrow> butlast ns = [] \<and> ds = []"
    using abs_path_not_dir [OF ds bl] abs_path_inject [OF ds bl]
    by (cases "butlast ns = []") (auto simp: dir_path_def)
  show ?thesis
    using root abs_path_inject [OF ds bl] abs_path_inject [OF ds ns(1)] ns(2)
    by (auto simp: matches_directory_def parent trim_end_dir_path [OF ds] Let_def)
qed

text \<open>C36: a listing contains exactly the files below the requested directory.  With the names of the
  directory resolved and the names of a file compared one by one, a recursive listing has the files
  whose path extends the directory's, or is it, and a plain listing those directly inside it, or
  the directory itself.  In particular a sibling whose name extends the directory's is left out.\<close>

theorem filter_files_exact:
  assumes "\<forall>f \<in> set files. clean_name (file_name f)"
  shows "filter_files files path recursive =
    filter (\<lambda>f. let ns = body_parts (file_name f); ds = resolve path in
      if recursive then prefix ds ns else butlast ns = ds \<or> ns = ds) files"
proof -
  have "(if recursive then matches_recursive (target_dir path) (normalized_name (file_name f))
        else matches_directory (target_dir path) (normalized_name (file_name f))) =
      (let ns = body_parts (file_name f); ds = resolve path in
        if recursive then prefix ds ns else butlast ns = ds \<or> ns = ds)" if "f \<in> set files" for f
  proof -
    have clean: "clean_name (file_name f)" using assms that by blast
    have ns: "\<forall>p \<in> set (body_parts (file_name f)). is_part p" "body_parts (file_name f) \<noteq> []"
      using clean by (simp_all add: clean_name_def body_parts_are_parts)
    show ?thesis
      unfolding target_dir_resolve normalized_clean [OF clean]
      using matches_recursive_iff [OF resolve_parts ns] matches_directory_iff [OF resolve_parts ns]
      by (simp add: Let_def)
  qed
  then show ?thesis
    unfolding filter_files_def Let_def by (rule filter_cong [OF refl])
qed

definition demo_files :: "file_info list" where
  "demo_files =
     [\<lparr>file_name = ''/test/a'', file_size = 1, permissions = 0, is_directory = False\<rparr>,
      \<lparr>file_name = ''testdir/b'', file_size = 2, permissions = 0, is_directory = False\<rparr>]"

lemma demo_files_clean: "\<forall>f \<in> set demo_files. clean_name (file_name f)"
  by (simp add: demo_files_def clean_name_def body_parts_def skipped_def abs_path_def)

theorem filter_files_exact_witness:
  "filter_files demo_files ''x/../test'' True =
     [\<lparr>file_name = ''/test/a'', file_size = 1, permissions = 0, is_directory = False\<rparr>]"
  unfolding filter_files_exact [OF demo_files_clean]
  by (simp add: demo_files_def Let_def resolve_def resolve_step_def body_parts_def skipped_def is_absolute_def)

section \<open>Trimming and numbers\<close>

text \<open>The characters \<open>str::trim\<close> removes (Unicode \<open>White_Space\<close>), as UTF-8 sequences.\<close>

definition whitespace :: "string list" where
  "whitespace =
     map (\<lambda>n. [char_of n]) [9, 10, 11, 12, 13, 32 :: nat] @
     map (map (char_of :: nat \<Rightarrow> char))
       ([[0xC2, 0x85], [0xC2, 0xA0], [0xE1, 0x9A, 0x80], [0xE2, 0x80, 0xA8], [0xE2, 0x80, 0xA9],
         [0xE2, 0x80, 0xAF], [0xE2, 0x81, 0x9F], [0xE3, 0x80, 0x80]] @
        map (\<lambda>n. [0xE2, 0x80, 0x80 + n]) [0..<11])"

function strip_seqs :: "string list \<Rightarrow> string \<Rightarrow> string" where
  "strip_seqs qs s =
     (case find (\<lambda>q. q \<noteq> [] \<and> prefix q s) qs of
        None \<Rightarrow> s
      | Some q \<Rightarrow> strip_seqs qs (drop (length q) s))"
  by pat_completeness auto

termination strip_seqs
proof (relation "measure (\<lambda>(qs, s). length s)")
  fix qs s q
  assume "find (\<lambda>q. q \<noteq> [] \<and> prefix q s) qs = Some q"
  then have "q \<noteq> []" "prefix q s" by (auto simp: find_Some_iff)
  then show "((qs, drop (length q) s), (qs, s)) \<in> measure (\<lambda>(qs, s). length s)"
    by (cases s) (simp_all add: diff_less)
qed simp

declare strip_seqs.simps [simp del]

definition trim :: "string \<Rightarrow> string" where
  "trim s = rev (strip_seqs (map rev whitespace) (rev (strip_seqs whitespace s)))"

text \<open>\<open>parse::<i32>()\<close> and \<open>parse::<i64>()\<close>: an optional sign and at least one digit, within the range.\<close>

definition sign_and_digits :: "string \<Rightarrow> bool \<times> string" where
  "sign_and_digits s =
     (case s of
        [] \<Rightarrow> (False, [])
      | c # r \<Rightarrow> if c = CHR ''-'' then (True, r) else if c = CHR ''+'' then (False, r) else (False, s))"

definition parse_int :: "int \<Rightarrow> int \<Rightarrow> string \<Rightarrow> int option" where
  "parse_int lo hi s =
     (let (neg, ds) = sign_and_digits s in
      if ds = [] \<or> \<not> list_all is_digit ds then None
      else (let v = (if neg then - int (digits_value ds) else int (digits_value ds))
            in if lo \<le> v \<and> v \<le> hi then Some v else None))"

definition parse_i32 :: "string \<Rightarrow> i32 option" where
  "parse_i32 s = map_option word_of_int (parse_int (- (2 ^ 31)) (2 ^ 31 - 1) s)"

definition parse_i64 :: "string \<Rightarrow> i64 option" where
  "parse_i64 s = map_option word_of_int (parse_int (- (2 ^ 63)) (2 ^ 63 - 1) s)"

section \<open>The step filter of a job listing\<close>

fun parse_step_pairs :: "string list \<Rightarrow> (string \<times> i32) list option" where
  "parse_step_pairs (w # st # rest) =
     (case parse_i32 st of
        None \<Rightarrow> None
      | Some v \<Rightarrow> map_option (\<lambda>r. (w, v) # r) (parse_step_pairs rest))"
| "parse_step_pairs _ = Some []"

definition parse_job_steps :: "string \<Rightarrow> (string \<times> i32) list" where
  "parse_job_steps s =
     (let parts = map trim (split_on (CHR '','') s) in
      if list_ex (\<lambda>p. p = '''') parts \<or> odd (length parts) then []
      else (case parse_step_pairs parts of None \<Rightarrow> [] | Some r \<Rightarrow> r))"

definition show_step :: "string \<times> i32 \<Rightarrow> string list" where
  "show_step step = [fst step, show_int (sint (snd step))]"

definition show_steps :: "(string \<times> i32) list \<Rightarrow> string" where
  "show_steps steps = join_with (CHR '','') (concat (map show_step steps))"

lemma whitespace_bytes:
  "list_all (\<lambda>q. q \<noteq> [] \<and> \<not> is_digit (hd q) \<and> hd q \<noteq> CHR ''-'' \<and> \<not> is_digit (last q)) whitespace"
  by code_simp

lemma strip_seqs_id:
  assumes "\<And>q. q \<in> set qs \<Longrightarrow> q \<noteq> [] \<Longrightarrow> s = [] \<or> hd q \<noteq> hd s"
  shows "strip_seqs qs s = s"
proof -
  have "\<not> prefix q s" if "q \<in> set qs" "q \<noteq> []" for q
    using assms [OF that] that(2) by (cases q; cases s) auto
  then have "find (\<lambda>q. q \<noteq> [] \<and> prefix q s) qs = None" by (auto simp: find_None_iff)
  then show ?thesis by (subst strip_seqs.simps) simp
qed

lemma trim_plain:
  assumes "s \<noteq> []" "hd s \<notin> set (map hd whitespace)" "last s \<notin> set (map last whitespace)"
  shows "trim s = s"
proof -
  have "strip_seqs whitespace s = s"
    using assms(2) by (intro strip_seqs_id) (metis image_eqI list.set_map)
  moreover have "strip_seqs (map rev whitespace) (rev s) = rev s"
  proof (rule strip_seqs_id)
    fix q
    assume "q \<in> set (map rev whitespace)" "q \<noteq> []"
    then obtain w where w: "w \<in> set whitespace" "q = rev w" by auto
    with assms(3) have "last w \<noteq> last s" by (metis image_eqI list.set_map)
    with w show "rev s = [] \<or> hd q \<noteq> hd (rev s)" by (simp add: hd_rev)
  qed
  ultimately show ?thesis by (simp add: trim_def)
qed

lemma trim_id:
  assumes "s \<noteq> []" "is_digit (hd s) \<or> hd s = CHR ''-''" "is_digit (last s)"
  shows "trim s = s"
  using whitespace_bytes assms by (intro trim_plain) (auto simp: list_all_iff)

lemma show_nat_not_Nil [simp]: "show_nat n \<noteq> []"
  by (subst show_nat.simps) simp

lemma show_int_ends: "show_int i \<noteq> []"
    "is_digit (hd (show_int i)) \<or> hd (show_int i) = CHR ''-''" "is_digit (last (show_int i))"
proof -
  show "show_int i \<noteq> []" by (simp add: show_int_def)
  show "is_digit (hd (show_int i)) \<or> hd (show_int i) = CHR ''-''"
    using show_nat_digits [OF hd_in_set [OF show_nat_not_Nil]] by (simp add: show_int_def)
  show "is_digit (last (show_int i))"
    using show_nat_digits [OF last_in_set [OF show_nat_not_Nil]] by (simp add: show_int_def)
qed

lemma digit_not_sign: "is_digit c \<Longrightarrow> c \<noteq> CHR ''-'' \<and> c \<noteq> CHR ''+'' \<and> c \<noteq> CHR '',''"
  by (auto simp: is_digit_def)

lemma sign_show_int: "sign_and_digits (show_int i) = (i < 0, show_nat (nat \<bar>i\<bar>))"
proof (cases "i < 0")
  case False
  obtain c r where cr: "show_nat (nat i) = c # r" by (cases "show_nat (nat i)") auto
  have "is_digit c" using show_nat_digits [of c "nat i"] cr by simp
  with False cr show ?thesis by (simp add: show_int_def sign_and_digits_def digit_not_sign)
qed (simp add: show_int_def sign_and_digits_def)

lemma parse_int_show: "lo \<le> i \<Longrightarrow> i \<le> hi \<Longrightarrow> parse_int lo hi (show_int i) = Some i"
  using show_nat_digits
  by (auto simp: parse_int_def sign_show_int digits_value_show_nat list_all_iff Let_def)

lemma parse_i32_show: "parse_i32 (show_int (sint v)) = Some v"
proof -
  have "- (2 ^ 31) \<le> sint v \<and> sint v \<le> 2 ^ 31 - 1"
    using sint_greater_eq [of v] sint_lt [of v] by simp
  then show ?thesis by (simp add: parse_i32_def parse_int_show)
qed

lemma parse_pairs_show:
  "parse_step_pairs (concat (map show_step steps)) = Some steps"
  by (induction steps) (auto simp: show_step_def parse_i32_show)

lemma show_int_no_comma: "CHR '','' \<notin> set (show_int i)"
  using show_nat_digits digit_not_sign by (auto simp: show_int_def)

lemma parse_pairs_length:
  "parse_step_pairs parts = Some r \<Longrightarrow> even (length parts) \<Longrightarrow> length parts = 2 * length r"
  by (induction parts arbitrary: r rule: parse_step_pairs.induct) (auto split: option.splits)

text \<open>A step filter that is written out is read back, whatever its states, and no filter is read in
  part: the result is empty or has a pair for every two pieces of the text.\<close>

theorem parse_job_steps_roundtrip:
  assumes "steps \<noteq> []" "\<forall>(w, v) \<in> set steps. w \<noteq> '''' \<and> trim w = w \<and> CHR '','' \<notin> set w"
  shows "parse_job_steps (show_steps steps) = steps \<and>
    (parse_job_steps s = [] \<or> 2 * length (parse_job_steps s) = length (split_on (CHR '','') s))"
proof -
  let ?parts = "concat (map show_step steps)"
  have ne: "?parts \<noteq> []" using assms(1) by (cases steps) (simp_all add: show_step_def)
  have clean: "\<forall>p \<in> set ?parts. CHR '','' \<notin> set p"
    using assms(2) show_int_no_comma by (auto simp: show_step_def)
  have split: "split_on (CHR '','') (show_steps steps) = ?parts"
    unfolding show_steps_def by (rule split_on_join_with [OF ne clean])
  have words: "trim w = w" if "(w, v) \<in> set steps" for w v using assms(2) that by auto
  have trims: "map trim ?parts = ?parts"
    using trim_id [OF show_int_ends] words by (auto simp: show_step_def intro!: map_idI)
  have full: "\<not> list_ex (\<lambda>p. p = '''') ?parts"
    using assms(2) show_int_ends(1) [THEN not_sym] by (auto simp: list_ex_iff show_step_def)
  have "even (length ?parts)" by (induction steps) (simp_all add: show_step_def)
  then have "parse_job_steps (show_steps steps) = steps"
    by (simp add: parse_job_steps_def split trims full parse_pairs_show Let_def)
  moreover have "parse_job_steps s = [] \<or> 2 * length (parse_job_steps s) = length (split_on (CHR '','') s)"
    using parse_pairs_length [of "map trim (split_on (CHR '','') s)"]
    by (auto simp: parse_job_steps_def Let_def split: option.split)
  ultimately show ?thesis by blast
qed

text \<open>Sources with an odd number of pieces, a state out of range or an empty piece are refused whole.\<close>

theorem parse_job_steps_roundtrip_witness:
  "parse_job_steps (show_steps [(''system'', 50), (''a b'', - 1)]) = [(''system'', 50), (''a b'', - 1)] \<and>
   (parse_job_steps ''system,50,x'' = [] \<or>
    2 * length (parse_job_steps ''system,50,x'') = length (split_on (CHR '','') ''system,50,x''))"
proof (rule parse_job_steps_roundtrip)
  have "list_all (\<lambda>c. list_all (\<lambda>q. hd q \<noteq> c \<and> last q \<noteq> c) whitespace) ''smab''"
    by code_simp
  then have "c \<notin> set (map hd whitespace) \<and> c \<notin> set (map last whitespace)" if "c \<in> set ''smab''" for c
    using that unfolding list_all_iff by auto
  then have "trim ''system'' = ''system''" "trim ''a b'' = ''a b''" by (simp_all add: trim_plain)
  then show "\<forall>(w, v) \<in> set [(''system'', 50), (''a b'', - 1)]. w \<noteq> '''' \<and> trim w = w \<and> CHR '','' \<notin> set w"
    by simp
qed simp

end
