(* ===== verification/Job_Query.thy ===== *)
theory Job_Query
  imports Http_Job Http_Utils
begin

text \<open>
  The job listing (\<open>get_jobs\<close> of \<open>src/http/job.rs\<close>): its filters, the subqueries they become, and the
  jobs with their histories that are returned.  Which numbers of seconds are times is decided by
  the date library: \<open>from_timestamp\<close> is a parameter.
\<close>

section \<open>Request and answer\<close>

record job_query_params =
  jq_job_ids :: "string option"
  jq_start_time_gt :: "i64 option"
  jq_start_time_lt :: "i64 option"
  jq_end_time_gt :: "i64 option"
  jq_end_time_lt :: "i64 option"
  jq_job_steps :: "string option"

text \<open>The columns a listed job and its history rows show.\<close>

record history_view =
  hv_job_id :: i64
  hv_timestamp :: int
  hv_what :: string
  hv_state :: i32
  hv_details :: string

record job_view =
  jv_id :: i64
  jv_user :: i64
  jv_parameters :: string
  jv_cluster :: string
  jv_bundle :: string
  jv_history :: "history_view list"

definition view_history :: "job_history_row \<Rightarrow> history_view" where
  "view_history h =
     \<lparr>hv_job_id = jh_job_id h, hv_timestamp = jh_timestamp h, hv_what = jh_what h,
      hv_state = jh_state h, hv_details = jh_details h\<rparr>"

definition view_job :: "job_history_row list \<Rightarrow> job_row \<Rightarrow> job_view" where
  "view_job hs j =
     \<lparr>jv_id = job_id j, jv_user = job_user j, jv_parameters = job_parameters j,
      jv_cluster = job_cluster j, jv_bundle = job_bundle j,
      jv_history = map view_history (filter (\<lambda>h. jh_job_id h = job_id j) hs)\<rparr>"

section \<open>Subqueries\<close>

text \<open>\<open>SELECT job_id FROM job_history ...\<close>: the rows that satisfy a condition, and the ids selected from
  them.  A failing subquery fails the statement it is part of.\<close>

type_synonym 'db subquery = "'db \<Rightarrow> i64 list db_result"

text \<open>\<open>GROUP BY job_id HAVING MIN(timestamp) > cutoff\<close>, or \<open><\<close>.\<close>

definition earliest :: "job_history_row list \<Rightarrow> i64 \<Rightarrow> int" where
  "earliest hs jid = foldr min (map jh_timestamp (tl (filter (\<lambda>h. jh_job_id h = jid) hs)))
     (jh_timestamp (hd (filter (\<lambda>h. jh_job_id h = jid) hs)))"

definition min_timestamp_job_subquery ::
    "'db database \<Rightarrow> int \<Rightarrow> bool \<Rightarrow> 'db subquery" where
  "min_timestamp_job_subquery D cutoff gt db =
     (case tb_all (db_histories D) db (\<lambda>h. jh_what h = SYSTEM_SOURCE) of
        Inl e \<Rightarrow> Inl e
      | Inr hs \<Rightarrow>
          Inr (filter (\<lambda>jid. if gt then cutoff < earliest hs jid else earliest hs jid < cutoff)
            (remdups (map jh_job_id hs))))"

definition completion_timestamp_job_subquery ::
    "'db database \<Rightarrow> int \<Rightarrow> bool \<Rightarrow> 'db subquery" where
  "completion_timestamp_job_subquery D cutoff gt db =
     map_sum id (\<lambda>hs. remdups (map jh_job_id hs))
       (tb_all (db_histories D) db (\<lambda>h. jh_what h = JOB_COMPLETION_SOURCE \<and>
          (if gt then cutoff < jh_timestamp h else jh_timestamp h < cutoff)))"

definition job_steps_subquery :: "'db database \<Rightarrow> (string \<times> i32) list \<Rightarrow> 'db subquery" where
  "job_steps_subquery D steps db =
     map_sum id (\<lambda>hs. remdups (map jh_job_id hs))
       (tb_all (db_histories D) db (\<lambda>h. list_ex (\<lambda>(what, st). jh_what h = what \<and> jh_state h = st) steps))"

fun run_subqueries :: "'db subquery list \<Rightarrow> 'db \<Rightarrow> i64 list list db_result" where
  "run_subqueries [] db = Inr []"
| "run_subqueries (q # qs) db =
     (case q db of
        Inl e \<Rightarrow> Inl e
      | Inr ids \<Rightarrow> map_sum id (\<lambda>rest. ids # rest) (run_subqueries qs db))"

definition run_job_query ::
    "'db database \<Rightarrow> (job_row \<Rightarrow> bool) \<Rightarrow> 'db subquery list \<Rightarrow> 'db \<Rightarrow> job_row list db_result" where
  "run_job_query D P subqs db =
     (case run_subqueries subqs db of
        Inl e \<Rightarrow> Inl e
      | Inr idss \<Rightarrow> tb_all (db_jobs D) db (\<lambda>j. P j \<and> list_all (\<lambda>ids. job_id j \<in> set ids) idss))"

section \<open>The listing\<close>

fun parse_all :: "('a \<Rightarrow> 'b option) \<Rightarrow> 'a list \<Rightarrow> 'b list option" where
  "parse_all f [] = Some []"
| "parse_all f (x # xs) =
     (case f x of None \<Rightarrow> None | Some y \<Rightarrow> map_option (\<lambda>ys. y # ys) (parse_all f xs))"

definition parse_job_ids :: "string \<Rightarrow> i64 list option" where
  "parse_job_ids s = parse_all (\<lambda>v. parse_i64 (trim v)) (split_on (CHR '','') (trim s))"

definition time_subquery ::
    "(i64 \<Rightarrow> int option) \<Rightarrow> (int \<Rightarrow> 'db subquery) \<Rightarrow> i64 option \<Rightarrow> 'db subquery list" where
  "time_subquery from_timestamp q ts =
     (case ts of None \<Rightarrow> [] | Some t \<Rightarrow>
        (case from_timestamp t of None \<Rightarrow> [] | Some cutoff \<Rightarrow> [q cutoff]))"

definition time_subqueries ::
    "'db database \<Rightarrow> (i64 \<Rightarrow> int option) \<Rightarrow> job_query_params \<Rightarrow> 'db subquery list" where
  "time_subqueries D from_timestamp params =
     time_subquery from_timestamp (\<lambda>c. min_timestamp_job_subquery D c True) (jq_start_time_gt params) @
     time_subquery from_timestamp (\<lambda>c. min_timestamp_job_subquery D c False) (jq_start_time_lt params) @
     time_subquery from_timestamp (\<lambda>c. completion_timestamp_job_subquery D c True) (jq_end_time_gt params) @
     time_subquery from_timestamp (\<lambda>c. completion_timestamp_job_subquery D c False) (jq_end_time_lt params)"

text \<open>A time that is given but is not one empties the listing.\<close>

definition times_valid :: "(i64 \<Rightarrow> int option) \<Rightarrow> job_query_params \<Rightarrow> bool" where
  "times_valid from_timestamp params =
     list_all (\<lambda>ts. case ts of None \<Rightarrow> True | Some t \<Rightarrow> from_timestamp t \<noteq> None)
       [jq_start_time_gt params, jq_start_time_lt params, jq_end_time_gt params, jq_end_time_lt params]"

text \<open>The explicit ids: \<open>None\<close> when the text is malformed, otherwise the filter on the id.\<close>

definition job_id_filter :: "string option \<Rightarrow> (i64 \<Rightarrow> bool) option" where
  "job_id_filter ids =
     (case ids of
        None \<Rightarrow> Some (\<lambda>_. True)
      | Some s \<Rightarrow>
          (case parse_job_ids s of
             None \<Rightarrow> None
           | Some [] \<Rightarrow> Some (\<lambda>_. True)
           | Some (i # ids) \<Rightarrow> Some (\<lambda>j. j \<in> set (i # ids))))"

definition steps_subqueries :: "'db database \<Rightarrow> string option \<Rightarrow> 'db subquery list option" where
  "steps_subqueries D s =
     (case s of
        None \<Rightarrow> Some []
      | Some t \<Rightarrow> if parse_job_steps t = [] then None else Some [job_steps_subquery D (parse_job_steps t)])"

definition list_jobs ::
    "'db database \<Rightarrow> (job_row \<Rightarrow> bool) \<Rightarrow> 'db subquery list \<Rightarrow> 'db \<Rightarrow> http_error + job_view list" where
  "list_jobs D P subqs db =
     (case run_job_query D P subqs db of
        Inl e \<Rightarrow> Inl (db_error e)
      | Inr [] \<Rightarrow> Inr []
      | Inr jobs \<Rightarrow>
          (case tb_all_desc (db_histories D) db (\<lambda>h. jh_job_id h \<in> set (map job_id jobs))
                  (\<lambda>h. (jh_timestamp h, sint (jh_id h))) of
             Inl e \<Rightarrow> Inl (db_error e)
           | Inr hs \<Rightarrow> Inr (map (view_job hs) jobs)))"

definition get_jobs ::
    "'db database \<Rightarrow> (i64 \<Rightarrow> int option) \<Rightarrow> 'p auth_result \<Rightarrow> job_query_params \<Rightarrow> 'db manager \<Rightarrow>
     http_error + job_view list" where
  "get_jobs D from_timestamp auth params mg =
     (if mg_shutdown mg then Inl (SERVICE_UNAVAILABLE, ERR_APPLICATION_SHUTDOWN)
      else if jq_start_time_gt params \<noteq> None \<and> jq_start_time_lt params \<noteq> None then
        Inl (BAD_REQUEST, ''Can'' @ [CHR 0x27] @ ''t have both startTimeGt and startTimeLt'')
      else if jq_end_time_gt params \<noteq> None \<and> jq_end_time_lt params \<noteq> None then
        Inl (BAD_REQUEST, ''Can'' @ [CHR 0x27] @ ''t have both endTimeGt and endTimeLt'')
      else if \<not> times_valid from_timestamp params then Inr []
      else
        (case job_id_filter (jq_job_ids params) of
           None \<Rightarrow> Inr []
         | Some id_ok \<Rightarrow>
             (case steps_subqueries D (jq_job_steps params) of
                None \<Rightarrow> Inr []
              | Some step_qs \<Rightarrow>
                  list_jobs D
                    (\<lambda>j. job_application j \<in> set (get_applications (au_secret auth)) \<and> id_ok (job_id j))
                    (time_subqueries D from_timestamp params @ step_qs) (mg_db mg))))"

section \<open>What a listing contains\<close>

lemma foldr_min_less:
  "c < foldr min xs (a :: int) \<longleftrightarrow> c < a \<and> (\<forall>x \<in> set xs. c < x)"
  "foldr min xs (a :: int) < c \<longleftrightarrow> a < c \<or> (\<exists>x \<in> set xs. x < c)"
  by (induction xs) auto

lemma earliest_iff:
  assumes "jid \<in> jh_job_id ` set hs"
  shows "c < earliest hs jid \<longleftrightarrow> (\<forall>h \<in> set hs. jh_job_id h = jid \<longrightarrow> c < jh_timestamp h)"
    and "earliest hs jid < c \<longleftrightarrow> (\<exists>h \<in> set hs. jh_job_id h = jid \<and> jh_timestamp h < c)"
proof -
  let ?ys = "filter (\<lambda>h. jh_job_id h = jid) hs"
  have "?ys \<noteq> []" using assms by (auto simp: filter_empty_conv)
  then obtain y ys where ys: "?ys = y # ys" by (cases ?ys) auto
  have mem: "set ?ys = {h \<in> set hs. jh_job_id h = jid}" by simp
  have e: "earliest hs jid = foldr min (map jh_timestamp ys) (jh_timestamp y)" by (simp add: earliest_def ys)
  show "c < earliest hs jid \<longleftrightarrow> (\<forall>h \<in> set hs. jh_job_id h = jid \<longrightarrow> c < jh_timestamp h)"
    using mem unfolding e foldr_min_less ys by auto
  show "earliest hs jid < c \<longleftrightarrow> (\<exists>h \<in> set hs. jh_job_id h = jid \<and> jh_timestamp h < c)"
    using mem unfolding e foldr_min_less ys by auto
qed

text \<open>The conditions the filters stand for, on the history rows of the database.\<close>

definition started :: "job_history_row set \<Rightarrow> int \<Rightarrow> bool \<Rightarrow> i64 \<Rightarrow> bool" where
  "started hist cutoff gt jid \<longleftrightarrow>
     (let system = {h \<in> hist. jh_job_id h = jid \<and> jh_what h = SYSTEM_SOURCE} in
      if gt then system \<noteq> {} \<and> (\<forall>h \<in> system. cutoff < jh_timestamp h)
      else (\<exists>h \<in> system. jh_timestamp h < cutoff))"

definition finished :: "job_history_row set \<Rightarrow> int \<Rightarrow> bool \<Rightarrow> i64 \<Rightarrow> bool" where
  "finished hist cutoff gt jid \<longleftrightarrow>
     (\<exists>h \<in> hist. jh_job_id h = jid \<and> jh_what h = JOB_COMPLETION_SOURCE \<and>
        (if gt then cutoff < jh_timestamp h else jh_timestamp h < cutoff))"

definition reached_step :: "job_history_row set \<Rightarrow> (string \<times> i32) list \<Rightarrow> i64 \<Rightarrow> bool" where
  "reached_step hist steps jid \<longleftrightarrow>
     (\<exists>h \<in> hist. jh_job_id h = jid \<and> (jh_what h, jh_state h) \<in> set steps)"

definition selects :: "'db \<Rightarrow> 'db subquery \<Rightarrow> (i64 \<Rightarrow> bool) \<Rightarrow> bool" where
  "selects db q C \<longleftrightarrow> (\<forall>ids. q db = Inr ids \<longrightarrow> (\<forall>x. x \<in> set ids \<longleftrightarrow> C x))"

lemma min_timestamp_selects:
  assumes "history_table_laws D hrows"
  shows "selects db (min_timestamp_job_subquery D c gt) (started (set (hrows db)) c gt)"
  unfolding selects_def
proof (intro allI impI)
  fix ids x
  assume q: "min_timestamp_job_subquery D c gt db = Inr ids"
  obtain hs where hs: "tb_all (db_histories D) db (\<lambda>h. jh_what h = SYSTEM_SOURCE) = Inr hs"
    using q by (cases "tb_all (db_histories D) db (\<lambda>h. jh_what h = SYSTEM_SOURCE)")
      (simp_all add: min_timestamp_job_subquery_def)
  have set: "set hs = {h \<in> set (hrows db). jh_what h = SYSTEM_SOURCE}"
    using table_laws.all_rows [OF assms hs] .
  have ids: "x \<in> set ids \<longleftrightarrow> x \<in> jh_job_id ` set hs \<and> (if gt then c < earliest hs x else earliest hs x < c)"
    using q hs by (auto simp: min_timestamp_job_subquery_def)
  show "x \<in> set ids \<longleftrightarrow> started (set (hrows db)) c gt x"
  proof (cases "x \<in> jh_job_id ` set hs")
    case True
    have "x \<in> set ids \<longleftrightarrow> (if gt then \<forall>h \<in> set hs. jh_job_id h = x \<longrightarrow> c < jh_timestamp h
        else \<exists>h \<in> set hs. jh_job_id h = x \<and> jh_timestamp h < c)"
      unfolding ids earliest_iff [OF True] using True by simp
    also have "\<dots> \<longleftrightarrow> started (set (hrows db)) c gt x"
      using True unfolding set started_def by auto
    finally show ?thesis .
  next
    case False
    then show ?thesis unfolding ids set started_def by auto
  qed
qed

lemma map_sum_Inr: "map_sum id f r = Inr y \<longleftrightarrow> (\<exists>x. r = Inr x \<and> y = f x)"
  by (cases r) auto

lemma completion_selects:
  assumes "history_table_laws D hrows"
  shows "selects db (completion_timestamp_job_subquery D c gt) (finished (set (hrows db)) c gt)"
  unfolding selects_def completion_timestamp_job_subquery_def map_sum_Inr
  by (auto simp: finished_def dest!: table_laws.all_rows [OF assms])

lemma job_steps_selects:
  assumes "history_table_laws D hrows"
  shows "selects db (job_steps_subquery D steps) (reached_step (set (hrows db)) steps)"
  unfolding selects_def job_steps_subquery_def map_sum_Inr
  by (auto simp: reached_step_def list_ex_iff dest!: table_laws.all_rows [OF assms]) fastforce+

lemma run_subqueries_selects:
  assumes "list_all2 (selects db) qs Cs" "run_subqueries qs db = Inr idss"
  shows "list_all (\<lambda>ids. x \<in> set ids) idss \<longleftrightarrow> list_all (\<lambda>C. C x) Cs"
  using assms
proof (induction qs Cs arbitrary: idss rule: list_all2_induct)
  case (Cons q qs C Cs)
  obtain ids where ids: "q db = Inr ids" using Cons.prems by (cases "q db") simp_all
  obtain rest where "run_subqueries qs db = Inr rest" "idss = ids # rest"
    using Cons.prems ids by (auto simp: map_sum_Inr)
  with Cons.IH Cons.hyps(1) ids show ?case by (simp add: selects_def)
qed simp

definition time_condition ::
    "(i64 \<Rightarrow> int option) \<Rightarrow> (int \<Rightarrow> i64 \<Rightarrow> bool) \<Rightarrow> i64 option \<Rightarrow> (i64 \<Rightarrow> bool) list" where
  "time_condition from_timestamp C ts =
     (case ts of None \<Rightarrow> [] | Some t \<Rightarrow>
        (case from_timestamp t of None \<Rightarrow> [] | Some cutoff \<Rightarrow> [C cutoff]))"

definition query_conditions ::
    "(i64 \<Rightarrow> int option) \<Rightarrow> job_query_params \<Rightarrow> job_history_row set \<Rightarrow> (i64 \<Rightarrow> bool) list" where
  "query_conditions from_timestamp params hist =
     time_condition from_timestamp (\<lambda>c. started hist c True) (jq_start_time_gt params) @
     time_condition from_timestamp (\<lambda>c. started hist c False) (jq_start_time_lt params) @
     time_condition from_timestamp (\<lambda>c. finished hist c True) (jq_end_time_gt params) @
     time_condition from_timestamp (\<lambda>c. finished hist c False) (jq_end_time_lt params) @
     (case jq_job_steps params of None \<Rightarrow> [] | Some s \<Rightarrow> [reached_step hist (parse_job_steps s)])"

text \<open>The jobs a listing asks for.\<close>

definition wanted_job ::
    "(i64 \<Rightarrow> int option) \<Rightarrow> 'p auth_result \<Rightarrow> job_query_params \<Rightarrow> job_history_row set \<Rightarrow> job_row \<Rightarrow> bool" where
  "wanted_job from_timestamp auth params hist j \<longleftrightarrow>
     job_application j \<in> set (get_applications (au_secret auth)) \<and>
     (case jq_job_ids params of None \<Rightarrow> True
      | Some s \<Rightarrow> (case parse_job_ids s of None \<Rightarrow> False | Some ids \<Rightarrow> ids = [] \<or> job_id j \<in> set ids)) \<and>
     list_all (\<lambda>C. C (job_id j)) (query_conditions from_timestamp params hist)"

text \<open>A job and its histories, newest first, as they stand in the tables.\<close>

definition shows_job :: "job_history_row set \<Rightarrow> job_row \<Rightarrow> job_view \<Rightarrow> bool" where
  "shows_job hist j v \<longleftrightarrow>
     (\<exists>hs. v = view_job hs j \<and> set hs = {h \<in> hist. jh_job_id h = job_id j} \<and>
        sorted_wrt (\<lambda>a b. history_before b a) hs)"

lemma query_selects:
  assumes laws: "history_table_laws D hrows" and s: "steps_subqueries D (jq_job_steps params) = Some step_qs"
  shows "list_all2 (selects db) (time_subqueries D ft params @ step_qs)
    (query_conditions ft params (set (hrows db)))"
proof -
  have time: "list_all2 (selects db) (time_subquery ft q ts) (time_condition ft C ts)"
    if "\<And>c. selects db (q c) (C c)" for q C ts
    using that by (simp add: time_subquery_def time_condition_def split: option.split)
  have steps: "list_all2 (selects db) step_qs (case jq_job_steps params of None \<Rightarrow> []
      | Some t \<Rightarrow> [reached_step (set (hrows db)) (parse_job_steps t)])"
    using s job_steps_selects [OF laws]
    by (auto simp: steps_subqueries_def split: option.splits if_splits)
  show ?thesis
    unfolding time_subqueries_def query_conditions_def
    using steps by (auto intro!: list_all2_appendI time min_timestamp_selects [OF laws] completion_selects [OF laws])
qed

lemma list_jobs_views:
  assumes laws: "jobs_table_laws D jrows" "history_table_laws D hrows"
    and sel: "list_all2 (selects db) subqs Cs" and out: "list_jobs D P subqs db = Inr views"
  shows "\<exists>jobs. set jobs = {j \<in> set (jrows db). P j \<and> list_all (\<lambda>C. C (job_id j)) Cs} \<and>
    list_all2 (shows_job (set (hrows db))) jobs views"
proof -
  obtain jobs where q: "run_job_query D P subqs db = Inr jobs"
    using out by (cases "run_job_query D P subqs db") (simp_all add: list_jobs_def)
  obtain idss where idss: "run_subqueries subqs db = Inr idss"
    using q by (cases "run_subqueries subqs db") (simp_all add: run_job_query_def)
  have jobs: "set jobs = {j \<in> set (jrows db). P j \<and> list_all (\<lambda>C. C (job_id j)) Cs}"
    using table_laws.all_rows [OF laws(1), of db _ jobs] q idss run_subqueries_selects [OF sel idss]
    by (simp add: run_job_query_def)
  have "list_all2 (shows_job (set (hrows db))) jobs views"
  proof (cases "jobs = []")
    case True
    with out q show ?thesis by (simp add: list_jobs_def)
  next
    case False
    obtain hs where hs: "tb_all_desc (db_histories D) db (\<lambda>h. jh_job_id h \<in> set (map job_id jobs))
        (\<lambda>h. (jh_timestamp h, sint (jh_id h))) = Inr hs"
      using out q False
      by (cases "tb_all_desc (db_histories D) db (\<lambda>h. jh_job_id h \<in> set (map job_id jobs))
          (\<lambda>h. (jh_timestamp h, sint (jh_id h)))") (auto simp: list_jobs_def split: list.splits)
    have views: "views = map (view_job hs) jobs"
      using out q False hs by (cases jobs) (simp_all add: list_jobs_def)
    have rows: "set hs = {h \<in> set (hrows db). jh_job_id h \<in> set (map job_id jobs)}"
      and sorted: "sorted_wrt (\<lambda>a b. history_before b a) hs"
      using table_laws.all_desc_rows [OF laws(2) hs] unfolding history_before_def by simp_all
    have "shows_job (set (hrows db)) j (view_job hs j)" if "j \<in> set jobs" for j
      unfolding shows_job_def
      by (rule exI [of _ "filter (\<lambda>h. jh_job_id h = job_id j) hs"])
        (use that rows sorted_wrt_filter [OF sorted] in \<open>auto simp: view_job_def\<close>)
    then show ?thesis unfolding views by (simp add: list.rel_map list_all2_same)
  qed
  with jobs show ?thesis by blast
qed

text \<open>C30: a listing is exact.  When it is returned, either the request had a malformed filter and the
  listing is empty, or it has exactly the jobs of the caller's applications that satisfy every
  filter given, in the sense of the rows of the database, each with its complete history, newest
  first.\<close>

theorem get_jobs_exact:
  assumes "jobs_table_laws D jrows" "history_table_laws D hrows"
    "get_jobs D from_timestamp auth params mg = Inr views"
  shows "if times_valid from_timestamp params \<and> job_id_filter (jq_job_ids params) \<noteq> None \<and>
      map_option parse_job_steps (jq_job_steps params) \<noteq> Some []
    then \<exists>jobs. set jobs = {j \<in> set (jrows (mg_db mg)).
        wanted_job from_timestamp auth params (set (hrows (mg_db mg))) j} \<and>
      list_all2 (shows_job (set (hrows (mg_db mg)))) jobs views
    else views = []"
proof (cases "times_valid from_timestamp params \<and> job_id_filter (jq_job_ids params) \<noteq> None \<and>
      map_option parse_job_steps (jq_job_steps params) \<noteq> Some []")
  case True
  then obtain id_ok where id_ok: "job_id_filter (jq_job_ids params) = Some id_ok" by auto
  obtain step_qs where steps: "steps_subqueries D (jq_job_steps params) = Some step_qs"
    using True by (cases "jq_job_steps params") (simp_all add: steps_subqueries_def)
  have "list_jobs D (\<lambda>j. job_application j \<in> set (get_applications (au_secret auth)) \<and> id_ok (job_id j))
      (time_subqueries D from_timestamp params @ step_qs) (mg_db mg) = Inr views"
    using assms(3) True id_ok steps by (auto simp: get_jobs_def split: if_splits)
  from list_jobs_views [OF assms(1,2) query_selects [OF assms(2) steps] this]
  obtain jobs where jobs: "set jobs = {j \<in> set (jrows (mg_db mg)).
      (job_application j \<in> set (get_applications (au_secret auth)) \<and> id_ok (job_id j)) \<and>
      list_all (\<lambda>C. C (job_id j)) (query_conditions from_timestamp params (set (hrows (mg_db mg))))}"
    "list_all2 (shows_job (set (hrows (mg_db mg)))) jobs views" by blast
  have "id_ok i \<longleftrightarrow> (case jq_job_ids params of None \<Rightarrow> True
      | Some s \<Rightarrow> (case parse_job_ids s of None \<Rightarrow> False | Some ids \<Rightarrow> ids = [] \<or> i \<in> set ids))" for i
    using id_ok by (auto simp: job_id_filter_def split: option.splits list.splits)
  with jobs(1) have "set jobs = {j \<in> set (jrows (mg_db mg)).
      wanted_job from_timestamp auth params (set (hrows (mg_db mg))) j}"
    by (auto simp: wanted_job_def)
  with True jobs(2) show ?thesis by auto
next
  case False
  then have "views = []"
    using assms(3) by (auto simp: get_jobs_def steps_subqueries_def split: if_splits option.splits)
  with False show ?thesis by auto
qed

section \<open>Example\<close>

definition demo_query :: job_query_params where
  "demo_query =
     \<lparr>jq_job_ids = None, jq_start_time_gt = Some 5, jq_start_time_lt = None, jq_end_time_gt = None,
      jq_end_time_lt = None, jq_job_steps = None\<rparr>"

theorem get_jobs_exact_witness:
  "if times_valid (\<lambda>t. Some (sint t)) demo_query \<and> job_id_filter (jq_job_ids demo_query) \<noteq> None \<and>
      map_option parse_job_steps (jq_job_steps demo_query) \<noteq> Some []
    then \<exists>jobs. set jobs = {j \<in> set (mt_rows (m_jobs (mg_db demo_jobs_manager))).
        wanted_job (\<lambda>t. Some (sint t)) demo_caller demo_query
          (set (mt_rows (m_histories (mg_db demo_jobs_manager)))) j} \<and>
      list_all2 (shows_job (set (mt_rows (m_histories (mg_db demo_jobs_manager))))) jobs
        [view_job [demo_history_row] demo_job_row]
    else [view_job [demo_history_row] demo_job_row] = []"
proof (rule get_jobs_exact [OF mem_jobs.table_laws_axioms mem_histories.table_laws_axioms])
  have jobs: "mt_rows (m_jobs demo_jobs_db) = [demo_job_row]"
    and hist: "mt_rows (m_histories demo_jobs_db) = [demo_history_row]"
    by (simp_all add: demo_jobs_db_def)
  have "run_job_query mem_database (\<lambda>j. job_application j = ''app'')
      [min_timestamp_job_subquery mem_database 5 True] demo_jobs_db = Inr [demo_job_row]"
    by (simp add: run_job_query_def min_timestamp_job_subquery_def mem_database_def mem_ops_def mem_select_def
        jobs hist) (simp add: earliest_def demo_history_row_def demo_job_row_def SYSTEM_SOURCE_def)
  moreover have "tb_all_desc (db_histories mem_database) demo_jobs_db
      (\<lambda>h. jh_job_id h \<in> set (map job_id [demo_job_row])) (\<lambda>h. (jh_timestamp h, sint (jh_id h))) =
      Inr [demo_history_row]"
    by (simp add: mem_database_def mem_ops_def mem_select_def hist sort_desc_def)
      (simp add: demo_job_row_def demo_history_row_def)
  ultimately show "get_jobs mem_database (\<lambda>t. Some (sint t)) demo_caller demo_query demo_jobs_manager =
      Inr [view_job [demo_history_row] demo_job_row]"
    by (simp add: get_jobs_def demo_query_def times_valid_def job_id_filter_def steps_subqueries_def
        time_subqueries_def time_subquery_def list_jobs_def get_applications_def demo_caller_def demo_secret_def)
qed

end
