(* ===== verification/File_Stream.thy ===== *)
theory File_Stream
  imports Cluster_Handlers Download_Session
begin

text \<open>
  The body of a download response (the stream of \<open>download_file\<close> in \<open>src/http/file.rs\<close>): the loop that
  takes chunks from the transfer state, truncates the last one to the declared size, resumes a
  paused cluster and reports how the transfer ended, interleaved with the messages of the cluster
  (\<open>Cluster_Handlers\<close>) and with a client that goes away.
\<close>

section \<open>State\<close>

text \<open>\<open>ss_trigger\<close> says whether the stream holds a clean-up trigger of the session; \<open>ss_running\<close> whether
  its loop is still polled, and \<open>ss_gone\<close> whether it was dropped because the client went away.\<close>

record stream_state =
  ss_cluster :: cluster
  ss_session :: session
  ss_requests :: "cleanup_request list"
  ss_trigger :: bool
  ss_sent :: u64
  ss_size :: u64
  ss_out :: "bytes list"
  ss_failed :: bool
  ss_running :: bool
  ss_gone :: bool

definition stream_transfer :: "stream_state \<Rightarrow> file_download_state" where
  "stream_transfer s =
     (case cl_download (ss_cluster s) of None \<Rightarrow> file_download_state_new | Some st \<Rightarrow> st)"

definition set_transfer :: "file_download_state \<Rightarrow> stream_state \<Rightarrow> stream_state" where
  "set_transfer st s = s\<lparr>ss_cluster := (ss_cluster s)\<lparr>cl_download := Some st\<rparr>\<rparr>"

section \<open>The loop\<close>

definition fire_stream_trigger :: "shutdown_reason \<Rightarrow> stream_state \<Rightarrow> stream_state" where
  "fire_stream_trigger reason s =
     (if \<not> ss_trigger s then s
      else (let (_, x, requests) = session_trigger reason (ss_session s)
            in s\<lparr>ss_session := x, ss_requests := ss_requests s @ requests\<rparr>))"

text \<open>What follows the loop, whichever way it ended.\<close>

definition stream_end :: "stream_state \<Rightarrow> stream_state" where
  "stream_end s =
     (let s = s\<lparr>ss_running := False\<rparr>
      in if ss_sent s < ss_size s then fire_stream_trigger FileError s else s)"

definition stream_guard :: "stream_state \<Rightarrow> bool" where
  "stream_guard s \<longleftrightarrow> ss_sent s < ss_size s \<and> \<not> fd_error (stream_transfer s)"

definition resume_message :: "string \<Rightarrow> message" where
  "resume_message uid = message_new RESUME_FILE_CHUNK_STREAM Highest uid"

definition stream_resume :: "u64 \<Rightarrow> string \<Rightarrow> stream_state \<Rightarrow> stream_state" where
  "stream_resume min_buffer uid s =
     (let st = stream_transfer s in
      if fd_client_paused st \<and> saturating_sub (fd_received_bytes st) (ss_sent s) < min_buffer
      then (let s = set_transfer (st\<lparr>fd_client_paused := False\<rparr>) s
            in s\<lparr>ss_cluster := send_message (resume_message uid) (ss_cluster s)\<rparr>)
      else s)"

definition stream_chunk :: "u64 \<Rightarrow> string \<Rightarrow> bytes \<Rightarrow> stream_state \<Rightarrow> stream_state" where
  "stream_chunk min_buffer uid chunk s =
     (if ss_size s < ss_sent s + word_of_nat (length chunk) then
        (let remaining = unat (ss_size s - ss_sent s);
             chunk = take remaining chunk;
             s = s\<lparr>ss_sent := ss_sent s + word_of_nat (length chunk)\<rparr>;
             s = set_transfer ((stream_transfer s)\<lparr>fd_sent_bytes := ss_sent s\<rparr>) s;
             s = fire_stream_trigger Complete s
         in stream_end (s\<lparr>ss_out := ss_out s @ [chunk]\<rparr>))
      else
        (let s = s\<lparr>ss_sent := ss_sent s + word_of_nat (length chunk)\<rparr>;
             s = set_transfer ((stream_transfer s)\<lparr>fd_sent_bytes := ss_sent s\<rparr>) s;
             s = stream_resume min_buffer uid s;
             s = (if ss_sent s = ss_size s then fire_stream_trigger Complete s else s)
         in s\<lparr>ss_out := ss_out s @ [chunk]\<rparr>))"

definition stream_closed :: "stream_state \<Rightarrow> stream_state" where
  "stream_closed s =
     stream_end (if ss_sent s = ss_size s then fire_stream_trigger Complete s
                 else fire_stream_trigger ChunkTimeout s)"

definition stream_timeout :: "stream_state \<Rightarrow> stream_state" where
  "stream_timeout s = stream_end ((fire_stream_trigger ChunkTimeout s)\<lparr>ss_failed := True\<rparr>)"

definition take_chunk :: "stream_state \<Rightarrow> (bytes \<times> stream_state) option" where
  "take_chunk s =
     (case fd_chunks (stream_transfer s) of
        [] \<Rightarrow> None
      | chunk # rest \<Rightarrow> Some (chunk, set_transfer ((stream_transfer s)\<lparr>fd_chunks := rest\<rparr>) s))"

text \<open>The response starts with nothing sent.  An empty file is complete before its body exists, and
  its stream has no trigger.\<close>

definition stream_start :: "cluster \<Rightarrow> session \<Rightarrow> stream_state" where
  "stream_start c x =
     (let s = \<lparr>ss_cluster = c, ss_session = x, ss_requests = [], ss_trigger = True, ss_sent = 0,
               ss_size = 0, ss_out = [], ss_failed = False, ss_running = True,
               ss_gone = False\<rparr>;
          s = s\<lparr>ss_size := fd_file_size (stream_transfer s)\<rparr>
      in if ss_size s = 0 then (fire_stream_trigger Complete s)\<lparr>ss_trigger := False\<rparr> else s)"

section \<open>Steps\<close>

text \<open>A step is labelled by what made it: the stream or its cluster's handler (\<open>Internal\<close>), a chunk that
  the handler was given (\<open>Received\<close>), the client that went away, or another owner of the session
  (the socket handler and the shutdown, which never report completion).\<close>

datatype stream_event = Internal | Received bytes | ClientGone | SessionEvent session_op

fun event_bytes :: "stream_event \<Rightarrow> bytes" where
  "event_bytes (Received c) = c"
| "event_bytes _ = []"

fun is_session_event :: "stream_event \<Rightarrow> bool" where
  "is_session_event (SessionEvent _) \<longleftrightarrow> True"
| "is_session_event _ \<longleftrightarrow> False"

inductive stream_step :: "u64 \<Rightarrow> u64 \<Rightarrow> string \<Rightarrow> stream_state \<Rightarrow> stream_event \<Rightarrow> stream_state \<Rightarrow> bool"
  for min_buffer max_buffer :: u64 and uid :: string where
  chunk: "ss_running s \<Longrightarrow> stream_guard s \<Longrightarrow> take_chunk s = Some (c, s') \<Longrightarrow>
    stream_step min_buffer max_buffer uid s Internal (stream_chunk min_buffer uid c s')"
| closed: "ss_running s \<Longrightarrow> stream_guard s \<Longrightarrow> take_chunk s = None \<Longrightarrow>
    stream_step min_buffer max_buffer uid s Internal (stream_closed s)"
| timeout: "ss_running s \<Longrightarrow> stream_guard s \<Longrightarrow> take_chunk s = None \<Longrightarrow>
    stream_step min_buffer max_buffer uid s Internal (stream_timeout s)"
| loop_exit: "ss_running s \<Longrightarrow> \<not> stream_guard s \<Longrightarrow>
    stream_step min_buffer max_buffer uid s Internal (stream_end s)"
| received: "try_pop_bytes m = (Some c, m') \<Longrightarrow>
    stream_step min_buffer max_buffer uid s (Received c)
      (s\<lparr>ss_cluster := handle_file_chunk max_buffer m (ss_cluster s)\<rparr>)"
| truncated: "try_pop_bytes m = (None, m') \<Longrightarrow>
    stream_step min_buffer max_buffer uid s Internal
      (s\<lparr>ss_cluster := handle_file_chunk max_buffer m (ss_cluster s)\<rparr>)"
| file_error: "stream_step min_buffer max_buffer uid s Internal
      (s\<lparr>ss_cluster := handle_file_error m (ss_cluster s)\<rparr>)"
| file_details: "stream_step min_buffer max_buffer uid s Internal
      (s\<lparr>ss_cluster := handle_file_details m (ss_cluster s)\<rparr>)"
| client_gone: "ss_running s \<Longrightarrow>
    stream_step min_buffer max_buffer uid s ClientGone (s\<lparr>ss_running := False, ss_gone := True\<rparr>)"
| session_event: "op \<noteq> TriggerOp Complete \<Longrightarrow> session_step op (ss_session s) = (x, rs) \<Longrightarrow>
    stream_step min_buffer max_buffer uid s (SessionEvent op)
      (s\<lparr>ss_session := x, ss_requests := ss_requests s @ rs\<rparr>)"

inductive stream_reaches ::
    "u64 \<Rightarrow> u64 \<Rightarrow> string \<Rightarrow> stream_state \<Rightarrow> stream_event list \<Rightarrow> stream_state \<Rightarrow> bool"
  for min_buffer max_buffer :: u64 and uid :: string and s0 :: stream_state where
  start: "stream_reaches min_buffer max_buffer uid s0 [] s0"
| step: "stream_reaches min_buffer max_buffer uid s0 es s \<Longrightarrow>
    stream_step min_buffer max_buffer uid s e s' \<Longrightarrow>
    stream_reaches min_buffer max_buffer uid s0 (es @ [e]) s'"

definition events_bytes :: "stream_event list \<Rightarrow> bytes" where
  "events_bytes es = concat (map event_bytes es)"

lemma events_bytes_simps [simp]:
  "events_bytes [] = []" "events_bytes (es @ [e]) = events_bytes es @ event_bytes e"
  by (simp_all add: events_bytes_def)

section \<open>Frames\<close>

definition ended_by :: "session \<Rightarrow> shutdown_reason option" where
  "ended_by x = (case ds_state x of Closing _ r \<Rightarrow> Some r | Closed _ r \<Rightarrow> Some r | _ \<Rightarrow> None)"

lemma open_iff_not_ended: "session_open x \<longleftrightarrow> ended_by x = None"
  by (simp add: session_open_def ended_by_def split: session_state.split)

lemma trigger_ended:
  "session_trigger reason x = (won, x', rs) \<Longrightarrow>
     ended_by x' = (if session_open x then Some reason else ended_by x)"
  by (auto simp: session_trigger_def enter_closing_def session_open_def ended_by_def Let_def
      split: session_state.splits)

lemma fire_frame [simp]:
  "ss_cluster (fire_stream_trigger r s) = ss_cluster s" "ss_sent (fire_stream_trigger r s) = ss_sent s"
  "ss_size (fire_stream_trigger r s) = ss_size s" "ss_out (fire_stream_trigger r s) = ss_out s"
  "ss_failed (fire_stream_trigger r s) = ss_failed s" "ss_running (fire_stream_trigger r s) = ss_running s"
  "ss_trigger (fire_stream_trigger r s) = ss_trigger s" "ss_gone (fire_stream_trigger r s) = ss_gone s"
  "stream_transfer (fire_stream_trigger r s) = stream_transfer s"
  by (simp_all add: fire_stream_trigger_def Let_def case_prod_beta stream_transfer_def)

lemma fire_ended:
  "ended_by (ss_session (fire_stream_trigger r s)) =
     (if ss_trigger s \<and> session_open (ss_session s) then Some r else ended_by (ss_session s))"
  by (cases "session_trigger r (ss_session s)") (auto simp: fire_stream_trigger_def dest: trigger_ended)

lemma stream_end_frame [simp]:
  "ss_cluster (stream_end s) = ss_cluster s" "ss_sent (stream_end s) = ss_sent s"
  "ss_size (stream_end s) = ss_size s" "ss_out (stream_end s) = ss_out s"
  "\<not> ss_running (stream_end s)" "ss_trigger (stream_end s) = ss_trigger s"
  "stream_transfer (stream_end s) = stream_transfer s" "ss_gone (stream_end s) = ss_gone s"
  by (simp_all add: stream_end_def Let_def stream_transfer_def)

lemma set_transfer_frame [simp]:
  "ss_session (set_transfer st s) = ss_session s" "ss_sent (set_transfer st s) = ss_sent s"
  "ss_size (set_transfer st s) = ss_size s" "ss_out (set_transfer st s) = ss_out s"
  "ss_running (set_transfer st s) = ss_running s" "ss_trigger (set_transfer st s) = ss_trigger s"
  "ss_gone (set_transfer st s) = ss_gone s"
  "ss_requests (set_transfer st s) = ss_requests s" "stream_transfer (set_transfer st s) = st"
  by (simp_all add: set_transfer_def stream_transfer_def)

lemma stream_transfer_update [simp]:
  "stream_transfer (s\<lparr>ss_sent := x\<rparr>) = stream_transfer s"
  "stream_transfer (s\<lparr>ss_out := y\<rparr>) = stream_transfer s"
  by (simp_all add: stream_transfer_def)

lemma send_message_download [simp]: "cl_download (send_message m c) = cl_download c"
  by (simp add: send_message_def queue_message_def Let_def split: option.split)

lemma stream_resume_frame [simp]:
  "ss_session (stream_resume b uid s) = ss_session s" "ss_sent (stream_resume b uid s) = ss_sent s"
  "ss_size (stream_resume b uid s) = ss_size s" "ss_out (stream_resume b uid s) = ss_out s"
  "ss_running (stream_resume b uid s) = ss_running s" "ss_trigger (stream_resume b uid s) = ss_trigger s"
  "ss_gone (stream_resume b uid s) = ss_gone s"
  by (simp_all add: stream_resume_def Let_def)

lemma stream_resume_transfer:
  "stream_transfer (stream_resume b uid s) =
     (let st = stream_transfer s in
      if fd_client_paused st \<and> saturating_sub (fd_received_bytes st) (ss_sent s) < b
      then st\<lparr>fd_client_paused := False\<rparr> else st)"
  by (simp add: stream_resume_def Let_def) (simp add: stream_transfer_def set_transfer_def)

lemma stream_end_ended:
  "ended_by (ss_session (stream_end s)) =
     (if ss_sent s < ss_size s \<and> ss_trigger s \<and> session_open (ss_session s) then Some FileError
      else ended_by (ss_session s))"
  by (auto simp: stream_end_def Let_def fire_ended)

lemma session_step_ended:
  assumes "session_step op x = (x', rs)"
  shows "ended_by x' = ended_by x \<or> session_open x \<and> (\<exists>r. op = TriggerOp r \<and> ended_by x' = Some r)"
  using assms
  by (cases op) (auto simp: session_defs ended_by_def session_open_def Let_def split: session_state.splits if_splits)

lemma chunk_transfer:
  assumes "try_pop_bytes m = (Some c, m')" "cl_download cl = Some st" "fd_receiver_alive st"
  shows "\<exists>st'. cl_download (handle_file_chunk b m cl) = Some st' \<and> fd_receiver_alive st' \<and>
    fd_chunks st' = fd_chunks st @ [c] \<and> fd_error st' = fd_error st \<and>
    fd_received_bytes st' = fd_received_bytes st + word_of_nat (length c) \<and> fd_sent_bytes st' = fd_sent_bytes st \<and>
    (fd_client_paused st' \<longleftrightarrow> fd_client_paused st \<or>
       b < saturating_sub (fd_received_bytes st + word_of_nat (length c)) (fd_sent_bytes st))"
  using assms by (auto simp: handle_file_chunk_def Let_def)

lemma error_transfer:
  assumes "cl_download cl = Some st"
  shows "\<exists>st'. cl_download (handle_file_error m cl) = Some st' \<and> fd_receiver_alive st' = fd_receiver_alive st \<and>
      fd_chunks st' = fd_chunks st \<and> fd_received_bytes st' = fd_received_bytes st \<and>
      fd_sent_bytes st' = fd_sent_bytes st \<and> fd_client_paused st' = fd_client_paused st"
    and "try_pop_bytes m = (None, m') \<Longrightarrow> \<exists>st'. cl_download (handle_file_chunk b m cl) = Some st' \<and>
      fd_receiver_alive st' = fd_receiver_alive st \<and> fd_chunks st' = fd_chunks st \<and>
      fd_received_bytes st' = fd_received_bytes st \<and> fd_sent_bytes st' = fd_sent_bytes st \<and>
      fd_client_paused st' = fd_client_paused st"
    and "\<exists>st'. cl_download (handle_file_details m cl) = Some st' \<and>
      fd_receiver_alive st' = fd_receiver_alive st \<and> fd_chunks st' = fd_chunks st \<and>
      fd_received_bytes st' = fd_received_bytes st \<and> fd_sent_bytes st' = fd_sent_bytes st \<and>
      fd_client_paused st' = fd_client_paused st"
  using assms
  by (simp_all add: handle_file_error_def handle_file_chunk_def handle_file_details_def
      record_download_error_def case_prod_beta Let_def)

section \<open>The invariant\<close>

text \<open>\<open>received\<close> are all the bytes handed to the transfer state.  What has been sent is a prefix of
  them, within the declared size; while the size is not reached the rest is queued; a paused cluster
  has something queued; and a session that ended as complete has everything.\<close>

definition transfer_inv :: "bytes \<Rightarrow> stream_state \<Rightarrow> file_download_state \<Rightarrow> bool" where
  "transfer_inv received s st \<longleftrightarrow> fd_receiver_alive st \<and>
     fd_received_bytes st = word_of_nat (length received) \<and> fd_sent_bytes st = ss_sent s \<and>
     (ss_sent s < ss_size s \<longrightarrow> received = concat (ss_out s) @ concat (fd_chunks st)) \<and>
     (ss_sent s < ss_size s \<longrightarrow> fd_client_paused st \<longrightarrow> concat (fd_chunks st) \<noteq> [])"

definition output_inv :: "bytes \<Rightarrow> stream_state \<Rightarrow> bool" where
  "output_inv received s \<longleftrightarrow> (\<exists>rest. received = concat (ss_out s) @ rest) \<and>
     length (concat (ss_out s)) = unat (ss_sent s) \<and> ss_sent s \<le> ss_size s"

definition ending_inv :: "stream_state \<Rightarrow> bool" where
  "ending_inv s \<longleftrightarrow>
     (ended_by (ss_session s) = Some Complete \<longrightarrow> ss_sent s = ss_size s) \<and>
     (ss_sent s = ss_size s \<longrightarrow> ended_by (ss_session s) \<noteq> None) \<and>
     (\<not> ss_running s \<and> \<not> ss_gone s \<longrightarrow> ended_by (ss_session s) \<noteq> None) \<and>
     (ss_trigger s \<or> ss_size s = 0)"

definition stream_inv :: "bytes \<Rightarrow> stream_state \<Rightarrow> bool" where
  "stream_inv received s \<longleftrightarrow>
     (\<exists>st. cl_download (ss_cluster s) = Some st \<and> transfer_inv received s st) \<and>
     output_inv received s \<and> ending_inv s"

lemma stream_invE:
  assumes "stream_inv received s"
  obtains st where "cl_download (ss_cluster s) = Some st" "transfer_inv received s st"
    "stream_transfer s = st" "output_inv received s" "ending_inv s"
  using assms that by (auto simp: stream_inv_def stream_transfer_def)

lemma transfer_inv_same:
  assumes "transfer_inv received s st" "fd_receiver_alive st' = fd_receiver_alive st"
    "fd_chunks st' = fd_chunks st" "fd_received_bytes st' = fd_received_bytes st"
    "fd_sent_bytes st' = fd_sent_bytes st" "fd_client_paused st' \<Longrightarrow> fd_client_paused st"
  shows "transfer_inv received (s\<lparr>ss_cluster := c\<rparr>) st'"
  using assms unfolding transfer_inv_def by simp

lemma inv_cluster [simp]:
  "output_inv received (s\<lparr>ss_cluster := c\<rparr>) = output_inv received s"
  "ending_inv (s\<lparr>ss_cluster := c\<rparr>) = ending_inv s"
  by (simp_all add: output_inv_def ending_inv_def)

lemma inv_handler:
  assumes "stream_inv received s"
    and "\<And>st. cl_download (ss_cluster s) = Some st \<Longrightarrow> \<exists>st'. cl_download c = Some st' \<and>
      fd_receiver_alive st' = fd_receiver_alive st \<and> fd_chunks st' = fd_chunks st \<and>
      fd_received_bytes st' = fd_received_bytes st \<and> fd_sent_bytes st' = fd_sent_bytes st \<and>
      fd_client_paused st' = fd_client_paused st"
  shows "stream_inv received (s\<lparr>ss_cluster := c\<rparr>)"
proof -
  obtain st where st: "cl_download (ss_cluster s) = Some st" "transfer_inv received s st"
    and rest: "output_inv received s" "ending_inv s"
    using assms(1) by (rule stream_invE)
  obtain st' where "cl_download c = Some st'" "fd_receiver_alive st' = fd_receiver_alive st"
    "fd_chunks st' = fd_chunks st" "fd_received_bytes st' = fd_received_bytes st"
    "fd_sent_bytes st' = fd_sent_bytes st" "fd_client_paused st' = fd_client_paused st"
    using assms(2) [OF st(1)] by blast
  with st(2) rest show ?thesis
    unfolding stream_inv_def by (auto intro: transfer_inv_same)
qed

lemma unat_add_len:
  fixes w :: u64
  assumes "unat w + n < 2 ^ 64"
  shows "unat (w + word_of_nat n) = unat w + n"
  using assms by (simp add: unat_word_ariths unat_of_nat)

lemma unat_len:
  assumes "n < 2 ^ 64"
  shows "unat (word_of_nat n :: u64) = n"
  using assms by (simp add: unat_of_nat)

lemma unread_nonempty:
  assumes "b < saturating_sub (word_of_nat (length received)) sent \<or>
      0 < b \<and> b \<le> saturating_sub (word_of_nat (length received)) sent"
    and "length received < 2 ^ 64" "received = xs @ rest" "length xs = unat (sent :: u64)"
  shows "rest \<noteq> []"
proof
  assume "rest = []"
  then have "saturating_sub (word_of_nat (length received)) sent = 0"
    using assms(3, 4) by (simp add: saturating_sub_def)
  then show False using assms(1) by auto
qed

lemma inv_received:
  assumes inv: "stream_inv received s" and pop: "try_pop_bytes m = (Some c, m')"
    and bound: "length (received @ c) < 2 ^ 64"
  shows "stream_inv (received @ c) (s\<lparr>ss_cluster := handle_file_chunk b m (ss_cluster s)\<rparr>)"
proof -
  obtain st where st: "cl_download (ss_cluster s) = Some st" "transfer_inv received s st"
    and rest: "output_inv received s" "ending_inv s"
    using inv by (rule stream_invE)
  then obtain st' where st': "cl_download (handle_file_chunk b m (ss_cluster s)) = Some st'"
    "fd_receiver_alive st'" "fd_chunks st' = fd_chunks st @ [c]"
    "fd_received_bytes st' = word_of_nat (length (received @ c))" "fd_sent_bytes st' = ss_sent s"
    "fd_client_paused st' \<longrightarrow> fd_client_paused st \<or>
       b < saturating_sub (word_of_nat (length (received @ c))) (ss_sent s)"
    using chunk_transfer [OF pop st(1), of b] by (auto simp: transfer_inv_def)
  have "concat (fd_chunks st') \<noteq> []" if "ss_sent s < ss_size s" "fd_client_paused st'"
  proof (cases "fd_client_paused st")
    case True
    then show ?thesis using st(2) st'(3) that by (simp add: transfer_inv_def)
  next
    case False
    have "received @ c = concat (ss_out s) @ concat (fd_chunks st')"
      using st(2) st'(3) that by (simp add: transfer_inv_def)
    moreover have "length (concat (ss_out s)) = unat (ss_sent s)"
      using rest(1) by (simp add: output_inv_def)
    ultimately show ?thesis
      using unread_nonempty [OF _ bound] False st'(6) that by blast
  qed
  moreover have "output_inv (received @ c) s"
    using rest(1) by (auto simp: output_inv_def)
  ultimately show ?thesis
    using st(2) st' rest(2) unfolding stream_inv_def transfer_inv_def by auto
qed

text \<open>The loop takes a chunk.\<close>

lemma take_chunkE:
  assumes "stream_inv received s" "take_chunk s = Some (c, s')" "ss_sent s < ss_size s"
  obtains st rest where "stream_transfer s = st" "fd_chunks st = c # rest"
    "s' = set_transfer (st\<lparr>fd_chunks := rest\<rparr>) s" "transfer_inv received s st"
    "received = concat (ss_out s) @ c @ concat rest"
proof -
  obtain st where st: "transfer_inv received s st" "stream_transfer s = st"
    using assms(1) by (rule stream_invE)
  moreover obtain rest where "fd_chunks st = c # rest" "s' = set_transfer (st\<lparr>fd_chunks := rest\<rparr>) s"
    using assms(2) st(2) by (auto simp: take_chunk_def split: list.splits)
  ultimately show thesis
    using assms(3) that by (simp add: transfer_inv_def)
qed

lemma fire_transfer [simp]: "transfer_inv received (fire_stream_trigger r s) = transfer_inv received s"
  "transfer_inv received (stream_end s) = transfer_inv received s"
  "output_inv received (fire_stream_trigger r s) = output_inv received s"
  "output_inv received (stream_end s) = output_inv received s"
  by (simp_all add: transfer_inv_def output_inv_def fun_eq_iff)

text \<open>The session after a step of the stream that reports \<open>r\<close>, or that stops.\<close>

lemma ending_fire:
  assumes "ended_by (ss_session s) = Some Complete \<Longrightarrow> ss_sent s = ss_size s"
    and "ss_trigger s \<or> ended_by (ss_session s) \<noteq> None \<and> ss_size s = 0"
    and "r = Complete \<Longrightarrow> ss_sent s = ss_size s"
  shows "ending_inv (fire_stream_trigger r s)" "ending_inv (stream_end (fire_stream_trigger r s))"
  using assms by (auto simp: ending_inv_def fire_ended stream_end_ended open_iff_not_ended)

text \<open>The last chunk, cut to the declared size.\<close>

lemma inv_chunk_last:
  assumes inv: "stream_inv received s" and guard: "ss_sent s < ss_size s"
    and take: "take_chunk s = Some (c, s')" and bound: "length received < 2 ^ 64"
    and over: "ss_size s < ss_sent s + word_of_nat (length c)"
  shows "stream_inv received (stream_chunk b uid c s')"
proof -
  obtain st rest where st: "stream_transfer s = st" "fd_chunks st = c # rest"
    "s' = set_transfer (st\<lparr>fd_chunks := rest\<rparr>) s" "transfer_inv received s st"
    "received = concat (ss_out s) @ c @ concat rest"
    using take_chunkE [OF inv take guard] .
  have out: "length (concat (ss_out s)) = unat (ss_sent s)" "ending_inv s" "ss_sent s \<le> ss_size s"
    using inv by (auto simp: stream_inv_def output_inv_def)
  define part where "part = List.take (unat (ss_size s - ss_sent s)) c"
  have "unat (ss_sent s) + length c < 2 ^ 64" using st(5) out(1) bound by simp
  then have "unat (ss_sent s + word_of_nat (length c)) = unat (ss_sent s) + length c"
    by (rule unat_add_len)
  then have less: "unat (ss_size s) < unat (ss_sent s) + length c"
    using over by (simp add: word_less_nat_alt)
  moreover have diff: "unat (ss_size s - ss_sent s) = unat (ss_size s) - unat (ss_sent s)"
    using out(3) by (simp add: unat_sub)
  ultimately have len: "length part = unat (ss_size s) - unat (ss_sent s)" by (simp add: part_def)
  have le: "unat (ss_sent s) \<le> unat (ss_size s)" using out(3) by (simp add: word_le_nat_alt)
  have full: "ss_sent s + word_of_nat (length part) = ss_size s"
  proof (rule unsigned_word_eqI)
    have "unat (ss_sent s) + length part < 2 ^ 64"
      using len le unsigned_less [of "ss_size s"] by simp
    then show "unat (ss_sent s + word_of_nat (length part)) = unat (ss_size s)"
      using len le by (simp add: unat_add_len)
  qed
  let ?st = "st\<lparr>fd_chunks := rest, fd_sent_bytes := ss_size s\<rparr>"
  let ?s = "(fire_stream_trigger Complete (set_transfer ?st (s'\<lparr>ss_sent := ss_size s\<rparr>)))
              \<lparr>ss_out := ss_out s @ [part]\<rparr>"
  have eq: "stream_chunk b uid c s' = stream_end ?s"
    using over st(3) full by (simp add: stream_chunk_def Let_def part_def)
  have "cl_download (ss_cluster (stream_end ?s)) = Some ?st" by (simp add: set_transfer_def)
  moreover have "transfer_inv received (stream_end ?s) ?st"
    using st(3, 4) by (simp add: transfer_inv_def)
  moreover have "output_inv received (stream_end ?s)"
  proof -
    have "received = concat (ss_out s @ [part]) @ drop (unat (ss_size s - ss_sent s)) c @ concat rest"
      using st(5) by (simp add: part_def)
    then show ?thesis
      using st(3) out(1) len le unfolding output_inv_def by auto
  qed
  moreover have "ending_inv (stream_end ?s)"
    using out(2) guard st(3) by (auto simp: ending_inv_def stream_end_ended fire_ended open_iff_not_ended)
  ultimately show ?thesis
    unfolding eq stream_inv_def by blast
qed

text \<open>The transfer after a chunk that fits was handed on: if the cluster is still paused, data is waiting.\<close>

lemma transfer_chunk_fits:
  assumes st: "transfer_inv received s st" "received = concat (ss_out s) @ c @ concat rest"
    and sent: "unat sent = length (concat (ss_out s)) + length c" and bound: "length received < 2 ^ 64"
    and b: "0 < b" and s': "s' = set_transfer (st\<lparr>fd_chunks := rest, fd_sent_bytes := sent\<rparr>) (s0\<lparr>ss_sent := sent\<rparr>)"
    and after: "ss_sent t = sent" "ss_out t = ss_out s @ [c]"
  shows "transfer_inv received t (stream_transfer (stream_resume b uid s'))"
proof -
  let ?st' = "stream_transfer (stream_resume b uid s')"
  have "concat rest \<noteq> []" if "fd_client_paused ?st'"
  proof (rule unread_nonempty [where b = b and sent = sent])
    show "length received < 2 ^ 64" by (rule bound)
    show "received = (concat (ss_out s) @ c) @ concat rest" using st(2) by simp
    show "length (concat (ss_out s) @ c) = unat sent" using sent by simp
    show "b < saturating_sub (word_of_nat (length received)) sent \<or>
        0 < b \<and> b \<le> saturating_sub (word_of_nat (length received)) sent"
      using that b st(1)
      by (auto simp: s' stream_resume_transfer Let_def transfer_inv_def not_less split: if_splits)
  qed
  moreover have "fd_chunks ?st' = rest" "fd_receiver_alive ?st'" "fd_sent_bytes ?st' = sent"
    "fd_received_bytes ?st' = word_of_nat (length received)"
    using st(1) by (auto simp: s' stream_resume_transfer Let_def transfer_inv_def)
  ultimately show ?thesis
    using st(2) unfolding transfer_inv_def after by simp
qed

text \<open>A chunk that fits, with the resume that may follow it.\<close>

lemma inv_chunk_fits:
  assumes inv: "stream_inv received s" and guard: "ss_sent s < ss_size s"
    and take: "take_chunk s = Some (c, s')" and bound: "length received < 2 ^ 64"
    and fits: "\<not> ss_size s < ss_sent s + word_of_nat (length c)" and run: "ss_running s"
    and buffer: "0 < b"
  shows "stream_inv received (stream_chunk b uid c s')"
proof -
  obtain st rest where st: "stream_transfer s = st" "fd_chunks st = c # rest"
    "s' = set_transfer (st\<lparr>fd_chunks := rest\<rparr>) s" "transfer_inv received s st"
    "received = concat (ss_out s) @ c @ concat rest"
    using take_chunkE [OF inv take guard] .
  have out: "length (concat (ss_out s)) = unat (ss_sent s)" "ending_inv s"
    using inv by (auto simp: stream_inv_def output_inv_def)
  define sent where "sent = ss_sent s + word_of_nat (length c)"
  have len: "unat sent = unat (ss_sent s) + length c"
    using st(5) out(1) bound unfolding sent_def by (intro unat_add_len) simp
  have le: "sent \<le> ss_size s" using fits by (simp add: sent_def not_less)
  let ?st = "st\<lparr>fd_chunks := rest, fd_sent_bytes := sent\<rparr>"
  let ?s1 = "stream_resume b uid (set_transfer ?st (s'\<lparr>ss_sent := sent\<rparr>))"
  let ?s2 = "if sent = ss_size s then fire_stream_trigger Complete ?s1 else ?s1"
  let ?s = "?s2\<lparr>ss_out := ss_out s @ [c]\<rparr>"
  have eq: "stream_chunk b uid c s' = ?s"
    using fits st(3) by (simp add: stream_chunk_def Let_def sent_def)
  have frame: "ss_sent ?s = sent" "ss_size ?s = ss_size s" "ss_cluster ?s = ss_cluster ?s1"
    "ss_running ?s = ss_running s" "ss_trigger ?s = ss_trigger s" "ss_out ?s = ss_out s @ [c]"
    using st(3) by simp_all
  let ?st' = "stream_transfer ?s1"
  have "cl_download (ss_cluster ?s) = Some ?st'"
    unfolding frame(3) by (simp add: stream_resume_def Let_def set_transfer_def stream_transfer_def)
  moreover have "transfer_inv received ?s ?st'"
    using len out(1) by (intro transfer_chunk_fits [OF st(4, 5) _ bound buffer refl frame(1, 6)]) simp
  moreover have "output_inv received ?s"
    using st(5) out(1) len le unfolding output_inv_def frame by simp
  moreover have "ending_inv ?s"
    using out(2) guard run st(3)
    by (auto simp: ending_inv_def fire_ended open_iff_not_ended)
  ultimately show ?thesis
    unfolding eq stream_inv_def by blast
qed

text \<open>Steps that leave the transfer and the output alone.\<close>

lemma inv_session:
  assumes inv: "stream_inv received s" and same: "ss_cluster s' = ss_cluster s" "ss_sent s' = ss_sent s"
      "ss_size s' = ss_size s" "ss_out s' = ss_out s"
    and ending: "ending_inv s'"
  shows "stream_inv received s'"
proof -
  have "transfer_inv received s' st = transfer_inv received s st" for st
    using same by (simp add: transfer_inv_def)
  moreover have "output_inv received s' = output_inv received s"
    using same by (simp add: output_inv_def)
  ultimately show ?thesis using inv ending same(1) by (simp add: stream_inv_def)
qed

lemma inv_closed:
  assumes inv: "stream_inv received s" and guard: "ss_sent s < ss_size s"
  shows "stream_inv received (stream_closed s)"
  using inv
proof (rule inv_session)
  have "ending_inv s" using inv by (simp add: stream_inv_def)
  then show "ending_inv (stream_closed s)"
    using guard
    by (auto simp: stream_closed_def ending_inv_def stream_end_ended fire_ended open_iff_not_ended)
qed (simp_all add: stream_closed_def)

lemma inv_timeout:
  assumes inv: "stream_inv received s" and guard: "ss_sent s < ss_size s"
  shows "stream_inv received (stream_timeout s)"
  using inv
proof (rule inv_session)
  have "ending_inv s" using inv by (simp add: stream_inv_def)
  then show "ending_inv (stream_timeout s)"
    using guard
    by (auto simp: stream_timeout_def ending_inv_def stream_end_ended fire_ended open_iff_not_ended)
qed (simp_all add: stream_timeout_def)

lemma inv_exit:
  assumes inv: "stream_inv received s"
  shows "stream_inv received (stream_end s)"
  using inv
proof (rule inv_session)
  have "ending_inv s" "ss_sent s \<le> ss_size s" using inv by (auto simp: stream_inv_def output_inv_def)
  then show "ending_inv (stream_end s)"
    by (auto simp: ending_inv_def stream_end_ended open_iff_not_ended)
qed simp_all

lemma inv_session_event:
  assumes inv: "stream_inv received s" and op: "op \<noteq> TriggerOp Complete"
    and event: "session_step op (ss_session s) = (x, rs)"
  shows "stream_inv received (s\<lparr>ss_session := x, ss_requests := ss_requests s @ rs\<rparr>)"
  using inv
proof (rule inv_session)
  have "ending_inv s" using inv by (simp add: stream_inv_def)
  then show "ending_inv (s\<lparr>ss_session := x, ss_requests := ss_requests s @ rs\<rparr>)"
    using session_step_ended [OF event] op by (auto simp: ending_inv_def open_iff_not_ended)
qed simp_all

lemma stream_step_inv:
  assumes "stream_step min_buffer max_buffer uid s e s'" "stream_inv received s"
    and "0 < min_buffer" "length (received @ event_bytes e) < 2 ^ 64"
  shows "stream_inv (received @ event_bytes e) s'"
  using assms(1)
proof cases
  case (chunk c t)
  have "ss_sent s < ss_size s" using chunk by (simp add: stream_guard_def)
  then show ?thesis
    using assms chunk inv_chunk_last inv_chunk_fits
    by (cases "ss_size s < ss_sent s + word_of_nat (length c)") auto
next
  case closed
  then show ?thesis using assms(2) inv_closed by (simp add: stream_guard_def)
next
  case timeout
  then show ?thesis using assms(2) inv_timeout by (simp add: stream_guard_def)
next
  case loop_exit
  then show ?thesis using assms(2) inv_exit by simp
next
  case (received m c m')
  have "stream_inv (received @ c) s'"
    unfolding received(2)
  proof (rule inv_received [OF assms(2) received(3)])
    show "length (received @ c) < 2 ^ 64" using assms(4) received(1) by simp
  qed
  then show ?thesis using received(1) by simp
next
  case (truncated m m')
  then show ?thesis
    using assms(2) error_transfer(2) by (auto intro: inv_handler)
next
  case (file_error m)
  then show ?thesis using assms(2) error_transfer(1) by (auto intro: inv_handler)
next
  case (file_details m)
  then show ?thesis using assms(2) error_transfer(3) by (auto intro: inv_handler)
next
  case client_gone
  have "stream_inv received (s\<lparr>ss_running := False, ss_gone := True\<rparr>)"
    using assms(2) by (rule inv_session) (use assms(2) in \<open>auto simp: stream_inv_def ending_inv_def\<close>)
  then show ?thesis using client_gone by simp
next
  case (session_event op x rs)
  then show ?thesis using assms(2) inv_session_event by simp
qed

lemma stream_reaches_inv:
  assumes "stream_reaches min_buffer max_buffer uid s0 es s" "stream_inv received s0"
    and "0 < min_buffer" "length (received @ events_bytes es) < 2 ^ 64"
  shows "stream_inv (received @ events_bytes es) s"
  using assms
proof induction
  case (step es s e s')
  have "stream_inv (received @ events_bytes es) s" using step by simp
  then have "stream_inv ((received @ events_bytes es) @ event_bytes e) s'"
    using step.prems by (intro stream_step_inv [OF step.hyps(2)]) simp_all
  then show ?case by simp
qed simp

section \<open>The start of the response\<close>

text \<open>What \<open>request_file_download\<close> hands over: a transfer from which nothing was sent and whose queue
  holds all that was received.\<close>

definition transfer_ready :: "bytes \<Rightarrow> cluster \<Rightarrow> bool" where
  "transfer_ready received c \<longleftrightarrow>
     (\<exists>st. cl_download c = Some st \<and> fd_receiver_alive st \<and> fd_sent_bytes st = 0 \<and>
        fd_received_bytes st = word_of_nat (length received) \<and> received = concat (fd_chunks st) \<and>
        (fd_client_paused st \<longrightarrow> received \<noteq> []))"

lemma transfer_ready_new:
  "cl_download c = Some file_download_state_new \<Longrightarrow> transfer_ready [] c"
  by (simp add: transfer_ready_def file_download_state_new_def)

lemma transfer_ready_chunk:
  assumes "transfer_ready received c" "try_pop_bytes m = (Some chunk, m')"
    and "length (received @ chunk) < 2 ^ 64"
  shows "transfer_ready (received @ chunk) (handle_file_chunk b m c)"
proof -
  obtain st where st: "cl_download c = Some st" "fd_receiver_alive st" "fd_sent_bytes st = 0"
    "fd_received_bytes st = word_of_nat (length received)" "received = concat (fd_chunks st)"
    "fd_client_paused st \<longrightarrow> received \<noteq> []"
    using assms(1) by (auto simp: transfer_ready_def)
  obtain st' where st': "cl_download (handle_file_chunk b m c) = Some st'" "fd_receiver_alive st'"
    "fd_chunks st' = fd_chunks st @ [chunk]" "fd_sent_bytes st' = 0"
    "fd_received_bytes st' = word_of_nat (length (received @ chunk))"
    "fd_client_paused st' \<longrightarrow> fd_client_paused st \<or>
       b < saturating_sub (word_of_nat (length (received @ chunk))) 0"
    using chunk_transfer [OF assms(2) st(1, 2), of b] st by auto
  have "received @ chunk \<noteq> []" if "fd_client_paused st'"
    using that st(6) st'(6) unread_nonempty [of b "received @ chunk" 0 "[]"] assms(3) by fastforce
  then show ?thesis
    using st' st(5) unfolding transfer_ready_def by auto
qed

lemma stream_start_frame [simp]:
  "ss_cluster (stream_start c x) = c" "ss_sent (stream_start c x) = 0" "ss_out (stream_start c x) = []"
  "ss_running (stream_start c x)" "\<not> ss_gone (stream_start c x)"
  by (simp_all add: stream_start_def Let_def)

lemma stream_start_size:
  "cl_download c = Some st \<Longrightarrow> ss_size (stream_start c x) = fd_file_size st"
  by (simp add: stream_start_def Let_def stream_transfer_def)

lemma stream_start_inv:
  assumes "transfer_ready received c" "ended_by x \<noteq> Some Complete"
  shows "stream_inv received (stream_start c x)"
proof -
  obtain st where st: "cl_download c = Some st" "fd_receiver_alive st" "fd_sent_bytes st = 0"
    "fd_received_bytes st = word_of_nat (length received)" "received = concat (fd_chunks st)"
    "fd_client_paused st \<longrightarrow> received \<noteq> []"
    using assms(1) by (auto simp: transfer_ready_def)
  let ?s = "stream_start c x"
  have "transfer_inv received ?s st"
    using st by (simp add: transfer_inv_def)
  moreover have "output_inv received ?s"
    by (simp add: output_inv_def)
  moreover have "ending_inv ?s"
  proof -
    have eq: "stream_transfer \<lparr>ss_cluster = c, ss_session = x, ss_requests = [], ss_trigger = True,
        ss_sent = 0, ss_size = 0, ss_out = [], ss_failed = False, ss_running = True,
        ss_gone = False\<rparr> = st"
      using st(1) by (simp add: stream_transfer_def)
    show ?thesis
      using assms(2)
      by (auto simp: ending_inv_def stream_start_def Let_def fire_ended open_iff_not_ended eq)
  qed
  ultimately show ?thesis
    using st(1) by (simp add: stream_inv_def)
qed

lemma stream_step_size:
  assumes "stream_step min_buffer max_buffer uid s e s'"
  shows "ss_size s' = ss_size s"
  using assms
  by cases (auto simp: take_chunk_def stream_chunk_def stream_closed_def stream_timeout_def Let_def
      split: list.splits)

lemma stream_reaches_size:
  "stream_reaches min_buffer max_buffer uid s0 es s \<Longrightarrow> ss_size s = ss_size s0"
  by (induction rule: stream_reaches.induct) (simp_all add: stream_step_size)

section \<open>What the response delivers\<close>

definition demo_stream_cluster :: cluster where
  "demo_stream_cluster = cluster_new_file_download demo_config ''u''
     (file_download_state_new\<lparr>fd_chunks := [[1, 2, 3, 4]], fd_received_bytes := 4,
        fd_file_size := 3\<rparr>) True"

definition demo_stream :: stream_state where
  "demo_stream = stream_start demo_stream_cluster (session_new ''u'' 1)"

lemma demo_ready: "transfer_ready [1, 2, 3, 4] demo_stream_cluster"
  by (simp add: transfer_ready_def demo_stream_cluster_def cluster_new_file_download_def
      cluster_new_with_role_def file_download_state_new_def)

lemma output_prefix:
  assumes "output_inv received s"
  shows "concat (ss_out s) = take (unat (ss_sent s)) received"
proof -
  obtain rest where "received = concat (ss_out s) @ rest" using assms by (auto simp: output_inv_def)
  then have "take (length (concat (ss_out s))) received = concat (ss_out s)"
    by (metis append_eq_conv_conj)
  then show ?thesis using assms by (simp add: output_inv_def)
qed

text \<open>C10: the download response delivers exactly the declared file or says so.  Whatever the order in
  which the stream, the cluster's messages, the other owners of the session and the client act, the
  bytes yielded so far are a prefix of the bytes received, in order, and never exceed the declared size
  (the last chunk is cut); the session ends as complete only after all of the declared bytes were
  yielded; and once the loop has ended, unless the client went away, the session has ended, so that it
  is cleaned up.\<close>

theorem stream_delivers_prefix:
  assumes "transfer_ready received c" "ended_by x \<noteq> Some Complete" "0 < min_buffer"
    and "stream_reaches min_buffer max_buffer uid (stream_start c x) es s"
    and "length (received @ events_bytes es) < 2 ^ 64"
  shows "concat (ss_out s) = take (unat (ss_sent s)) (received @ events_bytes es) \<and>
    length (concat (ss_out s)) = unat (ss_sent s) \<and> ss_sent s \<le> ss_size s \<and>
    ss_size s = (case cl_download c of Some st \<Rightarrow> fd_file_size st | None \<Rightarrow> 0) \<and>
    (ended_by (ss_session s) = Some Complete \<longrightarrow> ss_sent s = ss_size s) \<and>
    (\<not> ss_running s \<longrightarrow> ss_gone s \<or> ended_by (ss_session s) \<noteq> None)"
proof -
  have "stream_inv (received @ events_bytes es) s"
    using stream_reaches_inv [OF assms(4) stream_start_inv [OF assms(1, 2)] assms(3, 5)] .
  then have out: "output_inv (received @ events_bytes es) s" and ending: "ending_inv s"
    by (auto simp: stream_inv_def)
  obtain st where st: "cl_download c = Some st" using assms(1) by (auto simp: transfer_ready_def)
  have "ss_size s = (case cl_download c of Some st \<Rightarrow> fd_file_size st | None \<Rightarrow> 0)"
    using stream_reaches_size [OF assms(4)] st by (simp add: stream_start_size)
  moreover have "length (concat (ss_out s)) = unat (ss_sent s)" "ss_sent s \<le> ss_size s"
    using out unfolding output_inv_def by blast+
  ultimately show ?thesis
    using output_prefix [OF out] ending unfolding ending_inv_def by blast
qed

lemma demo_stream_runs:
  "\<exists>s. stream_reaches 1 9 ''u'' demo_stream [Internal] s \<and> ss_out s = [[1, 2, 3]] \<and>
     ended_by (ss_session s) = Some Complete"
proof -
  have start: "ss_sent demo_stream = 0" "ss_size demo_stream = 3" "ss_running demo_stream"
    "ss_trigger demo_stream" "ss_session demo_stream = session_new ''u'' 1" "ss_out demo_stream = []"
    "stream_transfer demo_stream = file_download_state_new\<lparr>fd_chunks := [[1, 2, 3, 4]],
       fd_received_bytes := 4, fd_file_size := 3\<rparr>"
    by (simp_all add: demo_stream_def stream_start_def stream_transfer_def demo_stream_cluster_def
        cluster_new_file_download_def cluster_new_with_role_def)
  obtain s1 where take: "take_chunk demo_stream = Some ([1, 2, 3, 4], s1)"
    and frame: "ss_sent s1 = 0" "ss_size s1 = 3" "ss_trigger s1" "ss_out s1 = []"
      "ss_session s1 = session_new ''u'' 1"
    using start by (simp add: take_chunk_def)
  have "stream_step 1 9 ''u'' demo_stream Internal (stream_chunk 1 ''u'' [1, 2, 3, 4] s1)"
    by (rule stream_step.chunk) (use start take in \<open>simp_all add: stream_guard_def file_download_state_new_def\<close>)
  then have "stream_reaches 1 9 ''u'' demo_stream ([] @ [Internal]) (stream_chunk 1 ''u'' [1, 2, 3, 4] s1)"
    by (rule stream_reaches.step [OF stream_reaches.start])
  moreover have "ss_out (stream_chunk 1 ''u'' [1, 2, 3, 4] s1) = [[1, 2, 3]]"
    using frame by (simp add: stream_chunk_def Let_def)
  moreover have "ended_by (ss_session (stream_chunk 1 ''u'' [1, 2, 3, 4] s1)) = Some Complete"
    using frame by (simp add: stream_chunk_def Let_def stream_end_ended fire_ended session_open_def session_new_def)
  ultimately show ?thesis by auto
qed

theorem stream_delivers_prefix_witness:
  "\<exists>s. stream_reaches 1 9 ''u'' demo_stream [Internal] s \<and> ss_out s = [[1, 2, 3]] \<and>
     concat (ss_out s) = take (unat (ss_sent s)) [1, 2, 3, 4] \<and> ss_sent s = ss_size s"
proof -
  obtain s where s: "stream_reaches 1 9 ''u'' demo_stream [Internal] s" "ss_out s = [[1, 2, 3]]"
    "ended_by (ss_session s) = Some Complete"
    using demo_stream_runs by blast
  have open_session: "ended_by (session_new ''u'' 1) \<noteq> Some Complete" by (simp add: session_new_def ended_by_def)
  with s have "concat (ss_out s) = take (unat (ss_sent s)) [1, 2, 3, 4] \<and> ss_sent s = ss_size s"
    using stream_delivers_prefix [OF demo_ready open_session _ s(1) [unfolded demo_stream_def]]
    by (simp add: events_bytes_def)
  with s show ?thesis by blast
qed

text \<open>C22: back-pressure never deadlocks the transfer.  Whenever the loop waits for a chunk, with less than
  the declared size sent and an empty queue, the cluster is not paused: every pause sent by the chunk
  handler has been answered by a resume of the stream.  The minimum buffer must not be zero.\<close>

theorem stream_never_waits_paused:
  assumes "transfer_ready received c" "ended_by x \<noteq> Some Complete" "0 < min_buffer"
    and "stream_reaches min_buffer max_buffer uid (stream_start c x) es s"
    and "length (received @ events_bytes es) < 2 ^ 64"
    and "stream_guard s" "take_chunk s = None"
  shows "\<not> fd_client_paused (stream_transfer s)"
proof -
  have "stream_inv (received @ events_bytes es) s"
    using stream_reaches_inv [OF assms(4) stream_start_inv [OF assms(1, 2)] assms(3, 5)] .
  then obtain st where "transfer_inv (received @ events_bytes es) s st" "stream_transfer s = st"
    by (rule stream_invE)
  then show ?thesis
    using assms(6, 7)
    by (auto simp: transfer_inv_def stream_guard_def take_chunk_def split: list.splits)
qed

definition demo_empty_cluster :: cluster where
  "demo_empty_cluster = cluster_new_file_download demo_config ''u''
     (file_download_state_new\<lparr>fd_file_size := 3\<rparr>) True"

theorem stream_never_waits_paused_witness:
  "\<not> fd_client_paused (stream_transfer (stream_start demo_empty_cluster (session_new ''u'' 1)))"
proof -
  let ?s = "stream_start demo_empty_cluster (session_new ''u'' 1)"
  have ready: "transfer_ready [] demo_empty_cluster"
    by (simp add: transfer_ready_def demo_empty_cluster_def cluster_new_file_download_def
        cluster_new_with_role_def file_download_state_new_def)
  have open_session: "ended_by (session_new ''u'' 1) \<noteq> Some Complete"
    by (simp add: session_new_def ended_by_def)
  have transfer: "stream_transfer ?s = file_download_state_new\<lparr>fd_file_size := 3\<rparr>"
    by (simp add: stream_transfer_def demo_empty_cluster_def cluster_new_file_download_def
        cluster_new_with_role_def)
  have size: "ss_size ?s = 3"
    by (simp add: stream_start_size demo_empty_cluster_def cluster_new_file_download_def
        cluster_new_with_role_def)
  show ?thesis
    by (rule stream_never_waits_paused [OF ready open_session _ stream_reaches.start, where min_buffer = 1])
      (use transfer size in \<open>simp_all add: stream_guard_def take_chunk_def file_download_state_new_def\<close>)
qed

section \<open>A client that goes away\<close>

definition untouched :: "session \<Rightarrow> stream_state \<Rightarrow> bool" where
  "untouched x s \<longleftrightarrow> (ss_gone s \<longrightarrow> \<not> ss_running s) \<and>
     (ss_sent s < ss_size s \<longrightarrow> ss_running s \<or> ss_gone s \<longrightarrow>
        ss_session s = x \<and> ss_requests s = [])"

lemma untouched_chunk:
  assumes "untouched x s" "ss_running s" "stream_guard s" "take_chunk s = Some (c, s')"
  shows "untouched x (stream_chunk b uid c s')"
proof -
  have frame: "ss_session s' = ss_session s" "ss_requests s' = ss_requests s" "ss_gone s' = ss_gone s"
    using assms(4) by (auto simp: take_chunk_def split: list.splits)
  have "ss_session s = x" "ss_requests s = []" "\<not> ss_gone s"
    using assms by (auto simp: untouched_def stream_guard_def)
  moreover have "ss_requests (stream_resume b uid t) = ss_requests t" for t
    by (simp add: stream_resume_def Let_def)
  ultimately show ?thesis
    using frame unfolding untouched_def by (auto simp: stream_chunk_def Let_def)
qed

lemma untouched_step:
  assumes "stream_step min_buffer max_buffer uid s e s'" "untouched x s" "\<not> is_session_event e"
  shows "untouched x s'"
  using assms(1)
proof cases
  case (chunk c t)
  then show ?thesis using assms(2) untouched_chunk by blast
qed (use assms(2, 3) in \<open>auto simp: untouched_def stream_closed_def stream_timeout_def stream_guard_def\<close>)

text \<open>A client that goes away leaks its download session.  A stream dropped before the declared size
  was yielded fires no trigger: as long as no other owner acts, the session is exactly what it was when
  the response was built, no clean-up was requested, and so its map entry and its socket stay, while the
  comments of the code promise a guard of the response body that ends them.\<close>

theorem dropped_stream_leaks_session:
  assumes "stream_reaches min_buffer max_buffer uid (stream_start c x) es s"
    and "list_all (\<lambda>e. \<not> is_session_event e) es" "ss_gone s" "ss_sent s < ss_size s"
  shows "ss_session s = x \<and> ss_requests s = []"
proof -
  have "untouched x s" using assms(1, 2)
  proof induction
    case start
    have "ss_size (stream_start c x) \<noteq> 0 \<Longrightarrow>
        ss_session (stream_start c x) = x \<and> ss_requests (stream_start c x) = []"
      by (simp add: stream_start_def Let_def split: if_splits)
    then show ?case by (auto simp: untouched_def)
  next
    case (step es s e s')
    then show ?case using untouched_step by simp
  qed
  then show ?thesis using assms(3, 4) by (simp add: untouched_def)
qed

theorem dropped_stream_leaks_session_witness:
  "\<exists>s. stream_reaches 1 9 ''u'' demo_stream [ClientGone] s \<and> ss_session s = session_new ''u'' 1 \<and>
     ss_requests s = [] \<and> session_open (ss_session s)"
proof -
  let ?s = "demo_stream\<lparr>ss_running := False, ss_gone := True\<rparr>"
  have "stream_step 1 9 ''u'' demo_stream ClientGone ?s"
    by (rule stream_step.client_gone) (simp add: demo_stream_def)
  then have "stream_reaches 1 9 ''u'' demo_stream ([] @ [ClientGone]) ?s"
    by (rule stream_reaches.step [OF stream_reaches.start])
  moreover have "ss_sent ?s < ss_size ?s" "ss_gone ?s"
    by (simp_all add: demo_stream_def stream_start_def stream_transfer_def Let_def demo_stream_cluster_def
        cluster_new_file_download_def cluster_new_with_role_def)
  ultimately show ?thesis
    using dropped_stream_leaks_session [of 1 9 "''u''" demo_stream_cluster "session_new ''u'' 1" "[ClientGone]" ?s]
    unfolding demo_stream_def by (auto simp: session_open_def session_new_def)
qed

end
