(* ===== verification/Http_File.thy ===== *)
theory Http_File
  imports File_Stream Http_Job Http_Utils
begin

text \<open>
  The HTTP file operations (\<open>src/http/file.rs\<close>) apart from uploads: creating download records,
  starting a download up to its response (whose body is \<open>File_Stream\<close>), and listing files with the
  cache of completed jobs.  A handler that waits for a cluster takes what the rest of the program does
  meanwhile as an argument \<open>others\<close>, and whether its timer expired as another; both are arbitrary.
\<close>

section \<open>State and requests\<close>

text \<open>The parts of \<open>AppState\<close> the handlers use: the manager with the database, the waiting file-list
  requests, which the clusters share, and the background tasks spawned.\<close>

record 'db http_state =
  hs_manager :: "'db manager"
  hs_file_lists :: "string \<Rightarrow> file_list_state option"
  hs_cache_tasks :: "(string \<times> i64) list"
  hs_background :: "(nat \<times> string \<times> u64) list"

record create_file_download_request =
  fr_job_id :: "u64 option"
  fr_path :: "string option"
  fr_paths :: "string list option"
  fr_cluster :: "string option"
  fr_bundle :: "string option"

record file_download_query =
  fq_file_id :: "string option"
  fq_force_download :: "string option"

record file_list_request =
  fl_job_id :: "u64 option"
  fl_recursive :: bool
  fl_path :: string
  fl_cluster :: "string option"
  fl_bundle :: "string option"

definition REMOTE_CLUSTER_OFFLINE_MSG :: string where
  "REMOTE_CLUSTER_OFFLINE_MSG = ''Remote Cluster Offline''"

definition BAD_REQUEST_MSG :: string where
  "BAD_REQUEST_MSG = ''Bad Request''"

definition ERR_CLUSTER_TIMEOUT :: string where
  "ERR_CLUSTER_TIMEOUT = ''Remote cluster took too long to respond.''"

definition unwrap_or :: "'a \<Rightarrow> 'a option \<Rightarrow> 'a" where
  "unwrap_or d x = (case x of None \<Rightarrow> d | Some v \<Rightarrow> v)"

lemma unwrap_or_simps [simp]: "unwrap_or d None = d" "unwrap_or d (Some v) = v"
  by (simp_all add: unwrap_or_def)

section \<open>Clusters and bundles\<close>

definition resolve_cluster_bundle_for_file_list ::
    "'db database \<Rightarrow> 'p auth_result \<Rightarrow> u64 \<Rightarrow> 'db manager \<Rightarrow> http_error + (string \<times> string)" where
  "resolve_cluster_bundle_for_file_list D auth jid mg =
     (case job_id_to_u32 jid of
        Inl e \<Rightarrow> Inl e
      | Inr _ \<Rightarrow>
          (case tb_one (db_jobs D) (mg_db mg)
                  (\<lambda>j. job_id j = jid \<and> job_application j \<in> set (get_applications (au_secret auth))) of
             Inl e \<Rightarrow> Inl (db_error e)
           | Inr None \<Rightarrow>
               Inl (BAD_REQUEST, ''Unable to find job with ID '' @ show_int (uint jid) @
                 '' for application '' @ as_name (au_secret auth))
           | Inr (Some j) \<Rightarrow>
               if job_cluster j \<notin> set (as_clusters (au_secret auth)) then
                 Inl (BAD_REQUEST, app_no_cluster_access_msg (as_name (au_secret auth)) (job_cluster j))
               else Inr (job_cluster j, job_bundle j)))"

definition non_empty :: "string option \<Rightarrow> string option" where
  "non_empty x = (case x of None \<Rightarrow> None | Some s \<Rightarrow> if s = '''' then None else Some s)"

definition resolve_cluster_bundle ::
    "'db database \<Rightarrow> 'p auth_result \<Rightarrow> u64 \<Rightarrow> string option \<Rightarrow> string option \<Rightarrow> 'db manager \<Rightarrow>
     http_error + (string \<times> string)" where
  "resolve_cluster_bundle D auth jid cluster_param bundle_param mg =
     (if jid \<noteq> 0 then resolve_cluster_bundle_for_file_list D auth jid mg
      else
        (case non_empty cluster_param of
           None \<Rightarrow> Inl (BAD_REQUEST, BAD_REQUEST_MSG)
         | Some cluster \<Rightarrow>
             (case non_empty bundle_param of
                None \<Rightarrow> Inl (BAD_REQUEST, BAD_REQUEST_MSG)
              | Some bundle \<Rightarrow>
                  if cluster \<notin> set (as_clusters (au_secret auth)) then Inl (BAD_REQUEST, BAD_REQUEST_MSG)
                  else if map_of (mg_clusters mg) cluster = None then Inl (BAD_REQUEST, BAD_REQUEST_MSG)
                  else Inr (cluster, bundle))))"

definition get_online_cluster :: "'db manager \<Rightarrow> string \<Rightarrow> http_error + nat" where
  "get_online_cluster mg name =
     (case map_of (mg_clusters mg) name of
        None \<Rightarrow> Inl (BAD_REQUEST, INVALID_CLUSTER_MSG)
      | Some r \<Rightarrow>
          if \<not> is_online (mg_cluster_heap mg r) then Inl (SERVICE_UNAVAILABLE, REMOTE_CLUSTER_OFFLINE_MSG)
          else Inr r)"

section \<open>Download records\<close>

text \<open>The expiry window; a number of seconds that \<open>chrono\<close> cannot represent counts as zero.\<close>

definition expiry_cutoff :: "int \<Rightarrow> u64 \<Rightarrow> int" where
  "expiry_cutoff now expiry_time =
     (let secs = sint expiry_time; limit = (2 ^ 63 - 1) div 1000;
          secs = (if secs < - limit \<or> limit < secs then 0 else secs)
      in now - secs * 1000000000)"

definition purge_expired_file_downloads :: "'db database \<Rightarrow> int \<Rightarrow> u64 \<Rightarrow> 'db \<Rightarrow> 'db" where
  "purge_expired_file_downloads D now expiry_time db =
     snd (tb_delete (db_file_downloads D) db (\<lambda>r. fdr_timestamp r \<le> expiry_cutoff now expiry_time))"

text \<open>\<open>stamp i\<close> are the UUID and the time drawn in the \<open>i\<close>-th iteration.\<close>

fun insert_downloads ::
    "'db database \<Rightarrow> (nat \<Rightarrow> string \<times> int) \<Rightarrow> i64 \<Rightarrow> i64 \<Rightarrow> string \<Rightarrow> string \<Rightarrow> nat \<Rightarrow> string list \<Rightarrow> 'db \<Rightarrow>
     string list db_result \<times> 'db" where
  "insert_downloads D stamp user jid cluster bundle i [] db = (Inr [], db)"
| "insert_downloads D stamp user jid cluster bundle i (path # paths) db =
     (let (uid, now) = stamp i in
      case tb_insert (db_file_downloads D) db
             \<lparr>fdr_id = 0, fdr_user = user, fdr_job = jid, fdr_cluster = cluster, fdr_bundle = bundle,
              fdr_uuid = uid, fdr_path = path, fdr_timestamp = now\<rparr> of
        (Inl e, db) \<Rightarrow> (Inl e, db)
      | (Inr _, db) \<Rightarrow>
          (case insert_downloads D stamp user jid cluster bundle (Suc i) paths db of
             (Inl e, db) \<Rightarrow> (Inl e, db)
           | (Inr uids, db) \<Rightarrow> (Inr (uid # uids), db)))"

datatype created_ids = FileIds "string list" | FileId string

definition requested_paths :: "create_file_download_request \<Rightarrow> http_error + string list" where
  "requested_paths body =
     (case fr_paths body of
        Some paths \<Rightarrow> Inr paths
      | None \<Rightarrow>
          (case fr_path body of
             Some path \<Rightarrow> Inr [path]
           | None \<Rightarrow> Inl (BAD_REQUEST, ''No path provided'')))"

definition post_file_download ::
    "'db database \<Rightarrow> int \<Rightarrow> u64 \<Rightarrow> (nat \<Rightarrow> string \<times> int) \<Rightarrow> ('p \<Rightarrow> i64 option) \<Rightarrow> 'p auth_result \<Rightarrow>
     create_file_download_request \<Rightarrow> 'db manager \<Rightarrow> (http_error + created_ids) \<times> 'db manager" where
  "post_file_download D now expiry_time stamp user_claim auth body mg =
     (if mg_shutdown mg then (Inl (SERVICE_UNAVAILABLE, REMOTE_CLUSTER_OFFLINE_MSG), mg)
      else
        (case job_id_to_u32 (unwrap_or 0 (fr_job_id body)) of
           Inl e \<Rightarrow> (Inl e, mg)
         | Inr jid \<Rightarrow>
             (let has_paths = (fr_paths body \<noteq> None) in
              case requested_paths body of
                Inl e \<Rightarrow> (Inl e, mg)
              | Inr paths \<Rightarrow>
                  (let file_paths = filter (\<lambda>p. trim p \<noteq> '''') paths in
                   if file_paths = [] then (Inr (if has_paths then FileIds [] else FileId ''''), mg)
                   else
                     (case resolve_cluster_bundle D auth (unwrap_or 0 (fr_job_id body)) (fr_cluster body)
                             (fr_bundle body) mg of
                        Inl e \<Rightarrow> (Inl e, mg)
                      | Inr (cluster, bundle) \<Rightarrow>
                          (let mg = mg\<lparr>mg_db := purge_expired_file_downloads D now expiry_time (mg_db mg)\<rparr> in
                           case transaction D
                                  (insert_downloads D stamp (auth_user_id user_claim auth) (ucast jid) cluster
                                     bundle 0 file_paths) (mg_db mg) of
                             (Inl e, db) \<Rightarrow> (Inl (db_error e), mg\<lparr>mg_db := db\<rparr>)
                           | (Inr uids, db) \<Rightarrow>
                               (Inr (if has_paths then FileIds uids else FileId (hd uids)),
                                mg\<lparr>mg_db := db\<rparr>)))))))"

section \<open>Starting a download\<close>

text \<open>The guard of the interval before the response holds the session whose clean-up it triggers, until
  it fires.\<close>

type_synonym pre_response_guard = "nat option"

definition fire_guard :: "pre_response_guard \<Rightarrow> shutdown_reason \<Rightarrow> 'db manager \<Rightarrow> 'db manager" where
  "fire_guard guard reason mg =
     (case guard of None \<Rightarrow> mg | Some s \<Rightarrow> snd (trigger_session reason s mg))"

definition force_flag :: "string option \<Rightarrow> bool" where
  "force_flag v = (case v of None \<Rightarrow> False | Some s \<Rightarrow> eq_ignore_ascii_case s ''true'' \<or> s = ''1'')"

definition download_message :: "string \<Rightarrow> u32 \<Rightarrow> string \<Rightarrow> string \<Rightarrow> message" where
  "download_message uid jid bundle path =
     push_string path (push_string bundle (push_string uid (push_uint jid
       (message_new DOWNLOAD_FILE Highest uid))))"

text \<open>What the handler knows while it waits for the cluster: \<open>dw_owner\<close> is the cluster whose download
  state it holds.\<close>

record download_wait =
  dw_uuid :: string
  dw_path :: string
  dw_force :: bool
  dw_cluster :: nat
  dw_owner :: nat
  dw_guard :: pre_response_guard

definition download_owner :: "string \<Rightarrow> 'db manager \<Rightarrow> nat option" where
  "download_owner uid mg =
     (case file_download_entry uid mg of
        None \<Rightarrow> None
      | Some s \<Rightarrow>
          (case map_of (mg_download_clusters mg) s of
             None \<Rightarrow> None
           | Some r \<Rightarrow> if cl_download (mg_cluster_heap mg r) = None then None else Some r))"

definition request_download ::
    "string \<Rightarrow> bool \<Rightarrow> file_download_row \<Rightarrow> nat \<Rightarrow> 'db manager \<Rightarrow>
     (http_error + download_wait) \<times> 'db manager" where
  "request_download uid force dl r mg =
     (let (fd_cluster, mg) = create_file_download r uid mg;
          guard = file_download_entry uid mg
      in case job_id_to_u32 (fdr_job dl) of
           Inl (_, msg) \<Rightarrow> (Inl (BAD_REQUEST, msg), fire_guard guard ResponseError mg)
         | Inr jid \<Rightarrow>
             (let mg = with_cluster r (send_message (download_message uid jid (fdr_bundle dl) (fdr_path dl))) mg in
              case download_owner uid mg of
                None \<Rightarrow>
                  (Inl (BAD_REQUEST, ''File download session not found''), fire_guard guard ResponseError mg)
              | Some owner \<Rightarrow>
                  (Inr \<lparr>dw_uuid = uid, dw_path = fdr_path dl, dw_force = force, dw_cluster = fd_cluster,
                        dw_owner = owner, dw_guard = guard\<rparr>, mg)))"

definition download_begin ::
    "'db database \<Rightarrow> int \<Rightarrow> u64 \<Rightarrow> string \<Rightarrow> file_download_query \<Rightarrow> 'db manager \<Rightarrow>
     (http_error + download_wait) \<times> 'db manager" where
  "download_begin D now expiry_time uid params mg =
     (case non_empty (fq_file_id params) of
        None \<Rightarrow> (Inl (BAD_REQUEST, BAD_REQUEST_MSG), mg)
      | Some original \<Rightarrow>
          if mg_shutdown mg then (Inl (SERVICE_UNAVAILABLE, REMOTE_CLUSTER_OFFLINE_MSG), mg)
          else
            (let force = force_flag (fq_force_download params);
                 mg = mg\<lparr>mg_db := purge_expired_file_downloads D now expiry_time (mg_db mg)\<rparr>
             in case tb_one (db_file_downloads D) (mg_db mg) (\<lambda>f. fdr_uuid f = original) of
                  Inl e \<Rightarrow> (Inl (db_error e), mg)
                | Inr None \<Rightarrow> (Inl (BAD_REQUEST, BAD_REQUEST_MSG), mg)
                | Inr (Some dl) \<Rightarrow>
                    (case get_online_cluster mg (fdr_cluster dl) of
                       Inl e \<Rightarrow> (Inl e, mg)
                     | Inr r \<Rightarrow> request_download uid force dl r mg)))"

section \<open>The response of a download\<close>

text \<open>The name offered to the client: one underscore for each character that is not plain printable
  ASCII.  Bytes \<open>0x80..0xBF\<close> continue the character of an earlier byte.\<close>

definition safe_char :: "char \<Rightarrow> string" where
  "safe_char c =
     (let n = (of_char c :: nat) in
      if 0x80 \<le> n \<and> n < 0xC0 then []
      else if c = CHR 0x22 \<or> c = CHR 0x5C \<or> n < 32 \<or> 0x7F \<le> n then ''_''
      else [c])"

definition response_filename :: "string \<Rightarrow> string" where
  "response_filename path =
     (case path_file_name path of None \<Rightarrow> ''download'' | Some n \<Rightarrow> concat (map safe_char n))"

definition content_disposition :: "bool \<Rightarrow> string \<Rightarrow> string" where
  "content_disposition force filename =
     (if force then ''attachment; filename='' else ''inline; filename='') @ [CHR 0x22] @ filename @ [CHR 0x22]"

record download_response =
  dr_length :: u64
  dr_disposition :: string
  dr_stream_trigger :: "nat option"

definition owner_transfer :: "nat \<Rightarrow> 'db manager \<Rightarrow> file_download_state" where
  "owner_transfer owner mg =
     (case cl_download (mg_cluster_heap mg owner) of None \<Rightarrow> file_download_state_new | Some st \<Rightarrow> st)"

text \<open>A wait succeeds if it observes the flag before its timer expires; the flag is never reset.\<close>

definition wait_until_data_ready :: "bool \<Rightarrow> bool \<Rightarrow> unit + unit" where
  "wait_until_data_ready data_ready expired = (if data_ready \<and> \<not> expired then Inr () else Inl ())"

lemma wait_until_data_ready_isl [simp]:
  "isl (wait_until_data_ready data_ready expired) \<longleftrightarrow> \<not> data_ready \<or> expired"
  by (simp add: wait_until_data_ready_def)

definition record_timeout :: "nat \<Rightarrow> 'db manager \<Rightarrow> 'db manager" where
  "record_timeout owner mg =
     with_cluster owner
       (\<lambda>c. case cl_download c of
          None \<Rightarrow> c
        | Some st \<Rightarrow> c\<lparr>cl_download := Some (st\<lparr>fd_error := True, fd_error_details := ERR_CLUSTER_TIMEOUT\<rparr>)\<rparr>) mg"

definition download_respond ::
    "download_wait \<Rightarrow> bool \<Rightarrow> 'db manager \<Rightarrow> (http_error + download_response) \<times> 'db manager" where
  "download_respond w timed_out mg =
     (let ready = wait_until_data_ready (fd_data_ready (owner_transfer (dw_owner w) mg)) timed_out;
          mg = (if isl ready then record_timeout (dw_owner w) mg else mg);
          st = owner_transfer (dw_owner w) mg
      in if fd_error st then
           (Inl (BAD_REQUEST, fd_error_details st), fire_guard (dw_guard w) FileError mg)
         else if \<not> fd_received_data st then
           (Inl (SERVICE_UNAVAILABLE, REMOTE_CLUSTER_OFFLINE_MSG), fire_guard (dw_guard w) ClusterOffline mg)
         else
           (let file_size = fd_file_size st;
                guard = dw_guard w;
                mg = (if file_size = 0 then fire_guard guard Complete mg else mg);
                guard = (if file_size = 0 then None else guard)
            in (Inr \<lparr>dr_length = file_size,
                     dr_disposition = content_disposition (dw_force w) (response_filename (dw_path w)),
                     dr_stream_trigger = guard\<rparr>, mg)))"

definition download_file ::
    "'db database \<Rightarrow> int \<Rightarrow> u64 \<Rightarrow> string \<Rightarrow> ('db manager \<Rightarrow> 'db manager) \<Rightarrow> bool \<Rightarrow> file_download_query \<Rightarrow>
     'db manager \<Rightarrow> (http_error + download_response) \<times> 'db manager" where
  "download_file D now expiry_time uid others timed_out params mg =
     (case download_begin D now expiry_time uid params mg of
        (Inl e, mg) \<Rightarrow> (Inl e, mg)
      | (Inr w, mg) \<Rightarrow> download_respond w timed_out (others mg))"

section \<open>Listing files\<close>

definition file_list_message :: "string \<Rightarrow> u32 \<Rightarrow> string \<Rightarrow> string \<Rightarrow> bool \<Rightarrow> message" where
  "file_list_message uid jid bundle path recursive =
     push_bool recursive (push_string path (push_string bundle (push_string uid (push_uint jid
       (message_new FILE_LIST Highest uid)))))"

definition request_file_list ::
    "('db http_state \<Rightarrow> 'db http_state) \<Rightarrow> bool \<Rightarrow> string \<Rightarrow> nat \<Rightarrow> string \<Rightarrow> u64 \<Rightarrow> string \<Rightarrow> bool \<Rightarrow>
     'db http_state \<Rightarrow> (http_error + file_info list) \<times> 'db http_state" where
  "request_file_list others timed_out uid r bundle jid path recursive hs =
     (case job_id_to_u32 jid of
        Inl e \<Rightarrow> (Inl e, hs)
      | Inr wire_id \<Rightarrow>
          (let hs = hs\<lparr>hs_file_lists := (hs_file_lists hs)(uid \<mapsto> file_list_state_new)\<rparr>;
               msg = file_list_message uid wire_id bundle path recursive;
               hs = hs\<lparr>hs_manager := with_cluster r (send_message msg) (hs_manager hs)\<rparr>;
               hs = others hs;
               st = unwrap_or file_list_state_new (hs_file_lists hs uid);
               ready = wait_until_data_ready (fl_data_ready st) timed_out;
               st = (if isl ready then st\<lparr>fl_error := True, fl_error_details := ERR_CLUSTER_TIMEOUT\<rparr> else st);
               hs = hs\<lparr>hs_file_lists := (hs_file_lists hs)(uid := None)\<rparr>
           in if fl_error st then (Inl (BAD_REQUEST, fl_error_details st), hs)
              else (Inr (fl_files st), hs)))"

definition cache_file_list ::
    "'db database \<Rightarrow> u64 \<Rightarrow> file_info list \<Rightarrow> 'db http_state \<Rightarrow> 'db http_state" where
  "cache_file_list D jid files hs =
     hs\<lparr>hs_manager := (hs_manager hs)\<lparr>mg_db := replace_file_list D (mg_db (hs_manager hs)) jid files\<rparr>\<rparr>"

definition spawn_background_cache ::
    "'db database \<Rightarrow> ('db http_state \<Rightarrow> 'db http_state) \<Rightarrow> bool \<Rightarrow> string \<Rightarrow> nat \<Rightarrow> string \<Rightarrow> u64 \<Rightarrow>
     'db http_state \<Rightarrow> (string + unit) \<times> 'db http_state" where
  "spawn_background_cache D others timed_out uid r bundle jid hs =
     (if \<not> is_online (mg_cluster_heap (hs_manager hs) r) then (Inl ''Cluster offline'', hs)
      else
        (case request_file_list others timed_out uid r bundle jid '''' True hs of
           (Inl _, hs) \<Rightarrow> (Inr (), hs)
         | (Inr files, hs) \<Rightarrow> (Inr (), cache_file_list D jid files hs)))"

definition cached_info :: "file_list_cache_row \<Rightarrow> file_info" where
  "cached_info c =
     \<lparr>file_name = flc_path c, file_size = flc_file_size c, permissions = flc_permissions c,
      is_directory = flc_is_dir c\<rparr>"

definition job_complete ::
    "'db database \<Rightarrow> u64 \<Rightarrow> 'db \<Rightarrow> http_error + bool" where
  "job_complete D jid db =
     (if jid \<noteq> 0 then
        (case tb_one (db_histories D) db (\<lambda>h. jh_job_id h = jid \<and> jh_what h = JOB_COMPLETION_SOURCE) of
           Inl e \<Rightarrow> Inl (db_error e)
         | Inr row \<Rightarrow> Inr (row \<noteq> None))
      else Inr False)"

definition cached_list ::
    "'db database \<Rightarrow> bool \<Rightarrow> u64 \<Rightarrow> 'db \<Rightarrow> http_error + file_info list" where
  "cached_list D complete jid db =
     (if complete then
        (case tb_all (db_file_list_cache D) db (\<lambda>r. flc_job_id r = jid) of
           Inl e \<Rightarrow> Inl (db_error e)
         | Inr rows \<Rightarrow> Inr (map cached_info rows))
      else Inr [])"

definition live_list ::
    "'db database \<Rightarrow> ('db http_state \<Rightarrow> 'db http_state) \<Rightarrow> bool \<Rightarrow> string \<Rightarrow> bool \<Rightarrow> file_list_request \<Rightarrow>
     u64 \<Rightarrow> string \<Rightarrow> string \<Rightarrow> 'db http_state \<Rightarrow> (http_error + file_info list) \<times> 'db http_state" where
  "live_list D others timed_out uid complete body jid cluster bundle hs =
     (case get_online_cluster (hs_manager hs) cluster of
        Inl e \<Rightarrow> (Inl e, hs)
      | Inr r \<Rightarrow>
          (case request_file_list others timed_out uid r bundle jid (fl_path body) (fl_recursive body) hs of
             (Inl e, hs) \<Rightarrow> (Inl e, hs)
           | (Inr files, hs) \<Rightarrow>
               (Inr (filter_files files (fl_path body) (fl_recursive body)),
                if complete \<and> fl_path body = '''' \<and> fl_recursive body then cache_file_list D jid files hs
                else if complete then hs\<lparr>hs_background := hs_background hs @ [(r, bundle, jid)]\<rparr>
                else hs)))"

definition list_files ::
    "'db database \<Rightarrow> ('db http_state \<Rightarrow> 'db http_state) \<Rightarrow> bool \<Rightarrow> string \<Rightarrow> 'p auth_result \<Rightarrow>
     file_list_request \<Rightarrow> 'db http_state \<Rightarrow> (http_error + file_info list) \<times> 'db http_state" where
  "list_files D others timed_out uid auth body hs =
     (let mg = hs_manager hs; jid = unwrap_or 0 (fl_job_id body) in
      if mg_shutdown mg then (Inl (SERVICE_UNAVAILABLE, REMOTE_CLUSTER_OFFLINE_MSG), hs)
      else
        (case job_id_to_u32 jid of
           Inl e \<Rightarrow> (Inl e, hs)
         | Inr _ \<Rightarrow>
             (case resolve_cluster_bundle D auth jid (fl_cluster body) (fl_bundle body) mg of
                Inl e \<Rightarrow> (Inl e, hs)
              | Inr (cluster, bundle) \<Rightarrow>
                  (case job_complete D jid (mg_db mg) of
                     Inl e \<Rightarrow> (Inl e, hs)
                   | Inr complete \<Rightarrow>
                       (case cached_list D complete jid (mg_db mg) of
                          Inl e \<Rightarrow> (Inl e, hs)
                        | Inr (f # fs) \<Rightarrow> (Inr (filter_files (f # fs) (fl_path body) (fl_recursive body)), hs)
                        | Inr [] \<Rightarrow>
                            live_list D others timed_out uid complete body jid cluster bundle hs)))))"

section \<open>Who may name a cluster\<close>

lemma get_online_cluster_Inr:
  "get_online_cluster mg name = Inr r \<longleftrightarrow> map_of (mg_clusters mg) name = Some r \<and> is_online (mg_cluster_heap mg r)"
  by (auto simp: get_online_cluster_def split: option.splits)

lemma job_id_to_u32_Inr: "job_id_to_u32 i = Inr w \<longleftrightarrow> uint i < 2 ^ 32 \<and> w = ucast i"
  by (auto simp: job_id_to_u32_def)

text \<open>C31: a file request reaches only clusters its caller may use.  Whatever job, cluster and bundle it
  names, the cluster it is resolved to is one the secret of the caller lists; a job it names exists, and
  belongs to the application of the caller or to one that it may act for, with that very cluster and
  bundle; and without a job the cluster is the one named, which the server knows.\<close>

theorem file_request_authorised:
  assumes "jobs_table_laws D rows"
    and "resolve_cluster_bundle D auth jid cluster_param bundle_param mg = Inr (cluster, bundle)"
  shows "cluster \<in> set (as_clusters (au_secret auth)) \<and>
    (if jid = 0 then cluster_param = Some cluster \<and> bundle_param = Some bundle \<and>
        map_of (mg_clusters mg) cluster \<noteq> None
     else uint jid < 2 ^ 32 \<and> (\<exists>j \<in> set (rows (mg_db mg)). job_id j = jid \<and> job_cluster j = cluster \<and>
        job_bundle j = bundle \<and> job_application j \<in> set (get_applications (au_secret auth))))"
proof (cases "jid = 0")
  case True
  then show ?thesis
    using assms(2)
    by (auto simp: resolve_cluster_bundle_def non_empty_def split: option.splits if_splits)
next
  case False
  then have res: "resolve_cluster_bundle_for_file_list D auth jid mg = Inr (cluster, bundle)"
    using assms(2) by (simp add: resolve_cluster_bundle_def)
  obtain w where w: "job_id_to_u32 jid = Inr w"
    using res by (cases "job_id_to_u32 jid") (simp_all add: resolve_cluster_bundle_for_file_list_def)
  let ?P = "\<lambda>j. job_id j = jid \<and> job_application j \<in> set (get_applications (au_secret auth))"
  obtain j where j: "tb_one (db_jobs D) (mg_db mg) ?P = Inr (Some j)"
    using res w
    by (auto simp: resolve_cluster_bundle_for_file_list_def split: sum.splits option.splits)
  have "j \<in> set (rows (mg_db mg)) \<and> ?P j"
    using table_laws.one_row [OF assms(1) j] by blast
  then show ?thesis
    using False res w j
    by (auto simp: resolve_cluster_bundle_for_file_list_def job_id_to_u32_Inr split: if_splits)
qed

section \<open>The headers of a download\<close>

definition header_char :: "char \<Rightarrow> bool" where
  "header_char c \<longleftrightarrow> 32 \<le> (of_char c :: nat) \<and> (of_char c :: nat) < 0x7F"

lemma safe_char_header:
  "list_all header_char (safe_char c) \<and> CHR 0x22 \<notin> set (safe_char c) \<and> CHR 0x5C \<notin> set (safe_char c)"
  by (auto simp: safe_char_def header_char_def Let_def)

lemma response_filename_safe:
  "list_all header_char (response_filename path) \<and> CHR 0x22 \<notin> set (response_filename path) \<and>
   CHR 0x5C \<notin> set (response_filename path)"
proof (cases "path_file_name path")
  case None
  then show ?thesis by (simp add: response_filename_def header_char_def)
next
  case (Some n)
  then show ?thesis
    using safe_char_header by (auto simp: response_filename_def list_all_iff)
qed

text \<open>The download header cannot be injected.  For every path, the value is the disposition asked
  for followed by one quoted string: it consists of printable ASCII, so the response can be built, and
  the only quotation marks are the two that delimit the name, in which nothing is escaped.\<close>

theorem content_disposition_safe:
  "\<exists>name. content_disposition force (response_filename path) =
       (if force then ''attachment'' else ''inline'') @ ''; filename='' @ [CHR 0x22] @ name @ [CHR 0x22] \<and>
     list_all header_char (content_disposition force (response_filename path)) \<and>
     CHR 0x22 \<notin> set name \<and> CHR 0x5C \<notin> set name"
  using response_filename_safe [of path]
  by (intro exI [of _ "response_filename path"]) (simp add: content_disposition_def header_char_def)

section \<open>A listing served by its cluster\<close>

text \<open>The cluster \<open>r\<close> receives the message \<open>m\<close>: the context of its handler is the state the HTTP
  handlers share.\<close>

definition hand_message :: "'db database \<Rightarrow> env \<Rightarrow> message \<Rightarrow> nat \<Rightarrow> 'db http_state \<Rightarrow> 'db http_state" where
  "hand_message D ev m r hs =
     (let mg = hs_manager hs;
          (c, cx) = handle_message D ev m (mg_cluster_heap mg r)
            \<lparr>cx_db = mg_db mg, cx_file_lists = hs_file_lists hs, cx_cache_tasks = hs_cache_tasks hs\<rparr>
      in hs\<lparr>hs_manager := mg\<lparr>mg_cluster_heap := (mg_cluster_heap mg)(r := c), mg_db := cx_db cx\<rparr>,
            hs_file_lists := cx_file_lists cx, hs_cache_tasks := cx_cache_tasks cx\<rparr>)"

lemma handle_file_list_message:
  assumes "cl_role c = Master" "m_id m = FILE_LIST"
  shows "handle_message D ev m c cx = handle_file_list_response m c cx"
  using assms
  by (simp add: handle_message_def maybe_handle_cluster_db_message_def dispatch_message_def Let_def wire_simps)

lemma send_message_fields [simp]:
  "cl_role (send_message m c) = cl_role c" "cl_has_context (send_message m c) = cl_has_context c"
  by (simp_all add: send_message_def)

lemma listing_served:
  assumes "uint jid < 2 ^ 32" "is_rust_string uid" "\<forall>f \<in> set fs. file_entry_ok f" "length fs < 2 ^ 32"
    and "cl_role (mg_cluster_heap (hs_manager hs) r) = Master"
    and "cl_has_context (mg_cluster_heap (hs_manager hs) r)"
    and "m_id m = FILE_LIST"
    and "at_rest m (prefixed (str_bytes uid) @ to_le 4 (length fs) @ concat (map file_entry_enc fs))"
  shows "request_file_list (hand_message D ev m r) False uid r bundle jid path recursive hs =
    (Inr fs, hs\<lparr>hs_manager := with_cluster r
        (send_message (file_list_message uid (ucast jid) bundle path recursive)) (hs_manager hs),
      hs_file_lists := (hs_file_lists hs)(uid := None)\<rparr>)"
proof -
  let ?mg = "with_cluster r (send_message (file_list_message uid (ucast jid) bundle path recursive)) (hs_manager hs)"
  let ?c = "mg_cluster_heap ?mg r"
  let ?lists = "(hs_file_lists hs)(uid \<mapsto> file_list_state_new)"
  let ?cx = "\<lparr>cx_db = mg_db (hs_manager hs), cx_file_lists = ?lists, cx_cache_tasks = hs_cache_tasks hs\<rparr>"
  have n: "unat (word_of_nat (length fs) :: u32) = length fs"
    using assms(4) by (simp add: unat_of_nat)
  have master: "cl_role ?c = Master" "cl_has_context ?c"
    using assms(5, 6) by (simp_all add: with_cluster_def)
  have "handle_message D ev m ?c ?cx =
      (?c, ?cx\<lparr>cx_file_lists := ?lists(uid \<mapsto> file_list_state_new\<lparr>fl_files := fs, fl_data_ready := True,
         fl_notify := True\<rparr>)\<rparr>)"
    unfolding handle_file_list_message [OF master(1) assms(7)]
    using list_response_delivers [OF master(2) _ assms(2, 3), of ?cx file_list_state_new m "word_of_nat (length fs)" "[]"]
      assms(8) n by simp
  moreover have "mg_db ?mg = mg_db (hs_manager hs)" by (simp add: with_cluster_def)
  ultimately have "hand_message D ev m r (hs\<lparr>hs_file_lists := ?lists, hs_manager := ?mg\<rparr>) =
      hs\<lparr>hs_manager := ?mg, hs_file_lists := ?lists(uid \<mapsto> file_list_state_new\<lparr>fl_files := fs,
        fl_data_ready := True, fl_notify := True\<rparr>)\<rparr>"
    by (simp add: hand_message_def Let_def)
  then show ?thesis
    using assms(1)
    by (simp add: request_file_list_def job_id_to_u32_def file_list_state_new_def fun_upd_idem_iff)
qed

text \<open>C32: a listing is answered with what the cluster listed.  A request whose cluster replies with a
  FILE_LIST message of \<open>fs\<close> under the request's id, before the timer expires, returns exactly \<open>fs\<close>, in
  order; the cluster was sent exactly the request; and afterwards no request waits under that id, while
  all others, and the database, are untouched.\<close>

theorem file_list_served:
  assumes "uint jid < 2 ^ 32" "is_rust_string uid" "\<forall>f \<in> set fs. file_entry_ok f" "length fs < 2 ^ 32"
    and "cl_role (mg_cluster_heap (hs_manager hs) r) = Master"
    and "cl_has_context (mg_cluster_heap (hs_manager hs) r)"
    and "m_id m = FILE_LIST"
    and "at_rest m (prefixed (str_bytes uid) @ to_le 4 (length fs) @ concat (map file_entry_enc fs))"
  shows "request_file_list (hand_message D ev m r) False uid r bundle jid path recursive hs =
    (Inr fs, hs\<lparr>hs_manager := with_cluster r
        (send_message (file_list_message uid (ucast jid) bundle path recursive)) (hs_manager hs),
      hs_file_lists := (hs_file_lists hs)(uid := None)\<rparr>)"
  using assms by (rule listing_served)

section \<open>A listing served by the cache\<close>

lemma set_filter_files: "set (filter_files files path recursive) = {f \<in> set files. f \<in> set (filter_files [f] path recursive)}"
  by (auto simp: filter_files_def Let_def split: if_splits)

lemma cached_info_columns: "file_columns (cached_info r) = (flc_path r, flc_is_dir r, flc_file_size r, flc_permissions r)"
  by (simp add: file_columns_def cached_info_def)

lemma file_columns_inject: "file_columns f = file_columns g \<longleftrightarrow> f = g"
  by (cases f; cases g) (auto simp: file_columns_def)

lemma cached_files_info:
  "cached_files jid rs = file_columns ` (cached_info ` {r \<in> rs. flc_job_id r = jid})"
  by (simp add: cached_files_def image_image cached_info_columns)

lemma cached_query:
  assumes "file_cache_laws D rows" "tb_all (db_file_list_cache D) db (\<lambda>r. flc_job_id r = jid) = Inr rs"
    and "cached_files jid (set (rows db)) = file_columns ` set files"
  shows "set (map cached_info rs) = set files"
proof -
  have "set rs = {r \<in> set (rows db). flc_job_id r = jid}"
    using table_laws.all_rows [OF assms(1, 2)] .
  then have "file_columns ` set (map cached_info rs) = file_columns ` set files"
    using assms(3) by (simp add: cached_files_info)
  moreover have "inj file_columns" by (rule injI) (simp add: file_columns_inject)
  ultimately show ?thesis by (simp only: inj_image_eq_iff)
qed

section \<open>Every download session is released\<close>

text \<open>The session \<open>s\<close> has ended, and if that happened between the two states its clean-up was asked for.\<close>

definition released :: "nat \<Rightarrow> 'db manager \<Rightarrow> 'db manager \<Rightarrow> bool" where
  "released s before after \<longleftrightarrow>
     ended_by (mg_session_heap after s) \<noteq> None \<and>
     (session_open (mg_session_heap before s) \<longrightarrow>
        (\<exists>rq. mg_cleanup_queue after = mg_cleanup_queue before @ [rq] \<and>
           cr_session rq = ds_self (mg_session_heap before s)))"

lemma session_trigger_requests:
  "session_trigger reason x = (won, x', rs) \<Longrightarrow> session_open x \<Longrightarrow> \<exists>rq. rs = [rq] \<and> cr_session rq = ds_self x"
  by (auto simp: session_trigger_def enter_closing_def session_open_def Let_def split: session_state.splits)

lemma fire_guard_released: "released s mg (fire_guard (Some s) reason mg)"
proof -
  obtain won x rs where t: "session_trigger reason (mg_session_heap mg s) = (won, x, rs)"
    by (cases "session_trigger reason (mg_session_heap mg s)") auto
  have "ended_by x \<noteq> None"
    using trigger_ended [OF t] by (auto simp: open_iff_not_ended)
  then show ?thesis
    using session_trigger_requests [OF t] t by (auto simp: released_def fire_guard_def trigger_session_def)
qed

lemma record_timeout_frame [simp]:
  "mg_session_heap (record_timeout r mg) = mg_session_heap mg"
  "mg_cleanup_queue (record_timeout r mg) = mg_cleanup_queue mg"
  by (simp_all add: record_timeout_def with_cluster_def)

lemma released_cong:
  "mg_session_heap before = mg_session_heap before' \<Longrightarrow> mg_cleanup_queue before = mg_cleanup_queue before' \<Longrightarrow>
     released s before after = released s before' after"
  by (simp add: released_def)

lemma respond_releases:
  assumes "dw_guard w = Some s"
  shows "case download_respond w timed_out mg of
      (Inl e, mg') \<Rightarrow> released s mg mg'
    | (Inr resp, mg') \<Rightarrow>
        if dr_length resp = 0 then released s mg mg' \<and> dr_stream_trigger resp = None
        else dr_stream_trigger resp = Some s \<and> mg_session_heap mg' = mg_session_heap mg"
proof -
  let ?mg = "if isl (wait_until_data_ready (fd_data_ready (owner_transfer (dw_owner w) mg)) timed_out)
    then record_timeout (dw_owner w) mg else mg"
  have "released s mg (fire_guard (Some s) reason ?mg)" for reason
    using fire_guard_released [of s ?mg reason] released_cong [of ?mg mg s] by simp
  moreover have "mg_session_heap ?mg = mg_session_heap mg" by simp
  ultimately show ?thesis
    using assms by (auto simp: download_respond_def Let_def)
qed

lemma create_download_effect:
  assumes "\<not> mg_shutdown mg" "create_file_download r uid mg = (c, mg1)"
  defines "s \<equiv> mg_next mg + 1"
  shows "c = mg_next mg \<and> file_download_entry uid mg1 = Some s \<and> download_owner uid mg1 = Some c \<and>
    mg_session_heap mg1 s = session_new uid s \<and> \<not> mg_shutdown mg1 \<and>
    cl_download (mg_cluster_heap mg1 c) = Some file_download_state_new"
  using assms
  by (auto simp: create_file_download_def Let_def file_download_entry_def download_owner_def map_of_update
      cluster_new_file_download_def start_tasks_def)

lemma download_owner_with_cluster:
  assumes "\<And>c. cl_download (f c) = cl_download c"
  shows "download_owner uid (with_cluster r f mg) = download_owner uid mg"
  using assms
  by (auto simp: download_owner_def file_download_entry_def split: option.split)

lemma request_download_effect:
  assumes "\<not> mg_shutdown mg"
  shows "case request_download uid force dl r mg of
      (Inl e, mg1) \<Rightarrow> \<exists>s. map_of (mg_downloads mg1) uid = Some s \<and>
        ended_by (mg_session_heap mg1 s) = Some ResponseError
    | (Inr w, mg1) \<Rightarrow> \<exists>s. dw_guard w = Some s \<and> map_of (mg_downloads mg1) uid = Some s \<and>
        mg_session_heap mg1 s = session_new uid s \<and> dw_owner w = dw_cluster w \<and>
        map_of (mg_download_clusters mg1) s = Some (dw_owner w)"
proof -
  obtain c mg1 where create: "create_file_download r uid mg = (c, mg1)" by force
  let ?s = "mg_next mg + 1"
  note eff = create_download_effect [OF assms create]
  have entry: "map_of (mg_downloads mg1) uid = Some ?s"
    using eff by (simp add: file_download_entry_def split: if_splits)
  have owner: "map_of (mg_download_clusters mg1) ?s = Some c"
    using eff entry by (simp add: download_owner_def file_download_entry_def split: option.splits if_splits)
  show ?thesis
  proof (cases "job_id_to_u32 (fdr_job dl)")
    case (Inl e)
    have "ended_by (mg_session_heap (fire_guard (Some ?s) ResponseError mg1) ?s) = Some ResponseError"
      using eff by (simp add: fire_guard_def trigger_session_def session_trigger_def session_new_def
          enter_closing_def ended_by_def)
    then show ?thesis
      using create eff Inl entry by (cases e) (auto simp: request_download_def fire_guard_def)
  next
    case (Inr jid)
    have "download_owner uid (with_cluster r (send_message m) mg1) = Some c" for m
      using eff download_owner_with_cluster [of "send_message m" uid r mg1] by simp
    then show ?thesis
      using create eff Inr entry owner by (simp add: request_download_def)
  qed
qed

lemma download_begin_cases:
  fixes D :: "'db database" and now :: int and expiry_time :: u64 and mg :: "'db manager"
  defines "mg0 \<equiv> mg\<lparr>mg_db := purge_expired_file_downloads D now expiry_time (mg_db mg)\<rparr>"
  shows "(\<exists>e mg1. download_begin D now expiry_time uid params mg = (Inl e, mg1) \<and>
      mg_downloads mg1 = mg_downloads mg \<and> mg_session_heap mg1 = mg_session_heap mg) \<or>
    (\<not> mg_shutdown mg0 \<and>
      (\<exists>force dl r. download_begin D now expiry_time uid params mg = request_download uid force dl r mg0))"
proof (cases "non_empty (fq_file_id params) = None \<or> mg_shutdown mg")
  case True
  then show ?thesis by (auto simp: download_begin_def split: option.split)
next
  case False
  then obtain original where original: "non_empty (fq_file_id params) = Some original" "\<not> mg_shutdown mg" by auto
  show ?thesis
  proof (cases "tb_one (db_file_downloads D) (mg_db mg0) (\<lambda>f. fdr_uuid f = original)")
    case (Inl e)
    then show ?thesis using original by (simp add: download_begin_def Let_def mg0_def)
  next
    case (Inr row)
    show ?thesis
    proof (cases row)
      case None
      then show ?thesis using original Inr by (simp add: download_begin_def Let_def mg0_def)
    next
      case (Some dl)
      have on: "\<not> mg_shutdown mg0" using original by (simp add: mg0_def)
      show ?thesis
      proof (cases "get_online_cluster mg0 (fdr_cluster dl)")
        case (Inl e)
        then show ?thesis using original Inr Some by (simp add: download_begin_def Let_def mg0_def)
      next
        case r: (Inr r)
        have "download_begin D now expiry_time uid params mg =
            request_download uid (force_flag (fq_force_download params)) dl r mg0"
          using original Inr Some r by (simp add: download_begin_def Let_def mg0_def)
        then show ?thesis using on by blast
      qed
    qed
  qed
qed

text \<open>C23: no download session is orphaned before its response.  A request that fails before a session
  exists leaves the registries as they were; one that fails after its session was created has ended it.
  Otherwise the handler holds the new session, and however long it waits and whatever the rest of the
  program does meanwhile: if it then refuses the download, the session has ended, and its clean-up was
  requested unless another party had ended it; an empty file likewise ends it; and any other response
  hands the session, unchanged, to the stream of its body.\<close>

theorem download_session_owned:
  "case download_begin D now expiry_time uid params mg of
      (Inl e, mg1) \<Rightarrow>
        mg_downloads mg1 = mg_downloads mg \<and> mg_session_heap mg1 = mg_session_heap mg \<or>
        (\<exists>s. map_of (mg_downloads mg1) uid = Some s \<and> ended_by (mg_session_heap mg1 s) = Some ResponseError)
    | (Inr w, mg1) \<Rightarrow>
        (\<exists>s. dw_guard w = Some s \<and> map_of (mg_downloads mg1) uid = Some s \<and>
           mg_session_heap mg1 s = session_new uid s \<and>
           (\<forall>mg2 timed_out. case download_respond w timed_out mg2 of
              (Inl e, mg3) \<Rightarrow> released s mg2 mg3
            | (Inr resp, mg3) \<Rightarrow>
                if dr_length resp = 0 then released s mg2 mg3 \<and> dr_stream_trigger resp = None
                else dr_stream_trigger resp = Some s \<and> mg_session_heap mg3 = mg_session_heap mg2))"
proof (cases "\<exists>e mg1. download_begin D now expiry_time uid params mg = (Inl e, mg1) \<and>
    mg_downloads mg1 = mg_downloads mg \<and> mg_session_heap mg1 = mg_session_heap mg")
  case True
  then show ?thesis by auto
next
  case False
  let ?mg = "mg\<lparr>mg_db := purge_expired_file_downloads D now expiry_time (mg_db mg)\<rparr>"
  obtain force dl r where b: "\<not> mg_shutdown ?mg"
    "download_begin D now expiry_time uid params mg = request_download uid force dl r ?mg"
    using download_begin_cases [of D now expiry_time uid params mg] False by blast
  obtain res mg1 where out: "request_download uid force dl r ?mg = (res, mg1)" by force
  note eff = request_download_effect [OF b(1), of uid force dl r, unfolded out]
  show ?thesis
  proof (cases res)
    case (Inl e)
    then show ?thesis using eff unfolding b(2) out by auto
  next
    case (Inr w)
    then obtain s where s: "dw_guard w = Some s" "map_of (mg_downloads mg1) uid = Some s"
      "mg_session_heap mg1 s = session_new uid s"
      using eff by auto
    show ?thesis
      unfolding b(2) out Inr using s respond_releases [OF s(1)]
      by (simp only: prod.case sum.case) blast
  qed
qed

text \<open>The response and the stream of its body agree: the stream starts with the declared length, the
  session as the handler left it, and the trigger the handler handed over.\<close>

lemma respond_starts_stream:
  assumes "download_respond w timed_out mg = (Inr resp, mg')" "dw_guard w = Some s"
    and "cl_download (mg_cluster_heap mg (dw_owner w)) = Some st"
  defines "start \<equiv> stream_start (mg_cluster_heap mg (dw_owner w)) (mg_session_heap mg s)"
  shows "ss_size start = dr_length resp \<and> ss_session start = mg_session_heap mg' s \<and>
    (ss_trigger start \<longleftrightarrow> dr_stream_trigger resp = Some s) \<and>
    mg_cleanup_queue mg' = mg_cleanup_queue mg @ ss_requests start"
proof -
  have "fd_data_ready st" "\<not> timed_out"
    using assms(1, 3)
    by (auto simp: download_respond_def Let_def owner_transfer_def record_timeout_def split: if_splits)
  then have out: "resp = \<lparr>dr_length = fd_file_size st,
      dr_disposition = content_disposition (dw_force w) (response_filename (dw_path w)),
      dr_stream_trigger = (if fd_file_size st = 0 then None else Some s)\<rparr>"
    "mg' = (if fd_file_size st = 0 then fire_guard (Some s) Complete mg else mg)"
    using assms(1, 2, 3) by (auto simp: download_respond_def Let_def owner_transfer_def split: if_splits)
  have size: "ss_size start = fd_file_size st"
    using assms(3) by (simp add: start_def stream_start_size)
  show ?thesis
  proof (cases "fd_file_size st = 0")
    case True
    then show ?thesis
      using out size assms(3)
      by (simp add: start_def stream_start_def stream_transfer_def Let_def fire_stream_trigger_def
          fire_guard_def trigger_session_def case_prod_beta)
  next
    case False
    then show ?thesis
      using out size assms(3) by (simp add: start_def stream_start_def stream_transfer_def Let_def)
  qed
qed

section \<open>What creating download records stores\<close>

abbreviation download_table_laws :: "'db database \<Rightarrow> ('db \<Rightarrow> file_download_row list) \<Rightarrow> bool" where
  "download_table_laws D rows \<equiv> table_laws (db_file_downloads D) rows fdr_id (\<lambda>i r. r\<lparr>fdr_id := i\<rparr>)"

text \<open>A row without its key.\<close>

definition download_columns :: "file_download_row \<Rightarrow> file_download_row" where
  "download_columns r = r\<lparr>fdr_id := 0\<rparr>"

definition new_downloads ::
    "(nat \<Rightarrow> string \<times> int) \<Rightarrow> i64 \<Rightarrow> i64 \<Rightarrow> string \<Rightarrow> string \<Rightarrow> nat \<Rightarrow> string list \<Rightarrow> file_download_row list" where
  "new_downloads stamp user jid cluster bundle i paths =
     map (\<lambda>(k, path). \<lparr>fdr_id = 0, fdr_user = user, fdr_job = jid, fdr_cluster = cluster, fdr_bundle = bundle,
        fdr_uuid = fst (stamp k), fdr_path = path, fdr_timestamp = snd (stamp k)\<rparr>) (List.enumerate i paths)"

lemma insert_downloads_rows:
  assumes laws: "download_table_laws D rows"
  shows "insert_downloads D stamp user jid cluster bundle i paths db = (Inr uids, db') \<Longrightarrow>
    uids = map (fst \<circ> stamp) [i..<i + length paths] \<and>
    download_columns ` set (rows db') =
      download_columns ` set (rows db) \<union> set (new_downloads stamp user jid cluster bundle i paths)"
proof (induction paths arbitrary: i db uids)
  case Nil
  then show ?case by (simp add: new_downloads_def)
next
  case (Cons path paths)
  let ?row = "\<lparr>fdr_id = 0, fdr_user = user, fdr_job = jid, fdr_cluster = cluster, fdr_bundle = bundle,
    fdr_uuid = fst (stamp i), fdr_path = path, fdr_timestamp = snd (stamp i)\<rparr>"
  obtain res db1 where ins: "tb_insert (db_file_downloads D) db ?row = (res, db1)" by force
  with Cons.prems obtain r where r: "res = Inr r" by (cases res) (auto simp: case_prod_beta)
  obtain rest db2 where more: "insert_downloads D stamp user jid cluster bundle (Suc i) paths db1 = (rest, db2)"
    by force
  with Cons.prems ins r obtain us where us: "rest = Inr us" "db' = db2" "uids = fst (stamp i) # us"
    by (cases rest) (auto simp: case_prod_beta)
  have row: "?row\<lparr>fdr_id := fdr_id r\<rparr> = r" and rows1: "set (rows db1) = insert r (set (rows db))"
    using table_laws.insert_ok [OF laws ins [unfolded r]] by simp_all
  have "download_columns r = ?row"
    by (subst row [symmetric]) (simp add: download_columns_def)
  moreover have "insert_downloads D stamp user jid cluster bundle (Suc i) paths db1 = (Inr us, db')"
    using more us by simp
  note Cons.IH [OF this]
  moreover have "[i..<i + length (path # paths)] = i # [Suc i..<Suc i + length paths]"
    using upt_conv_Cons [of i "i + Suc (length paths)"] by (simp del: upt_Suc)
  ultimately show ?case
    using us rows1 by (auto simp: new_downloads_def)
qed

lemma purge_rows:
  assumes "download_table_laws D rows"
  shows "set (rows (purge_expired_file_downloads D now expiry_time db)) \<subseteq> set (rows db)"
    and "r \<in> set (rows db) \<Longrightarrow> expiry_cutoff now expiry_time < fdr_timestamp r \<Longrightarrow>
      r \<in> set (rows (purge_expired_file_downloads D now expiry_time db))"
proof -
  let ?P = "\<lambda>r. fdr_timestamp r \<le> expiry_cutoff now expiry_time"
  obtain res db' where del: "tb_delete (db_file_downloads D) db ?P = (res, db')" by force
  show "set (rows (purge_expired_file_downloads D now expiry_time db)) \<subseteq> set (rows db)"
    using table_laws.delete_subset [OF assms del] del by (simp add: purge_expired_file_downloads_def)
  show "r \<in> set (rows db) \<Longrightarrow> expiry_cutoff now expiry_time < fdr_timestamp r \<Longrightarrow>
      r \<in> set (rows (purge_expired_file_downloads D now expiry_time db))"
    using table_laws.delete_other [OF assms del] del by (simp add: purge_expired_file_downloads_def)
qed

lemma created_rows:
  assumes laws: "download_table_laws D rows"
    and bg: "\<And>db t. db_begin D db = Inr t \<Longrightarrow> rows t = rows db"
    and commit: "\<And>db t. db_commit D t = Inr db \<Longrightarrow> rows db = rows t"
    and run: "transaction D (insert_downloads D stamp user jid cluster bundle 0 paths) db = (Inr uids, db')"
  shows "uids = map (fst \<circ> stamp) [0..<length paths] \<and>
    download_columns ` set (rows db') =
      download_columns ` set (rows db) \<union> set (new_downloads stamp user jid cluster bundle 0 paths)"
proof -
  obtain t where t: "db_begin D db = Inr t"
    using run by (cases "db_begin D db") (simp_all add: transaction_def)
  obtain res t' where ins: "insert_downloads D stamp user jid cluster bundle 0 paths t = (res, t')" by force
  then obtain us where us: "res = Inr us"
    using run t by (cases res) (simp_all add: transaction_def)
  then have "db_commit D t' = Inr db'" "us = uids"
    using run t ins by (auto simp: transaction_def split: sum.splits)
  then show ?thesis
    using insert_downloads_rows [OF laws ins [unfolded us]] bg [OF t] commit [of t' db'] by simp
qed

lemma narrow_job_id: "uint (i :: u64) < 2 ^ 32 \<Longrightarrow> ucast (ucast i :: u32) = i"
  by (simp add: word_eq_iff_unsigned [where ?'a = int] unsigned_ucast_eq unsigned_take_bit_eq
      take_bit_int_eq_self)

text \<open>What the operation does once its arguments are in order.\<close>

lemma post_file_download_cases:
  assumes run: "post_file_download D now expiry_time stamp user_claim auth body mg = (res, mg')"
  defines "jid \<equiv> unwrap_or 0 (fr_job_id body)"
    and "db \<equiv> purge_expired_file_downloads D now expiry_time (mg_db mg)"
  obtains (refused) e where "res = Inl e" "mg' = mg"
  | (blank) paths where "requested_paths body = Inr paths" "filter (\<lambda>p. trim p \<noteq> '''') paths = []" "mg' = mg"
      "res = Inr (if fr_paths body \<noteq> None then FileIds [] else FileId '''')"
  | (failed) e e' fs cl bd where "res = Inl e"
      "transaction D (insert_downloads D stamp (auth_user_id user_claim auth) jid cl bd 0 fs) db =
        (Inl e', mg_db mg')"
  | (stored) paths uids cl bd where "requested_paths body = Inr paths"
      "filter (\<lambda>p. trim p \<noteq> '''') paths \<noteq> []"
      "resolve_cluster_bundle D auth jid (fr_cluster body) (fr_bundle body) mg = Inr (cl, bd)"
      "transaction D (insert_downloads D stamp (auth_user_id user_claim auth) jid cl bd 0
         (filter (\<lambda>p. trim p \<noteq> '''') paths)) db = (Inr uids, mg_db mg')"
      "res = Inr (if fr_paths body \<noteq> None then FileIds uids else FileId (hd uids))"
proof (cases "mg_shutdown mg \<or> isl (job_id_to_u32 jid) \<or> isl (requested_paths body)")
  case True
  then have "isl res \<and> mg' = mg"
    using run unfolding jid_def
    by (cases "mg_shutdown mg"; cases "job_id_to_u32 (unwrap_or 0 (fr_job_id body))"; cases "requested_paths body")
      (auto simp: post_file_download_def)
  then show thesis using refused by (cases res) auto
next
  case False
  then obtain w paths where ok: "\<not> mg_shutdown mg" "job_id_to_u32 jid = Inr w" "requested_paths body = Inr paths"
    by (cases "job_id_to_u32 jid"; cases "requested_paths body") auto
  have wide: "ucast w = jid"
    using ok(2) by (auto simp: job_id_to_u32_Inr narrow_job_id)
  let ?fs = "filter (\<lambda>p. trim p \<noteq> '''') paths"
  show thesis
  proof (cases "?fs = []")
    case True
    show thesis
      using run ok True by (intro blank [OF ok(3)]) (simp_all add: post_file_download_def jid_def)
  next
    case some: False
    show thesis
    proof (cases "resolve_cluster_bundle D auth jid (fr_cluster body) (fr_bundle body) mg")
      case (Inl e)
      show thesis
        using run ok some Inl by (intro refused [of e]) (simp_all add: post_file_download_def jid_def)
    next
      case (Inr cb)
      obtain cl bd where cb: "cb = (cl, bd)" by force
      obtain tres db' where t: "transaction D (insert_downloads D stamp (auth_user_id user_claim auth) jid
          cl bd 0 ?fs) db = (tres, db')" by force
      show thesis
      proof (cases tres)
        case e: (Inl e)
        show thesis
          using run ok some Inr cb t e wide
          by (intro failed [of "db_error e" cl bd ?fs e]) (auto simp: post_file_download_def jid_def db_def)
      next
        case uids: (Inr uids)
        have res: "res = Inr (if fr_paths body \<noteq> None then FileIds uids else FileId (hd uids))"
          "mg_db mg' = db'"
          using run ok some Inr cb t uids wide by (auto simp: post_file_download_def jid_def db_def)
        show thesis
          using Inr cb t uids res(2) by (intro stored [OF ok(3) some _ _ res(1)]) simp_all
      qed
    qed
  qed
qed

text \<open>C34: creating download records is all or nothing.  On success the answer lists the identifiers of
  the records in the order of the paths, one for each path that is not blank, and the table gained
  exactly these records, under the caller, for a cluster and bundle the caller was authorised for.  A
  refused or failed request adds nothing.  In either case records that were there are lost only by
  expiry.\<close>

theorem download_records_created:
  assumes laws: "download_table_laws D rows"
    and bg: "\<And>db t. db_begin D db = Inr t \<Longrightarrow> rows t = rows db"
    and commit: "\<And>db t. db_commit D t = Inr db \<Longrightarrow> rows db = rows t"
    and run: "post_file_download D now expiry_time stamp user_claim auth body mg = (res, mg')"
  shows "\<exists>kept. kept \<subseteq> set (rows (mg_db mg)) \<and>
    (\<forall>r. r \<in> set (rows (mg_db mg)) - kept \<longrightarrow> fdr_timestamp r \<le> expiry_cutoff now expiry_time) \<and>
    (case res of
       Inl e \<Rightarrow> set (rows (mg_db mg')) = kept
     | Inr ids \<Rightarrow>
         (\<exists>paths. requested_paths body = Inr paths \<and>
            (let fs = filter (\<lambda>p. trim p \<noteq> '''') paths; uids = map (fst \<circ> stamp) [0..<length fs]
             in ids = (if fr_paths body \<noteq> None then FileIds uids
                       else FileId (case uids of [] \<Rightarrow> '''' | u # _ \<Rightarrow> u)) \<and>
                (if fs = [] then mg' = mg
                 else (\<exists>cl bd. resolve_cluster_bundle D auth (unwrap_or 0 (fr_job_id body))
                         (fr_cluster body) (fr_bundle body) mg = Inr (cl, bd) \<and>
                       download_columns ` set (rows (mg_db mg')) = download_columns ` kept \<union>
                         set (new_downloads stamp (auth_user_id user_claim auth)
                           (unwrap_or 0 (fr_job_id body)) cl bd 0 fs))))))"
  using run
proof (cases rule: post_file_download_cases)
  case refused
  then show ?thesis by (intro exI [of _ "set (rows (mg_db mg))"]) simp
next
  case blank
  then show ?thesis by (intro exI [of _ "set (rows (mg_db mg))"]) simp
next
  case failed
  let ?kept = "set (rows (purge_expired_file_downloads D now expiry_time (mg_db mg)))"
  have "set (rows (mg_db mg')) = ?kept"
    using transaction_failed [OF failed(2)] by simp
  then show ?thesis
    using failed(1) purge_rows [OF laws, where now = now and expiry_time = expiry_time and db = "mg_db mg"]
    by (intro exI [of _ ?kept]) (auto simp: not_less [symmetric])
next
  case (stored paths uids cl bd)
  let ?kept = "set (rows (purge_expired_file_downloads D now expiry_time (mg_db mg)))"
  let ?fs = "filter (\<lambda>p. trim p \<noteq> '''') paths"
  note rows = created_rows [OF laws bg commit stored(4)]
  have uids: "uids = map (fst \<circ> stamp) [0..<length ?fs]" using rows by blast
  then have "hd uids = (case uids of [] \<Rightarrow> '''' | u # _ \<Rightarrow> u)"
    using stored(2) by (cases uids) auto
  then have "res = Inr (if fr_paths body \<noteq> None then FileIds uids
      else FileId (case uids of [] \<Rightarrow> '''' | u # _ \<Rightarrow> u))"
    using stored(5) by simp
  moreover have "?kept \<subseteq> set (rows (mg_db mg)) \<and>
      (\<forall>r. r \<in> set (rows (mg_db mg)) - ?kept \<longrightarrow> fdr_timestamp r \<le> expiry_cutoff now expiry_time)"
    using purge_rows [OF laws, where now = now and expiry_time = expiry_time and db = "mg_db mg"] by (auto simp: not_less [symmetric])
  ultimately show ?thesis
    using stored(1, 2, 3) rows uids by (intro exI [of _ ?kept]) (simp add: Let_def)
qed

section \<open>Examples\<close>

theorem file_request_authorised_witness:
  "''ozstar'' \<in> set (as_clusters (au_secret demo_caller)) \<and>
   (\<exists>j \<in> set (mt_rows (m_jobs (mg_db demo_jobs_manager))). job_id j = 8 \<and> job_cluster j = ''ozstar'')"
proof -
  have "resolve_cluster_bundle mem_database demo_caller 8 None None demo_jobs_manager =
      Inr (''ozstar'', job_bundle demo_job_row)"
    by (simp add: resolve_cluster_bundle_def resolve_cluster_bundle_for_file_list_def job_id_to_u32_def
        mem_database_def mem_ops_def mem_select_def mem_first_def demo_jobs_db_def demo_job_row_def
        demo_caller_def demo_secret_def get_applications_def)
  from file_request_authorised [OF mem_jobs.table_laws_axioms this] show ?thesis by auto
qed

definition demo_http :: "mem_db http_state" where
  "demo_http = \<lparr>hs_manager = demo_jobs_manager, hs_file_lists = Map.empty, hs_cache_tasks = [], hs_background = []\<rparr>"

theorem file_list_served_witness:
  "fst (request_file_list (hand_message mem_database demo_env
      (request_of FILE_LIST (prefixed (str_bytes ''u'') @ to_le 4 1 @ concat (map file_entry_enc [demo_file]))) 0)
      False ''u'' 0 ''b'' 8 ''/'' True demo_http) = Inr [demo_file]"
proof -
  let ?m = "request_of FILE_LIST (prefixed (str_bytes ''u'') @ to_le 4 (length [demo_file]) @
    concat (map file_entry_enc [demo_file]))"
  have "m_id ?m = FILE_LIST" by (rule request_of(1))
  moreover have "at_rest ?m (prefixed (str_bytes ''u'') @ to_le 4 (length [demo_file]) @
      concat (map file_entry_enc [demo_file]))"
    by (rule request_of(2))
  moreover have "cl_role (mg_cluster_heap (hs_manager demo_http) 0) = Master"
    "cl_has_context (mg_cluster_heap (hs_manager demo_http) 0)"
    by (simp_all add: demo_http_def demo_online_def set_connection_def demo_cluster_def)
  ultimately have "request_file_list (hand_message mem_database demo_env ?m 0) False ''u'' 0 ''b'' 8 ''/'' True demo_http =
      (Inr [demo_file], demo_http\<lparr>hs_manager := with_cluster 0
          (send_message (file_list_message ''u'' (ucast (8 :: u64)) ''b'' ''/'' True)) (hs_manager demo_http),
        hs_file_lists := (hs_file_lists demo_http)(''u'' := None)\<rparr>)"
    by (intro file_list_served) (simp_all add: demo_file_def file_entry_ok_def)
  then show ?thesis by simp
qed

definition demo_finished_db :: mem_db where
  "demo_finished_db = demo_jobs_db
     \<lparr>m_histories := \<lparr>mt_rows = [demo_history_row\<lparr>jh_what := JOB_COMPLETION_SOURCE\<rparr>], mt_next = 9\<rparr>\<rparr>"

definition demo_cached_db :: mem_db where
  "demo_cached_db = demo_finished_db
     \<lparr>m_file_list_cache := \<lparr>mt_rows = [\<lparr>flc_id = 1, flc_job_id = 8, flc_path = ''a'', flc_is_dir = False,
        flc_file_size = 3, flc_permissions = 0\<rparr>], mt_next = 1\<rparr>\<rparr>"

lemma demo_caches: "replace_file_list mem_database demo_finished_db 8 [demo_file] = demo_cached_db"
  by (simp add: replace_file_list_def transaction_def mem_database_def mem_ops_def mem_wf_def mem_delete_def
      mem_insert_def Let_def)
    (simp add: demo_cached_db_def demo_finished_db_def demo_jobs_db_def demo_db_def mem_empty_def demo_file_def)

lemma mem_transactions [simp]: "db_begin mem_database = Inr" "db_commit mem_database = Inr"
  by (simp_all add: mem_database_def)

definition demo_download_request :: create_file_download_request where
  "demo_download_request =
     \<lparr>fr_job_id = Some 8, fr_path = None, fr_paths = Some [''/a''], fr_cluster = None, fr_bundle = None\<rparr>"

lemma demo_path: "trim ''/a'' = ''/a''"
proof (rule trim_plain)
  have "CHR ''/'' \<notin> set (map hd whitespace)" by code_simp
  then show "hd ''/a'' \<notin> set (map hd whitespace)" by simp
  have "CHR ''a'' \<notin> set (map last whitespace)" by code_simp
  then show "last ''/a'' \<notin> set (map last whitespace)" by simp
qed simp

lemma demo_post:
  "fst (post_file_download mem_database 1000 60 (\<lambda>i. (show_nat i, 1000)) (\<lambda>p. Some (word_of_int p))
     demo_caller demo_download_request demo_jobs_manager) = Inr (FileIds [show_nat 0])"
proof -
  have "resolve_cluster_bundle mem_database demo_caller 8 None None demo_jobs_manager = Inr (''ozstar'', ''b'')"
    by (simp add: resolve_cluster_bundle_def resolve_cluster_bundle_for_file_list_def job_id_to_u32_def
        mem_database_def mem_ops_def mem_select_def mem_first_def demo_jobs_db_def demo_job_row_def
        demo_caller_def demo_secret_def get_applications_def)
  moreover have "purge_expired_file_downloads mem_database 1000 60 demo_jobs_db = demo_jobs_db"
    by (simp add: purge_expired_file_downloads_def mem_database_def mem_ops_def mem_delete_def mem_wf_def
        demo_jobs_db_def demo_db_def mem_empty_def)
  moreover have "fst (transaction mem_database (insert_downloads mem_database (\<lambda>i. (show_nat i, 1000)) u j
      ''ozstar'' ''b'' 0 [''/a'']) demo_jobs_db) = Inr [show_nat 0]" for u j
    by (simp add: transaction_def mem_database_def mem_ops_def mem_insert_def mem_wf_def Let_def
        demo_jobs_db_def demo_db_def mem_empty_def)
  ultimately show ?thesis
    by (simp add: post_file_download_def demo_download_request_def requested_paths_def job_id_to_u32_def
        demo_path case_prod_beta Let_def split: sum.split)
qed

theorem download_records_created_witness:
  "\<exists>kept mg'. post_file_download mem_database 1000 60 (\<lambda>i. (show_nat i, 1000)) (\<lambda>p. Some (word_of_int p))
      demo_caller demo_download_request demo_jobs_manager = (Inr (FileIds [show_nat 0]), mg') \<and>
    kept \<subseteq> set (mt_rows (m_file_downloads demo_jobs_db)) \<and>
    download_columns ` set (mt_rows (m_file_downloads (mg_db mg'))) =
      download_columns ` kept \<union> set (new_downloads (\<lambda>i. (show_nat i, 1000)) 5 8 ''ozstar'' ''b'' 0 [''/a''])"
proof -
  obtain mg' where run: "post_file_download mem_database 1000 60 (\<lambda>i. (show_nat i, 1000))
      (\<lambda>p. Some (word_of_int p)) demo_caller demo_download_request demo_jobs_manager =
      (Inr (FileIds [show_nat 0]), mg')"
    using demo_post by (metis prod.collapse)
  have cb: "resolve_cluster_bundle mem_database demo_caller 8 None None demo_jobs_manager =
      Inr (''ozstar'', ''b'')"
    by (simp add: resolve_cluster_bundle_def resolve_cluster_bundle_for_file_list_def job_id_to_u32_def
        mem_database_def mem_ops_def mem_select_def mem_first_def demo_jobs_db_def demo_job_row_def
        demo_caller_def demo_secret_def get_applications_def)
  have req: "requested_paths demo_download_request = Inr [''/a'']" "fr_job_id demo_download_request = Some 8"
    "fr_cluster demo_download_request = None" "fr_bundle demo_download_request = None"
    "filter (\<lambda>p. trim p \<noteq> '''') [''/a''] = [''/a'']"
    "auth_user_id (\<lambda>p. Some (word_of_int p)) demo_caller = 5"
    by (simp_all add: demo_download_request_def requested_paths_def demo_path auth_user_id_def demo_caller_def)
  note created = download_records_created [OF mem_file_downloads.table_laws_axioms _ _ run,
      unfolded req sum.case unwrap_or_simps cb demo_jobs_manager_fields]
  obtain kept where "kept \<subseteq> set (mt_rows (m_file_downloads demo_jobs_db))"
    "download_columns ` set (mt_rows (m_file_downloads (mg_db mg'))) =
      download_columns ` kept \<union> set (new_downloads (\<lambda>i. (show_nat i, 1000)) 5 8 ''ozstar'' ''b'' 0 [''/a''])"
  proof -
    obtain kept where kept: "kept \<subseteq> set (mt_rows (m_file_downloads demo_jobs_db))"
      "\<exists>paths. Inr [''/a''] = (Inr paths :: http_error + string list) \<and> (\<exists>cl bd. (Inr (''ozstar'', ''b'') :: http_error + string \<times> string) = Inr (cl, bd) \<and>
        (filter (\<lambda>p. trim p \<noteq> '''') paths = [''/a''] \<longrightarrow>
         download_columns ` set (mt_rows (m_file_downloads (mg_db mg'))) = download_columns ` kept \<union>
          set (new_downloads (\<lambda>i. (show_nat i, 1000)) 5 8 cl bd 0 [''/a''])))"
      using created by (fastforce simp: Let_def req(5) split: if_splits)
    show thesis using that [OF kept(1)] kept(2) req(5) by auto
  qed
  with run show ?thesis by blast
qed

end
