(* ===== verification/File_Upload.thy ===== *)
theory File_Upload
  imports Http_File
begin

text \<open>
  The upload of a file to a cluster (\<open>upload_file\<close> in \<open>src/http/file.rs\<close>): admission, the wait for the
  cluster, the chunk loop under back-pressure, and the wait for the cluster's confirmation.  What the
  rest of the program does at each wait, and what the waits observe, are arguments of the definitions;
  the messages handed to the upload connection are recorded in order.
\<close>

section \<open>Requests\<close>

record file_upload_query =
  uq_job_id :: "u64 option"
  uq_cluster :: "string option"
  uq_bundle :: "string option"
  uq_target_path :: "string option"

definition parse_u64 :: "string \<Rightarrow> u64 option" where
  "parse_u64 s =
     (if fst (sign_and_digits s) then None else map_option word_of_int (parse_int 0 (2 ^ 64 - 1) s))"

definition visible_ascii :: "char \<Rightarrow> bool" where
  "visible_ascii c \<longleftrightarrow> 32 \<le> (of_char c :: nat) \<and> (of_char c :: nat) < 127 \<or> (of_char c :: nat) = 9"

text \<open>\<open>header\<close> is the value of \<open>Content-Length\<close>, when there is one.\<close>

definition content_length_of :: "string option \<Rightarrow> u64 option" where
  "content_length_of header =
     (case header of
        None \<Rightarrow> None
      | Some v \<Rightarrow> if list_all visible_ascii v then parse_u64 v else None)"

definition upload_message :: "string \<Rightarrow> u32 \<Rightarrow> string \<Rightarrow> string \<Rightarrow> u64 \<Rightarrow> message" where
  "upload_message uid jid bundle target_path content_length =
     push_ulong content_length (push_string target_path (push_string bundle (push_uint jid
       (message_new UPLOAD_FILE Highest uid))))"

definition upload_chunk_message :: "string \<Rightarrow> bytes \<Rightarrow> message" where
  "upload_chunk_message uid chunk = push_bytes chunk (message_new FILE_UPLOAD_CHUNK Lowest uid)"

definition upload_complete_message :: "string \<Rightarrow> message" where
  "upload_complete_message uid = message_new FILE_UPLOAD_COMPLETE Highest uid"

section \<open>The session\<close>

text \<open>\<open>up\<close> is the upload cluster, whose upload state the handler holds.\<close>

definition upload_state :: "nat \<Rightarrow> 'db manager \<Rightarrow> file_upload_state" where
  "upload_state up mg =
     (case cl_upload (mg_cluster_heap mg up) of None \<Rightarrow> file_upload_state_new | Some st \<Rightarrow> st)"

definition check_upload_error :: "nat \<Rightarrow> 'db manager \<Rightarrow> http_error + unit" where
  "check_upload_error up mg =
     (if fu_error (upload_state up mg) then Inl (BAD_REQUEST, fu_error_details (upload_state up mg))
      else Inr ())"

definition abort_upload :: "string \<Rightarrow> nat \<Rightarrow> 'db manager \<Rightarrow> 'db manager" where
  "abort_upload uid up mg = with_cluster up (\<lambda>c. fst (close c)) (remove_file_upload uid mg)"

definition record_upload_timeout :: "nat \<Rightarrow> 'db manager \<Rightarrow> 'db manager" where
  "record_upload_timeout up mg =
     with_cluster up
       (\<lambda>c. case cl_upload c of
          None \<Rightarrow> c
        | Some st \<Rightarrow> c\<lparr>cl_upload := Some (st\<lparr>fu_error := True, fu_error_details := ERR_CLUSTER_TIMEOUT\<rparr>)\<rparr>) mg"

definition request_upload ::
    "string \<Rightarrow> message \<Rightarrow> u64 \<Rightarrow> nat \<Rightarrow> 'db manager \<Rightarrow> (http_error + (nat \<times> u64)) \<times> 'db manager" where
  "request_upload uid msg content_length r mg =
     (let (up, mg) = create_file_upload r uid mg;
          mg = with_cluster r (send_message msg) mg
      in case get_file_upload uid mg of
           None \<Rightarrow> (Inl (BAD_REQUEST, ''File upload session not found''), mg)
         | Some _ \<Rightarrow> (Inr (up, content_length), mg))"

text \<open>Up to the wait for the cluster: the upload cluster, or the refusal.\<close>

definition upload_begin ::
    "'db database \<Rightarrow> string \<Rightarrow> 'p auth_result \<Rightarrow> file_upload_query \<Rightarrow> string option \<Rightarrow> 'db manager \<Rightarrow>
     (http_error + (nat \<times> u64)) \<times> 'db manager" where
  "upload_begin D uid auth params header mg =
     (if mg_shutdown mg then (Inl (SERVICE_UNAVAILABLE, REMOTE_CLUSTER_OFFLINE_MSG), mg)
      else
        (case uq_target_path params of
           None \<Rightarrow> (Inl (BAD_REQUEST, ''targetPath parameter is required''), mg)
         | Some target_path \<Rightarrow>
             (case content_length_of header of
                None \<Rightarrow> (Inl (BAD_REQUEST, ''Content-Length header is required''), mg)
              | Some content_length \<Rightarrow>
                  (case job_id_to_u32 (unwrap_or 0 (uq_job_id params)) of
                     Inl e \<Rightarrow> (Inl e, mg)
                   | Inr jid \<Rightarrow>
                       (case resolve_cluster_bundle D auth (unwrap_or 0 (uq_job_id params)) (uq_cluster params)
                               (uq_bundle params) mg of
                          Inl e \<Rightarrow> (Inl e, mg)
                        | Inr (cluster, bundle) \<Rightarrow>
                            (case get_online_cluster mg cluster of
                               Inl e \<Rightarrow> (Inl e, mg)
                             | Inr r \<Rightarrow>
                                 request_upload uid (upload_message uid jid bundle target_path content_length)
                                   content_length r mg))))))"

section \<open>The chunks\<close>

text \<open>What the rest of the program does and what the waits see: \<open>ue_waiting\<close> during the wait for the
  cluster, \<open>ue_others i\<close> during the wait before chunk \<open>i\<close>, \<open>ue_finishing\<close> and \<open>ue_confirming\<close> during the last
  two.  A view of the queue is its counter at the wake-ups and at the deadline.  \<open>ue_body\<close> is the result
  of reading the request body.\<close>

type_synonym drain_view = "u64 list \<times> u64"

record 'db upload_env =
  ue_min_buffer :: u64
  ue_max_buffer :: u64
  ue_chunk_size :: u64
  ue_waiting :: "'db manager \<Rightarrow> 'db manager"
  ue_wait_expired :: bool
  ue_body :: "string + bytes"
  ue_views :: "nat \<Rightarrow> drain_view"
  ue_others :: "nat \<Rightarrow> 'db manager \<Rightarrow> 'db manager"
  ue_final_view :: drain_view
  ue_finishing :: "'db manager \<Rightarrow> 'db manager"
  ue_confirming :: "'db manager \<Rightarrow> 'db manager"
  ue_confirm_expired :: bool

definition drained :: "'db upload_env \<Rightarrow> bool \<Rightarrow> drain_view \<Rightarrow> nat \<Rightarrow> 'db manager \<Rightarrow> bool" where
  "drained ue wait_for_empty view up mg =
     wait_for_queue_drain (ue_min_buffer ue) (ue_max_buffer ue) wait_for_empty
       (cl_queued_size (mg_cluster_heap mg up)) (fst view) (snd view)"

lemma chunk_size_positive: "0 < unat (max 1 (w :: u64))"
proof -
  have "1 \<le> max 1 w" by simp
  then have "unat (1 :: u64) \<le> unat (max 1 w)" by (simp only: word_le_nat_alt)
  then show ?thesis by simp
qed

text \<open>Offsets are natural numbers: none exceeds the length of the body, which fits in 64 bits.\<close>

function upload_chunks ::
    "'db upload_env \<Rightarrow> string \<Rightarrow> nat \<Rightarrow> bytes \<Rightarrow> nat \<Rightarrow> nat \<Rightarrow> 'db manager \<Rightarrow>
     (http_error + unit) \<times> message list \<times> 'db manager" where
  "upload_chunks ue uid up body i total_read mg =
     (if total_read < length body then
        (let ok = drained ue False (ue_views ue i) up mg;
             mg = ue_others ue i mg
         in if \<not> ok then
              (Inl (BAD_REQUEST, ''Timeout waiting for queue to drain during upload''), [],
               abort_upload uid up mg)
            else
              (case check_upload_error up mg of
                 Inl e \<Rightarrow> (Inl e, [], abort_upload uid up mg)
               | Inr _ \<Rightarrow>
                   (let this_chunk = min (length body - total_read) (unat (max 1 (ue_chunk_size ue)));
                        msg = upload_chunk_message uid (take this_chunk (drop total_read body));
                        mg = with_cluster up (send_message msg) mg;
                        (res, sent, mg) = upload_chunks ue uid up body (Suc i) (total_read + this_chunk) mg
                    in (res, msg # sent, mg))))
      else (Inr (), [], mg))"
  by pat_completeness auto

termination
  by (relation "measure (\<lambda>(_, _, _, body, _, total_read, _). length body - total_read)")
    (use chunk_size_positive in \<open>auto intro!: diff_less_mono2 simp del: unat_gt_0\<close>)

declare upload_chunks.simps [simp del]

text \<open>After the last chunk: the queue must empty, the cluster must not have failed, the completion is
  sent and the cluster's confirmation awaited.\<close>

definition upload_finish ::
    "'db upload_env \<Rightarrow> string \<Rightarrow> nat \<Rightarrow> 'db manager \<Rightarrow> (http_error + unit) \<times> message list \<times> 'db manager" where
  "upload_finish ue uid up mg =
     (let ok = drained ue True (ue_final_view ue) up mg;
          mg = ue_finishing ue mg
      in if \<not> ok then
           (Inl (BAD_REQUEST, ''Timeout waiting for queue to empty before sending completion''), [],
            abort_upload uid up mg)
         else
           (case check_upload_error up mg of
              Inl e \<Rightarrow> (Inl e, [], abort_upload uid up mg)
            | Inr _ \<Rightarrow>
                (let msg = upload_complete_message uid;
                     mg = ue_confirming ue (with_cluster up (send_message msg) mg);
                     st = upload_state up mg
                 in if ue_confirm_expired ue \<or> \<not> (fu_complete st \<or> fu_error st) then
                      (Inl (BAD_REQUEST, ''Upload completion confirmation timeout''), [msg],
                       abort_upload uid up mg)
                    else
                      (case check_upload_error up mg of
                         Inl e \<Rightarrow> (Inl e, [msg], abort_upload uid up mg)
                       | Inr _ \<Rightarrow> (Inr (), [msg], remove_file_upload uid mg)))))"

definition upload_body ::
    "'db upload_env \<Rightarrow> string \<Rightarrow> nat \<Rightarrow> u64 \<Rightarrow> 'db manager \<Rightarrow> (http_error + unit) \<times> message list \<times> 'db manager" where
  "upload_body ue uid up content_length mg =
     (let ready = wait_until_data_ready (fu_data_ready (upload_state up mg)) (ue_wait_expired ue);
          mg = (if isl ready then record_upload_timeout up mg else mg)
      in case check_upload_error up mg of
           Inl e \<Rightarrow> (Inl e, [], abort_upload uid up mg)
         | Inr _ \<Rightarrow>
             (case ue_body ue of
                Inl e \<Rightarrow> (Inl (BAD_REQUEST, ''Failed to read body: '' @ e), [], abort_upload uid up mg)
              | Inr body_bytes \<Rightarrow>
                  if (word_of_nat (length body_bytes) :: u64) \<noteq> content_length then
                    (Inl (BAD_REQUEST, ''Request body length does not match Content-Length header''), [],
                     abort_upload uid up mg)
                  else
                    (case upload_chunks ue uid up body_bytes 0 0 mg of
                       (Inl e, sent, mg) \<Rightarrow> (Inl e, sent, mg)
                     | (Inr _, sent, mg) \<Rightarrow>
                         (case upload_finish ue uid up mg of
                            (Inl e, sent', mg) \<Rightarrow> (Inl e, sent @ sent', mg)
                          | (Inr _, sent', mg) \<Rightarrow> (Inr (), sent @ sent', mg)))))"

text \<open>The answer carries the identifier of the upload.\<close>

definition upload_file ::
    "'db database \<Rightarrow> 'db upload_env \<Rightarrow> string \<Rightarrow> 'p auth_result \<Rightarrow> file_upload_query \<Rightarrow> string option \<Rightarrow>
     'db manager \<Rightarrow> (http_error + string) \<times> message list \<times> 'db manager" where
  "upload_file D ue uid auth params header mg =
     (case upload_begin D uid auth params header mg of
        (Inl e, mg) \<Rightarrow> (Inl e, [], mg)
      | (Inr (up, content_length), mg) \<Rightarrow>
          (case upload_body ue uid up content_length (ue_waiting ue mg) of
             (Inl e, sent, mg) \<Rightarrow> (Inl e, sent, mg)
           | (Inr _, sent, mg) \<Rightarrow> (Inr uid, sent, mg)))"

section \<open>What is sent\<close>

definition chunks_ok :: "'db upload_env \<Rightarrow> bytes list \<Rightarrow> bool" where
  "chunks_ok ue chunks \<longleftrightarrow>
     (\<forall>c \<in> set chunks. c \<noteq> [] \<and> length c \<le> unat (max 1 (ue_chunk_size ue)))"

lemma drop_split: "drop t xs = take n (drop t xs) @ drop (t + n) xs"
  using append_take_drop_id [of n "drop t xs", symmetric] by (simp add: add.commute)

lemma upload_chunks_sends:
  assumes "upload_chunks ue uid up body i total_read mg = (res, sent, mg')" "total_read \<le> length body"
  shows "\<exists>chunks rest. sent = map (upload_chunk_message uid) chunks \<and> chunks_ok ue chunks \<and>
    drop total_read body = concat chunks @ rest \<and> (isl res \<or> rest = [])"
  using assms
proof (induction ue uid up body i total_read mg arbitrary: res sent mg' rule: upload_chunks.induct)
  case (1 ue uid up body i total_read mg)
  let ?mg = "ue_others ue i mg"
  let ?n = "min (length body - total_read) (unat (max 1 (ue_chunk_size ue)))"
  let ?c = "take ?n (drop total_read body)"
  note unfold = upload_chunks.simps [of ue uid up body i total_read mg]
  show ?case
  proof (cases "total_read < length body")
    case False
    then show ?thesis
      using 1(2, 3) unfold by (intro exI [of _ "[]"]) (auto simp: chunks_ok_def)
  next
    case more: True
    show ?thesis
    proof (cases "drained ue False (ue_views ue i) up mg \<and> check_upload_error up ?mg = Inr ()")
      case False
      then have "sent = []" "isl res"
        using 1(2) more unfold by (auto simp: Let_def check_upload_error_def split: if_splits)
      then show ?thesis
        by (intro exI [of _ "[]"] exI [of _ "drop total_read body"]) (simp add: chunks_ok_def)
    next
      case ok: True
      obtain sent' where rec: "upload_chunks ue uid up body (Suc i) (total_read + ?n)
          (with_cluster up (send_message (upload_chunk_message uid ?c)) ?mg) = (res, sent', mg')"
        and sent: "sent = upload_chunk_message uid ?c # sent'"
        using 1(2) more ok unfold by (auto simp: Let_def split: prod.splits)
      have d: "\<not> \<not> drained ue False (ue_views ue i) up mg" and c: "check_upload_error up ?mg = Inr ()"
        using ok by simp_all
      have le: "total_read + ?n \<le> length body" using more by simp
      obtain chunks rest where ih: "sent' = map (upload_chunk_message uid) chunks" "chunks_ok ue chunks"
        "drop (total_read + ?n) body = concat chunks @ rest" "isl res \<or> rest = []"
        using 1(1) [OF more refl refl d c refl refl refl rec le] by (elim exE conjE) (rule that)
      have "drop total_read body = ?c @ drop (total_read + ?n) body"
        by (rule drop_split)
      moreover have "?c \<noteq> []" "length ?c \<le> unat (max 1 (ue_chunk_size ue))"
        using more chunk_size_positive [of "ue_chunk_size ue"] by (auto simp del: unat_gt_0)
      ultimately show ?thesis
        using ih sent by (intro exI [of _ "?c # chunks"] exI [of _ rest]) (simp add: chunks_ok_def)
    qed
  qed
qed

lemma upload_finish_sends:
  "upload_finish ue uid up mg = (res, sent, mg') \<Longrightarrow>
     sent = [upload_complete_message uid] \<or> sent = [] \<and> isl res"
  by (auto simp: upload_finish_def check_upload_error_def Let_def split: if_splits)

lemma upload_body_cases:
  assumes "upload_body ue uid up n mg = (res, sent, mg')"
  obtains (refused) e mg1 where "res = Inl e" "sent = []" "mg' = abort_upload uid up mg1"
  | (chunks) body mg1 e where "ue_body ue = Inr body" "word_of_nat (length body) = n"
      "upload_chunks ue uid up body 0 0 mg1 = (Inl e, sent, mg')" "res = Inl e"
  | (finish) body mg1 mg2 sent1 sent2 where "ue_body ue = Inr body" "word_of_nat (length body) = n"
      "upload_chunks ue uid up body 0 0 mg1 = (Inr (), sent1, mg2)"
      "upload_finish ue uid up mg2 = (res, sent2, mg')" "sent = sent1 @ sent2"
proof -
  let ?ready = "wait_until_data_ready (fu_data_ready (upload_state up mg)) (ue_wait_expired ue)"
  define mg1 where "mg1 = (if isl ?ready then record_upload_timeout up mg else mg)"
  note body = assms [unfolded upload_body_def Let_def, folded mg1_def]
  show thesis
  proof (cases "check_upload_error up mg1")
    case (Inl e)
    then show thesis using body refused [of e mg1] by simp
  next
    case checked: (Inr u)
    show thesis
    proof (cases "ue_body ue")
      case (Inl e)
      then show thesis using body checked refused [of _ mg1] by auto
    next
      case (Inr b)
      show thesis
      proof (cases "(word_of_nat (length b) :: u64) = n")
        case False
        then show thesis using body checked Inr refused [of _ mg1] by auto
      next
        case len: True
        obtain cres sent1 mg2 where c: "upload_chunks ue uid up b 0 0 mg1 = (cres, sent1, mg2)"
          by (cases "upload_chunks ue uid up b 0 0 mg1") auto
        obtain fres sent2 mg3 where f: "upload_finish ue uid up mg2 = (fres, sent2, mg3)"
          by (cases "upload_finish ue uid up mg2") auto
        show thesis
        proof (cases cres)
          case e: (Inl e)
          then have "sent1 = sent" "mg2 = mg'" "res = Inl e"
            using body checked Inr len c by auto
          then show thesis using c e chunks [OF Inr len, of mg1 e] by simp
        next
          case (Inr u')
          have "res = fres" "mg' = mg3" "sent = sent1 @ sent2"
            using body checked \<open>ue_body ue = Inr b\<close> len c f Inr by (auto split: sum.splits)
          then show thesis using finish [OF \<open>ue_body ue = Inr b\<close> len, of mg1 sent1 mg2 sent2] c f Inr by simp
        qed
      qed
    qed
  qed
qed

definition complete_trace :: "'db upload_env \<Rightarrow> string \<Rightarrow> message list \<Rightarrow> bool" where
  "complete_trace ue uid sent \<longleftrightarrow>
     (\<exists>chunks. ue_body ue = Inr (concat chunks) \<and> chunks_ok ue chunks \<and>
        sent = map (upload_chunk_message uid) chunks @ [upload_complete_message uid])"

definition partial_trace :: "'db upload_env \<Rightarrow> string \<Rightarrow> message list \<Rightarrow> bool" where
  "partial_trace ue uid sent \<longleftrightarrow> sent = [] \<or>
     (\<exists>chunks rest last. ue_body ue = Inr (concat chunks @ rest) \<and> chunks_ok ue chunks \<and>
        sent = map (upload_chunk_message uid) chunks @ last \<and>
        (last = [] \<or> last = [upload_complete_message uid] \<and> rest = []))"

lemma partial_traceI:
  "ue_body ue = Inr (concat chunks @ rest) \<Longrightarrow> chunks_ok ue chunks \<Longrightarrow>
     partial_trace ue uid (map (upload_chunk_message uid) chunks)"
  "ue_body ue = Inr (concat chunks) \<Longrightarrow> chunks_ok ue chunks \<Longrightarrow>
     partial_trace ue uid (map (upload_chunk_message uid) chunks @ [upload_complete_message uid])"
  unfolding partial_trace_def by fastforce+

lemma upload_body_trace:
  assumes out: "upload_body ue uid up n mg = (res, sent, mg')"
  shows "if isl res then partial_trace ue uid sent else complete_trace ue uid sent"
  using out
proof (cases rule: upload_body_cases)
  case refused
  then show ?thesis by (simp add: partial_trace_def)
next
  case (chunks body mg2 e)
  obtain cs rest where cs: "sent = map (upload_chunk_message uid) cs" "chunks_ok ue cs" "body = concat cs @ rest"
    using upload_chunks_sends [OF chunks(3)] by auto
  then show ?thesis
    using chunks(1, 4) partial_traceI(1) [of ue cs rest] by simp
next
  case (finish body mg2 mg3 sent1 sent2)
  obtain cs where cs: "sent1 = map (upload_chunk_message uid) cs" "chunks_ok ue cs" "body = concat cs"
    using upload_chunks_sends [OF finish(3)] by auto
  have body: "ue_body ue = Inr (concat cs)" using finish(1) cs(3) by simp
  show ?thesis
  proof (cases "isl res")
    case True
    then show ?thesis
      using upload_finish_sends [OF finish(4)] partial_traceI(2) [OF body cs(2)]
        partial_traceI(1) [of ue cs "[]"] body cs finish(5) by auto
  next
    case False
    then show ?thesis
      using upload_finish_sends [OF finish(4)] body cs finish(5) by (auto simp: complete_trace_def)
  qed
qed

text \<open>C24: an upload is complete or reported as failed.  When it succeeds, the messages handed to the
  upload connection are the body of the request cut into chunks, in order, none empty and none longer
  than the chunk size, followed by one completion message, and nothing else; when it fails, they are
  such chunks of a prefix of the body, and the completion was sent only after all of it.\<close>

theorem upload_sends_body:
  "case upload_file D ue uid auth params header mg of
      (Inr answer, sent, mg') \<Rightarrow> answer = uid \<and> complete_trace ue uid sent
    | (Inl e, sent, mg') \<Rightarrow> partial_trace ue uid sent"
proof -
  obtain bres mg1 where start: "upload_begin D uid auth params header mg = (bres, mg1)" by force
  show ?thesis
  proof (cases bres)
    case (Inl e)
    then show ?thesis using start by (simp add: upload_file_def partial_trace_def)
  next
    case (Inr p)
    obtain up n where p: "p = (up, n)" by force
    obtain res sent mg' where out: "upload_body ue uid up n (ue_waiting ue mg1) = (res, sent, mg')"
      by (cases "upload_body ue uid up n (ue_waiting ue mg1)") auto
    show ?thesis
      using start Inr p out upload_body_trace [OF out] by (cases res) (simp_all add: upload_file_def)
  qed
qed

section \<open>The session is released\<close>

definition upload_aborted :: "string \<Rightarrow> nat \<Rightarrow> 'db manager \<Rightarrow> bool" where
  "upload_aborted uid up mg \<longleftrightarrow>
     map_of (mg_uploads mg) uid = None \<and> \<not> is_online (mg_cluster_heap mg up)"

definition upload_confirmed :: "string \<Rightarrow> nat \<Rightarrow> 'db manager \<Rightarrow> bool" where
  "upload_confirmed uid up mg \<longleftrightarrow>
     map_of (mg_uploads mg) uid = None \<and> fu_complete (upload_state up mg) \<and> \<not> fu_error (upload_state up mg)"

lemma abort_upload_aborted [simp]: "upload_aborted uid up (abort_upload uid up mg)"
  by (simp add: upload_aborted_def abort_upload_def remove_file_upload_def map_of_delete is_online_def close_def)

lemma upload_chunks_aborted:
  "upload_chunks ue uid up body i total_read mg = (Inl e, sent, mg') \<Longrightarrow> upload_aborted uid up mg'"
proof (induction ue uid up body i total_read mg arbitrary: sent rule: upload_chunks.induct)
  case (1 ue uid up body i total_read mg)
  let ?mg = "ue_others ue i mg"
  note unfold = upload_chunks.simps [of ue uid up body i total_read mg]
  have more: "total_read < length body" using 1(2) unfold by (auto split: if_splits)
  show ?case
  proof (cases "drained ue False (ue_views ue i) up mg \<and> check_upload_error up ?mg = Inr ()")
    case False
    then have "mg' = abort_upload uid up ?mg"
      using 1(2) more unfold by (auto simp: Let_def check_upload_error_def split: if_splits)
    then show ?thesis by simp
  next
    case ok: True
    let ?n = "min (length body - total_read) (unat (max 1 (ue_chunk_size ue)))"
    let ?c = "take ?n (drop total_read body)"
    have d: "\<not> \<not> drained ue False (ue_views ue i) up mg" and c: "check_upload_error up ?mg = Inr ()"
      using ok by simp_all
    obtain sent' where rec: "upload_chunks ue uid up body (Suc i) (total_read + ?n)
        (with_cluster up (send_message (upload_chunk_message uid ?c)) ?mg) = (Inl e, sent', mg')"
      using 1(2) more ok unfold by (auto simp: Let_def split: prod.splits)
    show ?thesis by (rule 1(1) [OF more refl refl d c refl refl refl rec])
  qed
qed

lemma upload_finish_released:
  assumes "upload_finish ue uid up mg = (res, sent, mg')"
  shows "if isl res then upload_aborted uid up mg' else upload_confirmed uid up mg'"
proof (cases "isl res")
  case True
  have "\<exists>mg1. mg' = abort_upload uid up mg1"
    using assms True by (auto simp: upload_finish_def check_upload_error_def Let_def split: if_splits)
  then show ?thesis using True by auto
next
  case False
  let ?mg = "ue_confirming ue (with_cluster up (send_message (upload_complete_message uid)) (ue_finishing ue mg))"
  have "mg' = remove_file_upload uid ?mg" "fu_complete (upload_state up ?mg)" "\<not> fu_error (upload_state up ?mg)"
    using assms False by (auto simp: upload_finish_def check_upload_error_def Let_def split: if_splits)
  then show ?thesis
    using False by (simp add: upload_confirmed_def remove_file_upload_def map_of_delete upload_state_def)
qed

lemma create_upload_effect:
  assumes "\<not> mg_shutdown mg" "create_file_upload r uid mg = (up, mg1)"
  shows "get_file_upload uid mg1 = Some file_upload_state_new"
  using assms
  by (auto simp: create_file_upload_def Let_def get_file_upload_def map_of_update cluster_new_file_upload_def
      start_tasks_def)

lemma get_upload_sent: "get_file_upload uid (with_cluster r (send_message m) mg) = get_file_upload uid mg"
  by (simp add: get_file_upload_def send_message_def split: option.split)

lemma upload_begin_cases:
  assumes "upload_begin D uid auth params header mg = (res, mg1)"
  shows "mg1 = mg \<and> isl res \<or> (\<exists>msg n r. \<not> mg_shutdown mg \<and> (res, mg1) = request_upload uid msg n r mg)"
proof -
  have "isl (fst out) \<and> snd out = mg \<or> (\<exists>msg n r. \<not> mg_shutdown mg \<and> out = request_upload uid msg n r mg)"
    if "out = upload_begin D uid auth params header mg" for out
    unfolding that upload_begin_def by (auto split: option.split sum.split)
  from this [OF refl] show ?thesis using assms by auto
qed

text \<open>Every return of the handler after the upload was accepted.\<close>

lemma upload_body_released:
  fixes ue :: "'db upload_env"
  shows "case upload_body ue uid up n mg of
      (Inl e, sent, mg') \<Rightarrow> upload_aborted uid up mg'
    | (Inr _, sent, mg') \<Rightarrow> upload_confirmed uid up mg'"
proof -
  obtain res sent mg' where out: "upload_body ue uid up n mg = (res, sent, mg')"
    by (cases "upload_body ue uid up n mg") auto
  then show ?thesis
  proof (cases rule: upload_body_cases)
    case refused
    then show ?thesis using out by simp
  next
    case (chunks body mg1 e)
    then show ?thesis using out upload_chunks_aborted by fastforce
  next
    case (finish body mg1 mg2 sent1 sent2)
    then show ?thesis using out upload_finish_released [OF finish(4)] by (cases res) simp_all
  qed
qed

lemma upload_begin_fresh:
  assumes out: "upload_begin D uid auth params header mg = (res, mg1)"
  shows "if isl res then mg_uploads mg1 = mg_uploads mg else get_file_upload uid mg1 = Some file_upload_state_new"
  using upload_begin_cases [OF out]
proof
  assume "mg1 = mg \<and> isl res"
  then show ?thesis by simp
next
  assume "\<exists>msg n r. \<not> mg_shutdown mg \<and> (res, mg1) = request_upload uid msg n r mg"
  then obtain msg n r where on: "\<not> mg_shutdown mg" and run: "(res, mg1) = request_upload uid msg n r mg"
    by blast
  obtain up mg2 where create: "create_file_upload r uid mg = (up, mg2)" by force
  have "get_file_upload uid (with_cluster r (send_message msg) mg2) = Some file_upload_state_new"
    using create_upload_effect [OF on create] get_upload_sent [of uid r msg mg2] by simp
  then show ?thesis using run create by (simp add: request_upload_def)
qed

end
