(* ===== verification/Ssh_Client.thy ===== *)
theory Ssh_Client
  imports Cluster_State Unix_Path
begin

text \<open>
  The launch of the remote client over SSH (\<open>src/cluster/ssh.rs\<close>): the command line with its quoting,
  the order of the public-key attempts, the keyboard-interactive second factor, the execution of the
  command and the \<open>ssh\<close> invocation of the Kerberos path.  The SSH library, the server behind it, the
  file system and child processes are the parameters of type \<open>ssh_server\<close> and \<open>ssh_host\<close>.
\<close>

section \<open>Errors and answers of the server\<close>

datatype ssh_error =
    ConnectionFailed string
  | AuthenticationFailed string
  | ChannelFailed string
  | CommandFailed i32
  | IoError string

datatype hash_alg = Sha256 | Sha512 | OtherHash string

datatype preferred_rsa_hash = NotAdvertised | LegacySshRsa | Specific hash_alg

definition preferred_rsa_hash_from :: "hash_alg option option \<Rightarrow> preferred_rsa_hash" where
  "preferred_rsa_hash_from value =
     (case value of None \<Rightarrow> NotAdvertised | Some None \<Rightarrow> LegacySshRsa | Some (Some h) \<Rightarrow> Specific h)"

datatype method_kind = PublicKey | KeyboardInteractive | OtherMethod string

datatype auth_outcome = AuthSuccess | AuthFailure "method_kind list" bool

datatype keyboard_response =
    KbSuccess
  | KbFailure "method_kind list" bool
  | KbInfoRequest "string list"

datatype channel_msg = ChData bytes | ChExtendedData u32 bytes | ChExitStatus u32 | ChOther

text \<open>A session with the server: each request changes its state and is answered, or fails with the
  library's error.\<close>

record 's ssh_server =
  sv_best_rsa_hash :: "'s \<Rightarrow> (string + hash_alg option option) \<times> 's"
  sv_publickey :: "'s \<Rightarrow> string \<Rightarrow> hash_alg option \<Rightarrow> (string + auth_outcome) \<times> 's"
  sv_keyboard_start :: "'s \<Rightarrow> string \<Rightarrow> (string + keyboard_response) \<times> 's"
  sv_keyboard_respond :: "'s \<Rightarrow> string list \<Rightarrow> (string + keyboard_response) \<times> 's"
  sv_open_channel :: "'s \<Rightarrow> (string + unit) \<times> 's"
  sv_exec :: "'s \<Rightarrow> string \<Rightarrow> (string + channel_msg list) \<times> 's"

section \<open>The command line\<close>

definition escape_quote :: "char \<Rightarrow> string" where
  "escape_quote c = (if c = CHR 0x27 then [CHR 0x27, CHR 0x5C, CHR 0x27, CHR 0x27] else [c])"

definition shell_quote :: "string \<Rightarrow> string" where
  "shell_quote value = [CHR 0x27] @ concat (map escape_quote value) @ [CHR 0x27]"

definition build_remote_client_command :: "string \<Rightarrow> string \<Rightarrow> string" where
  "build_remote_client_command path token =
     ''cd '' @ shell_quote path @ '' && source env.sh && ./adacs_job_client '' @ shell_quote token"

section \<open>Authentication\<close>

definition MAX_KEYBOARD_INTERACTIVE_ROUNDS :: nat where
  "MAX_KEYBOARD_INTERACTIVE_ROUNDS = 8"

definition needs_keyboard_interactive :: "auth_outcome \<Rightarrow> bool" where
  "needs_keyboard_interactive result =
     (case result of
        AuthSuccess \<Rightarrow> False
      | AuthFailure remaining_methods partial_success \<Rightarrow>
          partial_success \<and> KeyboardInteractive \<in> set remaining_methods)"

definition empty_responses :: "string list \<Rightarrow> string list" where
  "empty_responses prompts = replicate (length prompts) ''''"

definition show_bool :: "bool \<Rightarrow> string" where
  "show_bool b = (if b then ''true'' else ''false'')"

text \<open>\<open>left\<close> are the rounds that may still be answered.  The responses sent are recorded; \<open>show\<close> is the
  debug text of a list of methods.\<close>

fun keyboard_rounds ::
    "'s ssh_server \<Rightarrow> (method_kind list \<Rightarrow> string) \<Rightarrow> nat \<Rightarrow> keyboard_response \<Rightarrow> 's \<Rightarrow>
     (ssh_error + unit) \<times> string list list \<times> 's" where
  "keyboard_rounds sv show left KbSuccess s = (Inr (), [], s)"
| "keyboard_rounds sv show left (KbFailure methods partial_success) s =
     (Inl (AuthenticationFailed (''keyboard-interactive rejected (partial success: '' @
        show_bool partial_success @ '', server continues with: '' @ show methods @ '')'')), [], s)"
| "keyboard_rounds sv show 0 (KbInfoRequest prompts) s =
     (Inl (AuthenticationFailed (''keyboard-interactive did not finish after '' @
        show_nat MAX_KEYBOARD_INTERACTIVE_ROUNDS @ '' rounds'')), [], s)"
| "keyboard_rounds sv show (Suc left) (KbInfoRequest prompts) s =
     (case sv_keyboard_respond sv s (empty_responses prompts) of
        (Inl e, s) \<Rightarrow>
          (Inl (AuthenticationFailed (''keyboard-interactive response failed: '' @ e)),
           [empty_responses prompts], s)
      | (Inr response, s) \<Rightarrow>
          (let (res, sent, s) = keyboard_rounds sv show left response s
           in (res, empty_responses prompts # sent, s)))"

definition complete_keyboard_interactive ::
    "'s ssh_server \<Rightarrow> (method_kind list \<Rightarrow> string) \<Rightarrow> string \<Rightarrow> 's \<Rightarrow>
     (ssh_error + unit) \<times> string list list \<times> 's" where
  "complete_keyboard_interactive sv show username s =
     (case sv_keyboard_start sv s username of
        (Inl e, s) \<Rightarrow>
          (Inl (AuthenticationFailed (''keyboard-interactive start failed: '' @ e)), [], s)
      | (Inr response, s) \<Rightarrow> keyboard_rounds sv show MAX_KEYBOARD_INTERACTIVE_ROUNDS response s)"

definition push_new :: "'a list \<Rightarrow> 'a \<Rightarrow> 'a list" where
  "push_new attempts fallback = (if fallback \<in> set attempts then attempts else attempts @ [fallback])"

definition authentication_hash_attempts :: "bool \<Rightarrow> preferred_rsa_hash \<Rightarrow> hash_alg option list" where
  "authentication_hash_attempts is_rsa preferred_hash =
     (if \<not> is_rsa then [None]
      else
        foldl push_new
          (case preferred_hash of NotAdvertised \<Rightarrow> [] | LegacySshRsa \<Rightarrow> [None] | Specific h \<Rightarrow> [Some h])
          [Some Sha512, Some Sha256, None])"

fun try_hashes ::
    "'s ssh_server \<Rightarrow> (method_kind list \<Rightarrow> string) \<Rightarrow> string \<Rightarrow> string option \<Rightarrow> hash_alg option list \<Rightarrow> 's \<Rightarrow>
     (ssh_error + unit) \<times> 's" where
  "try_hashes sv show username last_failure [] s =
     (Inl (AuthenticationFailed (case last_failure of None \<Rightarrow> ''Public key authentication failed'' | Some m \<Rightarrow> m)), s)"
| "try_hashes sv show username last_failure (h # hs) s =
     (case sv_publickey sv s username h of
        (Inl e, s) \<Rightarrow> (Inl (ConnectionFailed e), s)
      | (Inr AuthSuccess, s) \<Rightarrow> (Inr (), s)
      | (Inr (AuthFailure methods partial_success), s) \<Rightarrow>
          if needs_keyboard_interactive (AuthFailure methods partial_success) then
            (let (res, _, s) = complete_keyboard_interactive sv show username s in (res, s))
          else
            try_hashes sv show username
              (Some (''Public key authentication failed (partial success: '' @ show_bool partial_success @
                '', server continues with: '' @ show methods @ '')'')) hs s)"

definition authenticate_public_key ::
    "'s ssh_server \<Rightarrow> (method_kind list \<Rightarrow> string) \<Rightarrow> string \<Rightarrow> bool \<Rightarrow> 's \<Rightarrow> (ssh_error + unit) \<times> 's" where
  "authenticate_public_key sv show username is_rsa s =
     (case sv_best_rsa_hash sv s of
        (Inl e, s) \<Rightarrow> (Inl (ConnectionFailed e), s)
      | (Inr best, s) \<Rightarrow>
          try_hashes sv show username None
            (authentication_hash_attempts is_rsa (preferred_rsa_hash_from best)) s)"

section \<open>Running the command\<close>

fun last_exit_status :: "u32 option \<Rightarrow> channel_msg list \<Rightarrow> u32 option" where
  "last_exit_status exit_code [] = exit_code"
| "last_exit_status exit_code (ChExitStatus exit_status # ms) = last_exit_status (Some exit_status) ms"
| "last_exit_status exit_code (m # ms) = last_exit_status exit_code ms"

definition execute_command :: "'s ssh_server \<Rightarrow> string \<Rightarrow> 's \<Rightarrow> (ssh_error + u32) \<times> 's" where
  "execute_command sv command s =
     (case sv_open_channel sv s of
        (Inl e, s) \<Rightarrow> (Inl (ChannelFailed e), s)
      | (Inr _, s) \<Rightarrow>
          (case sv_exec sv s command of
             (Inl e, s) \<Rightarrow> (Inl (ChannelFailed e), s)
           | (Inr msgs, s) \<Rightarrow>
               (case last_exit_status None msgs of
                  None \<Rightarrow>
                    (Inl (ChannelFailed ''SSH channel closed without providing an exit status''), s)
                | Some exit_code \<Rightarrow> (Inr exit_code, s))))"

text \<open>What the launch uses of the machine it runs on: \<open>ho_read\<close> reads a file that exists, \<open>ho_decode_key\<close>
  parses a private key and says whether it is an RSA key, \<open>ho_connect\<close> opens the session, and
  \<open>ho_ssh\<close> runs \<open>ssh\<close> with a keytab and returns its exit code, if it has one.\<close>

record 's ssh_host =
  ho_read :: "string \<Rightarrow> (string + string) option"
  ho_decode_key :: "string \<Rightarrow> string + bool"
  ho_connect :: "string \<Rightarrow> string + 's"
  ho_decode_keytab :: "string \<Rightarrow> string + string"
  ho_temp_dir :: "string + string"
  ho_write_keytab :: "string \<Rightarrow> string \<Rightarrow> string + unit"
  ho_ssh :: "string list \<Rightarrow> string \<Rightarrow> string + i32 option"

definition load_private_key :: "'s ssh_host \<Rightarrow> string \<Rightarrow> ssh_error + bool" where
  "load_private_key ho key_source =
     (case (case ho_read ho key_source of None \<Rightarrow> Inr key_source | Some text \<Rightarrow> text) of
        Inl e \<Rightarrow> Inl (IoError e)
      | Inr key_text \<Rightarrow>
          (case ho_decode_key ho key_text of
             Inl e \<Rightarrow> Inl (AuthenticationFailed (''Failed to parse key: '' @ e))
           | Inr is_rsa \<Rightarrow> Inr is_rsa))"

definition run_via_ssh ::
    "'s ssh_host \<Rightarrow> 's ssh_server \<Rightarrow> (method_kind list \<Rightarrow> string) \<Rightarrow> cluster_config \<Rightarrow> string \<Rightarrow> ssh_error + unit" where
  "run_via_ssh ho sv show config token =
     (case load_private_key ho (cc_key config) of
        Inl e \<Rightarrow> Inl e
      | Inr is_rsa \<Rightarrow>
          (case ho_connect ho (cc_host config) of
             Inl e \<Rightarrow> Inl (ConnectionFailed e)
           | Inr s \<Rightarrow>
               (case authenticate_public_key sv show (cc_username config) is_rsa s of
                  (Inl e, s) \<Rightarrow> Inl e
                | (Inr _, s) \<Rightarrow>
                    (case execute_command sv (build_remote_client_command (cc_path config) token) s of
                       (Inl e, s) \<Rightarrow> Inl e
                     | (Inr exit_code, s) \<Rightarrow>
                         if exit_code \<noteq> 0 then Inl (CommandFailed (ucast exit_code)) else Inr ()))))"

definition kerberos_ssh_args :: "string \<Rightarrow> string \<Rightarrow> string \<Rightarrow> string list" where
  "kerberos_ssh_args login host remote_cmd =
     [''-o'', ''GSSAPIAuthentication=yes'', ''-o'', ''GSSAPIKeyExchange=yes'', ''-o'', ''StrictHostKeyChecking=no'',
      ''-o'', ''GSSAPIDelegateCredentials=no'', ''-l'', login, host, remote_cmd]"

definition run_via_kerberos :: "'s ssh_host \<Rightarrow> cluster_config \<Rightarrow> string \<Rightarrow> ssh_error + unit" where
  "run_via_kerberos ho config token =
     (case ho_temp_dir ho of
        Inl e \<Rightarrow> Inl (IoError e)
      | Inr tmp_dir \<Rightarrow>
          (let keytab_path = path_push tmp_dir ''krb5.keytab'' in
           case (case ho_read ho (cc_keytab config) of
                   Some text \<Rightarrow> map_sum IoError id text
                 | None \<Rightarrow>
                     map_sum (\<lambda>e. AuthenticationFailed (''Failed to decode keytab: '' @ e)) id
                       (ho_decode_keytab ho (cc_keytab config))) of
             Inl e \<Rightarrow> Inl e
           | Inr keytab_content \<Rightarrow>
               (case ho_write_keytab ho keytab_path keytab_content of
                  Inl e \<Rightarrow> Inl (IoError e)
                | Inr _ \<Rightarrow>
                    (let login = (if cc_kerberos_principal config = '''' then cc_username config
                                  else cc_kerberos_principal config);
                         remote_cmd = build_remote_client_command (cc_path config) token
                     in case ho_ssh ho (kerberos_ssh_args login (cc_host config) remote_cmd) keytab_path of
                          Inl e \<Rightarrow> Inl (IoError e)
                        | Inr status \<Rightarrow>
                            (let exit_code = (case status of None \<Rightarrow> -1 | Some i \<Rightarrow> i)
                             in if status \<noteq> Some 0 then Inl (CommandFailed exit_code) else Inr ())))))"

definition CONNECTION_TYPE_KERBEROS :: string where
  "CONNECTION_TYPE_KERBEROS = ''kerberos''"

definition run_remote_client ::
    "'s ssh_host \<Rightarrow> 's ssh_server \<Rightarrow> (method_kind list \<Rightarrow> string) \<Rightarrow> cluster_config \<Rightarrow> string \<Rightarrow> ssh_error + unit" where
  "run_remote_client ho sv show config token =
     (if cc_connection_type config = CONNECTION_TYPE_KERBEROS then run_via_kerberos ho config token
      else run_via_ssh ho sv show config token)"

section \<open>The quoted command is read back literally\<close>

text \<open>The reference: how a POSIX shell splits a command line into words and operators, for lines without
  expansions.  A single quote makes everything up to the next one literal, a backslash the next
  character.  A character that the shell would interpret outside quotes in any other way has no
  reading.\<close>

datatype shell_token = ShWord string | ShAnd

definition shell_special :: "char \<Rightarrow> bool" where
  "shell_special c \<longleftrightarrow> c \<in> set (''|;<>()$`*?[]#~=%{}!^'' @ [CHR 0x22, CHR 0x09, CHR 0x0A, CHR 0x0D])"

definition end_word :: "string option \<Rightarrow> shell_token list \<Rightarrow> shell_token list" where
  "end_word w ts = (case w of None \<Rightarrow> ts | Some s \<Rightarrow> ShWord s # ts)"

definition extend_word :: "string option \<Rightarrow> char \<Rightarrow> string" where
  "extend_word w c = (case w of None \<Rightarrow> [c] | Some s \<Rightarrow> s @ [c])"

definition open_word :: "string option \<Rightarrow> string" where
  "open_word w = (case w of None \<Rightarrow> '''' | Some s \<Rightarrow> s)"

text \<open>\<open>w\<close> is the word being read, if any, and \<open>q\<close> whether inside quotes.\<close>

fun shell_tokens :: "bool \<Rightarrow> string option \<Rightarrow> string \<Rightarrow> shell_token list option" where
  "shell_tokens True w [] = None"
| "shell_tokens False w [] = Some (end_word w [])"
| "shell_tokens True w (c # cs) =
     (if c = CHR 0x27 then shell_tokens False w cs else shell_tokens True (Some (extend_word w c)) cs)"
| "shell_tokens False w (c # cs) =
     (if c = CHR 0x27 then shell_tokens True (Some (open_word w)) cs
      else if c = CHR 0x5C then
        (case cs of [] \<Rightarrow> None | d # ds \<Rightarrow> shell_tokens False (Some (extend_word w d)) ds)
      else if c = CHR '' '' then map_option (end_word w) (shell_tokens False None cs)
      else if c = CHR ''&'' then
        (case cs of
           [] \<Rightarrow> None
         | d # ds \<Rightarrow>
             if d = CHR ''&'' then map_option (\<lambda>ts. end_word w (ShAnd # ts)) (shell_tokens False None ds)
             else None)
      else if shell_special c then None
      else shell_tokens False (Some (extend_word w c)) cs)"

lemma shell_quoted_char:
  "shell_tokens True (Some s) (escape_quote c @ rest) = shell_tokens True (Some (s @ [c])) rest"
  by (simp add: escape_quote_def extend_word_def open_word_def)

lemma shell_quoted_body:
  "shell_tokens True (Some s) (concat (map escape_quote v) @ rest) =
     shell_tokens True (Some (s @ v)) rest"
proof (induction v arbitrary: s)
  case (Cons c cs)
  then show ?case using shell_quoted_char [of s c "concat (map escape_quote cs) @ rest"] by simp
qed simp

lemma shell_quote_read:
  "shell_tokens False None (shell_quote v @ rest) = shell_tokens False (Some v) rest"
  using shell_quoted_body [where s = "[]" and v = v and rest = "CHR 0x27 # rest"]
  by (simp add: shell_quote_def open_word_def)

lemma remote_command_words:
  "shell_tokens False None (build_remote_client_command path token) =
     Some [ShWord ''cd'', ShWord path, ShAnd, ShWord ''source'', ShWord ''env.sh'', ShAnd,
       ShWord ''./adacs_job_client'', ShWord token]"
proof -
  have last: "shell_tokens False None (shell_quote token) = Some [ShWord token]"
    using shell_quote_read [of token "''''"] by (simp add: end_word_def)
  have mid: "shell_tokens False (Some path) ('' && source env.sh && ./adacs_job_client '' @ shell_quote token) =
      Some [ShWord path, ShAnd, ShWord ''source'', ShWord ''env.sh'', ShAnd,
        ShWord ''./adacs_job_client'', ShWord token]"
    using last by (simp add: end_word_def extend_word_def shell_special_def)
  have "shell_tokens False None (''cd '' @ x) =
      map_option (end_word (Some ''cd'')) (shell_tokens False None x)" for x
    by (simp add: extend_word_def shell_special_def)
  then show ?thesis
    using mid by (simp only: build_remote_client_command_def shell_quote_read append_assoc)
      (simp add: end_word_def)
qed

text \<open>C39: nothing in a configured path or a token is interpreted by the remote shell.  For every path and
  token, whatever characters they contain, the command line is read by a POSIX shell as exactly the
  commands the program means, with the path and the token each as one literal word.\<close>

theorem remote_command_literal:
  "shell_tokens False None (build_remote_client_command path token) =
     Some [ShWord ''cd'', ShWord path, ShAnd, ShWord ''source'', ShWord ''env.sh'', ShAnd,
       ShWord ''./adacs_job_client'', ShWord token]"
  by (rule remote_command_words)

section \<open>The second factor\<close>

text \<open>The reference: what the server says after it was answered \<open>n\<close> times with empty responses, provided it
  prompted each time.\<close>

fun kb_after :: "'s ssh_server \<Rightarrow> nat \<Rightarrow> keyboard_response \<Rightarrow> 's \<Rightarrow> (keyboard_response \<times> 's) option" where
  "kb_after sv 0 response s = Some (response, s)"
| "kb_after sv (Suc n) (KbInfoRequest prompts) s =
     (case sv_keyboard_respond sv s (replicate (length prompts) '''') of
        (Inl e, s') \<Rightarrow> None
      | (Inr response, s') \<Rightarrow> kb_after sv n response s')"
| "kb_after sv (Suc n) response s = None"

lemma keyboard_rounds_iff:
  "fst (keyboard_rounds sv show left response s) = Inr () \<longleftrightarrow>
     (\<exists>n \<le> left. \<exists>s'. kb_after sv n response s = Some (KbSuccess, s'))"
proof (induction sv "show" left response s rule: keyboard_rounds.induct)
  case (1 sv sh left s)
  then show ?case by (auto intro!: exI [of _ 0])
next
  case (2 sv sh left ms ps s)
  have "kb_after sv n (KbFailure ms ps) s \<noteq> Some (KbSuccess, s')" for n s' by (cases n) simp_all
  then show ?case by simp
next
  case (3 sv sh prompts s)
  then show ?case by simp
next
  case (4 sv sh left prompts s)
  obtain r s1 where a: "sv_keyboard_respond sv s (empty_responses prompts) = (r, s1)" by force
  have step: "(\<exists>n \<le> Suc left. \<exists>s'. kb_after sv n (KbInfoRequest prompts) s = Some (KbSuccess, s')) \<longleftrightarrow>
      (\<exists>n \<le> left. \<exists>s'. kb_after sv (Suc n) (KbInfoRequest prompts) s = Some (KbSuccess, s'))"
    by (metis Suc_le_mono keyboard_response.distinct(3) kb_after.simps(1) not0_implies_Suc option.inject prod.inject)
  show ?case
  proof (cases r)
    case (Inl e)
    then show ?thesis using a unfolding step by (simp add: empty_responses_def)
  next
    case (Inr response)
    then show ?thesis
      using 4 [OF a [symmetric], of response] a unfolding step
      by (simp add: empty_responses_def case_prod_beta)
  qed
qed

lemma keyboard_rounds_bounded:
  "length (fst (snd (keyboard_rounds sv show left response s))) \<le> left \<and>
   list_all (list_all (\<lambda>x. x = '''')) (fst (snd (keyboard_rounds sv show left response s)))"
proof (induction sv "show" left response s rule: keyboard_rounds.induct)
  case (4 sv sh left prompts s)
  obtain r s1 where a: "sv_keyboard_respond sv s (empty_responses prompts) = (r, s1)" by force
  show ?case
    using 4 [OF a [symmetric]] a
    by (cases r) (auto simp: case_prod_beta empty_responses_def list_all_iff)
qed simp_all

text \<open>The second factor ends, and succeeds exactly when it can.  Whatever the server does, at most eight
  rounds are answered, every prompt with the empty response, and the login succeeds exactly if the
  server accepts after some number of rounds, at most eight, in each of which it prompted.\<close>

theorem keyboard_interactive_exact:
  "let (res, sent, s') = complete_keyboard_interactive sv show username s in
     length sent \<le> 8 \<and> list_all (list_all (\<lambda>x. x = '''')) sent \<and>
     (res = Inr () \<longleftrightarrow>
        (case sv_keyboard_start sv s username of
           (Inl e, _) \<Rightarrow> False
         | (Inr response, s0) \<Rightarrow>
             (\<exists>n s''. n \<le> 8 \<and> kb_after sv n response s0 = Some (KbSuccess, s''))))"
proof -
  obtain r s0 where start: "sv_keyboard_start sv s username = (r, s0)" by force
  show ?thesis
  proof (cases r)
    case (Inl e)
    then show ?thesis using start by (simp add: complete_keyboard_interactive_def)
  next
    case (Inr response)
    then show ?thesis
      using start keyboard_rounds_iff [of sv "show" 8 response s0]
        keyboard_rounds_bounded [of sv "show" 8 response s0]
      by (auto simp: complete_keyboard_interactive_def MAX_KEYBOARD_INTERACTIVE_ROUNDS_def case_prod_beta)
  qed
qed

section \<open>The order of the attempts\<close>

definition preferred_attempts :: "preferred_rsa_hash \<Rightarrow> hash_alg option list" where
  "preferred_attempts p =
     (case p of NotAdvertised \<Rightarrow> [] | LegacySshRsa \<Rightarrow> [None] | Specific h \<Rightarrow> [Some h])"

text \<open>Which signatures are tried.  A key that is not RSA is tried once; an RSA key first with the
  algorithm the server prefers, if it names one, then with SHA-512, SHA-256 and the legacy algorithm,
  each algorithm once.\<close>

theorem hash_attempts_exact:
  "authentication_hash_attempts is_rsa p =
     (if is_rsa then preferred_attempts p @
        filter (\<lambda>h. h \<notin> set (preferred_attempts p)) [Some Sha512, Some Sha256, None]
      else [None]) \<and>
   distinct (authentication_hash_attempts is_rsa p)"
  by (cases p) (auto simp: authentication_hash_attempts_def preferred_attempts_def push_new_def)

section \<open>Who is logged in\<close>

text \<open>The state after the server plainly refused each of the attempts, without asking for a second factor.\<close>

fun refused_all :: "'s ssh_server \<Rightarrow> string \<Rightarrow> hash_alg option list \<Rightarrow> 's \<Rightarrow> 's option" where
  "refused_all sv username [] s = Some s"
| "refused_all sv username (h # hs) s =
     (case sv_publickey sv s username h of
        (Inr (AuthFailure methods partial_success), s') \<Rightarrow>
          if partial_success \<and> KeyboardInteractive \<in> set methods then None else refused_all sv username hs s'
      | _ \<Rightarrow> None)"

text \<open>One attempt that ends the search, with success.\<close>

definition attempt_succeeds ::
    "'s ssh_server \<Rightarrow> (method_kind list \<Rightarrow> string) \<Rightarrow> string \<Rightarrow> 's \<Rightarrow> hash_alg option \<Rightarrow> bool" where
  "attempt_succeeds sv show username s h \<longleftrightarrow>
     (case sv_publickey sv s username h of
        (Inl _, _) \<Rightarrow> False
      | (Inr AuthSuccess, _) \<Rightarrow> True
      | (Inr (AuthFailure methods partial_success), s') \<Rightarrow>
          partial_success \<and> KeyboardInteractive \<in> set methods \<and>
          fst (complete_keyboard_interactive sv show username s') = Inr ())"

lemma split_Cons_iff:
  "(\<exists>hs1 h' hs2. h # hs = hs1 @ h' # hs2 \<and> P hs1 h') \<longleftrightarrow>
     P [] h \<or> (\<exists>hs1 h' hs2. hs = hs1 @ h' # hs2 \<and> P (h # hs1) h')"
proof
  assume "\<exists>hs1 h' hs2. h # hs = hs1 @ h' # hs2 \<and> P hs1 h'"
  then obtain hs1 h' hs2 where d: "h # hs = hs1 @ h' # hs2" "P hs1 h'" by blast
  show "P [] h \<or> (\<exists>hs1 h' hs2. hs = hs1 @ h' # hs2 \<and> P (h # hs1) h')"
  proof (cases hs1)
    case Nil
    then show ?thesis using d by simp
  next
    case (Cons x xs)
    then have "hs = xs @ h' # hs2" "P (h # xs) h'" using d by auto
    then show ?thesis by blast
  qed
next
  assume "P [] h \<or> (\<exists>hs1 h' hs2. hs = hs1 @ h' # hs2 \<and> P (h # hs1) h')"
  then show "\<exists>hs1 h' hs2. h # hs = hs1 @ h' # hs2 \<and> P hs1 h'"
    by (metis append_Cons append_Nil)
qed

lemma try_hashes_iff:
  "fst (try_hashes sv show username failure hs s) = Inr () \<longleftrightarrow>
     (\<exists>hs1 h hs2. hs = hs1 @ h # hs2 \<and>
        (case refused_all sv username hs1 s of None \<Rightarrow> False | Some s1 \<Rightarrow> attempt_succeeds sv show username s1 h))"
proof (induction hs arbitrary: failure s)
  case Nil
  then show ?case by simp
next
  case (Cons h hs)
  obtain r s1 where a: "sv_publickey sv s username h = (r, s1)" by force
  let ?P = "\<lambda>hs1 h'. case refused_all sv username hs1 s of None \<Rightarrow> False
    | Some s1 \<Rightarrow> attempt_succeeds sv show username s1 h'"
  note split = split_Cons_iff [of h hs ?P]
  show ?case
  proof (cases r)
    case (Inl e)
    then show ?thesis using a unfolding split by (simp add: attempt_succeeds_def)
  next
    case (Inr out)
    show ?thesis
    proof (cases out)
      case AuthSuccess
      then show ?thesis using a Inr unfolding split by (simp add: attempt_succeeds_def)
    next
      case (AuthFailure ms partial)
      then show ?thesis
        using a Inr Cons.IH [of _ s1] unfolding split
        by (cases "partial \<and> KeyboardInteractive \<in> set ms")
          (auto simp: attempt_succeeds_def needs_keyboard_interactive_def case_prod_beta)
    qed
  qed
qed

text \<open>A login succeeds exactly when the server admits it.  That is so if, after the server plainly
  refused the attempts before it, some attempt with the key is accepted outright, or is accepted as a
  first factor whose keyboard-interactive second factor then succeeds; after such a first factor no
  other attempt is made.\<close>

theorem public_key_login_exact:
  "fst (authenticate_public_key sv show username is_rsa s) = Inr () \<longleftrightarrow>
     (case sv_best_rsa_hash sv s of
        (Inl e, _) \<Rightarrow> False
      | (Inr best, s0) \<Rightarrow>
          (\<exists>hs1 h hs2. authentication_hash_attempts is_rsa (preferred_rsa_hash_from best) = hs1 @ h # hs2 \<and>
             (case refused_all sv username hs1 s0 of
                None \<Rightarrow> False
              | Some s1 \<Rightarrow> attempt_succeeds sv show username s1 h)))"
proof -
  obtain r s0 where "sv_best_rsa_hash sv s = (r, s0)" by force
  then show ?thesis
    by (cases r) (simp_all add: authenticate_public_key_def try_hashes_iff)
qed

section \<open>A launch that is reported as successful\<close>

lemma execute_command_Inr:
  "execute_command sv command s = (Inr code, s') \<Longrightarrow>
     \<exists>s1 msgs. sv_exec sv s1 command = (Inr msgs, s') \<and> last_exit_status None msgs = Some code"
  by (auto simp: execute_command_def split: prod.splits sum.splits option.splits)

text \<open>Success means that the client ran.  When the launch reports success, the command for the
  configured path and the given token was executed, over SSH after a successful login of the configured
  user, or by the local \<open>ssh\<close> with the keytab, and ended with exit status zero.\<close>

theorem remote_client_ran:
  assumes "run_remote_client ho sv show config token = Inr ()"
  shows "if cc_connection_type config = ''kerberos'' then
      (\<exists>login keytab. ho_ssh ho (kerberos_ssh_args login (cc_host config)
          (build_remote_client_command (cc_path config) token)) keytab = Inr (Some 0) \<and>
        login = (if cc_kerberos_principal config = '''' then cc_username config else cc_kerberos_principal config))
    else
      (\<exists>s is_rsa s1 s2 s3 msgs. ho_connect ho (cc_host config) = Inr s \<and>
        authenticate_public_key sv show (cc_username config) is_rsa s = (Inr (), s1) \<and>
        sv_exec sv s2 (build_remote_client_command (cc_path config) token) = (Inr msgs, s3) \<and>
        last_exit_status None msgs = Some 0)"
proof (cases "cc_connection_type config = ''kerberos''")
  case True
  then show ?thesis
    using assms
    by (auto simp: run_remote_client_def CONNECTION_TYPE_KERBEROS_def run_via_kerberos_def Let_def
        split: sum.splits option.splits if_splits)
next
  case False
  then have run: "run_via_ssh ho sv show config token = Inr ()"
    using assms by (simp add: run_remote_client_def CONNECTION_TYPE_KERBEROS_def)
  obtain is_rsa s where k: "load_private_key ho (cc_key config) = Inr is_rsa"
    "ho_connect ho (cc_host config) = Inr s"
    using run by (auto simp: run_via_ssh_def split: sum.splits)
  obtain ar s1 where a: "authenticate_public_key sv show (cc_username config) is_rsa s = (ar, s1)" by force
  obtain er s3 where e: "execute_command sv (build_remote_client_command (cc_path config) token) s1 = (er, s3)"
    by force
  have "ar = Inr ()" "er = Inr 0"
    using run k a e by (auto simp: run_via_ssh_def split: sum.splits if_splits)
  with False k a e show ?thesis
    using execute_command_Inr [of sv _ s1 0 s3] by auto metis
qed

definition demo_server :: "unit ssh_server" where
  "demo_server =
     \<lparr>sv_best_rsa_hash = (\<lambda>s. (Inr None, s)), sv_publickey = (\<lambda>s _ _. (Inr AuthSuccess, s)),
      sv_keyboard_start = (\<lambda>s _. (Inr KbSuccess, s)), sv_keyboard_respond = (\<lambda>s _. (Inr KbSuccess, s)),
      sv_open_channel = (\<lambda>s. (Inr (), s)),
      sv_exec = (\<lambda>s _. (Inr [ChData [104], ChExitStatus 1, ChOther, ChExitStatus 0], s))\<rparr>"

definition demo_host :: "unit ssh_host" where
  "demo_host =
     \<lparr>ho_read = (\<lambda>_. None), ho_decode_key = (\<lambda>_. Inr False), ho_connect = (\<lambda>_. Inr ()),
      ho_decode_keytab = Inr, ho_temp_dir = Inr ''/tmp'', ho_write_keytab = (\<lambda>_ _. Inr ()),
      ho_ssh = (\<lambda>_ _. Inr (Some 0))\<rparr>"

theorem remote_client_ran_witness:
  "\<exists>s2 msgs s3. sv_exec demo_server s2 (build_remote_client_command ''/p'' ''t'') = (Inr msgs, s3) \<and>
     last_exit_status None msgs = Some 0"
proof -
  have type: "cc_connection_type demo_config = ''ssh''" and path: "cc_path demo_config = ''/p''"
    by (simp_all add: demo_config_def)
  have "run_remote_client demo_host demo_server (\<lambda>_. '''') demo_config ''t'' = Inr ()"
    by (simp add: run_remote_client_def CONNECTION_TYPE_KERBEROS_def type run_via_ssh_def load_private_key_def
        demo_host_def demo_server_def authenticate_public_key_def authentication_hash_attempts_def
        execute_command_def)
  from remote_client_ran [OF this] show ?thesis using type path by auto
qed

end
