(* ===== verification/Ws_Server.thy ===== *)
theory Ws_Server
  imports Http_File
begin

text \<open>
  The handler of one WebSocket connection (\<open>src/websocket/server.rs\<close>): the token of the upgrade request,
  admission, the forwarder of outbound frames, the read loop with its close handshake, and what every
  exit does to the registries and to the download session.  The events the loop sees, the transport's
  and those of the rest of the program between them, are a list.
\<close>

section \<open>Events\<close>

datatype ws_frame = WfBinary bytes | WfPong | WfClose | WfText string | WfPing bytes

datatype 'db socket_event =
    Frame ws_frame
  | ReadFailed string
  | EndOfStream
  | CloseInitiated
  | GraceExpired
  | Elsewhere "'db http_state \<Rightarrow> 'db http_state"

datatype handler_exit_reason =
    GracefulCloseAcked | PeerClose | PeerEof | ReadError | WriteError | ForcedFallback | Inactivity | MissedPong

datatype ws_log = ForcedFallbackWarning connection_id | ClosedConnection string connection_id nat nat

text \<open>\<open>NEXT_CONNECTION_ID\<close> is a counter that wraps.\<close>

definition generate_connection_id :: "u64 \<Rightarrow> connection_id \<times> u64" where
  "generate_connection_id counter = (counter, counter + 1)"

definition extract_token_from_headers :: "string option \<Rightarrow> string" where
  "extract_token_from_headers authorization =
     (case authorization of None \<Rightarrow> '''' | Some header \<Rightarrow> bearer_token header)"

section \<open>The exit guard\<close>

record exit_guard =
  eg_session :: "nat option"
  eg_connection :: "connection_id option"
  eg_cluster_name :: string
  eg_conn_id :: connection_id
  eg_sent :: nat
  eg_received :: nat
  eg_closed_emitted :: bool
  eg_fallback_emitted :: bool
  eg_fallback :: bool

definition exit_guard_new ::
    "nat option \<Rightarrow> connection_id option \<Rightarrow> string \<Rightarrow> connection_id \<Rightarrow> nat \<Rightarrow> nat \<Rightarrow> exit_guard" where
  "exit_guard_new session connection name cid sent received =
     \<lparr>eg_session = session, eg_connection = connection, eg_cluster_name = name, eg_conn_id = cid,
      eg_sent = sent, eg_received = received, eg_closed_emitted = False, eg_fallback_emitted = False,
      eg_fallback = False\<rparr>"

definition force_fallback :: "exit_guard \<Rightarrow> exit_guard" where
  "force_fallback g = g\<lparr>eg_fallback := True\<rparr>"

definition mark_closed_emitted :: "exit_guard \<Rightarrow> exit_guard" where
  "mark_closed_emitted g = g\<lparr>eg_closed_emitted := True\<rparr>"

definition guard_complete :: "exit_guard \<Rightarrow> 'db manager \<Rightarrow> 'db manager" where
  "guard_complete g mg =
     (case (eg_session g, eg_connection g) of
        (Some s, Some cid) \<Rightarrow> with_session s (\<lambda>x. snd (session_complete (Some cid) x)) mg
      | _ \<Rightarrow> mg)"

definition emit_forced_fallback_warning :: "exit_guard \<Rightarrow> ws_log list \<times> exit_guard" where
  "emit_forced_fallback_warning g =
     (if eg_fallback_emitted g then ([], g)
      else ([ForcedFallbackWarning (eg_conn_id g)], g\<lparr>eg_fallback_emitted := True\<rparr>))"

definition emit_closed_event :: "exit_guard \<Rightarrow> ws_log list \<times> exit_guard" where
  "emit_closed_event g =
     (if eg_closed_emitted g then ([], g)
      else ([ClosedConnection (eg_cluster_name g) (eg_conn_id g) (eg_received g) (eg_sent g)],
            g\<lparr>eg_closed_emitted := True\<rparr>))"

definition drop_guard :: "exit_guard \<Rightarrow> 'db manager \<Rightarrow> ws_log list \<times> 'db manager" where
  "drop_guard g mg =
     (let (warned, g) = (if eg_fallback g then emit_forced_fallback_warning g else ([], g));
          mg = guard_complete g mg;
          (closed, g) = emit_closed_event g
      in (warned @ closed, mg))"

section \<open>The forwarder\<close>

text \<open>\<open>ok i\<close> says whether the sink accepts the \<open>i\<close>-th message.  The results are the frames written, the
  count kept for the log and whether the read loop was told of a close.\<close>

fun forwarder :: "(nat \<Rightarrow> bool) \<Rightarrow> nat \<Rightarrow> ws_outbound list \<Rightarrow> ws_outbound list \<times> nat \<times> bool" where
  "forwarder ok message_count [] = ([], message_count, False)"
| "forwarder ok message_count (outbound # rest) =
     (if \<not> ok message_count then ([], message_count + 1, False)
      else if outbound = WsClose then ([outbound], message_count + 1, True)
      else (let (frames, n, closing) = forwarder ok (message_count + 1) rest in (outbound # frames, n, closing)))"

section \<open>The read loop\<close>

text \<open>\<open>ev n\<close> is the environment of the \<open>n\<close>-th message received.  \<open>None\<close> means that the loop waits.\<close>

definition on_manager :: "('db manager \<Rightarrow> 'db manager) \<Rightarrow> 'db http_state \<Rightarrow> 'db http_state" where
  "on_manager f hs = hs\<lparr>hs_manager := f (hs_manager hs)\<rparr>"

fun handle_frame ::
    "'db database \<Rightarrow> env \<Rightarrow> connection_id \<Rightarrow> nat \<Rightarrow> ws_frame \<Rightarrow> 'db http_state \<Rightarrow> 'db http_state" where
  "handle_frame D ev cid r (WfBinary data) hs = hand_message D ev (message_from_bytes data) r hs"
| "handle_frame D ev cid r WfPong hs = on_manager (handle_pong (ev_now ev) cid) hs"
| "handle_frame D ev cid r _ hs = hs"

fun read_loop ::
    "'db database \<Rightarrow> (nat \<Rightarrow> env) \<Rightarrow> connection_id \<Rightarrow> nat \<Rightarrow> bool \<Rightarrow> nat \<Rightarrow> 'db socket_event list \<Rightarrow>
     'db http_state \<Rightarrow> handler_exit_reason option \<times> nat \<times> 'db http_state" where
  "read_loop D ev cid r server_close received [] hs = (None, received, hs)"
| "read_loop D ev cid r server_close received (Elsewhere f # es) hs =
     read_loop D ev cid r server_close received es (f hs)"
| "read_loop D ev cid r True received (Frame f # es) hs =
     (if f = WfClose then (Some GracefulCloseAcked, received, hs)
      else read_loop D ev cid r True received es hs)"
| "read_loop D ev cid r True received (ReadFailed e # es) hs = (Some GracefulCloseAcked, received, hs)"
| "read_loop D ev cid r True received (EndOfStream # es) hs = (Some GracefulCloseAcked, received, hs)"
| "read_loop D ev cid r True received (GraceExpired # es) hs = (Some ForcedFallback, received, hs)"
| "read_loop D ev cid r True received (CloseInitiated # es) hs = read_loop D ev cid r True received es hs"
| "read_loop D ev cid r False received (CloseInitiated # es) hs = read_loop D ev cid r True received es hs"
| "read_loop D ev cid r False received (GraceExpired # es) hs = read_loop D ev cid r False received es hs"
| "read_loop D ev cid r False received (EndOfStream # es) hs = (Some PeerEof, received, hs)"
| "read_loop D ev cid r False received (ReadFailed e # es) hs = (Some ReadError, received + 1, hs)"
| "read_loop D ev cid r False received (Frame f # es) hs =
     (if f = WfClose then (Some PeerClose, received + 1, hs)
      else read_loop D ev cid r False (received + 1) es (handle_frame D (ev received) cid r f hs))"

definition remove_close_flag :: "handler_exit_reason \<Rightarrow> bool" where
  "remove_close_flag reason \<longleftrightarrow>
     (case reason of
        ReadError \<Rightarrow> True | WriteError \<Rightarrow> True | ForcedFallback \<Rightarrow> True | Inactivity \<Rightarrow> True | MissedPong \<Rightarrow> True
      | GracefulCloseAcked \<Rightarrow> False | PeerClose \<Rightarrow> False | PeerEof \<Rightarrow> False)"

section \<open>The handler\<close>

definition socket_exit ::
    "connection_id \<Rightarrow> handler_exit_reason \<Rightarrow> nat \<Rightarrow> exit_guard \<Rightarrow> 'db manager \<Rightarrow> ws_log list \<times> 'db manager" where
  "socket_exit cid reason received g mg =
     (let g = (if reason = ForcedFallback then force_fallback g else g)\<lparr>eg_received := received\<rparr>;
          mg = remove_connection cid (remove_close_flag reason) mg;
          g = mark_closed_emitted g;
          mg = guard_complete g mg
      in drop_guard g mg)"

definition admitted_session :: "connection_id \<Rightarrow> 'db manager \<Rightarrow> nat option" where
  "admitted_session cid mg =
     (case admit_file_download cid mg of
        None \<Rightarrow> None
      | Some (s, _) \<Rightarrow>
          (case ds_state (mg_session_heap mg s) of
             Connected _ \<Rightarrow> Some s
           | Closing _ _ \<Rightarrow> Some s
           | _ \<Rightarrow> None))"

definition server_ready_message :: message where
  "server_ready_message = message_new SERVER_READY Highest SYSTEM_SOURCE"

text \<open>What the rest of the program does while the handler opens the connection: after the manager has accepted
  it, and while the greeting is put in the queue.\<close>

record 'db opening_waits =
  ow_accepted :: "'db http_state \<Rightarrow> 'db http_state"
  ow_greeted :: "'db http_state \<Rightarrow> 'db http_state"

definition opening_alone :: "'db opening_waits" where
  "opening_alone = \<lparr>ow_accepted = id, ow_greeted = id\<rparr>"

text \<open>The connection up to its loop: refused, or the cluster it became and its guard.  The session the guard
  holds is looked up at the end, after both waits.\<close>

definition socket_open ::
    "'db database \<Rightarrow> int \<Rightarrow> int \<Rightarrow> connection_id \<Rightarrow> ws_channel \<Rightarrow> string \<Rightarrow> 'db opening_waits \<Rightarrow>
     'db http_state \<Rightarrow> (nat \<times> exit_guard) option \<times> 'db http_state" where
  "socket_open D now cutoff cid sender token waits hs =
     (case handle_new_connection D now cutoff cid sender token (hs_manager hs) of
        (None, mg) \<Rightarrow> (None, hs\<lparr>hs_manager := mg\<rparr>)
      | (Some r, mg) \<Rightarrow>
          (let hs = ow_accepted waits (hs\<lparr>hs_manager := mg\<rparr>);
               hs = on_manager (with_cluster r (send_message server_ready_message)) hs;
               hs = ow_greeted waits hs;
               session = admitted_session cid (hs_manager hs);
               g = exit_guard_new session (map_option (\<lambda>_. cid) session)
                     (cluster_name (mg_cluster_heap (hs_manager hs) r)) cid 0 0
           in (Some (r, g), hs)))"

definition handle_socket ::
    "'db database \<Rightarrow> int \<Rightarrow> int \<Rightarrow> (nat \<Rightarrow> env) \<Rightarrow> connection_id \<Rightarrow> ws_channel \<Rightarrow> string \<Rightarrow>
     'db opening_waits \<Rightarrow> 'db socket_event list \<Rightarrow> nat \<Rightarrow> 'db http_state \<Rightarrow> ws_log list \<times> 'db http_state" where
  "handle_socket D now cutoff ev cid sender token waits events sent hs =
     (case socket_open D now cutoff cid sender token waits hs of
        (None, hs) \<Rightarrow> ([], hs)
      | (Some (r, g), hs) \<Rightarrow>
          (case read_loop D ev cid r False 0 events hs of
             (None, _, hs) \<Rightarrow> ([], hs)
           | (Some reason, received, hs) \<Rightarrow>
               (let (logs, mg) = socket_exit cid reason received (g\<lparr>eg_sent := sent\<rparr>) (hs_manager hs)
                in (logs, hs\<lparr>hs_manager := mg\<rparr>))))"

section \<open>The end of a download connection\<close>

text \<open>The connection \<open>cid\<close> of cluster \<open>r\<close> serves the download session \<open>s\<close>, and the guard of its handler holds
  them.\<close>

definition serves_download :: "connection_id \<Rightarrow> nat \<Rightarrow> string \<Rightarrow> nat \<Rightarrow> exit_guard \<Rightarrow> 'db manager \<Rightarrow> bool" where
  "serves_download cid r uid s g mg \<longleftrightarrow>
     map_of (mg_connection_map mg) cid = Some r \<and> cl_role (mg_cluster_heap mg r) = FileDownload \<and>
     cl_uuid (mg_cluster_heap mg r) = Some uid \<and> map_of (mg_downloads mg) uid = Some s \<and>
     ds_download_id (mg_session_heap mg s) = uid \<and> map_of (mg_download_clusters mg) s = Some r \<and>
     eg_session g = Some s \<and> eg_connection g = Some cid"

lemma guard_complete_closing:
  assumes "eg_session g = Some s" "eg_connection g = Some cid"
    and "ds_state (mg_session_heap mg s) = Closing (Some cid) reason"
  shows "ds_state (mg_session_heap (guard_complete g mg) s) = Closed (Some cid) reason"
  using assms by (simp add: guard_complete_def session_complete_def)

lemma guard_complete_closed:
  assumes "eg_session g = Some s" "ds_state (mg_session_heap mg s) = Closed c reason"
  shows "ds_state (mg_session_heap (guard_complete g mg) s) = Closed c reason"
  using assms by (cases "eg_connection g") (simp_all add: guard_complete_def session_complete_def)

lemma guard_complete_frame [simp]:
  "mg_downloads (guard_complete g mg) = mg_downloads mg"
  "mg_connection_map (guard_complete g mg) = mg_connection_map mg"
  "mg_download_clusters (guard_complete g mg) = mg_download_clusters mg"
  by (simp_all add: guard_complete_def split: option.split)

lemma drop_guard_manager: "snd (drop_guard g mg) =
    guard_complete (if eg_fallback g then snd (emit_forced_fallback_warning g) else g) mg"
  by (simp add: drop_guard_def case_prod_beta Let_def)

lemma emit_session [simp]:
  "eg_session (snd (emit_forced_fallback_warning g)) = eg_session g"
  "eg_connection (snd (emit_forced_fallback_warning g)) = eg_connection g"
  by (simp_all add: emit_forced_fallback_warning_def)

lemma guard_updates [simp]:
  "eg_session (mark_closed_emitted g) = eg_session g" "eg_connection (mark_closed_emitted g) = eg_connection g"
  "eg_session (force_fallback g) = eg_session g" "eg_connection (force_fallback g) = eg_connection g"
  by (simp_all add: mark_closed_emitted_def force_fallback_def)

lemma drop_guard_closed:
  assumes "eg_session g = Some s" "ds_state (mg_session_heap mg s) = Closed c reason"
  shows "ds_state (mg_session_heap (snd (drop_guard g mg)) s) = Closed c reason"
  unfolding drop_guard_manager using assms by (intro guard_complete_closed) simp_all

lemma drop_guard_frame [simp]:
  "mg_downloads (snd (drop_guard g mg)) = mg_downloads mg"
  "mg_connection_map (snd (drop_guard g mg)) = mg_connection_map mg"
  "mg_download_clusters (snd (drop_guard g mg)) = mg_download_clusters mg"
  by (simp_all add: drop_guard_manager)

text \<open>The guard completes a session that is closing for its connection, whatever the reason of the exit.\<close>

lemma exit_completes:
  assumes g: "eg_session g = Some s" "eg_connection g = Some cid"
    and closing: "ds_state (mg_session_heap (remove_connection cid (remove_close_flag reason) mg) s) =
      Closing (Some cid) rsn"
    and exit: "socket_exit cid reason received g mg = (logs, mg')"
  shows "ds_state (mg_session_heap mg' s) = Closed (Some cid) rsn \<and>
    mg_downloads mg' = mg_downloads (remove_connection cid (remove_close_flag reason) mg) \<and>
    mg_connection_map mg' = mg_connection_map (remove_connection cid (remove_close_flag reason) mg) \<and>
    mg_download_clusters mg' = mg_download_clusters (remove_connection cid (remove_close_flag reason) mg)"
proof -
  define g' where "g' = mark_closed_emitted
    ((if reason = ForcedFallback then force_fallback g else g)\<lparr>eg_received := received\<rparr>)"
  define mg1 where "mg1 = remove_connection cid (remove_close_flag reason) mg"
  have sg: "eg_session g' = Some s" "eg_connection g' = Some cid" using g by (simp_all add: g'_def)
  have out: "mg' = snd (drop_guard g' (guard_complete g' mg1))"
    using exit by (simp add: socket_exit_def Let_def g'_def mg1_def)
  have "ds_state (mg_session_heap (guard_complete g' mg1) s) = Closed (Some cid) rsn"
    by (rule guard_complete_closing [OF sg closing [folded mg1_def]])
  then have "ds_state (mg_session_heap mg' s) = Closed (Some cid) rsn"
    unfolding out by (rule drop_guard_closed [OF sg(1)])
  then show ?thesis by (simp add: out mg1_def)
qed

lemma trigger_connected:
  assumes "ds_state (mg_session_heap mg s) = Connected cid"
  shows "fst (trigger_session reason s mg)"
    "ds_state (mg_session_heap (snd (trigger_session reason s mg)) s) = Closing (Some cid) reason"
    "ds_download_id (mg_session_heap (snd (trigger_session reason s mg)) s) = ds_download_id (mg_session_heap mg s)"
  using assms by (simp_all add: trigger_session_def session_trigger_def enter_closing_def)

lemma cleanup_connected:
  assumes "map_of (mg_download_clusters mg) s = Some r" "map_of (mg_downloads mg) uid = Some s"
    and "map_of (mg_connection_map mg) cid = Some r" "ds_download_id (mg_session_heap mg s) = uid"
    and "rq = \<lparr>cr_download_id = uid, cr_connection_id = Some cid, cr_reason = reason, cr_session = s\<rparr>"
  shows "map_of (mg_downloads (cleanup_file_download rq mg)) uid = None"
    "map_of (mg_connection_map (cleanup_file_download rq mg)) cid = None"
    "map_of (mg_download_clusters (cleanup_file_download rq mg)) s = None"
    "mg_session_heap (cleanup_file_download rq mg) = mg_session_heap mg"
  using assms
  by (simp_all add: cleanup_file_download_def remove_exact_download_session_def remove_exact_connection_def
      map_of_delete Let_def)

text \<open>A finished download connection leaves nothing behind.  When the handler of a connection that serves
  a download session ends, for whatever reason, the session is closed for that connection; if nobody had
  ended it before, that is by the disconnection, and its entry, its cluster and the connection are gone
  from the registries; and if an HTTP handler or the shutdown had, their reason is kept.\<close>

theorem download_handler_closes_session:
  assumes "serves_download cid r uid s g mg"
    and "socket_exit cid reason received g mg = (logs, mg')"
  shows "case ds_state (mg_session_heap mg s) of
      Connected c \<Rightarrow> c = cid \<longrightarrow>
        ds_state (mg_session_heap mg' s) =
          Closed (Some cid) (if remove_close_flag reason then WebSocketError else WebSocketClosed) \<and>
        map_of (mg_downloads mg') uid = None \<and> map_of (mg_connection_map mg') cid = None \<and>
        map_of (mg_download_clusters mg') s = None
    | Closing c rsn \<Rightarrow> c = Some cid \<longrightarrow> ds_state (mg_session_heap mg' s) = Closed (Some cid) rsn
    | _ \<Rightarrow> True"
proof (cases "ds_state (mg_session_heap mg s)")
  case (Connected c)
  show ?thesis
  proof (cases "c = cid")
    case True
    let ?rsn = "if remove_close_flag reason then WebSocketError else WebSocketClosed"
    let ?mg1 = "snd (trigger_session ?rsn s mg)"
    let ?rq = "\<lparr>cr_download_id = uid, cr_connection_id = Some cid, cr_reason = ?rsn, cr_session = s\<rparr>"
    note a = assms(1) [unfolded serves_download_def]
    note t = trigger_connected [OF Connected [unfolded True], where reason = ?rsn]
    have rm: "remove_connection cid (remove_close_flag reason) mg =
        forget_tracking cid (cleanup_file_download ?rq ?mg1)"
      using a Connected True t(1) by (simp add: remove_connection_def Let_def case_prod_beta)
    have "map_of (mg_download_clusters ?mg1) s = Some r" "map_of (mg_downloads ?mg1) uid = Some s"
      "map_of (mg_connection_map ?mg1) cid = Some r" "ds_download_id (mg_session_heap ?mg1 s) = uid"
      using a t(3) by simp_all
    note c = cleanup_connected [OF this refl, of ?rsn]
    have "ds_state (mg_session_heap (remove_connection cid (remove_close_flag reason) mg) s) =
        Closing (Some cid) ?rsn"
      using t(2) c(4) by (simp add: rm)
    from exit_completes [OF _ _ this assms(2)] a c show ?thesis
      by (simp add: Connected True rm)
  next
    case False
    then show ?thesis by (simp add: Connected)
  qed
next
  case (Closing c rsn)
  show ?thesis
  proof (cases "c = Some cid")
    case True
    note a = assms(1) [unfolded serves_download_def]
    have "ds_state (mg_session_heap (remove_connection cid (remove_close_flag reason) mg) s) =
        Closing (Some cid) rsn"
      using a Closing True by (simp add: remove_connection_def Let_def)
    from exit_completes [OF _ _ this assms(2)] a show ?thesis
      by (simp add: Closing True)
  next
    case False
    then show ?thesis by (simp add: Closing)
  qed
qed simp_all

text \<open>The transfer of the demonstration manager, connected and served by the connection \<open>7\<close>.\<close>

definition demo_connected :: "mem_db manager" where
  "demo_connected = snd (handle_new_connection mem_database 0 0 7 demo_channel ''d'' demo_transfer_manager)"

lemma demo_transfer_cluster:
  "mg_connection_map demo_transfer_manager = []"
  "cl_role (mg_cluster_heap demo_transfer_manager 1) = FileDownload"
  "cl_uuid (mg_cluster_heap demo_transfer_manager 1) = Some ''d''"
  by (simp_all add: demo_transfer_manager_def create_file_download_def Let_def)
    (simp_all add: demo_manager_def manager_new_def Let_def eval_nat_numeral cluster_new_file_download_def
      cluster_new_with_role_def start_tasks_def)

lemma demo_serves:
  "serves_download 7 1 ''d'' 2 (exit_guard_new (Some 2) (Some 7) ''ozstar'' 7 0 0) demo_connected"
  "ds_state (mg_session_heap demo_connected 2) = Connected 7"
  using demo_transfer_cluster
  by (simp_all add: serves_download_def exit_guard_new_def demo_connected_def handle_new_connection_def
      admit_connection_def admit_download_connection_def Let_def bind_connection_def session_new_def
      set_connection_def)

theorem download_handler_closes_session_witness:
  "\<exists>logs mg'. socket_exit 7 PeerEof 4 (exit_guard_new (Some 2) (Some 7) ''ozstar'' 7 0 0) demo_connected =
      (logs, mg') \<and> ds_state (mg_session_heap mg' 2) = Closed (Some 7) WebSocketClosed \<and>
    map_of (mg_downloads mg') ''d'' = None"
proof -
  obtain logs mg' where e: "socket_exit 7 PeerEof 4 (exit_guard_new (Some 2) (Some 7) ''ozstar'' 7 0 0)
      demo_connected = (logs, mg')" by force
  from download_handler_closes_session [OF demo_serves(1) e] e show ?thesis
    by (simp add: demo_serves(2) remove_close_flag_def)
qed

section \<open>The log of a connection\<close>

text \<open>The closing of a connection is never logged.  Whatever happens on the socket, the handler's own
  log holds at most the warning of a forced close: the guard is told that its closed event was emitted
  although no other path emits it, so the event it is documented to emit for every connection is lost.\<close>

theorem closed_event_never_logged:
  "fst (handle_socket D now cutoff ev cid sender token waits events sent hs) \<in> {[], [ForcedFallbackWarning cid]}"
proof -
  have id: "eg_conn_id g = cid"
    if "socket_open D now cutoff cid sender token waits hs = (Some (r, g), hs')" for r g and hs hs' :: "'a http_state"
    using that by (auto simp: socket_open_def exit_guard_new_def Let_def split: prod.splits option.splits)
  have exit: "fst (socket_exit cid reason received g mg) \<in> {[], [ForcedFallbackWarning cid]}"
    if "eg_conn_id g = cid" for reason received g and mg :: "'a manager"
    using that
    by (simp add: socket_exit_def drop_guard_def mark_closed_emitted_def force_fallback_def
        emit_closed_event_def emit_forced_fallback_warning_def case_prod_beta Let_def)
  show ?thesis
  proof (cases "socket_open D now cutoff cid sender token waits hs")
    case (Pair o1 hs1)
    show ?thesis
    proof (cases o1)
      case None
      then show ?thesis using Pair by (simp add: handle_socket_def)
    next
      case (Some p)
      then obtain r g where p: "o1 = Some (r, g)" by (cases p) auto
      obtain res n hs' where loop: "read_loop D ev cid r False 0 events hs1 = (res, n, hs')"
        by (cases "read_loop D ev cid r False 0 events hs1") auto
      have "eg_conn_id (g\<lparr>eg_sent := sent\<rparr>) = cid" using id Pair p by simp
      then show ?thesis
        using Pair p loop exit by (cases res) (simp_all add: handle_socket_def case_prod_beta)
    qed
  qed
qed

section \<open>The forwarder and the close handshake\<close>

lemma forwarder_run:
  assumes "forwarder ok n queued = (frames, count, closing)"
  shows "frames = take (length frames) queued \<and> (\<forall>i < length frames. ok (n + i)) \<and>
    WsClose \<notin> set (butlast frames) \<and> closing = (frames \<noteq> [] \<and> last frames = WsClose) \<and>
    (frames = queued \<or> closing \<or> \<not> ok (n + length frames)) \<and>
    count = n + length frames + (if frames = queued \<or> closing then 0 else 1)"
  using assms
proof (induction queued arbitrary: n frames count closing)
  case Nil
  then show ?case by simp
next
  case (Cons x xs)
  show ?case
  proof (cases "ok n \<and> x \<noteq> WsClose")
    case False
    then show ?thesis using Cons.prems by (auto split: if_splits)
  next
    case True
    obtain fs c cl where rec: "forwarder ok (n + 1) xs = (fs, c, cl)"
      by (cases "forwarder ok (n + 1) xs") auto
    note ih = Cons.IH [OF rec]
    have out: "frames = x # fs" "count = c" "closing = cl" using Cons.prems True rec by simp_all
    have ok: "\<forall>i < length (x # fs). ok (n + i)"
    proof (intro allI impI)
      fix i assume "i < length (x # fs)"
      then show "ok (n + i)" using True ih by (cases i) simp_all
    qed
    have "(fs = [] \<longrightarrow> \<not> cl)" using ih by simp
    then show ?thesis using ih ok True by (cases "fs = []") (auto simp: out)
  qed
qed

text \<open>Outbound frames are written in order, up to a close.  The forwarder writes a prefix of what was
  queued; it stops early only at a failed write or after a close frame, writes nothing after a close, and
  tells the read loop of it exactly if it wrote one.\<close>

theorem forwarder_exact:
  "let (frames, count, closing) = forwarder ok n queued; k = length frames in
     frames = take k queued \<and> list_all (\<lambda>i. ok (n + i)) [0..<k] \<and> WsClose \<notin> set (butlast frames) \<and>
     closing = (frames \<noteq> [] \<and> last frames = WsClose) \<and>
     (frames = queued \<or> closing \<or> \<not> ok (n + k)) \<and> count = n + k + (if frames = queued \<or> closing then 0 else 1)"
proof -
  obtain frames count closing where run: "forwarder ok n queued = (frames, count, closing)"
    by (cases "forwarder ok n queued") auto
  from forwarder_run [OF run] show ?thesis by (auto simp: run list_all_iff)
qed

end
