(* ===== verification/Config_Load.thy ===== *)
theory Config_Load
  imports File_Upload "HOL-Library.Sublist"
begin

text \<open>
  Configuration: the cluster and secret files (\<open>src/config/clusters.rs\<close>, \<open>src/config/access_secrets.rs\<close>)
  and the environment variables (\<open>src/config/settings.rs\<close>).  Reading a file, the JSON library and the
  process environment are parameters: \<open>read\<close> gives the text of a file or an error, \<open>parse\<close> the values of
  a text or an error, and \<open>env\<close> the value of a variable that is set to a Unicode string.
\<close>

section \<open>Cluster configurations\<close>


definition duplicate_cluster_msg :: "string \<Rightarrow> nat \<Rightarrow> string" where
  "duplicate_cluster_msg name i =
     ''duplicate cluster name '' @ [CHR 0x27] @ name @ [CHR 0x27] @ '' in cluster config (entry #'' @
     show_nat (i + 1) @ '')''"

definition empty_ltk_msg :: "nat \<Rightarrow> string" where
  "empty_ltk_msg i =
     ''cluster config entry #'' @ show_nat (i + 1) @ '' has empty '' @ [CHR 0x27] @ ''ltk'' @ [CHR 0x27]"

definition load_json_file :: "(string \<Rightarrow> string + string) \<Rightarrow> (string \<Rightarrow> string + 'a list) \<Rightarrow> string \<Rightarrow> string + 'a list" where
  "load_json_file read parse path =
     (case read path of Inl e \<Rightarrow> Inl e | Inr content \<Rightarrow> parse content)"

fun check_cluster_configs :: "string list \<Rightarrow> nat \<Rightarrow> cluster_config list \<Rightarrow> string option" where
  "check_cluster_configs seen i [] = None"
| "check_cluster_configs seen i (config # rest) =
     (if cc_name config \<in> set seen then Some (duplicate_cluster_msg (cc_name config) i)
      else if cc_ltk config = Some '''' then Some (empty_ltk_msg i)
      else check_cluster_configs (cc_name config # seen) (i + 1) rest)"

definition load_cluster_configs ::
    "(string \<Rightarrow> string + string) \<Rightarrow> (string \<Rightarrow> string + cluster_config list) \<Rightarrow> string \<Rightarrow>
     string + cluster_config list" where
  "load_cluster_configs read parse path =
     (case load_json_file read parse path of
        Inl e \<Rightarrow> Inl e
      | Inr configs \<Rightarrow>
          (case check_cluster_configs [] 0 configs of Some e \<Rightarrow> Inl e | None \<Rightarrow> Inr configs))"

section \<open>Access secrets\<close>

definition duplicate_secret_msg :: "string \<Rightarrow> nat \<Rightarrow> string" where
  "duplicate_secret_msg name i =
     ''duplicate secret name '' @ [CHR 0x27] @ name @ [CHR 0x27] @ '' in access secrets (entry #'' @
     show_nat (i + 1) @ '')''"

definition empty_secret_msg :: "string \<Rightarrow> nat \<Rightarrow> string" where
  "empty_secret_msg name i =
     ''empty secret for access secret '' @ [CHR 0x27] @ name @ [CHR 0x27] @ '' (entry #'' @
     show_nat (i + 1) @ '')''"

definition empty_secret_name_msg :: "nat \<Rightarrow> string" where
  "empty_secret_name_msg i = ''empty name in access secrets (entry #'' @ show_nat (i + 1) @ '')''"

fun check_access_secrets :: "string list \<Rightarrow> nat \<Rightarrow> access_secret list \<Rightarrow> string option" where
  "check_access_secrets seen i [] = None"
| "check_access_secrets seen i (secret # rest) =
     (if as_name secret \<in> set seen then Some (duplicate_secret_msg (as_name secret) i)
      else if as_secret secret = '''' then Some (empty_secret_msg (as_name secret) i)
      else if as_name secret = '''' then Some (empty_secret_name_msg i)
      else check_access_secrets (as_name secret # seen) (i + 1) rest)"

definition load_access_secrets ::
    "(string \<Rightarrow> string + string) \<Rightarrow> (string \<Rightarrow> string + access_secret list) \<Rightarrow> string \<Rightarrow>
     string + access_secret list" where
  "load_access_secrets read parse path =
     (case load_json_file read parse path of
        Inl e \<Rightarrow> Inl e
      | Inr secrets \<Rightarrow>
          (case check_access_secrets [] 0 secrets of Some e \<Rightarrow> Inl e | None \<Rightarrow> Inr secrets))"

section \<open>Environment variables\<close>

type_synonym u16 = "16 word"
type_synonym environment = "string \<Rightarrow> string option"

definition redacted :: "string \<Rightarrow> bool" where
  "redacted key \<longleftrightarrow> sublist ''SECRET'' key \<or> sublist ''PASSWORD'' key"

text \<open>The value, and the value that is logged for the key.\<close>

definition env_or :: "environment \<Rightarrow> string \<Rightarrow> string \<Rightarrow> string \<times> string" where
  "env_or env key unset =
     (let v = (case env key of None \<Rightarrow> unset | Some s \<Rightarrow> s)
      in (v, if redacted key then ''***REDACTED***'' else v))"

text \<open>\<open>parse\<close> of an unsigned type of \<open>w\<close> bits: no minus sign, at least one digit, no overflow.\<close>

definition parse_uint :: "nat \<Rightarrow> string \<Rightarrow> nat option" where
  "parse_uint w s =
     (if fst (sign_and_digits s) then None else map_option nat (parse_int 0 (2 ^ w - 1) s))"

definition env_or_uint :: "environment \<Rightarrow> string \<Rightarrow> 'w::len word \<Rightarrow> 'w word" where
  "env_or_uint env key unset =
     (case env key of
        None \<Rightarrow> unset
      | Some raw \<Rightarrow> (case parse_uint (len_of TYPE('w)) raw of None \<Rightarrow> unset | Some n \<Rightarrow> word_of_nat n))"

text \<open>A test build defaults the handshake timeout to 0, a production build to one second.\<close>

definition ltk_connection_timeout_ms :: "bool \<Rightarrow> environment \<Rightarrow> u32" where
  "ltk_connection_timeout_ms test_build env =
     (let unset = (if test_build then 0 else 1000) in
      case env ''LTK_CONNECTION_TIMEOUT_MS'' of
        None \<Rightarrow> unset
      | Some v \<Rightarrow> (case parse_uint 32 v of None \<Rightarrow> unset | Some n \<Rightarrow> word_of_nat n))"

record settings =
  DATABASE_USER :: string
  DATABASE_PASSWORD :: string
  DATABASE_SCHEMA :: string
  DATABASE_HOST :: string
  DATABASE_PORT :: u16
  FILE_DOWNLOAD_EXPIRY_TIME :: u64
  MAX_FILE_BUFFER_SIZE :: u64
  MIN_FILE_BUFFER_SIZE :: u64
  FILE_CHUNK_SIZE :: u64
  QUEUE_SOURCE_PRUNE_MILLISECONDS :: u64
  CLUSTER_RESEND_MESSAGE_INTERVAL_MILLISECONDS :: u64
  CLIENT_TIMEOUT_SECONDS :: u64
  MESSAGE_INITIAL_VECTOR_SIZE :: u32
  CLUSTER_RECENT_STATE_JOB_IGNORE_SECONDS :: u64
  CLUSTER_MANAGER_CLUSTER_RECONNECT_SECONDS :: u64
  CLUSTER_MANAGER_PING_INTERVAL_SECONDS :: u64
  CLUSTER_MANAGER_MAX_TOKEN_EXPIRY_SECONDS :: u64
  HTTP_PORT :: u16
  RATE_LIMIT_REQUESTS_PER_SECOND :: u64
  RATE_LIMIT_BURST_SIZE :: u32
  WEBSOCKET_PORT :: u16

text \<open>The statics are read from the environment once, on their first use.\<close>

definition load_settings :: "environment \<Rightarrow> settings" where
  "load_settings env =
     \<lparr>DATABASE_USER = fst (env_or env ''MYSQL_USER'' ''jobserver''),
      DATABASE_PASSWORD = fst (env_or env ''MYSQL_PASSWORD'' ''jobserver''),
      DATABASE_SCHEMA = fst (env_or env ''MYSQL_DATABASE'' ''jobserver''),
      DATABASE_HOST = fst (env_or env ''DATABASE_HOST'' ''localhost''),
      DATABASE_PORT = env_or_uint env ''DATABASE_PORT'' 3306,
      FILE_DOWNLOAD_EXPIRY_TIME = env_or_uint env ''FILE_DOWNLOAD_EXPIRY_TIME'' 86400,
      MAX_FILE_BUFFER_SIZE = env_or_uint env ''MAX_FILE_BUFFER_SIZE'' (50 * 1024 * 1024),
      MIN_FILE_BUFFER_SIZE = env_or_uint env ''MIN_FILE_BUFFER_SIZE'' (10 * 1024 * 1024),
      FILE_CHUNK_SIZE = env_or_uint env ''FILE_CHUNK_SIZE'' (64 * 1024),
      QUEUE_SOURCE_PRUNE_MILLISECONDS = env_or_uint env ''QUEUE_SOURCE_PRUNE_MILLISECONDS'' 60000,
      CLUSTER_RESEND_MESSAGE_INTERVAL_MILLISECONDS =
        env_or_uint env ''CLUSTER_RESEND_MESSAGE_INTERVAL_MILLISECONDS'' 60000,
      CLIENT_TIMEOUT_SECONDS = env_or_uint env ''CLIENT_TIMEOUT_SECONDS'' 30,
      MESSAGE_INITIAL_VECTOR_SIZE = env_or_uint env ''MESSAGE_INITIAL_VECTOR_SIZE'' 65536,
      CLUSTER_RECENT_STATE_JOB_IGNORE_SECONDS = env_or_uint env ''CLUSTER_RECENT_STATE_JOB_IGNORE_SECONDS'' 60,
      CLUSTER_MANAGER_CLUSTER_RECONNECT_SECONDS =
        env_or_uint env ''CLUSTER_MANAGER_CLUSTER_RECONNECT_SECONDS'' 60,
      CLUSTER_MANAGER_PING_INTERVAL_SECONDS = env_or_uint env ''CLUSTER_MANAGER_PING_INTERVAL_SECONDS'' 10,
      CLUSTER_MANAGER_MAX_TOKEN_EXPIRY_SECONDS =
        env_or_uint env ''CLUSTER_MANAGER_MAX_TOKEN_EXPIRY_SECONDS'' 600,
      HTTP_PORT = env_or_uint env ''HTTP_PORT'' 8000,
      RATE_LIMIT_REQUESTS_PER_SECOND = env_or_uint env ''RATE_LIMIT_REQUESTS_PER_SECOND'' 0,
      RATE_LIMIT_BURST_SIZE = env_or_uint env ''RATE_LIMIT_BURST_SIZE'' 50,
      WEBSOCKET_PORT = env_or_uint env ''WEBSOCKET_PORT'' 8001\<rparr>"

section \<open>The loops of the two loaders\<close>

text \<open>Both loaders walk the entries with the set of the names seen so far, and stop at the first entry that
  repeats a name or has a fault of its own.\<close>

locale entry_loop =
  fixes entry_key :: "'a \<Rightarrow> string"
    and repeated :: "string \<Rightarrow> nat \<Rightarrow> string"
    and fault :: "nat \<Rightarrow> 'a \<Rightarrow> string option"
    and check :: "string list \<Rightarrow> nat \<Rightarrow> 'a list \<Rightarrow> string option"
  assumes check_Nil: "check seen i [] = None"
    and check_Cons: "check seen i (x # xs) =
      (if entry_key x \<in> set seen then Some (repeated (entry_key x) i)
       else (case fault i x of Some e \<Rightarrow> Some e | None \<Rightarrow> check (entry_key x # seen) (i + 1) xs))"
begin

definition clean :: "string list \<Rightarrow> nat \<Rightarrow> 'a list \<Rightarrow> bool" where
  "clean seen i xs \<longleftrightarrow> distinct (map entry_key xs) \<and> set (map entry_key xs) \<inter> set seen = {} \<and>
     (\<forall>k < length xs. fault (i + k) (xs ! k) = None)"

lemma clean_Cons:
  "clean seen i (x # xs) \<longleftrightarrow>
     entry_key x \<notin> set seen \<and> fault i x = None \<and> clean (entry_key x # seen) (i + 1) xs"
proof -
  have "(\<forall>k < length (x # xs). fault (i + k) ((x # xs) ! k) = None) \<longleftrightarrow>
      fault i x = None \<and> (\<forall>k < length xs. fault (i + 1 + k) (xs ! k) = None)"
    by (simp add: All_less_Suc2)
  then show ?thesis by (auto simp: clean_def)
qed

lemma check_None: "check seen i xs = None \<longleftrightarrow> clean seen i xs"
proof (induction xs arbitrary: seen i)
  case Nil
  then show ?case by (simp add: check_Nil clean_def)
next
  case (Cons x xs)
  then show ?case by (simp add: check_Cons clean_Cons split: option.split)
qed

lemma check_Some:
  "check seen i xs = Some e \<Longrightarrow>
     \<exists>k < length xs. clean seen i (take k xs) \<and>
       (entry_key (xs ! k) \<in> set seen \<union> set (map entry_key (take k xs)) \<and> e = repeated (entry_key (xs ! k)) (i + k) \<or>
        fault (i + k) (xs ! k) = Some e)"
proof (induction xs arbitrary: seen i)
  case Nil
  then show ?case by (simp add: check_Nil)
next
  case (Cons x xs)
  have now: "clean seen i (take 0 (x # xs))" by (simp add: clean_def)
  show ?case
  proof (cases "entry_key x \<in> set seen \<or> fault i x \<noteq> None")
    case True
    have "entry_key x \<in> set seen \<and> e = repeated (entry_key x) i \<or> fault i x = Some e"
      using Cons.prems True by (auto simp: check_Cons split: if_splits option.splits)
    then show ?thesis using now by (intro exI [of _ 0]) auto
  next
    case False
    then have "check (entry_key x # seen) (i + 1) xs = Some e"
      using Cons.prems by (simp add: check_Cons)
    from Cons.IH [OF this] obtain k where k: "k < length xs" "clean (entry_key x # seen) (i + 1) (take k xs)"
      "entry_key (xs ! k) \<in> set (entry_key x # seen) \<union> set (map entry_key (take k xs)) \<and>
         e = repeated (entry_key (xs ! k)) (i + 1 + k) \<or> fault (i + 1 + k) (xs ! k) = Some e" by blast
    have "clean seen i (take (Suc k) (x # xs))" using k(2) False by (simp add: clean_Cons)
    then show ?thesis using k(1,3) by (intro exI [of _ "Suc k"]) auto
  qed
qed

end

interpretation cluster_entries: entry_loop cc_name duplicate_cluster_msg
    "\<lambda>i c. if cc_ltk c = Some '''' then Some (empty_ltk_msg i) else None" check_cluster_configs
  by unfold_locales simp_all

interpretation secret_entries: entry_loop as_name duplicate_secret_msg
    "\<lambda>i s. if as_secret s = '''' then Some (empty_secret_msg (as_name s) i)
           else if as_name s = '''' then Some (empty_secret_name_msg i) else None" check_access_secrets
  by unfold_locales simp_all

lemma cluster_clean: "cluster_entries.clean [] i cs \<longleftrightarrow>
    distinct (map cc_name cs) \<and> list_all (\<lambda>c. cc_ltk c \<noteq> Some '''') cs"
  by (auto simp: cluster_entries.clean_def list_all_length)

lemma secret_clean: "secret_entries.clean [] i ss \<longleftrightarrow>
    distinct (map as_name ss) \<and> list_all (\<lambda>s. as_secret s \<noteq> '''' \<and> as_name s \<noteq> '''') ss"
  by (auto simp: secret_entries.clean_def list_all_length)

lemma loaded_clusters:
  "load_cluster_configs read parse path = Inr cfgs \<longleftrightarrow>
     load_json_file read parse path = Inr cfgs \<and> distinct (map cc_name cfgs) \<and>
     list_all (\<lambda>c. cc_ltk c \<noteq> Some '''') cfgs"
  using cluster_entries.check_None [of "[]" 0 cfgs]
  by (auto simp: load_cluster_configs_def cluster_clean split: sum.split option.split)

lemma loaded_secrets:
  "load_access_secrets read parse path = Inr secrets \<longleftrightarrow>
     load_json_file read parse path = Inr secrets \<and> distinct (map as_name secrets) \<and>
     list_all (\<lambda>s. as_secret s \<noteq> '''' \<and> as_name s \<noteq> '''') secrets"
  using secret_entries.check_None [of "[]" 0 secrets]
  by (auto simp: load_access_secrets_def secret_clean split: sum.split option.split)

text \<open>Exactly which cluster files are accepted.  The clusters of a file are returned as they are when
  their names are distinct and no long-term key is empty; otherwise the error names the first entry that
  repeats a name or has an empty key, after entries that have neither.\<close>

theorem cluster_configs_validated:
  "case load_cluster_configs read parse path of
     Inr cfgs \<Rightarrow> load_json_file read parse path = Inr cfgs \<and> distinct (map cc_name cfgs) \<and>
       list_all (\<lambda>c. cc_ltk c \<noteq> Some '''') cfgs
   | Inl e \<Rightarrow> (case load_json_file read parse path of
       Inl e' \<Rightarrow> e = e'
     | Inr cfgs \<Rightarrow> (\<exists>k < length cfgs. distinct (map cc_name (take k cfgs)) \<and>
         list_all (\<lambda>c. cc_ltk c \<noteq> Some '''') (take k cfgs) \<and>
         (cc_name (cfgs ! k) \<in> set (map cc_name (take k cfgs)) \<and>
            e = duplicate_cluster_msg (cc_name (cfgs ! k)) k \<or>
          cc_ltk (cfgs ! k) = Some '''' \<and> e = empty_ltk_msg k)))"
proof (cases "load_cluster_configs read parse path")
  case (Inr cfgs)
  show ?thesis unfolding Inr using Inr [unfolded loaded_clusters] by simp
next
  case (Inl e)
  show ?thesis
  proof (cases "load_json_file read parse path")
    case (Inl e')
    then show ?thesis using \<open>load_cluster_configs read parse path = Inl e\<close> by (simp add: load_cluster_configs_def)
  next
    case (Inr cfgs)
    then have "check_cluster_configs [] 0 cfgs = Some e"
      using Inl by (simp add: load_cluster_configs_def split: option.splits)
    from cluster_entries.check_Some [OF this] obtain k where k: "k < length cfgs"
      "cluster_entries.clean [] 0 (take k cfgs)"
      "cc_name (cfgs ! k) \<in> set (map cc_name (take k cfgs)) \<and> e = duplicate_cluster_msg (cc_name (cfgs ! k)) k \<or>
       cc_ltk (cfgs ! k) = Some '''' \<and> e = empty_ltk_msg k" by (auto split: if_splits)
    then show ?thesis using Inr Inl by (auto simp: cluster_clean)
  qed
qed

text \<open>A number in the environment is read back, and one that does not fit is not truncated: a variable
  that holds a number of the range of its type gives that number, a larger one gives the default.\<close>

theorem env_uint_exact:
  "env_or_uint (env(key \<mapsto> show_nat n)) key (d :: 'w::len word) =
     (if n < 2 ^ len_of TYPE('w) then word_of_nat n else d)"
proof -
  have digits: "sign_and_digits (show_nat n) = (False, show_nat n)" "show_nat n \<noteq> []"
    "list_all is_digit (show_nat n)"
    using sign_show_int [of "int n"] by (simp_all add: show_int_def list_all_iff show_nat_digits)
  have le: "int n \<le> 2 ^ len_of TYPE('w) - 1 \<longleftrightarrow> n < 2 ^ len_of TYPE('w)"
    by (metis of_nat_less_iff of_nat_numeral of_nat_power zle_diff1_eq)
  show ?thesis
    by (simp add: env_or_uint_def parse_uint_def parse_int_def digits digits_value_show_nat le)
qed

end
