(* ===== verification/Http_Server.thy ===== *)
theory Http_Server
  imports Config_Load
begin

text \<open>
  The HTTP router (\<open>src/http/server.rs\<close>) and the reading of request bodies (\<open>src/http/utils.rs\<close>).  A body is
  the list of what its stream yields, a chunk or an error; the JSON library is the parameter \<open>parse\<close>, and
  whether the rate limiter accepts its parameters is the parameter \<open>finish\<close>.
\<close>

section \<open>Request bodies\<close>

definition MAX_JSON_BODY_BYTES :: nat where "MAX_JSON_BODY_BYTES = 10 * 1024 * 1024"
definition PAYLOAD_TOO_LARGE :: nat where "PAYLOAD_TOO_LARGE = 413"

definition failed_to_read_body_msg :: "string \<Rightarrow> http_error" where
  "failed_to_read_body_msg e = (BAD_REQUEST, ''Failed to read body: '' @ e)"

definition too_large :: http_error where
  "too_large = (PAYLOAD_TOO_LARGE, ''Request body too large'')"

fun read_body_limited :: "nat \<Rightarrow> bytes \<Rightarrow> (string + bytes) list \<Rightarrow> http_error + bytes" where
  "read_body_limited limit got [] = Inr got"
| "read_body_limited limit got (Inl e # rest) = Inl (failed_to_read_body_msg e)"
| "read_body_limited limit got (Inr chunk # rest) =
     (if limit < length got + length chunk then Inl too_large
      else read_body_limited limit (got @ chunk) rest)"

definition from_request :: "(bytes \<Rightarrow> string + 'a) \<Rightarrow> (string + bytes) list \<Rightarrow> http_error + 'a" where
  "from_request parse body =
     (case read_body_limited MAX_JSON_BODY_BYTES [] body of
        Inl e \<Rightarrow> Inl e
      | Inr bs \<Rightarrow>
          (case parse bs of
             Inl e \<Rightarrow> Inl (BAD_REQUEST, ''Invalid JSON: '' @ e)
           | Inr v \<Rightarrow> Inr v))"

section \<open>The router\<close>

datatype http_method = POST | GET | PATCH | DELETE | PUT

datatype endpoint =
    EpCreateJob | EpGetJobs | EpCancelJob | EpDeleteJob | EpCreateFileDownload | EpDownloadFile | EpListFiles
  | EpUploadFile

record router =
  rt_routes :: "(string \<times> (http_method \<times> endpoint) list) list"
  rt_rate_limit :: "(u64 \<times> u32) option"

definition rate_limiter_interval_ms :: "u64 \<Rightarrow> u32 \<Rightarrow> u64 option" where
  "rate_limiter_interval_ms requests_per_second burst_size =
     (if requests_per_second = 0 \<or> burst_size = 0 then None
      else Some (max (1000 div requests_per_second) 1))"

definition job_routes :: "(string \<times> (http_method \<times> endpoint) list) list" where
  "job_routes =
     [(''/job/apiv1/job/'', [(POST, EpCreateJob), (GET, EpGetJobs), (PATCH, EpCancelJob), (DELETE, EpDeleteJob)])]"

definition file_routes :: "(string \<times> (http_method \<times> endpoint) list) list" where
  "file_routes =
     [(''/job/apiv1/file/'', [(POST, EpCreateFileDownload), (GET, EpDownloadFile), (PATCH, EpListFiles)]),
      (''/job/apiv1/file/upload/'', [(PUT, EpUploadFile)])]"

definition create_router :: "(u64 \<Rightarrow> u32 \<Rightarrow> bool) \<Rightarrow> settings \<Rightarrow> router" where
  "create_router finish s =
     (let rps = RATE_LIMIT_REQUESTS_PER_SECOND s; burst = RATE_LIMIT_BURST_SIZE s
      in \<lparr>rt_routes = job_routes @ file_routes,
          rt_rate_limit =
            (case rate_limiter_interval_ms rps burst of
               None \<Rightarrow> None
             | Some interval \<Rightarrow> if finish interval burst then Some (interval, burst) else None)\<rparr>)"

section \<open>Bodies are bounded\<close>

fun stream_total :: "(string + bytes) list \<Rightarrow> bytes" where
  "stream_total [] = []"
| "stream_total (Inr chunk # rest) = chunk @ stream_total rest"
| "stream_total (Inl e # rest) = []"

fun stream_error :: "(string + bytes) list \<Rightarrow> string option" where
  "stream_error [] = None"
| "stream_error (Inr chunk # rest) = stream_error rest"
| "stream_error (Inl e # rest) = Some e"

lemma read_body_run:
  "length got \<le> limit \<Longrightarrow>
     read_body_limited limit got body =
       (if limit < length got + length (stream_total body) then Inl too_large
        else (case stream_error body of Some e \<Rightarrow> Inl (failed_to_read_body_msg e)
              | None \<Rightarrow> Inr (got @ stream_total body)))"
  by (induction limit got body rule: read_body_limited.induct) (auto split: option.split)

text \<open>A request body is bounded.  What precedes the first error of the stream is compared with the
  limit: past it the request is refused as too large, whatever the stream does next; otherwise an error
  of the stream is reported, and a whole body is accepted unchanged.\<close>

theorem body_limit_exact:
  "read_body_limited limit [] body =
     (if limit < length (stream_total body) then Inl too_large
      else (case stream_error body of Some e \<Rightarrow> Inl (failed_to_read_body_msg e)
            | None \<Rightarrow> Inr (stream_total body)))"
  by (simp add: read_body_run split: option.split)

section \<open>The rate\<close>

text \<open>The configured rate is a lower bound only.  With the limiter on, one request is admitted every
  interval of whole milliseconds: up to a thousand requests a second the admitted rate is at least the
  configured one and less than twice it, and above that it is a thousand, less than configured.\<close>

theorem rate_limit_bounds:
  "case rate_limiter_interval_ms rps burst of
     None \<Rightarrow> rps = 0 \<or> burst = 0
   | Some interval \<Rightarrow> 1 \<le> unat interval \<and> unat interval \<le> 1000 \<and>
       (if unat rps \<le> 1000
        then unat rps * unat interval \<le> 1000 \<and> 1000 < 2 * unat rps * unat interval
        else unat interval = 1)"
proof (cases "rps = 0 \<or> burst = 0")
  case True
  then show ?thesis by (simp add: rate_limiter_interval_ms_def)
next
  case False
  let ?r = "unat rps"
  have r: "0 < ?r" using False by (simp add: unat_gt_0)
  have q: "unat (1000 div rps) = 1000 div ?r" by (simp add: unat_div_distrib)
  have iv: "unat (max (1000 div rps) 1) = max (1000 div ?r) 1"
    by (simp only: max_def word_le_nat_alt q if_distrib [of unat] unsigned_1)
  have some: "rate_limiter_interval_ms rps burst = Some (max (1000 div rps) 1)"
    using False by (simp add: rate_limiter_interval_ms_def)
  show ?thesis
  proof (cases "?r \<le> 1000")
    case True
    have ge: "1 \<le> 1000 div ?r" using True r by (simp add: Suc_le_eq div_greater_zero_iff)
    have up: "1000 < ?r * (1000 div ?r) + ?r"
      using r dividend_less_div_times [of ?r 1000] by (simp add: mult.commute add.commute)
    have "?r \<le> ?r * (1000 div ?r)" using ge by (cases "1000 div ?r") auto
    with up have twice: "1000 < 2 * ?r * (1000 div ?r)" unfolding mult.assoc by linarith
    have "?r * (1000 div ?r) \<le> 1000" "1000 div ?r \<le> 1000" by simp_all
    moreover have "max (1000 div ?r) 1 = 1000 div ?r" using ge by simp
    ultimately show ?thesis unfolding some option.case iv using True ge twice by presburger
  next
    case big: False
    then have "1000 div ?r = 0" by simp
    then show ?thesis unfolding some option.case iv using big by simp
  qed
qed

end
