(* ===== verification/App_Lifecycle.thy ===== *)
theory App_Lifecycle
  imports Http_Server Ws_Server
begin

text \<open>
  Start-up and shutdown of the application (\<open>src/app.rs\<close>).  The database driver, the migrations and the
  binding of the listeners are parameters next to those of the configuration; serving requests is the
  rest of the development.  The state of the handlers is the record of the theory \<open>Http_File\<close>.
\<close>

section \<open>Start-up\<close>

record 'db application =
  ap_state :: "'db http_state"
  ap_jwt_secrets :: "access_secret list"
  ap_router :: router
  ap_http_port :: u16
  ap_ws_port :: u16

record 'db platform =
  pf_env :: environment
  pf_read :: "string \<Rightarrow> string + string"
  pf_parse_clusters :: "string \<Rightarrow> string + cluster_config list"
  pf_parse_secrets :: "string \<Rightarrow> string + access_secret list"
  pf_connect :: "string \<Rightarrow> string + 'db"
  pf_migrate :: "'db \<Rightarrow> string + 'db"
  pf_governor :: "u64 \<Rightarrow> u32 \<Rightarrow> bool"
  pf_bind :: "u16 \<Rightarrow> string option"

definition env_path :: "environment \<Rightarrow> string \<Rightarrow> string \<Rightarrow> string" where
  "env_path env key unset = (case env key of None \<Rightarrow> unset | Some p \<Rightarrow> p)"

definition database_url :: "settings \<Rightarrow> string" where
  "database_url s =
     ''mysql://'' @ DATABASE_USER s @ '':'' @ DATABASE_PASSWORD s @ ''@'' @ DATABASE_HOST s @ '':'' @
     show_nat (unat (DATABASE_PORT s)) @ ''/'' @ DATABASE_SCHEMA s @ ''?ssl-mode=disabled''"

text \<open>The schedulers of the configured clusters; the manager's own tasks are its timed operations.\<close>

definition manager_start_tasks :: "'db manager \<Rightarrow> 'db manager" where
  "manager_start_tasks mg = fold (\<lambda>(_, r). with_cluster r start_tasks) (mg_clusters mg) mg"

definition app_state :: "'db manager \<Rightarrow> 'db http_state" where
  "app_state mg = \<lparr>hs_manager = mg, hs_file_lists = (\<lambda>_. None), hs_cache_tasks = [], hs_background = []\<rparr>"

definition run_setup :: "'db platform \<Rightarrow> string + 'db application" where
  "run_setup P =
     (let s = load_settings (pf_env P) in
      case load_access_secrets (pf_read P) (pf_parse_secrets P)
             (env_path (pf_env P) ''ACCESS_SECRET_CONFIG_FILE'' ''config/access_secrets.json'') of
        Inl e \<Rightarrow> Inl e
      | Inr secrets \<Rightarrow>
          (case pf_connect P (database_url s) of
             Inl e \<Rightarrow> Inl e
           | Inr db \<Rightarrow>
               (case pf_migrate P db of
                  Inl e \<Rightarrow> Inl e
                | Inr db \<Rightarrow>
                    (case load_cluster_configs (pf_read P) (pf_parse_clusters P)
                            (env_path (pf_env P) ''CLUSTER_CONFIG_FILE'' ''config/clusters.json'') of
                       Inl e \<Rightarrow> Inl e
                     | Inr configs \<Rightarrow>
                         (case pf_bind P (HTTP_PORT s) of
                            Some e \<Rightarrow> Inl e
                          | None \<Rightarrow>
                              (case pf_bind P (WEBSOCKET_PORT s) of
                                 Some e \<Rightarrow> Inl e
                               | None \<Rightarrow>
                                   Inr \<lparr>ap_state = app_state (manager_start_tasks (manager_new configs db)),
                                        ap_jwt_secrets = secrets,
                                        ap_router = create_router (pf_governor P) s,
                                        ap_http_port = HTTP_PORT s, ap_ws_port = WEBSOCKET_PORT s\<rparr>))))))"

section \<open>Shutdown\<close>

text \<open>The drains run to their first wait before the deadline is looked at, and each has stopped its cluster
  and aborted its handles by then, so the deadline bounds the waiting alone.\<close>

definition drain_cluster :: "nat \<times> nat \<Rightarrow> 'db manager \<Rightarrow> 'db manager" where
  "drain_cluster entry = with_cluster (snd entry) terminate_download_tasks"

definition drain_application_shutdown :: "'db manager \<Rightarrow> nat \<times> 'db manager" where
  "drain_application_shutdown mg =
     (let (triggered, mg) = begin_application_shutdown mg
      in (triggered, fold drain_cluster (mg_download_clusters mg) mg))"

section \<open>What start-up establishes\<close>

lemma update_new: "k \<notin> fst ` set al \<Longrightarrow> AList.update k v al = al @ [(k, v)]"
  by (induction al) auto

lemma register_configs_exact:
  assumes "distinct (map cc_name cfgs)" "set (map cc_name cfgs) \<inter> fst ` set (mg_clusters mg) = {}"
  shows "mg_clusters (register_configs cfgs mg) =
      mg_clusters mg @ zip (map cc_name cfgs) [mg_next mg..<mg_next mg + length cfgs] \<and>
    mg_cluster_heap (register_configs cfgs mg) =
      (\<lambda>r. if mg_next mg \<le> r \<and> r < mg_next mg + length cfgs then cluster_new (cfgs ! (r - mg_next mg)) True
           else mg_cluster_heap mg r)"
  using assms
proof (induction cfgs arbitrary: mg)
  case Nil
  show ?case by (auto simp: fun_eq_iff)
next
  case (Cons c cs)
  let ?mg = "mg\<lparr>mg_cluster_heap := (mg_cluster_heap mg)(mg_next mg := cluster_new c True),
      mg_clusters := AList.update (cc_name c) (mg_next mg) (mg_clusters mg), mg_next := mg_next mg + 1\<rparr>"
  have new: "mg_clusters ?mg = mg_clusters mg @ [(cc_name c, mg_next mg)]"
    using Cons.prems(2) by (simp add: update_new)
  have "set (map cc_name cs) \<inter> fst ` set (mg_clusters ?mg) = {}"
    unfolding new using Cons.prems by auto
  with Cons.IH [of ?mg] Cons.prems(1)
  have ih: "mg_clusters (register_configs cs ?mg) =
      mg_clusters ?mg @ zip (map cc_name cs) [mg_next ?mg..<mg_next ?mg + length cs]"
    "mg_cluster_heap (register_configs cs ?mg) =
      (\<lambda>r. if mg_next ?mg \<le> r \<and> r < mg_next ?mg + length cs then cluster_new (cs ! (r - mg_next ?mg)) True
           else mg_cluster_heap ?mg r)" by simp_all
  have run: "register_configs (c # cs) mg = register_configs cs ?mg" by (simp add: Let_def)
  have names: "mg_clusters (register_configs (c # cs) mg) =
      mg_clusters mg @ zip (map cc_name (c # cs)) [mg_next mg..<mg_next mg + length (c # cs)]"
    unfolding run ih(1) new by (simp add: upt_conv_Cons del: upt_Suc)
  have "mg_cluster_heap (register_configs (c # cs) mg) r =
      (if mg_next mg \<le> r \<and> r < mg_next mg + length (c # cs) then cluster_new ((c # cs) ! (r - mg_next mg)) True
       else mg_cluster_heap mg r)" for r
    unfolding run ih(2) by (auto simp: nth_Cons' intro: arg_cong [where f = "\<lambda>i. cluster_new (cs ! i) True"])
  with names show ?case by blast
qed

lemma start_all_heap:
  "distinct (map snd es) \<Longrightarrow>
     mg_cluster_heap (fold (\<lambda>(_, r). with_cluster r start_tasks) es mg) =
       (\<lambda>r. if r \<in> snd ` set es then start_tasks (mg_cluster_heap mg r) else mg_cluster_heap mg r)"
proof (induction es arbitrary: mg)
  case (Cons e es)
  then show ?case by (cases e) (auto simp: fun_eq_iff with_cluster_def image_iff)
qed simp

lemma start_all_frame [simp]:
  "mg_clusters (fold (\<lambda>(_, r). with_cluster r start_tasks) es mg) = mg_clusters mg"
  "mg_shutdown (fold (\<lambda>(_, r). with_cluster r start_tasks) es mg) = mg_shutdown mg"
  "mg_connection_map (fold (\<lambda>(_, r). with_cluster r start_tasks) es mg) = mg_connection_map mg"
  "mg_downloads (fold (\<lambda>(_, r). with_cluster r start_tasks) es mg) = mg_downloads mg"
  by (induction es arbitrary: mg) (auto simp: case_prod_beta)

lemma register_configs_frame [simp]:
  "mg_shutdown (register_configs cfgs mg) = mg_shutdown mg"
  "mg_connection_map (register_configs cfgs mg) = mg_connection_map mg"
  "mg_downloads (register_configs cfgs mg) = mg_downloads mg"
  by (induction cfgs arbitrary: mg) (simp_all add: Let_def)

lemma start_offline [simp]: "\<not> is_online (start_tasks (cluster_new cfg ctx))"
  by (simp add: start_tasks_def is_online_def cluster_new_def cluster_new_with_role_def Let_def)

text \<open>C37: what a successful start establishes.  Every cluster of the configuration is registered under its
  own name, as it is configured, offline, with its scheduler, pruning and resend tasks running; no name
  hides another, no secret is empty, nothing is connected and no download exists; and the ports and the
  router are those of the environment.\<close>

theorem startup_exact:
  "case run_setup P of
     Inl e \<Rightarrow> True
   | Inr app \<Rightarrow>
       (let mg = hs_manager (ap_state app); s = load_settings (pf_env P) in
        (\<exists>cfgs. load_cluster_configs (pf_read P) (pf_parse_clusters P)
              (env_path (pf_env P) ''CLUSTER_CONFIG_FILE'' ''config/clusters.json'') = Inr cfgs \<and>
           map fst (mg_clusters mg) = map cc_name cfgs \<and> distinct (map cc_name cfgs) \<and>
           list_all (\<lambda>i. map_of (mg_clusters mg) (cc_name (cfgs ! i)) = Some i \<and>
             mg_cluster_heap mg i = start_tasks (cluster_new (cfgs ! i) True) \<and>
             \<not> is_online (mg_cluster_heap mg i)) [0..<length cfgs]) \<and>
        \<not> mg_shutdown mg \<and> mg_connection_map mg = [] \<and> mg_downloads mg = [] \<and>
        distinct (map as_name (ap_jwt_secrets app)) \<and>
        list_all (\<lambda>x. as_secret x \<noteq> '''' \<and> as_name x \<noteq> '''') (ap_jwt_secrets app) \<and>
        ap_http_port app = HTTP_PORT s \<and> ap_ws_port app = WEBSOCKET_PORT s \<and>
        ap_router app = create_router (pf_governor P) s)"
proof (cases "run_setup P")
  case (Inr app)
  let ?path = "env_path (pf_env P) ''CLUSTER_CONFIG_FILE'' ''config/clusters.json''"
  from Inr obtain secrets db cfgs where
    secrets: "load_access_secrets (pf_read P) (pf_parse_secrets P)
      (env_path (pf_env P) ''ACCESS_SECRET_CONFIG_FILE'' ''config/access_secrets.json'') = Inr secrets"
    and cfgs: "load_cluster_configs (pf_read P) (pf_parse_clusters P) ?path = Inr cfgs"
    and app: "ap_state app = app_state (manager_start_tasks (manager_new cfgs db))"
      "ap_jwt_secrets app = secrets" "ap_router app = create_router (pf_governor P) (load_settings (pf_env P))"
      "ap_http_port app = HTTP_PORT (load_settings (pf_env P))"
      "ap_ws_port app = WEBSOCKET_PORT (load_settings (pf_env P))"
    by (auto simp: run_setup_def Let_def split: sum.splits option.splits)
  have names: "distinct (map cc_name cfgs)" using cfgs by (simp add: loaded_clusters)
  define mg0 where "mg0 = manager_new cfgs db"
  have reg: "mg_clusters mg0 = zip (map cc_name cfgs) [0..<length cfgs]"
    "\<And>i. i < length cfgs \<Longrightarrow> mg_cluster_heap mg0 i = cluster_new (cfgs ! i) True"
    unfolding mg0_def manager_new_def using names by (subst register_configs_exact; simp)+
  have ids: "map snd (mg_clusters mg0) = [0..<length cfgs]" by (simp add: reg(1))
  then have refs: "distinct (map snd (mg_clusters mg0))" "snd ` set (mg_clusters mg0) = {0..<length cfgs}"
    by (simp_all only: distinct_upt set_upt flip: set_map)
  define mg where "mg = manager_start_tasks mg0"
  have cl: "mg_clusters mg = mg_clusters mg0" by (simp add: mg_def manager_start_tasks_def)
  have each: "map_of (mg_clusters mg) (cc_name (cfgs ! i)) = Some i \<and>
      mg_cluster_heap mg i = start_tasks (cluster_new (cfgs ! i) True) \<and> \<not> is_online (mg_cluster_heap mg i)"
    if "i < length cfgs" for i
  proof -
    have h: "mg_cluster_heap mg i = start_tasks (cluster_new (cfgs ! i) True)"
      using that by (simp add: mg_def manager_start_tasks_def start_all_heap [OF refs(1)] refs(2) reg(2))
    have "map_of (mg_clusters mg) (map cc_name cfgs ! i) = Some ([0..<length cfgs] ! i)"
      unfolding cl reg(1) using names that by (intro map_of_zip_nth) simp_all
    then show ?thesis using that
      by (simp add: h)
  qed
  have rest: "\<not> mg_shutdown mg" "mg_connection_map mg = []" "mg_downloads mg = []"
    by (simp_all add: mg_def manager_start_tasks_def mg0_def manager_new_def)
  have mgr: "hs_manager (ap_state app) = mg" by (simp add: app(1) app_state_def mg_def mg0_def)
  have "map fst (mg_clusters mg) = map cc_name cfgs" by (simp add: cl reg(1))
  then show ?thesis
    using Inr cfgs names each rest secrets [unfolded loaded_secrets] app(2-)
    by (simp add: Let_def mgr list_all_iff)
qed simp

definition demo_platform :: "mem_db platform" where
  "demo_platform =
     \<lparr>pf_env = (\<lambda>_. None), pf_read = (\<lambda>_. Inr ''[]''), pf_parse_clusters = (\<lambda>_. Inr [demo_config]),
      pf_parse_secrets = (\<lambda>_. Inr []), pf_connect = (\<lambda>_. Inr demo_db), pf_migrate = Inr,
      pf_governor = (\<lambda>_ _. True), pf_bind = (\<lambda>_. None)\<rparr>"

theorem startup_exact_witness:
  "\<exists>app. run_setup demo_platform = Inr app \<and> ap_http_port app = 8000 \<and>
     map fst (mg_clusters (hs_manager (ap_state app))) = [''ozstar'']"
proof -
  have d: "cc_ltk demo_config = None" "cc_name demo_config = ''ozstar''" by (simp_all add: demo_config_def)
  obtain app where a: "run_setup demo_platform = Inr app"
    using d by (simp add: run_setup_def demo_platform_def load_access_secrets_def load_cluster_configs_def
        load_json_file_def Let_def)
  have "load_cluster_configs (pf_read demo_platform) (pf_parse_clusters demo_platform) path = Inr [demo_config]" for path
    using d by (simp add: demo_platform_def load_cluster_configs_def load_json_file_def)
  then show ?thesis using startup_exact [of demo_platform] a d(2)
    by (auto simp: Let_def load_settings_def demo_platform_def env_or_uint_def)
qed

section \<open>What shutdown does\<close>

lemma terminate_idem [simp]:
  "cl_task_handles (terminate_download_tasks c) = []"
  "terminate_download_tasks (terminate_download_tasks c) = terminate_download_tasks c"
  by (simp_all add: terminate_download_tasks_def stop_def Let_def)

lemma drain_heap:
  "mg_cluster_heap (fold drain_cluster es mg) =
     (\<lambda>r. if r \<in> snd ` set es then terminate_download_tasks (mg_cluster_heap mg r) else mg_cluster_heap mg r)"
proof (induction es arbitrary: mg)
  case (Cons e es)
  then show ?case by (auto simp: fun_eq_iff drain_cluster_def with_cluster_def)
qed simp

lemma drain_frame:
  "fold drain_cluster es mg = mg\<lparr>mg_cluster_heap := mg_cluster_heap (fold drain_cluster es mg)\<rparr>"
proof (induction es arbitrary: mg)
  case (Cons e es)
  show ?case using Cons [of "drain_cluster e mg"]
    by (simp add: drain_cluster_def with_cluster_def)
qed simp

lemma drain_frame_simps [simp]:
  "mg_downloads (fold drain_cluster es mg) = mg_downloads mg"
  "mg_download_clusters (fold drain_cluster es mg) = mg_download_clusters mg"
  "mg_shutdown (fold drain_cluster es mg) = mg_shutdown mg"
  "mg_session_heap (fold drain_cluster es mg) = mg_session_heap mg"
  by (subst drain_frame, simp)+

lemma trigger_all_frame [simp]:
  "mg_cluster_heap (snd (trigger_all xs mg)) = mg_cluster_heap mg"
  "mg_download_clusters (snd (trigger_all xs mg)) = mg_download_clusters mg"
  by (induction xs arbitrary: mg) (auto simp: trigger_all_Cons)

text \<open>The drain of the shutdown ends every download and touches nothing else.  Every registered session
  is closed to further use, the tasks of every dedicated download cluster are stopped and no handle is
  left, the other clusters keep running as they were, and the second drain, of the second server, finds
  nothing to do.\<close>

theorem drain_exact:
  "let mg' = snd (drain_application_shutdown mg) in
     mg_shutdown mg' \<and> mg_downloads mg' = mg_downloads mg \<and>
     mg_cluster_heap mg' = (\<lambda>r. if r \<in> snd ` set (mg_download_clusters mg)
       then terminate_download_tasks (mg_cluster_heap mg r) else mg_cluster_heap mg r) \<and>
     list_all (\<lambda>(s, r). cl_task_handles (mg_cluster_heap mg' r) = []) (mg_download_clusters mg') \<and>
     (\<lambda>s. session_open (mg_session_heap mg' s)) =
       (\<lambda>s. session_open (mg_session_heap mg s) \<and>
         (if mg_shutdown mg then True else s \<notin> snd ` set (mg_downloads mg))) \<and>
     drain_application_shutdown mg' = (0, mg')"
proof -
  define mg1 where "mg1 = snd (begin_application_shutdown mg)"
  define mg2 where "mg2 = fold drain_cluster (mg_download_clusters mg1) mg1"
  have out: "snd (drain_application_shutdown mg) = mg2"
    by (simp add: drain_application_shutdown_def case_prod_beta mg1_def mg2_def Let_def)
  have one: "mg_shutdown mg1" "mg_downloads mg1 = mg_downloads mg" "mg_cluster_heap mg1 = mg_cluster_heap mg"
    "mg_download_clusters mg1 = mg_download_clusters mg"
    "session_open (mg_session_heap mg1 s) \<longleftrightarrow> session_open (mg_session_heap mg s) \<and>
       (mg_shutdown mg \<or> s \<notin> snd ` set (mg_downloads mg))" for s
    by (simp_all add: mg1_def begin_application_shutdown_def trigger_all_effect Let_def)
  have heap: "mg_cluster_heap mg2 = (\<lambda>r. if r \<in> snd ` set (mg_download_clusters mg)
      then terminate_download_tasks (mg_cluster_heap mg r) else mg_cluster_heap mg r)"
    by (simp add: mg2_def drain_heap one cong: if_cong)
  have two: "mg_shutdown mg2" "mg_download_clusters mg2 = mg_download_clusters mg"
    by (simp_all add: mg2_def one)
  have "fold drain_cluster (mg_download_clusters mg2) mg2 = mg2"
  proof -
    have "mg_cluster_heap (fold drain_cluster (mg_download_clusters mg2) mg2) = mg_cluster_heap mg2"
      by (auto simp: drain_heap two heap fun_eq_iff)
    then show ?thesis by (subst drain_frame) simp
  qed
  then have again: "drain_application_shutdown mg2 = (0, mg2)"
    using two(1) by (simp add: drain_application_shutdown_def begin_application_shutdown_def)
  have "list_all (\<lambda>(s, r). cl_task_handles (mg_cluster_heap mg2 r) = []) (mg_download_clusters mg2)"
    by (auto simp: list_all_iff two heap image_iff intro: rev_bexI)
  then show ?thesis
    using two again heap by (simp add: out Let_def) (auto simp: mg2_def one)
qed

text \<open>The drain of a manager with one transfer under way.\<close>

theorem drain_exact_witness:
  "\<not> session_open (mg_session_heap (snd (drain_application_shutdown demo_transfer_manager)) 2) \<and>
   cl_task_handles (mg_cluster_heap (snd (drain_application_shutdown demo_transfer_manager)) 1) = []"
  using drain_exact [of demo_transfer_manager] by (simp add: Let_def fun_eq_iff)


end
