(* ===== verification/Scheduler_Drain.thy ===== *)
theory Scheduler_Drain
  imports Scheduler "HOL-Library.Multiset" "HOL-Library.Sublist"
begin

text \<open>
  The scheduler on its own: from any state it comes to rest after finitely many of its own steps, asleep
  with nothing queued, and what it handed to the connection on the way is exactly what was queued, each
  source's messages of a priority in their order.  The step relation is the one of the theory
  \<open>Scheduler\<close>; the order in which a round visits the sources stays arbitrary.
\<close>

section \<open>The queued messages as a multiset\<close>

definition queue_frames :: "source_queues \<Rightarrow> bytes multiset" where
  "queue_frames m = sum_list (map (\<lambda>(_, q). mset q) m)"

definition queued_frames :: "cluster \<Rightarrow> bytes multiset" where
  "queued_frames c = sum_list (map (\<lambda>(_, m). queue_frames m) (cl_queue c))"

lemma sum_list_update:
  fixes f :: "'b \<Rightarrow> 'c :: comm_monoid_add"
  assumes "map_of m k = Some v"
  shows "sum_list (map (\<lambda>(_, x). f x) (AList.update k w m)) + f v = sum_list (map (\<lambda>(_, x). f x) m) + f w"
  using assms
proof (induction m)
  case (Cons e m)
  then show ?case by (cases e) (auto simp: ac_simps split: if_splits)
qed simp

lemma frames_pop:
  assumes "pop_source p s c = Some (d, c')"
  shows "queued_frames c = add_mset d (queued_frames c')"
proof -
  from assms obtain m rest where m: "map_of (cl_queue c) p = Some m" "map_of m s = Some (d # rest)"
    and c': "cl_queue c' = AList.update p (AList.update s rest m) (cl_queue c)"
    by (auto simp: pop_source_def split: option.splits list.splits)
  have "queue_frames (AList.update s rest m) + mset (d # rest) = queue_frames m + mset rest"
    unfolding queue_frames_def by (rule sum_list_update [OF m(2)])
  then have in_level: "queue_frames m = add_mset d (queue_frames (AList.update s rest m))" by simp
  have "queued_frames c' + queue_frames m = queued_frames c + queue_frames (AList.update s rest m)"
    unfolding queued_frames_def c' by (rule sum_list_update [OF m(1)])
  then show ?thesis unfolding in_level by simp
qed

lemma frames_same [simp]:
  "queued_frames (deliver d c) = queued_frames c" "queued_frames (c\<lparr>cl_data_permit := b\<rparr>) = queued_frames c"
  by (simp_all add: queued_frames_def)

lemma frames_empty:
  assumes "cluster_wf c" "\<And>p s. queue_view c p s = []"
  shows "queued_frames c = {#}"
proof -
  from assms(1) have "priorities_wf (cl_queue c)" by (simp add: cluster_wf_def)
  then obtain h m l where q: "cl_queue c = [(0, h), (10, m), (19, l)]"
    and d: "distinct (map fst h)" "distinct (map fst m)" "distinct (map fst l)" by (rule priorities_wf_obtain)
  have level: "queue_frames x = {#}" if "distinct (map fst x)" "\<And>s. (case map_of x s of None \<Rightarrow> [] | Some q \<Rightarrow> q) = []"
    for x :: source_queues
  proof -
    have empty: "snd e = []" if "e \<in> set x" for e
    proof -
      have "map_of x (fst e) = Some (snd e)" using \<open>distinct (map fst x)\<close> that by simp
      then show ?thesis using \<open>\<And>s. (case map_of x s of None \<Rightarrow> [] | Some q \<Rightarrow> q) = []\<close> [of "fst e"] by simp
    qed
    have "\<forall>e \<in> set xs. snd e = [] \<Longrightarrow> sum_list (map (\<lambda>(_, q). mset q) xs) = {#}" for xs :: source_queues
      by (induction xs) auto
    then show ?thesis unfolding queue_frames_def using empty by blast
  qed
  have "queue_frames h = {#}" "queue_frames m = {#}" "queue_frames l = {#}"
    using level [OF d(1)] level [OF d(2)] level [OF d(3)]
      assms(2) [of Highest] assms(2) [of Medium] assms(2) [of Lowest]
    by (simp_all add: queue_view_def q)
  then show ?thesis by (simp add: queued_frames_def q)
qed

section \<open>The scheduler comes to rest\<close>

text \<open>Every step either takes a message out, or uses up the stored notification, or advances the round.\<close>

fun phase :: "sched_pc \<Rightarrow> nat" where
  "phase (Taken _ _ _) = 9"
| "phase (Checking _ _ _) = 8"
| "phase (Scanning _ _ had) = (if had then 7 else 5)"
| "phase Woken = 6"
| "phase (AtPriority _) = 5"
| "phase LoopHead = 3"
| "phase Arming = 2"
| "phase Waiting = 1"
| "phase Exited = 0"

fun levels_left :: "sched_pc \<Rightarrow> nat" where
  "levels_left (AtPriority ps) = 2 * length ps + 1"
| "levels_left (Scanning ps _ _) = 2 * length ps"
| "levels_left _ = 0"

fun work_left :: "sched_pc \<Rightarrow> nat" where
  "work_left (Scanning _ srcs _) = length srcs"
| "work_left (Checking _ _ qs) = length qs"
| "work_left _ = 0"

definition sched_order :: "(sched \<times> sched) set" where
  "sched_order = measures
     [\<lambda>s. size (queued_frames (sc_cluster s)), \<lambda>s. of_bool (cl_data_permit (sc_cluster s)),
      \<lambda>s. phase (sc_pc s), \<lambda>s. levels_left (sc_pc s), \<lambda>s. work_left (sc_pc s)]"

lemma sched_step_decreases: "sched_step s t \<Longrightarrow> (t, s) \<in> sched_order"
proof (induction rule: sched_step.induct)
  case (scan_take s p ps src srcs had d c')
  then show ?case using frames_pop [of "priority_as_u8 p" src "sc_cluster s" d c']
    by (simp add: sched_order_def)
qed (simp_all add: sched_order_def)

lemma sched_step_wf: "wfp (\<lambda>t s. sched_step s t)"
  unfolding wfp_def
proof (rule wf_subset)
  show "wf sched_order" by (simp add: sched_order_def)
  show "{(t, s). sched_step s t} \<subseteq> sched_order" using sched_step_decreases by auto
qed

lemma step_running:
  "sched_step s t \<Longrightarrow> cl_running (sc_cluster t) = cl_running (sc_cluster s) \<and>
     (sc_pc t = Exited \<longrightarrow> \<not> cl_running (sc_cluster s))"
  by (induction rule: sched_step.induct) (auto simp: pop_source_def split: option.splits list.splits)

fun in_level :: "sched_pc \<Rightarrow> bool" where
  "in_level (Scanning ps _ _) \<longleftrightarrow> ps \<noteq> []"
| "in_level (Taken ps _ _) \<longleftrightarrow> ps \<noteq> []"
| "in_level (Checking ps _ _) \<longleftrightarrow> ps \<noteq> []"
| "in_level _ \<longleftrightarrow> True"

lemma in_level_step: "sched_step s t \<Longrightarrow> in_level (sc_pc t)"
  by (induction rule: sched_step.induct) simp_all

lemma in_level_reachable: "sched_reachable s \<Longrightarrow> in_level (sc_pc s)"
proof (induction rule: sched_reachable.induct)
  case (external s t)
  from external(2, 3) show ?case by (induction rule: env_step.induct) simp_all
qed (simp_all add: in_level_step)

definition resting :: "sched \<Rightarrow> bool" where
  "resting s \<longleftrightarrow> (\<forall>t. \<not> sched_step s t)"

text \<open>Inside a round there is always a step.\<close>

lemma round_steps:
  "sc_pc s = AtPriority ps \<Longrightarrow> \<exists>t. sched_step s t"
  "sc_pc s = Scanning (p # qs) srcs had \<Longrightarrow> \<exists>t. sched_step s t"
  "sc_pc s = Checking (p # qs) srcs checks \<Longrightarrow> \<exists>t. sched_step s t"
proof -
  show "\<exists>t. sched_step s t" if "sc_pc s = AtPriority ps"
  proof (cases ps)
    case Nil
    then show ?thesis using that sched_step.pass_done [of s] by blast
  next
    case (Cons p' qs')
    obtain found where "set found = set (source_keys (sc_cluster s) p')" "distinct found"
      using finite_distinct_list [OF finite_set] by metis
    then show ?thesis using that Cons sched_step.round_start [of s p' qs' found] by blast
  qed
  show "\<exists>t. sched_step s t" if "sc_pc s = Scanning (p # qs) srcs had"
  proof (cases srcs)
    case Nil
    then show ?thesis
      using that sched_step.round_again [of s p qs] sched_step.round_done [of s p qs] by (cases had) auto
  next
    case (Cons src rest)
    then show ?thesis
      using that sched_step.scan_empty [of s p qs src rest had] sched_step.scan_take [of s p qs src rest had]
      by (cases "pop_source (priority_as_u8 p) src (sc_cluster s)") auto
  qed
  show "\<exists>t. sched_step s t" if "sc_pc s = Checking (p # qs) srcs checks"
    using that sched_step.check_done [of s p qs srcs] sched_step.check_preempt [of s p qs srcs]
      sched_step.check_next [of s p qs srcs] by (cases checks) blast+
qed

text \<open>The only states in which the scheduler has no step are those at its end and asleep.\<close>

lemma resting_cases:
  assumes "in_level (sc_pc s)" "\<And>t. \<not> sched_step s t"
  shows "sc_pc s = Exited \<or> sc_pc s = Waiting \<and> \<not> cl_data_permit (sc_cluster s)"
proof (cases "sc_pc s")
  case LoopHead
  then show ?thesis using assms(2) sched_step.head_run [of s] sched_step.head_exit [of s] by blast
next
  case Woken
  then show ?thesis using assms(2) sched_step.woken_run [of s] sched_step.woken_exit [of s] by blast
next
  case (AtPriority ps)
  then show ?thesis using assms(2) round_steps(1) by blast
next
  case (Scanning ps srcs had)
  then obtain p qs where "ps = p # qs" using assms(1) by (cases ps) auto
  then show ?thesis using Scanning assms(2) round_steps(2) by blast
next
  case (Taken ps srcs d)
  then obtain p qs where "ps = p # qs" using assms(1) by (cases ps) auto
  then show ?thesis using Taken assms(2) sched_step.send [of s p qs srcs d] by blast
next
  case (Checking ps srcs qs)
  then obtain p rest where "ps = p # rest" using assms(1) by (cases ps) auto
  then show ?thesis using Checking assms(2) round_steps(3) by blast
qed (use assms(2) sched_step.arm [of s] sched_step.wake [of s] in blast)+

section \<open>What is sent on the way\<close>

fun in_hand :: "sched_pc \<Rightarrow> bytes list" where
  "in_hand (Taken _ _ d) = [d]"
| "in_hand _ = []"

definition sent_frames :: "sched \<Rightarrow> ws_outbound list" where
  "sent_frames s = (case cl_connection (sc_cluster s) of None \<Rightarrow> [] | Some ch \<Rightarrow> ch_sent ch)"

definition online :: "sched \<Rightarrow> bool" where
  "online s \<longleftrightarrow> (\<exists>ch. cl_connection (sc_cluster s) = Some ch \<and> ch_open ch)"

lemma step_sends:
  assumes "sched_step s t" "cluster_wf (sc_cluster s)" "online s"
  obtains (sends) d where "in_hand (sc_pc s) = [d]" "in_hand (sc_pc t) = []"
      "sent_frames t = sent_frames s @ [WsBinary d]" "queued_frames (sc_cluster t) = queued_frames (sc_cluster s)"
      "queue_view (sc_cluster t) = queue_view (sc_cluster s)"
  | (takes) p src d where "in_hand (sc_pc s) = []" "in_hand (sc_pc t) = [d]" "sent_frames t = sent_frames s"
      "queued_frames (sc_cluster s) = add_mset d (queued_frames (sc_cluster t))"
      "\<And>p' s'. queue_view (sc_cluster s) p' s' =
        (if p' = p \<and> s' = src then d # queue_view (sc_cluster t) p src else queue_view (sc_cluster t) p' s')"
  | (moves) "in_hand (sc_pc s) = []" "in_hand (sc_pc t) = []" "sent_frames t = sent_frames s"
      "queued_frames (sc_cluster t) = queued_frames (sc_cluster s)"
      "queue_view (sc_cluster t) = queue_view (sc_cluster s)"
  using assms(1)
proof (cases rule: sched_step.cases)
  case (send p ps srcs d)
  have "sent_frames t = sent_frames s @ [WsBinary d]"
    using send assms(3) by (auto simp: online_def sent_frames_def deliver_def channel_send_def)
  then show thesis using send sends [of d] by simp
next
  case (scan_take p ps src srcs had d c')
  have "sent_frames t = sent_frames s"
    using scan_take by (auto simp: sent_frames_def pop_source_def split: option.splits list.splits)
  then show thesis
    using scan_take frames_pop pop_source_wf(2) [OF assms(2) scan_take(3)] takes [of d p src] by simp
qed (use moves in \<open>simp_all add: sent_frames_def\<close>)

lemma step_online: "sched_step s t \<Longrightarrow> online s \<Longrightarrow> online t"
  by (induction rule: sched_step.induct)
    (auto simp: online_def deliver_def channel_send_def pop_source_def split: option.splits list.splits)

definition run_sent :: "sched \<Rightarrow> sched \<Rightarrow> bytes list \<Rightarrow> bytes list \<Rightarrow> bool" where
  "run_sent s t frames rest \<longleftrightarrow>
     sent_frames t = sent_frames s @ map WsBinary frames \<and> frames @ in_hand (sc_pc t) = in_hand (sc_pc s) @ rest \<and>
     queued_frames (sc_cluster s) = mset rest + queued_frames (sc_cluster t) \<and>
     (\<forall>p src. \<exists>taken. queue_view (sc_cluster s) p src = taken @ queue_view (sc_cluster t) p src \<and> subseq taken rest)"

lemma run_sent_step:
  assumes "sched_step s u" "cluster_wf (sc_cluster s)" "online s" "run_sent u t frames rest"
  shows "\<exists>frames' rest'. run_sent s t frames' rest'"
  using assms(1-3)
proof (cases rule: step_sends)
  case (sends d)
  then have "run_sent s t (d # frames) rest" using assms(4) by (simp add: run_sent_def)
  then show ?thesis by blast
next
  case (takes p src d)
  have "\<exists>taken. queue_view (sc_cluster s) p' s' = taken @ queue_view (sc_cluster t) p' s' \<and> subseq taken (d # rest)"
    for p' s'
  proof -
    obtain taken where "queue_view (sc_cluster u) p' s' = taken @ queue_view (sc_cluster t) p' s'" "subseq taken rest"
      using assms(4) unfolding run_sent_def by blast
    then show ?thesis
      using takes(5) [of p' s']
      by (intro exI [of _ "if p' = p \<and> s' = src then d # taken else taken"]) auto
  qed
  then have "run_sent s t frames (d # rest)" using assms(4) takes by (simp add: run_sent_def)
  then show ?thesis by blast
next
  case moves
  then have "run_sent s t frames rest" using assms(4) by (simp add: run_sent_def)
  then show ?thesis by blast
qed

lemma run_sends:
  assumes "sched_step\<^sup>*\<^sup>* s t" "sched_inv s" "online s"
  shows "\<exists>frames rest. run_sent s t frames rest"
  using assms
proof (induction rule: converse_rtranclp_induct)
  case base
  have "run_sent t t [] []" if "in_hand (sc_pc t) = []" using that by (simp add: run_sent_def)
  moreover have "run_sent t t [] []" by (simp add: run_sent_def)
  ultimately show ?case by blast
next
  case (step s u)
  obtain frames rest where "run_sent u t frames rest"
    using step.IH sched_inv_step [OF step.hyps(1) step.prems(1)] step_online [OF step.hyps(1) step.prems(2)] by blast
  moreover have "cluster_wf (sc_cluster s)" using step.prems(1) by (simp add: sched_inv_def)
  ultimately show ?case using run_sent_step [OF step.hyps(1) _ step.prems(2)] by blast
qed

lemma run_rests: "\<exists>t. sched_step\<^sup>*\<^sup>* s t \<and> (\<forall>u. \<not> sched_step t u)"
proof (induction s rule: wfp_induct_rule [OF sched_step_wf])
  case (1 s)
  show ?case
  proof (cases "\<exists>u. sched_step s u")
    case True
    then show ?thesis using 1 by (meson converse_rtranclp_into_rtranclp)
  qed blast
qed

lemma run_keeps:
  assumes "sched_step\<^sup>*\<^sup>* s t" "cl_running (sc_cluster s)" "sc_pc s \<noteq> Exited"
  shows "cl_running (sc_cluster t) \<and> sc_pc t \<noteq> Exited"
  using assms by (induction rule: rtranclp_induct) (use step_running in blast)+

lemma run_reachable: "sched_step\<^sup>*\<^sup>* s t \<Longrightarrow> sched_reachable s \<Longrightarrow> sched_reachable t"
  by (induction rule: rtranclp_induct) (auto intro: sched_reachable.internal)

lemma run_resting:
  assumes "sched_reachable s" "cl_running (sc_cluster s)" "sc_pc s \<noteq> Exited" "online s"
    and "sched_step\<^sup>*\<^sup>* s t" "\<And>u. \<not> sched_step t u"
  shows "sc_pc t = Waiting" "queue_view (sc_cluster t) p src = []"
    "\<exists>frames. sent_frames t = sent_frames s @ map WsBinary (in_hand (sc_pc s) @ frames) \<and>
       mset frames = queued_frames (sc_cluster s) \<and> (\<forall>p src. subseq (queue_view (sc_cluster s) p src) frames)"
proof -
  have r: "sched_reachable t" using run_reachable assms(1, 5) by blast
  then have rest: "sc_pc t = Waiting \<and> \<not> cl_data_permit (sc_cluster t)"
    using resting_cases [OF in_level_reachable assms(6)] run_keeps [OF assms(5, 2, 3)] by blast
  then show "sc_pc t = Waiting" by blast
  have inv: "sched_inv t" using r by (rule sched_reachable_inv)
  have empty: "queue_view (sc_cluster t) p src = []" for p src
    using inv rest by (force simp: sched_inv_def)
  then show "queue_view (sc_cluster t) p src = []" .
  have none: "queued_frames (sc_cluster t) = {#}"
    using inv empty by (intro frames_empty) (simp_all add: sched_inv_def)
  obtain frames more where "run_sent s t frames more"
    using run_sends [OF assms(5) sched_reachable_inv [OF assms(1)] assms(4)] by blast
  then show "\<exists>frames. sent_frames t = sent_frames s @ map WsBinary (in_hand (sc_pc s) @ frames) \<and>
       mset frames = queued_frames (sc_cluster s) \<and> (\<forall>p src. subseq (queue_view (sc_cluster s) p src) frames)"
    using rest empty none by (intro exI [of _ more]) (auto simp: run_sent_def)
qed

text \<open>C4: the scheduler drains its queues.  It never runs on for ever: from any reachable state every run of
  its own steps is finite, and while the cluster is not stopped it can only end asleep, with every queue
  empty.  If the connection is open all the way, what was sent by then is the message it held, if any,
  and then exactly the messages that were queued, each once, those of one source and priority in the
  order in which they were queued.\<close>

theorem scheduler_drains:
  assumes "sched_reachable s" "cl_running (sc_cluster s)" "sc_pc s \<noteq> Exited" "online s"
  shows "(\<nexists>run. run 0 = s \<and> (\<forall>i. sched_step (run i) (run (Suc i)))) \<and>
    (\<exists>t. sched_step\<^sup>*\<^sup>* s t \<and> resting t) \<and>
    (\<forall>t. sched_step\<^sup>*\<^sup>* s t \<and> resting t \<longrightarrow>
       sc_pc t = Waiting \<and> (\<forall>p src. queue_view (sc_cluster t) p src = []) \<and>
       (\<exists>frames. sent_frames t = sent_frames s @ map WsBinary (in_hand (sc_pc s) @ frames) \<and>
          mset frames = queued_frames (sc_cluster s) \<and>
          (\<forall>p src. subseq (queue_view (sc_cluster s) p src) frames)))"
proof (intro conjI allI impI)
  show "\<nexists>run. run 0 = s \<and> (\<forall>i. sched_step (run i) (run (Suc i)))"
    using sched_step_wf unfolding wfp_def wf_iff_no_infinite_down_chain by blast
  show "\<exists>t. sched_step\<^sup>*\<^sup>* s t \<and> resting t" unfolding resting_def by (rule run_rests)
qed (use run_resting [OF assms] in \<open>auto simp: resting_def\<close>)

definition demo_queued :: sched where
  "demo_queued = \<lparr>sc_cluster = set_connection (Some \<lparr>ch_open = True, ch_sent = []\<rparr>)
     (queue_message ''a'' [7] Medium demo_cluster), sc_pc = Waiting\<rparr>"

lemma demo_queued_reachable: "sched_reachable demo_queued"
  using sched_reachable.external [OF demo_enqueued env_step.connect [where conn = "Some \<lparr>ch_open = True, ch_sent = []\<rparr>"]]
  by (simp add: demo_queued_def)

lemma demo_queued_facts:
  "cl_running (sc_cluster demo_queued)" "sc_pc demo_queued = Waiting" "online demo_queued"
  "sent_frames demo_queued = []" "queued_frames (sc_cluster demo_queued) = {#[7]#}"
  by (simp_all add: demo_queued_def demo_cluster_def cluster_new_with_role_def queue_message_def set_connection_def
      online_def sent_frames_def queued_frames_def queue_frames_def empty_priority_queues_def push_source_def
      alist_adjust_def)

theorem scheduler_drains_witness:
  "\<exists>t. sched_step\<^sup>*\<^sup>* demo_queued t \<and> sc_pc t = Waiting \<and> sent_frames t = [WsBinary [7]]"
proof -
  note drained = scheduler_drains [OF demo_queued_reachable demo_queued_facts(1) _ demo_queued_facts(3),
      unfolded demo_queued_facts, simplified]
  then obtain t where t: "sched_step\<^sup>*\<^sup>* demo_queued t" "resting t" by blast
  then obtain frames where "sent_frames t = map WsBinary frames" "mset frames = {#[7]#}" "sc_pc t = Waiting"
    using drained by auto
  then show ?thesis using t(1) by (intro exI [of _ t]) simp
qed

end
