(* ===== verification/Registry.thy ===== *)
theory Registry
  imports Cluster_Manager
begin

text \<open>
  The registries of the manager over the whole life of the server.  A step relation lists everything the
  rest of the program can do to the state of the manager, in any interleaving, and the theory shows what
  holds between the registries in every reachable state: which references they hold, how sessions,
  dedicated clusters and connections belong together, and that a session which is no longer open is on
  its way out.
\<close>

section \<open>The steps of the server\<close>

text \<open>A session somebody can hold is one that was allocated.\<close>

definition known_session :: "'db manager \<Rightarrow> nat \<Rightarrow> bool" where
  "known_session mg s \<longleftrightarrow> s < mg_next mg \<and> ds_self (mg_session_heap mg s) = s"

text \<open>What tasks do to a cluster leaves its role and identifier alone.  Connection identifiers come from a
  counter: a new connection has one that is not registered.\<close>

definition identity :: "cluster \<Rightarrow> cluster_role \<times> string option" where
  "identity c = (cl_role c, cl_uuid c)"

inductive server_step :: "'db database \<Rightarrow> 'db manager \<Rightarrow> 'db manager \<Rightarrow> bool" for D where
  admit: "map_of (mg_connection_map mg) cid = None \<Longrightarrow>
    server_step D mg (snd (admit_connection D now cutoff cid sender token mg))"
| register: "map_of (mg_connection_map mg) cid = None \<Longrightarrow> (name, r) \<in> set (mg_clusters mg) \<Longrightarrow>
    server_step D mg (register_connection now cid sender name r mg)"
| remove: "server_step D mg (remove_connection cid close_it mg)"
| pong: "server_step D mg (handle_pong now cid mg)"
| pings: "server_step D mg (check_pings now mg)"
| worker: "server_step D mg (cleanup_worker_step mg)"
| shut_down: "server_step D mg (snd (begin_application_shutdown mg))"
| reconnect: "server_step D mg (snd (reconnect_clusters D base now wall uuids mg))"
| create_download: "map_of (mg_downloads mg) uid = None \<Longrightarrow>
    server_step D mg (snd (create_file_download r uid mg))"
| create_upload: "server_step D mg (snd (create_file_upload r uid mg))"
| remove_upload: "server_step D mg (remove_file_upload uid mg)"
| trigger: "known_session mg s \<Longrightarrow> server_step D mg (snd (trigger_session reason s mg))"
| complete: "known_session mg s \<Longrightarrow> server_step D mg (with_session s (\<lambda>x. snd (session_complete cid x)) mg)"
| cluster: "identity (f (mg_cluster_heap mg r)) = identity (mg_cluster_heap mg r) \<Longrightarrow>
    server_step D mg (with_cluster r f mg)"
| store: "server_step D mg (mg\<lparr>mg_db := db\<rparr>)"

abbreviation server_run :: "'db database \<Rightarrow> 'db manager \<Rightarrow> 'db manager \<Rightarrow> bool" where
  "server_run D \<equiv> (server_step D)\<^sup>*\<^sup>*"

definition server_reachable :: "'db database \<Rightarrow> 'db manager \<Rightarrow> bool" where
  "server_reachable D mg \<longleftrightarrow> (\<exists>cfgs db. server_run D (manager_new cfgs db) mg)"

section \<open>The invariant\<close>

fun binding :: "session_state \<Rightarrow> connection_id option" where
  "binding SessionPending = None"
| "binding (Connected cid) = Some cid"
| "binding (Closing c _) = c"
| "binding (Closed c _) = c"

abbreviation role_of :: "'db manager \<Rightarrow> nat \<Rightarrow> cluster_role" where
  "role_of mg r \<equiv> cl_role (mg_cluster_heap mg r)"

abbreviation uuid_of :: "'db manager \<Rightarrow> nat \<Rightarrow> string option" where
  "uuid_of mg r \<equiv> cl_uuid (mg_cluster_heap mg r)"

abbreviation bound_by :: "'db manager \<Rightarrow> nat \<Rightarrow> connection_id option" where
  "bound_by mg s \<equiv> binding (ds_state (mg_session_heap mg s))"

text \<open>A download is registered under the identifier of its session, with a dedicated cluster.\<close>

definition downloads_ok :: "'db manager \<Rightarrow> bool" where
  "downloads_ok mg \<longleftrightarrow> distinct (map fst (mg_downloads mg)) \<and>
     (\<forall>uid s. map_of (mg_downloads mg) uid = Some s \<longrightarrow>
        known_session mg s \<and> ds_download_id (mg_session_heap mg s) = uid \<and>
        map_of (mg_download_clusters mg) s \<noteq> None)"

text \<open>A dedicated cluster belongs to the session that is registered under its identifier.\<close>

definition transfers_ok :: "'db manager \<Rightarrow> bool" where
  "transfers_ok mg \<longleftrightarrow>
     (\<forall>s r. map_of (mg_download_clusters mg) s = Some r \<longrightarrow>
        r < mg_next mg \<and> role_of mg r = FileDownload \<and> known_session mg s \<and>
        uuid_of mg r = Some (ds_download_id (mg_session_heap mg s)) \<and>
        map_of (mg_downloads mg) (ds_download_id (mg_session_heap mg s)) = Some s)"

definition clusters_ok :: "'db manager \<Rightarrow> bool" where
  "clusters_ok mg \<longleftrightarrow>
     (\<forall>name r. (name, r) \<in> set (mg_clusters mg) \<longrightarrow> r < mg_next mg \<and> role_of mg r = Master) \<and>
     (\<forall>uid r. map_of (mg_uploads mg) uid = Some r \<longrightarrow>
        r < mg_next mg \<and> role_of mg r = FileUpload \<and> uuid_of mg r = Some uid)"

text \<open>A registered connection of a download is the one its session is bound to.\<close>

definition connections_ok :: "'db manager \<Rightarrow> bool" where
  "connections_ok mg \<longleftrightarrow>
     (\<forall>cid r. map_of (mg_connection_map mg) cid = Some r \<longrightarrow> r < mg_next mg \<and>
        (role_of mg r = FileDownload \<longrightarrow>
           (\<exists>s. map_of (mg_download_clusters mg) s = Some r \<and> bound_by mg s = Some cid)))"

text \<open>A request for clean-up names a session that is no longer open, and the connection it was bound to.\<close>

definition request_ok :: "'db manager \<Rightarrow> cleanup_request \<Rightarrow> bool" where
  "request_ok mg rq \<longleftrightarrow>
     (let s = cr_session rq in
      known_session mg s \<and> \<not> session_open (mg_session_heap mg s) \<and>
      cr_download_id rq = ds_download_id (mg_session_heap mg s) \<and> cr_connection_id rq = bound_by mg s)"

definition requests_ok :: "'db manager \<Rightarrow> bool" where
  "requests_ok mg \<longleftrightarrow> (\<forall>rq \<in> set (mg_cleanup_queue mg). request_ok mg rq)"

text \<open>A registered session that is no longer open is owed a clean-up.\<close>

definition owed :: "'db manager \<Rightarrow> cleanup_request list \<Rightarrow> bool" where
  "owed mg q \<longleftrightarrow>
     (\<forall>uid s. map_of (mg_downloads mg) uid = Some s \<and> \<not> session_open (mg_session_heap mg s) \<longrightarrow>
        (\<exists>rq \<in> set q. cr_session rq = s))"

definition registry_base :: "'db manager \<Rightarrow> bool" where
  "registry_base mg \<longleftrightarrow>
     downloads_ok mg \<and> transfers_ok mg \<and> clusters_ok mg \<and> connections_ok mg \<and> requests_ok mg"

definition registry_core :: "'db manager \<Rightarrow> bool" where
  "registry_core mg \<longleftrightarrow> registry_base mg \<and> owed mg (mg_cleanup_queue mg)"

definition shutdown_ok :: "'db manager \<Rightarrow> bool" where
  "shutdown_ok mg \<longleftrightarrow>
     (mg_shutdown mg \<longrightarrow>
        (\<forall>uid s. map_of (mg_downloads mg) uid = Some s \<longrightarrow> \<not> session_open (mg_session_heap mg s)))"

text \<open>A registered session that is open and bound has its connection registered.\<close>

definition live_ok :: "'db manager \<Rightarrow> bool" where
  "live_ok mg \<longleftrightarrow>
     (\<forall>uid s cid. map_of (mg_downloads mg) uid = Some s \<and> session_open (mg_session_heap mg s) \<and>
        bound_by mg s = Some cid \<longrightarrow> map_of (mg_connection_map mg) cid = map_of (mg_download_clusters mg) s)"

definition registry_ok :: "'db manager \<Rightarrow> bool" where
  "registry_ok mg \<longleftrightarrow> registry_core mg \<and> shutdown_ok mg \<and> live_ok mg"

lemmas registry_defs = downloads_ok_def transfers_ok_def clusters_ok_def connections_ok_def requests_ok_def

section \<open>What does not touch the registries\<close>

definition registry_view where
  "registry_view mg =
     ((mg_clusters mg, mg_connection_map mg, mg_downloads mg, mg_download_clusters mg, mg_cleanup_queue mg,
       mg_uploads mg), mg_session_heap mg, (\<lambda>r. identity (mg_cluster_heap mg r)), mg_next mg, mg_shutdown mg)"

lemma registry_ok_cong:
  assumes "registry_view mg' = registry_view mg"
  shows "registry_ok mg' = registry_ok mg"
proof -
  have "role_of mg' r = role_of mg r" "uuid_of mg' r = uuid_of mg r" for r
    using assms by (auto simp: registry_view_def identity_def dest: fun_cong [where x = r])
  then show ?thesis using assms
    unfolding registry_ok_def registry_core_def registry_base_def registry_defs owed_def shutdown_ok_def
      live_ok_def request_ok_def known_session_def Let_def
    by (simp add: registry_view_def)
qed

lemma view_with_cluster [simp]:
  "identity (f (mg_cluster_heap mg r)) = identity (mg_cluster_heap mg r) \<Longrightarrow>
     registry_view (with_cluster r f mg) = registry_view mg"
  by (auto simp: registry_view_def with_cluster_def)

lemma identity_frame [simp]:
  "identity (set_connection x c) = identity c" "identity (terminate_download_tasks c) = identity c"
  "identity (fst (close c)) = identity c" "identity (send_ping c) = identity c"
  by (simp_all add: identity_def set_connection_def terminate_download_tasks_def stop_def close_def
      send_ping_def Let_def split: option.split)

lemma view_frame [simp]:
  "registry_view (forget_tracking cid mg) = registry_view mg"
  "registry_view (handle_pong now cid mg) = registry_view mg"
  "registry_view (snd (miss cid mg)) = registry_view mg"
  "registry_view (mg\<lparr>mg_ping_times := p\<rparr>) = registry_view mg"
  "registry_view (mg\<lparr>mg_db := db\<rparr>) = registry_view mg"
  by (simp_all add: registry_view_def forget_tracking_def handle_pong_def miss_def Let_def)

lemma view_count_misses [simp]: "registry_view (snd (count_misses cids mg)) = registry_view mg"
  by (induction cids arbitrary: mg) (simp_all add: case_prod_beta)

lemma view_pings [simp]: "registry_view (fold (ping_connection now) es mg) = registry_view mg"
proof (induction es arbitrary: mg)
  case (Cons e es)
  have "registry_view (ping_connection now e mg) = registry_view mg"
    by (auto simp: ping_connection_def case_prod_beta Let_def registry_view_def)
      (auto simp: with_cluster_def)
  with Cons show ?case by simp
qed simp

lemma view_reconnect [simp]:
  "registry_view (snd (reconnect_clusters D base now wall uuids mg)) = registry_view mg"
proof -
  have one: "registry_view (snd (reconnect_one D base now wall uuids e out)) = registry_view (snd out)" for e out
    by (simp add: reconnect_one_def case_prod_beta Let_def registry_view_def split: sum.split)
  have "registry_view (snd (fold (reconnect_one D base now wall uuids) es out)) = registry_view (snd out)" for es out
    by (induction es arbitrary: out) (simp_all add: one)
  then show ?thesis by (simp add: reconnect_clusters_def)
qed

section \<open>Clean-up\<close>

declare map_of_eq_Some_iff [simp del] Some_eq_map_of_iff [simp del]

lemma session_complete_view:
  "ds_download_id (snd (session_complete cid x)) = ds_download_id x"
  "ds_self (snd (session_complete cid x)) = ds_self x"
  "session_open (snd (session_complete cid x)) = session_open x"
  "binding (ds_state (snd (session_complete cid x))) = binding (ds_state x)"
  by (simp_all add: session_complete_def session_open_def split: session_state.split)

text \<open>A clean-up that is not stale, field by field.\<close>

lemma cleanup_fields:
  assumes "map_of (mg_downloads mg) (cr_download_id rq) = Some (cr_session rq)"
    "ds_download_id (mg_session_heap mg (cr_session rq)) = cr_download_id rq"
    "map_of (mg_download_clusters mg) (cr_session rq) = Some r"
  shows "mg_downloads (cleanup_file_download rq mg) = AList.delete (cr_download_id rq) (mg_downloads mg)"
    and "mg_download_clusters (cleanup_file_download rq mg) = AList.delete (cr_session rq) (mg_download_clusters mg)"
    and "map_of (mg_connection_map (cleanup_file_download rq mg)) cid =
      (if cr_connection_id rq = Some cid \<and> map_of (mg_connection_map mg) cid = Some r then None
       else map_of (mg_connection_map mg) cid)"
    and "mg_clusters (cleanup_file_download rq mg) = mg_clusters mg"
    and "mg_next (cleanup_file_download rq mg) = mg_next mg"
    and "mg_shutdown (cleanup_file_download rq mg) = mg_shutdown mg"
    and "mg_cleanup_queue (cleanup_file_download rq mg) = mg_cleanup_queue mg"
    and "identity (mg_cluster_heap (cleanup_file_download rq mg) x) = identity (mg_cluster_heap mg x)"
  using assms
  by (simp_all add: cleanup_file_download_def Let_def remove_exact_download_session_def remove_exact_connection_def
      map_of_delete with_cluster_def with_session_def forget_tracking_def split: option.split)

lemma cleanup_sessions:
  "ds_download_id (mg_session_heap (cleanup_file_download rq mg) s) = ds_download_id (mg_session_heap mg s)"
  "ds_self (mg_session_heap (cleanup_file_download rq mg) s) = ds_self (mg_session_heap mg s)"
  "session_open (mg_session_heap (cleanup_file_download rq mg) s) = session_open (mg_session_heap mg s)"
  "bound_by (cleanup_file_download rq mg) s = bound_by mg s"
  by (simp_all add: cleanup_file_download_def Let_def remove_exact_download_session_def remove_exact_connection_def
      session_complete_view split: option.split)

lemma cleanup_uploads: "mg_uploads (cleanup_file_download rq mg) = mg_uploads mg"
  by (simp add: cleanup_file_download_def Let_def remove_exact_download_session_def remove_exact_connection_def
      split: option.split)

lemma cleanup_stale:
  "map_of (mg_downloads mg) (cr_download_id rq) \<noteq> Some (cr_session rq) \<Longrightarrow> cleanup_file_download rq mg = mg"
  by (simp add: cleanup_file_download_def Let_def remove_exact_download_session_def split: option.split)

text \<open>For a proper request, clean-up removes its session or finds it gone.\<close>

lemma cleanup_cases:
  assumes "registry_base mg" "request_ok mg rq"
  obtains (stale) "map_of (mg_downloads mg) (cr_download_id rq) \<noteq> Some (cr_session rq)"
      "cleanup_file_download rq mg = mg"
  | (exact) r where "map_of (mg_downloads mg) (cr_download_id rq) = Some (cr_session rq)"
      "ds_download_id (mg_session_heap mg (cr_session rq)) = cr_download_id rq"
      "map_of (mg_download_clusters mg) (cr_session rq) = Some r"
proof (cases "map_of (mg_downloads mg) (cr_download_id rq) = Some (cr_session rq)")
  case True
  then show thesis
    using assms exact by (auto simp: registry_base_def downloads_ok_def request_ok_def Let_def)
qed (use stale cleanup_stale in blast)

lemma role_uuid_identity:
  "identity c = identity d \<longleftrightarrow> cl_role c = cl_role d \<and> cl_uuid c = cl_uuid d"
  by (simp add: identity_def)

lemma cleanup_base:
  assumes base: "registry_base mg" and rq: "request_ok mg rq"
  shows "registry_base (cleanup_file_download rq mg)"
  using base rq
proof (cases rule: cleanup_cases)
  case (exact r)
  let ?s = "cr_session rq" and ?mg = "cleanup_file_download rq mg"
  note f = cleanup_fields [OF exact]
  have ids [simp]: "role_of ?mg x = role_of mg x" "uuid_of ?mg x = uuid_of mg x" for x
    using f(8) [of x] by (simp_all add: role_uuid_identity)
  have known [simp]: "known_session ?mg s = known_session mg s" for s
    by (simp add: known_session_def f cleanup_sessions)
  have d: "downloads_ok ?mg"
    using base exact
    by (auto simp: registry_base_def downloads_ok_def f cleanup_sessions map_of_delete distinct_delete)
  have t: "transfers_ok ?mg"
    using base exact
    by (auto simp: registry_base_def transfers_ok_def f cleanup_sessions map_of_delete) (metis not_None_eq option.inject)
  have c: "clusters_ok ?mg"
    using base by (simp add: registry_base_def clusters_ok_def f cleanup_uploads)
  have "connections_ok ?mg"
    unfolding connections_ok_def
  proof (intro allI impI)
    fix cid x
    assume "map_of (mg_connection_map ?mg) cid = Some x"
    then have x: "map_of (mg_connection_map mg) cid = Some x" "\<not> (cr_connection_id rq = Some cid \<and> x = r)"
      by (simp_all add: f split: if_splits)
    have old: "x < mg_next mg" "role_of mg x = FileDownload \<Longrightarrow>
        \<exists>s. map_of (mg_download_clusters mg) s = Some x \<and> bound_by mg s = Some cid"
      using base x(1) by (simp_all add: registry_base_def connections_ok_def)
    have "s \<noteq> ?s" if "map_of (mg_download_clusters mg) s = Some x" "bound_by mg s = Some cid" for s
      using that x(2) exact(3) rq by (auto simp: request_ok_def Let_def)
    then show "x < mg_next ?mg \<and> (role_of ?mg x = FileDownload \<longrightarrow>
        (\<exists>s. map_of (mg_download_clusters ?mg) s = Some x \<and> bound_by ?mg s = Some cid))"
      using old by (auto simp: f cleanup_sessions map_of_delete)
  qed
  moreover have "requests_ok ?mg"
    using base by (simp add: registry_base_def requests_ok_def request_ok_def Let_def f cleanup_sessions)
  ultimately show ?thesis using d t c by (simp add: registry_base_def)
qed (use base in simp)

lemma cleanup_owed:
  assumes base: "registry_base mg" and rq: "request_ok mg rq" and owed: "owed mg (rq # q)"
  shows "owed (cleanup_file_download rq mg) q"
  using base rq
proof (cases rule: cleanup_cases)
  case stale
  have "cr_session rq \<noteq> s" if "map_of (mg_downloads mg) uid = Some s" for uid s
    using that stale(1) base rq
    by (auto simp: registry_base_def downloads_ok_def request_ok_def Let_def)
  then show ?thesis using owed stale(2) by (fastforce simp: owed_def)
next
  case (exact r)
  have "cr_session rq \<noteq> s" if "map_of (mg_downloads mg) uid = Some s" "uid \<noteq> cr_download_id rq" for uid s
    using that exact(2) base by (auto simp: registry_base_def downloads_ok_def)
  then show ?thesis
    using owed by (fastforce simp: owed_def cleanup_fields [OF exact] cleanup_sessions map_of_delete split: if_splits)
qed

lemma cleanup_queue_shutdown:
  assumes "registry_base mg" "request_ok mg rq"
  shows "mg_cleanup_queue (cleanup_file_download rq mg) = mg_cleanup_queue mg"
    "mg_shutdown (cleanup_file_download rq mg) = mg_shutdown mg"
    "map_of (mg_downloads (cleanup_file_download rq mg)) uid = Some s \<Longrightarrow> map_of (mg_downloads mg) uid = Some s"
  using assms by (cases rule: cleanup_cases; simp add: cleanup_fields map_of_delete split: if_splits)+

lemma owed_more: "owed mg q \<Longrightarrow> set q \<subseteq> set q' \<Longrightarrow> owed mg q'"
  by (fastforce simp: owed_def)

lemma same_cluster:
  assumes "registry_base mg" "map_of (mg_download_clusters mg) s = Some r" "map_of (mg_download_clusters mg) s' = Some r"
  shows "s = s'"
  using assms unfolding registry_base_def transfers_ok_def by (metis option.inject)

lemma cleanup_live:
  assumes base: "registry_base mg" and rq: "request_ok mg rq" and live: "live_ok mg"
  shows "live_ok (cleanup_file_download rq mg)"
  using base rq
proof (cases rule: cleanup_cases)
  case (exact r)
  show ?thesis
    unfolding live_ok_def cleanup_sessions cleanup_fields [OF exact]
  proof (intro allI impI)
    fix uid s cid
    assume "map_of (AList.delete (cr_download_id rq) (mg_downloads mg)) uid = Some s \<and>
      session_open (mg_session_heap mg s) \<and> bound_by mg s = Some cid"
    then have s: "map_of (mg_downloads mg) uid = Some s" "session_open (mg_session_heap mg s)" "bound_by mg s = Some cid"
      by (simp_all add: map_of_delete split: if_splits)
    then have conn: "map_of (mg_connection_map mg) cid = map_of (mg_download_clusters mg) s"
      using live by (auto simp: live_ok_def)
    have "s \<noteq> cr_session rq" using rq s(2) by (auto simp: request_ok_def Let_def)
    then show "(if cr_connection_id rq = Some cid \<and> map_of (mg_connection_map mg) cid = Some r then None
        else map_of (mg_connection_map mg) cid) = map_of (AList.delete (cr_session rq) (mg_download_clusters mg)) s"
      using conn same_cluster [OF base exact(3), of s] by (auto simp: map_of_delete)
  qed
qed (use live in simp)

lemma cleanup_ok:
  assumes "registry_ok mg" "request_ok mg rq"
  shows "registry_ok (cleanup_file_download rq mg)"
proof -
  have base: "registry_base mg" using assms(1) by (simp add: registry_ok_def registry_core_def)
  note q = cleanup_queue_shutdown [OF base assms(2)]
  have "owed mg (rq # mg_cleanup_queue mg)"
    using assms(1) by (auto simp: registry_ok_def registry_core_def intro: owed_more)
  then have "registry_core (cleanup_file_download rq mg)"
    using cleanup_base [OF base assms(2)] cleanup_owed [OF base assms(2)] by (simp add: registry_core_def q)
  moreover have "shutdown_ok (cleanup_file_download rq mg)"
    using assms(1) q(3) by (auto simp: registry_ok_def shutdown_ok_def q(2) cleanup_sessions)
  moreover have "live_ok (cleanup_file_download rq mg)"
    using assms(1) cleanup_live [OF base assms(2)] by (simp add: registry_ok_def)
  ultimately show ?thesis by (simp add: registry_ok_def)
qed

lemma worker_ok:
  assumes "registry_ok mg"
  shows "registry_ok (cleanup_worker_step mg)"
proof (cases "mg_cleanup_queue mg")
  case Nil
  then show ?thesis using assms by (simp add: cleanup_worker_step_def)
next
  case (Cons rq q)
  let ?mg = "mg\<lparr>mg_cleanup_queue := q\<rparr>"
  have step: "cleanup_worker_step mg = cleanup_file_download rq ?mg" by (simp add: cleanup_worker_step_def Cons)
  have base: "registry_base ?mg" and rq: "request_ok ?mg rq" and owed: "owed ?mg (rq # q)"
    using assms Cons
    by (auto simp: registry_ok_def registry_core_def registry_base_def registry_defs request_ok_def owed_def
        known_session_def Let_def)
  note q = cleanup_queue_shutdown [OF base rq]
  have "registry_core (cleanup_file_download rq ?mg)"
    using cleanup_base [OF base rq] cleanup_owed [OF base rq owed] by (simp add: registry_core_def q)
  moreover have "shutdown_ok (cleanup_file_download rq ?mg)"
    using assms q(3) by (auto simp: registry_ok_def shutdown_ok_def q(2) cleanup_sessions)
  moreover have "live_ok (cleanup_file_download rq ?mg)"
    using assms cleanup_live [OF base rq] by (simp add: registry_ok_def live_ok_def)
  ultimately show ?thesis by (simp add: registry_ok_def step)
qed

section \<open>Triggers and shutdown\<close>

text \<open>A trigger on an open session, in full.\<close>

lemma trigger_open:
  assumes "session_open (mg_session_heap mg s)"
  shows "snd (trigger_session reason s mg) =
     mg\<lparr>mg_session_heap := (mg_session_heap mg)(s := (mg_session_heap mg s)
          \<lparr>ds_state := Closing (bound_by mg s) reason\<rparr>),
        mg_cleanup_queue := mg_cleanup_queue mg @
          [\<lparr>cr_download_id = ds_download_id (mg_session_heap mg s), cr_connection_id = bound_by mg s,
            cr_reason = reason, cr_session = ds_self (mg_session_heap mg s)\<rparr>]\<rparr>"
  using assms
  by (cases "ds_state (mg_session_heap mg s)")
    (simp_all add: trigger_session_def session_trigger_def enter_closing_def session_open_def)

lemma trigger_closed:
  "\<not> session_open (mg_session_heap mg s) \<Longrightarrow> snd (trigger_session reason s mg) = mg"
  by (auto simp: trigger_session_def session_trigger_def session_open_def split: session_state.splits)

text \<open>A change of one session that keeps its names, opens nothing and unbinds nothing.\<close>

definition session_grows :: "session \<Rightarrow> session \<Rightarrow> bool" where
  "session_grows x x' \<longleftrightarrow> ds_download_id x' = ds_download_id x \<and> ds_self x' = ds_self x \<and>
     (session_open x' \<longrightarrow> session_open x) \<and>
     (\<forall>cid. binding (ds_state x) = Some cid \<longrightarrow> binding (ds_state x') = Some cid) \<and>
     (\<not> session_open x \<longrightarrow> binding (ds_state x') = binding (ds_state x))"

abbreviation put_session :: "nat \<Rightarrow> session \<Rightarrow> 'db manager \<Rightarrow> 'db manager" where
  "put_session s x mg \<equiv> mg\<lparr>mg_session_heap := (mg_session_heap mg)(s := x)\<rparr>"

lemma put_session_known [simp]:
  "session_grows (mg_session_heap mg s) x \<Longrightarrow> known_session (put_session s x mg) y = known_session mg y"
  by (auto simp: known_session_def session_grows_def)

lemma put_session_base:
  assumes base: "registry_base mg" and x: "session_grows (mg_session_heap mg s) x"
  shows "registry_base (put_session s x mg)"
proof -
  let ?mg = "put_session s x mg"
  note known = put_session_known [OF x]
  have id: "ds_download_id (((mg_session_heap mg)(s := x)) y) = ds_download_id (mg_session_heap mg y)" for y
    using x by (simp add: session_grows_def)
  have "downloads_ok ?mg" using base by (simp add: registry_base_def downloads_ok_def known id del: fun_upd_apply)
  moreover have "transfers_ok ?mg"
    using base by (simp add: registry_base_def transfers_ok_def known id del: fun_upd_apply)
  moreover have "clusters_ok ?mg" using base by (simp add: registry_base_def clusters_ok_def)
  moreover have "bound_by ?mg y = Some cid" if "bound_by mg y = Some cid" for y cid
    using that x by (auto simp: session_grows_def)
  then have "connections_ok ?mg"
    using base unfolding registry_base_def connections_ok_def
    by (simp del: fun_upd_apply) blast
  moreover have "request_ok ?mg rq" if "request_ok mg rq" for rq
    using that x by (auto simp: request_ok_def known session_grows_def Let_def)
  then have "requests_ok ?mg" using base by (simp add: registry_base_def requests_ok_def)
  ultimately show ?thesis by (simp add: registry_base_def)
qed

lemma put_session_ok:
  assumes ok: "registry_ok mg" and x: "session_grows (mg_session_heap mg s) x"
    "session_open x = session_open (mg_session_heap mg s)"
  shows "registry_core (put_session s x mg)" "shutdown_ok (put_session s x mg)"
    "binding (ds_state x) = bound_by mg s \<Longrightarrow> registry_ok (put_session s x mg)"
proof -
  have same: "session_open (((mg_session_heap mg)(s := x)) y) = session_open (mg_session_heap mg y)" for y
    using x(2) by simp
  have parts: "registry_core mg" "shutdown_ok mg" "live_ok mg" using ok by (simp_all add: registry_ok_def)
  show core: "registry_core (put_session s x mg)"
    using parts(1) put_session_base [OF _ x(1)] by (auto simp: registry_core_def owed_def same simp del: fun_upd_apply)
  show down: "shutdown_ok (put_session s x mg)"
    using parts(2) by (simp add: shutdown_ok_def same del: fun_upd_apply)
  show "registry_ok (put_session s x mg)" if "binding (ds_state x) = bound_by mg s"
  proof -
    have "binding (ds_state (((mg_session_heap mg)(s := x)) y)) = bound_by mg y" for y using that by simp
    then have "live_ok (put_session s x mg)" using parts(3) by (simp add: live_ok_def same del: fun_upd_apply)
    then show ?thesis using core down by (simp add: registry_ok_def)
  qed
qed

lemma append_request:
  assumes "registry_base mg" "request_ok mg rq"
    "\<And>uid s. map_of (mg_downloads mg) uid = Some s \<Longrightarrow> \<not> session_open (mg_session_heap mg s) \<Longrightarrow>
       s = cr_session rq \<or> (\<exists>q \<in> set (mg_cleanup_queue mg). cr_session q = s)"
  shows "registry_core (mg\<lparr>mg_cleanup_queue := mg_cleanup_queue mg @ [rq]\<rparr>)"
proof -
  let ?mg = "mg\<lparr>mg_cleanup_queue := mg_cleanup_queue mg @ [rq]\<rparr>"
  have "registry_base ?mg"
    using assms(1, 2)
    by (auto simp: registry_base_def registry_defs request_ok_def known_session_def Let_def)
  moreover have "owed ?mg (mg_cleanup_queue ?mg)"
    using assms(3) by (fastforce simp: owed_def)
  ultimately show ?thesis by (simp add: registry_core_def)
qed

lemma trigger_core:
  assumes core: "registry_core mg" and known: "known_session mg s"
  shows "registry_core (snd (trigger_session reason s mg))"
proof (cases "session_open (mg_session_heap mg s)")
  case True
  let ?x = "(mg_session_heap mg s)\<lparr>ds_state := Closing (bound_by mg s) reason\<rparr>"
  let ?rq = "\<lparr>cr_download_id = ds_download_id (mg_session_heap mg s), cr_connection_id = bound_by mg s,
      cr_reason = reason, cr_session = s\<rparr>"
  have grows: "session_grows (mg_session_heap mg s) ?x"
    using True by (simp add: session_grows_def session_open_def)
  have base: "registry_base (put_session s ?x mg)"
    using core by (intro put_session_base grows) (simp add: registry_core_def)
  have "request_ok (put_session s ?x mg) ?rq"
    using known by (simp add: request_ok_def known_session_def session_open_def)
  then have "registry_core ((put_session s ?x mg)\<lparr>mg_cleanup_queue := mg_cleanup_queue mg @ [?rq]\<rparr>)"
    using append_request [OF base, of ?rq] core
    by (auto simp: registry_core_def owed_def split: if_splits)
  then show ?thesis using known by (simp add: trigger_open [OF True] known_session_def)
qed (simp add: core trigger_closed)

lemma trigger_known [simp]:
  "known_session (snd (trigger_session reason s mg)) x \<longleftrightarrow> known_session mg x"
proof (cases "session_open (mg_session_heap mg s)")
  case True
  then show ?thesis by (simp add: trigger_open known_session_def)
qed (simp add: trigger_closed)

lemma trigger_shutdown:
  "shutdown_ok mg \<Longrightarrow> shutdown_ok (snd (trigger_session reason s mg))"
  by (simp add: shutdown_ok_def trigger_session_open)

lemma trigger_bound: "bound_by (snd (trigger_session reason s mg)) x = bound_by mg x"
proof (cases "session_open (mg_session_heap mg s)")
  case True
  then show ?thesis by (simp add: trigger_open)
qed (simp add: trigger_closed)

lemma trigger_live: "live_ok mg \<Longrightarrow> live_ok (snd (trigger_session reason s mg))"
  by (auto simp: live_ok_def trigger_session_open trigger_bound)

lemma trigger_ok:
  "registry_ok mg \<Longrightarrow> known_session mg s \<Longrightarrow> registry_ok (snd (trigger_session reason s mg))"
  by (simp add: registry_ok_def trigger_core trigger_shutdown trigger_live)

lemma trigger_all_core:
  "registry_core mg \<Longrightarrow> list_all (\<lambda>(_, s). known_session mg s) xs \<Longrightarrow> registry_core (snd (trigger_all xs mg))"
proof (induction xs arbitrary: mg)
  case (Cons x xs)
  have "registry_core (snd (trigger_session ApplicationShutdown (snd x) mg))"
    using Cons.prems by (intro trigger_core) (auto simp: case_prod_beta)
  then show ?case using Cons.prems(2) by (simp add: trigger_all_Cons Cons.IH)
qed simp

lemma trigger_all_live: "live_ok mg \<Longrightarrow> live_ok (snd (trigger_all xs mg))"
  by (induction xs arbitrary: mg) (simp_all add: trigger_all_Cons trigger_live)

lemma registered_known:
  "registry_core mg \<Longrightarrow> map_of (mg_downloads mg) uid = Some s \<Longrightarrow> known_session mg s"
  by (simp add: registry_core_def registry_base_def downloads_ok_def)

lemma all_registered:
  assumes "registry_core mg" "(uid, s) \<in> set (mg_downloads mg)"
  shows "map_of (mg_downloads mg) uid = Some s"
  using assms by (intro map_of_is_SomeI) (simp_all add: registry_core_def registry_base_def downloads_ok_def)

lemma shutdown_step_ok:
  assumes "registry_ok mg"
  shows "registry_ok (snd (begin_application_shutdown mg))"
proof (cases "mg_shutdown mg")
  case False
  let ?mg = "mg\<lparr>mg_shutdown := True\<rparr>"
  have core: "registry_core ?mg"
    using assms unfolding registry_ok_def registry_core_def registry_base_def registry_defs request_ok_def
      owed_def known_session_def Let_def by simp blast
  have "list_all (\<lambda>(_, s). known_session ?mg s) (mg_downloads ?mg)"
    unfolding list_all_iff using registered_known [OF core] all_registered [OF core] by blast
  then have "registry_core (snd (trigger_all (mg_downloads mg) ?mg))" using trigger_all_core [OF core] by simp
  moreover have "shutdown_ok (snd (trigger_all (mg_downloads mg) ?mg))"
    by (force simp: shutdown_ok_def trigger_all_effect dest: map_of_SomeD)
  moreover have "live_ok (snd (trigger_all (mg_downloads mg) ?mg))"
    using assms by (intro trigger_all_live) (simp add: registry_ok_def live_ok_def)
  ultimately show ?thesis using False by (simp add: begin_application_shutdown_def registry_ok_def)
qed (use assms in \<open>simp add: begin_application_shutdown_def\<close>)

section \<open>Connections\<close>

text \<open>A connection is registered for a cluster that is not a download's, or for the one its session is
  bound to.\<close>

lemma connect_core:
  assumes "registry_core mg" "shutdown_ok mg" "r < mg_next mg"
    "role_of mg r \<noteq> FileDownload \<or> (\<exists>s. map_of (mg_download_clusters mg) s = Some r \<and> bound_by mg s = Some cid)"
    "live_ok (mg\<lparr>mg_connection_map := AList.update cid r (mg_connection_map mg)\<rparr>)"
    "registry_view mg' = registry_view (mg\<lparr>mg_connection_map := AList.update cid r (mg_connection_map mg)\<rparr>)"
  shows "registry_ok mg'"
proof -
  let ?mg = "mg\<lparr>mg_connection_map := AList.update cid r (mg_connection_map mg)\<rparr>"
  have "connections_ok ?mg"
    using assms(1, 3, 4) by (auto simp: registry_core_def registry_base_def connections_ok_def map_of_update)
  then have "registry_core ?mg \<and> shutdown_ok ?mg"
    using assms(1, 2) unfolding registry_core_def registry_base_def downloads_ok_def transfers_ok_def
      clusters_ok_def requests_ok_def request_ok_def owed_def known_session_def shutdown_ok_def Let_def by simp blast
  then show ?thesis unfolding registry_ok_cong [OF assms(6)] using assms(5) by (simp add: registry_ok_def)
qed

lemma connect_ok:
  assumes "registry_ok mg" "r < mg_next mg" "role_of mg r \<noteq> FileDownload"
    and fresh: "map_of (mg_connection_map mg) cid = None"
    and view: "registry_view mg' = registry_view (mg\<lparr>mg_connection_map := AList.update cid r (mg_connection_map mg)\<rparr>)"
  shows "registry_ok mg'"
proof -
  let ?mg = "mg\<lparr>mg_connection_map := AList.update cid r (mg_connection_map mg)\<rparr>"
  have parts: "registry_core mg" "shutdown_ok mg" "live_ok mg" using assms(1) by (simp_all add: registry_ok_def)
  have "map_of (mg_download_clusters mg) s \<noteq> None" if "map_of (mg_downloads mg) uid = Some s" for uid s
    using parts(1) that by (simp add: registry_core_def registry_base_def downloads_ok_def)
  then have "live_ok ?mg" using parts(3) fresh by (fastforce simp: live_ok_def map_of_update)
  then show ?thesis by (rule connect_core [OF parts(1, 2) assms(2) disjI1 [OF assms(3)] _ view])
qed

lemma register_ok:
  assumes "registry_ok mg" "(name, r) \<in> set (mg_clusters mg)" "map_of (mg_connection_map mg) cid = None"
  shows "registry_ok (register_connection now cid sender name r mg)"
proof (rule connect_ok [OF assms(1)])
  show "map_of (mg_connection_map mg) cid = None" by (rule assms(3))
  show "r < mg_next mg" "role_of mg r \<noteq> FileDownload"
    using assms(1, 2) by (auto simp: registry_ok_def registry_core_def registry_base_def clusters_ok_def)
  show "registry_view (register_connection now cid sender name r mg) =
      registry_view (mg\<lparr>mg_connection_map := AList.update cid r (mg_connection_map mg)\<rparr>)"
    by (auto simp: registry_view_def register_connection_def with_cluster_def identity_def set_connection_def)
qed

lemma admit_download_ok:
  assumes ok: "registry_ok mg" and s: "map_of (mg_downloads mg) token = Some s"
    and fresh: "map_of (mg_connection_map mg) cid = None"
  shows "registry_ok (snd (admit_download_connection cid sender s mg))"
proof (cases "ds_state (mg_session_heap mg s) = SessionPending")
  case True
  let ?x = "(mg_session_heap mg s)\<lparr>ds_state := Connected cid\<rparr>"
  let ?mg = "put_session s ?x mg"
  have x: "session_grows (mg_session_heap mg s) ?x" "session_open ?x = session_open (mg_session_heap mg s)"
    using True by (simp_all add: session_grows_def session_open_def)
  have parts: "registry_base mg" "live_ok mg" using ok by (simp_all add: registry_ok_def registry_core_def)
  obtain r where r: "map_of (mg_download_clusters mg) s = Some r" "r < mg_next mg"
    using parts(1) s by (fastforce simp: registry_base_def downloads_ok_def transfers_ok_def)
  have "map_of (mg_download_clusters mg) y \<noteq> None" if "map_of (mg_downloads mg) uid = Some y" for uid y
    using parts(1) that by (simp add: registry_base_def downloads_ok_def)
  then have "live_ok (?mg\<lparr>mg_connection_map := AList.update cid r (mg_connection_map ?mg)\<rparr>)"
    using parts(2) r fresh by (fastforce simp: live_ok_def map_of_update)
  moreover have "registry_view (snd (admit_download_connection cid sender s mg)) =
      registry_view (?mg\<lparr>mg_connection_map := AList.update cid r (mg_connection_map ?mg)\<rparr>)"
    using True r
    by (auto simp: admit_download_connection_def bind_connection_def registry_view_def with_cluster_def
        identity_def set_connection_def Let_def)
  moreover have "map_of (mg_download_clusters ?mg) s = Some r \<and> bound_by ?mg s = Some cid" "r < mg_next ?mg"
    using r by simp_all
  ultimately show ?thesis
    using connect_core [OF put_session_ok(1, 2) [OF ok x]] by blast
next
  case False
  then have "snd (admit_download_connection cid sender s mg) = mg"
    by (simp add: admit_download_connection_def bind_connection_def split: session_state.split)
  then show ?thesis using ok by simp
qed

lemma admit_upload_ok:
  assumes ok: "registry_ok mg" and r: "map_of (mg_uploads mg) token = Some r"
    and fresh: "map_of (mg_connection_map mg) cid = None"
  shows "registry_ok (snd (admit_upload_connection cid sender r mg))"
proof (cases "is_online (mg_cluster_heap mg r)")
  case False
  have plain: "r < mg_next mg" "role_of mg r \<noteq> FileDownload"
    using ok r by (auto simp: registry_ok_def registry_core_def registry_base_def clusters_ok_def)
  have "registry_view (snd (admit_upload_connection cid sender r mg)) =
      registry_view (mg\<lparr>mg_connection_map := AList.update cid r (mg_connection_map mg)\<rparr>)"
    using False by (auto simp: admit_upload_connection_def registry_view_def with_cluster_def identity_def
        set_connection_def Let_def)
  then show ?thesis using connect_ok [OF ok plain fresh] by blast
qed (use ok in \<open>simp add: admit_upload_connection_def\<close>)

lemma store_ok: "registry_ok mg \<Longrightarrow> registry_ok (mg\<lparr>mg_db := db\<rparr>)"
  by (simp add: registry_ok_cong [OF view_frame(5)])

lemma admit_token_ok:
  assumes "registry_ok mg" "map_of (mg_connection_map mg) cid = None"
  shows "registry_ok (snd (admit_token_connection D now cutoff cid sender token mg))"
proof -
  have "registry_ok (register_connection now cid sender name r (mg\<lparr>mg_db := db\<rparr>))"
    if "map_of (mg_clusters mg) name = Some r" for name r db
    using register_ok [OF store_ok [OF assms(1)], where name = name and r = r and cid = cid] that assms(2) by (simp add: map_of_SomeD)
  then show ?thesis
    by (simp add: admit_token_connection_def case_prod_beta Let_def store_ok assms(1) split: option.split)
qed

lemma admit_ok:
  "registry_ok mg \<Longrightarrow> map_of (mg_connection_map mg) cid = None \<Longrightarrow>
     registry_ok (snd (admit_connection D now cutoff cid sender token mg))"
  by (simp add: admit_connection_def case_prod_beta admit_download_ok admit_upload_ok admit_token_ok
      split: option.split)

section \<open>Removal and health checks\<close>

lemma end_download_ok:
  assumes ok: "registry_ok mg"
  shows "registry_ok (end_download cid close_it r mg)"
proof -
  have clean: "registry_ok (cleanup_file_download
      \<lparr>cr_download_id = uid, cr_connection_id = Some cid, cr_reason = reason, cr_session = s\<rparr>
      (snd (trigger_session reason s mg)))"
    if s: "map_of (mg_downloads mg) uid = Some s" "ds_state (mg_session_heap mg s) = Connected cid" for uid s reason
  proof (rule cleanup_ok)
    have reg: "known_session mg s" "ds_download_id (mg_session_heap mg s) = uid"
      using ok s(1) by (auto simp: registry_ok_def registry_core_def registry_base_def downloads_ok_def)
    then show "registry_ok (snd (trigger_session reason s mg))" using ok by (intro trigger_ok)
    have "session_open (mg_session_heap mg s)" using s(2) by (simp add: session_open_def)
    then show "request_ok (snd (trigger_session reason s mg))
        \<lparr>cr_download_id = uid, cr_connection_id = Some cid, cr_reason = reason, cr_session = s\<rparr>"
      using reg s(2) by (simp add: request_ok_def trigger_open known_session_def session_open_def)
  qed
  have trig: "registry_ok (snd (trigger_session reason s mg))" if "map_of (mg_downloads mg) uid = Some s" for uid s reason
    using ok that by (intro trigger_ok registered_known) (auto simp: registry_ok_def)
  show ?thesis
    using ok by (cases close_it) (simp_all add: end_download_def case_prod_beta Let_def clean trig split: option.split)
qed

lemma disconnect_ok:
  assumes ok: "registry_ok mg" and r: "map_of (mg_connection_map mg) cid = Some r" "role_of mg r \<noteq> FileDownload"
  shows "registry_ok (mg\<lparr>mg_connection_map := AList.delete cid (mg_connection_map mg)\<rparr>)"
    (is "registry_ok ?mg")
proof -
  have parts: "registry_core mg" "shutdown_ok mg" "live_ok mg" using ok by (simp_all add: registry_ok_def)
  have "map_of (mg_download_clusters mg) s \<noteq> Some r" "map_of (mg_downloads mg) uid = Some s \<Longrightarrow>
      map_of (mg_download_clusters mg) s \<noteq> None" for uid s
    using parts(1) r(2) by (auto simp: registry_core_def registry_base_def transfers_ok_def downloads_ok_def)
  then have live: "live_ok ?mg" using parts(3) r(1) by (fastforce simp: live_ok_def map_of_delete)
  have "connections_ok ?mg"
    using parts(1) by (auto simp: registry_core_def registry_base_def connections_ok_def map_of_delete)
  then have "registry_core ?mg \<and> shutdown_ok ?mg"
    using parts(1, 2) unfolding registry_core_def registry_base_def downloads_ok_def transfers_ok_def
      clusters_ok_def requests_ok_def request_ok_def owed_def known_session_def shutdown_ok_def Let_def by simp blast
  then show ?thesis using live by (simp add: registry_ok_def)
qed

lemma remove_upload_ok:
  assumes "registry_ok mg"
  shows "registry_ok (mg\<lparr>mg_uploads := AList.delete uid (mg_uploads mg)\<rparr>)"
    (is "registry_ok ?mg")
proof -
  have "clusters_ok ?mg"
    using assms by (auto simp: registry_ok_def registry_core_def registry_base_def clusters_ok_def map_of_delete)
  then show ?thesis
    using assms unfolding registry_ok_def registry_core_def registry_base_def downloads_ok_def transfers_ok_def
      connections_ok_def requests_ok_def request_ok_def owed_def known_session_def shutdown_ok_def live_ok_def Let_def
    by simp blast
qed

lemma remove_plain_view:
  assumes "map_of (mg_connection_map mg) cid = Some r" "role_of mg r \<noteq> FileDownload"
  shows "registry_view (remove_connection cid close_it mg) =
      registry_view (let mg = mg\<lparr>mg_connection_map := AList.delete cid (mg_connection_map mg)\<rparr> in
        if role_of mg r = FileUpload
        then (case uuid_of mg r of None \<Rightarrow> mg | Some uid \<Rightarrow> mg\<lparr>mg_uploads := AList.delete uid (mg_uploads mg)\<rparr>)
        else mg)"
  using assms
  by (auto simp: remove_connection_def remove_exact_connection_def Let_def registry_view_def with_cluster_def
      forget_tracking_def split: option.split)

lemma remove_ok:
  assumes ok: "registry_ok mg"
  shows "registry_ok (remove_connection cid close_it mg)"
proof -
  consider "map_of (mg_connection_map mg) cid = None"
    | r where "map_of (mg_connection_map mg) cid = Some r" "role_of mg r = FileDownload"
    | r where "map_of (mg_connection_map mg) cid = Some r" "role_of mg r \<noteq> FileDownload"
    by (cases "map_of (mg_connection_map mg) cid") auto
  then show ?thesis
  proof cases
    case 1
    then show ?thesis using ok by (simp add: remove_absent_connection)
  next
    case 2
    then show ?thesis
      using end_download_ok [OF ok] by (simp add: remove_download_connection registry_ok_cong [OF view_frame(1)])
  next
    case 3
    note d = disconnect_ok [OF ok 3]
    show ?thesis
      unfolding registry_ok_cong [OF remove_plain_view [OF 3]] Let_def
      using d remove_upload_ok [OF d] by (simp split: option.split)
  qed
qed

lemma evict_ok: "registry_ok mg \<Longrightarrow> registry_ok (evict cid mg)"
  unfolding evict_def by (intro remove_ok) (simp add: registry_ok_cong [OF view_frame(4)])

lemma check_pings_ok:
  assumes "registry_ok mg"
  shows "registry_ok (check_pings now mg)"
proof -
  have "registry_ok (fold evict cids m)" if "registry_ok m" for cids and m :: "'a manager"
    using that by (induction cids arbitrary: m) (simp_all add: evict_ok)
  then show ?thesis
    using assms by (simp add: check_pings_def case_prod_beta Let_def registry_ok_cong [OF view_pings]
        registry_ok_cong [OF view_count_misses])
qed

section \<open>Creation\<close>

text \<open>New objects are put at numbers nothing holds yet.\<close>

lemma new_cluster_identity:
  "identity (start_tasks (cluster_new_file_download d uid st b)) = (FileDownload, Some uid)"
  "identity (start_tasks (cluster_new_file_upload d uid ust b)) = (FileUpload, Some uid)"
  "identity (cluster_new d b) = (Master, None)"
  by (simp_all add: identity_def start_tasks_def cluster_new_file_download_def cluster_new_file_upload_def
      cluster_new_def cluster_new_with_role_def Let_def)

lemma create_upload_ok:
  assumes ok: "registry_ok mg"
  shows "registry_ok (snd (create_file_upload cl uid mg))"
proof (cases "mg_shutdown mg")
  case False
  let ?n = "mg_next mg" and ?mg = "snd (create_file_upload cl uid mg)"
  have f: "mg_clusters ?mg = mg_clusters mg" "mg_connection_map ?mg = mg_connection_map mg"
    "mg_downloads ?mg = mg_downloads mg" "mg_download_clusters ?mg = mg_download_clusters mg"
    "mg_cleanup_queue ?mg = mg_cleanup_queue mg" "mg_shutdown ?mg = mg_shutdown mg"
    "mg_session_heap ?mg = mg_session_heap mg" "mg_next ?mg = Suc ?n"
    "mg_uploads ?mg = AList.update uid ?n (mg_uploads mg)"
    using False by (simp_all add: create_file_upload_def Let_def)
  have id: "identity (mg_cluster_heap ?mg r) = (if r = ?n then (FileUpload, Some uid) else identity (mg_cluster_heap mg r))"
    for r using False by (simp add: create_file_upload_def Let_def new_cluster_identity)
  have old [simp]: "role_of ?mg r = role_of mg r" "uuid_of ?mg r = uuid_of mg r" if "r < ?n" for r
    using id [of r] that by (simp_all add: role_uuid_identity split: if_splits)
  have new [simp]: "role_of ?mg ?n = FileUpload" "uuid_of ?mg ?n = Some uid"
    using id [of ?n] by (simp_all add: identity_def)
  have parts: "downloads_ok mg" "transfers_ok mg" "clusters_ok mg" "connections_ok mg" "requests_ok mg"
    "owed mg (mg_cleanup_queue mg)" "shutdown_ok mg" "live_ok mg"
    using ok by (simp_all add: registry_ok_def registry_core_def registry_base_def)
  have known: "known_session ?mg s" if "known_session mg s" for s
    using that by (simp add: known_session_def f)
  have "downloads_ok ?mg" using parts(1) known by (simp add: downloads_ok_def f)
  moreover have "transfers_ok ?mg"
    using parts(2) known unfolding transfers_ok_def f by (metis less_SucI old)
  moreover have "clusters_ok ?mg"
    using parts(3) by (auto simp: clusters_ok_def f map_of_update less_SucI)
  moreover have "connections_ok ?mg"
    using parts(4) unfolding connections_ok_def f by (metis less_SucI old(1))
  moreover have "requests_ok ?mg"
    using parts(5) known by (simp add: requests_ok_def request_ok_def Let_def f)
  moreover have "owed ?mg (mg_cleanup_queue ?mg)" "shutdown_ok ?mg" "live_ok ?mg"
    using parts(6-8) by (simp_all add: owed_def shutdown_ok_def live_ok_def f)
  ultimately show ?thesis by (simp add: registry_ok_def registry_core_def registry_base_def)
qed (use ok in \<open>simp add: create_file_upload_def\<close>)

lemma create_download_fields:
  fixes cl :: nat and uid :: string
  assumes "\<not> mg_shutdown mg"
  defines "mg' \<equiv> snd (create_file_download cl uid mg)"
  shows "mg_clusters mg' = mg_clusters mg" "mg_connection_map mg' = mg_connection_map mg"
    "mg_downloads mg' = AList.update uid (Suc (mg_next mg)) (mg_downloads mg)"
    "mg_download_clusters mg' = AList.update (Suc (mg_next mg)) (mg_next mg) (mg_download_clusters mg)"
    "mg_cleanup_queue mg' = mg_cleanup_queue mg" "mg_shutdown mg' = False" "mg_uploads mg' = mg_uploads mg"
    "mg_session_heap mg' = (mg_session_heap mg)(Suc (mg_next mg) := session_new uid (Suc (mg_next mg)))"
    "mg_next mg' = Suc (Suc (mg_next mg))"
  using assms(1) by (simp_all add: mg'_def create_file_download_def Let_def)

lemma create_download_roles:
  fixes cl :: nat and uid :: string
  assumes "\<not> mg_shutdown mg"
  defines "mg' \<equiv> snd (create_file_download cl uid mg)"
  shows "r < mg_next mg \<Longrightarrow> role_of mg' r = role_of mg r" "r < mg_next mg \<Longrightarrow> uuid_of mg' r = uuid_of mg r"
    "role_of mg' (mg_next mg) = FileDownload" "uuid_of mg' (mg_next mg) = Some uid"
    "known_session mg s \<Longrightarrow> known_session mg' s \<and> s \<noteq> Suc (mg_next mg)" "known_session mg' (Suc (mg_next mg))"
proof -
  have id: "identity (mg_cluster_heap mg' r) =
      (if r = mg_next mg then (FileDownload, Some uid) else identity (mg_cluster_heap mg r))" for r
    using assms(1) by (simp add: mg'_def create_file_download_def Let_def new_cluster_identity)
  show "role_of mg' r = role_of mg r" "uuid_of mg' r = uuid_of mg r" if "r < mg_next mg"
    using id [of r] that by (simp_all add: role_uuid_identity split: if_splits)
  show "role_of mg' (mg_next mg) = FileDownload" "uuid_of mg' (mg_next mg) = Some uid"
    using id [of "mg_next mg"] by (simp_all add: identity_def)
  show "known_session mg' s \<and> s \<noteq> Suc (mg_next mg)" if "known_session mg s"
    using that by (auto simp: known_session_def mg'_def create_download_fields [OF assms(1)])
  show "known_session mg' (Suc (mg_next mg))"
    by (simp add: known_session_def mg'_def create_download_fields [OF assms(1)] session_new_def)
qed

lemma create_download_transfers:
  assumes on: "\<not> mg_shutdown mg" and fresh: "map_of (mg_downloads mg) uid = None" and ok: "transfers_ok mg"
  shows "transfers_ok (snd (create_file_download cl uid mg))"
  unfolding transfers_ok_def
proof (intro allI impI)
  fix s r
  let ?n = "mg_next mg" and ?mg = "snd (create_file_download cl uid mg)"
  note f = create_download_fields [OF on] and roles = create_download_roles [OF on]
  assume "map_of (mg_download_clusters ?mg) s = Some r"
  then consider "s = Suc ?n" "r = ?n" | "s \<noteq> Suc ?n" "map_of (mg_download_clusters mg) s = Some r"
    by (auto simp: f map_of_update split: if_splits)
  then show "r < mg_next ?mg \<and> role_of ?mg r = FileDownload \<and> known_session ?mg s \<and>
      uuid_of ?mg r = Some (ds_download_id (mg_session_heap ?mg s)) \<and>
      map_of (mg_downloads ?mg) (ds_download_id (mg_session_heap ?mg s)) = Some s"
  proof cases
    case 1
    then show ?thesis using roles(6) by (simp add: f roles map_of_update session_new_def)
  next
    case 2
    then show ?thesis using ok fresh roles(5) by (fastforce simp: transfers_ok_def f roles map_of_update)
  qed
qed

lemma create_download_connections:
  assumes on: "\<not> mg_shutdown mg" and ok: "transfers_ok mg" "connections_ok mg"
  shows "connections_ok (snd (create_file_download cl uid mg))"
  unfolding connections_ok_def
proof (intro allI impI)
  fix cid r
  let ?mg = "snd (create_file_download cl uid mg)"
  note f = create_download_fields [OF on] and roles = create_download_roles [OF on]
  assume "map_of (mg_connection_map ?mg) cid = Some r"
  then have "r < mg_next mg" "role_of mg r = FileDownload \<Longrightarrow>
      \<exists>s. map_of (mg_download_clusters mg) s = Some r \<and> bound_by mg s = Some cid"
    using ok(2) by (simp_all add: connections_ok_def f)
  moreover have "s \<noteq> Suc (mg_next mg)" if "map_of (mg_download_clusters mg) s = Some r" for s
    using ok(1) roles(5) that by (fastforce simp: transfers_ok_def)
  ultimately show "r < mg_next ?mg \<and> (role_of ?mg r = FileDownload \<longrightarrow>
      (\<exists>s. map_of (mg_download_clusters ?mg) s = Some r \<and> bound_by ?mg s = Some cid))"
    by (auto simp: f roles map_of_update)
qed

lemma create_download_ok:
  assumes ok: "registry_ok mg" and fresh: "map_of (mg_downloads mg) uid = None"
  shows "registry_ok (snd (create_file_download cl uid mg))"
proof (cases "mg_shutdown mg")
  case False
  let ?mg = "snd (create_file_download cl uid mg)"
  note f = create_download_fields [OF False] and roles = create_download_roles [OF False]
  have parts: "downloads_ok mg" "transfers_ok mg" "clusters_ok mg" "connections_ok mg" "requests_ok mg"
    "owed mg (mg_cleanup_queue mg)" "live_ok mg"
    using ok by (simp_all add: registry_ok_def registry_core_def registry_base_def)
  note known = roles(5)
  have "downloads_ok ?mg"
    using parts(1) known roles(6)
    by (fastforce simp: downloads_ok_def f map_of_update distinct_update session_new_def split: if_splits)
  moreover have "clusters_ok ?mg"
    using parts(3) by (auto simp: clusters_ok_def f roles map_of_update less_SucI)
  moreover have "requests_ok ?mg"
    using parts(5) known by (fastforce simp: requests_ok_def request_ok_def Let_def f)
  moreover have "owed ?mg (mg_cleanup_queue ?mg)" "shutdown_ok ?mg"
    using parts(6) known by (auto simp: owed_def shutdown_ok_def f map_of_update session_new_def session_open_def)
  moreover have "live_ok ?mg"
    using parts(7) known by (auto simp: live_ok_def f map_of_update session_new_def)
  ultimately show ?thesis
    using create_download_transfers [OF False fresh parts(2)] create_download_connections [OF False parts(2, 4)]
    by (simp add: registry_ok_def registry_core_def registry_base_def)
qed (use ok in \<open>simp add: create_file_download_def\<close>)

section \<open>Every reachable state\<close>

lemma complete_ok:
  assumes "registry_ok mg"
  shows "registry_ok (with_session s (\<lambda>x. snd (session_complete cid x)) mg)"
proof -
  have "session_grows (mg_session_heap mg s) (snd (session_complete cid (mg_session_heap mg s)))"
    by (simp add: session_grows_def session_complete_view)
  then show ?thesis
    using put_session_ok(3) [OF assms] by (simp add: with_session_def session_complete_view)
qed

lemma server_step_ok: "server_step D mg mg' \<Longrightarrow> registry_ok mg \<Longrightarrow> registry_ok mg'"
proof (induction rule: server_step.induct)
  case (cluster f mg r)
  then show ?case by (simp add: registry_ok_cong [OF view_with_cluster])
qed (simp_all add: admit_ok register_ok remove_ok check_pings_ok worker_ok shutdown_step_ok create_download_ok
    create_upload_ok remove_file_upload_def remove_upload_ok trigger_ok complete_ok store_ok
    registry_ok_cong [OF view_frame(2)] registry_ok_cong [OF view_reconnect])

lemma server_run_ok: "server_run D mg mg' \<Longrightarrow> registry_ok mg \<Longrightarrow> registry_ok mg'"
  by (induction rule: rtranclp_induct) (simp_all add: server_step_ok)

lemma alist_update_set: "set (AList.update k v xs) \<subseteq> insert (k, v) (set xs)"
  by (induction xs) auto

lemma register_configs_ok:
  assumes "registry_ok mg" "mg_downloads mg = []" "mg_connection_map mg = []" "mg_download_clusters mg = []"
    "mg_uploads mg = []" "mg_cleanup_queue mg = []"
  shows "registry_ok (register_configs cfgs mg)"
  using assms
proof (induction cfgs arbitrary: mg)
  case (Cons cfg cfgs)
  let ?mg = "mg\<lparr>mg_cluster_heap := (mg_cluster_heap mg)(mg_next mg := cluster_new cfg True),
      mg_clusters := AList.update (cc_name cfg) (mg_next mg) (mg_clusters mg), mg_next := mg_next mg + 1\<rparr>"
  have "r < mg_next ?mg \<and> role_of ?mg r = Master" if "(name, r) \<in> set (mg_clusters ?mg)" for name r
  proof -
    have "(name, r) \<in> insert (cc_name cfg, mg_next mg) (set (mg_clusters mg))"
      using that alist_update_set [of "cc_name cfg" "mg_next mg" "mg_clusters mg"] by auto
    then show ?thesis
      using Cons.prems(1) by (auto simp: registry_ok_def registry_core_def registry_base_def clusters_ok_def less_SucI)
  qed
  then have "registry_ok ?mg"
    using Cons.prems(2-6) by (simp add: registry_ok_def registry_core_def registry_base_def registry_defs owed_def
        shutdown_ok_def live_ok_def)
  then show ?case using Cons.IH [of ?mg] Cons.prems(2-6) by (simp add: Let_def)
qed simp

lemma manager_new_ok: "registry_ok (manager_new cfgs db)"
  unfolding manager_new_def
  by (rule register_configs_ok)
    (simp_all add: registry_ok_def registry_core_def registry_base_def registry_defs owed_def shutdown_ok_def
      live_ok_def)

lemma reachable_ok: "server_reachable D mg \<Longrightarrow> registry_ok mg"
  unfolding server_reachable_def by (elim exE) (erule server_run_ok, rule manager_new_ok)

lemma reachable_run: "server_reachable D mg \<Longrightarrow> server_run D mg mg' \<Longrightarrow> server_reachable D mg'"
  unfolding server_reachable_def by (meson rtranclp_trans)

lemma reachable_step: "server_reachable D mg \<Longrightarrow> server_step D mg mg' \<Longrightarrow> server_reachable D mg'"
  using reachable_run by (metis r_into_rtranclp)

section \<open>The end of the downloads\<close>

text \<open>A shutdown is for good.\<close>

lemma view_shutdown: "registry_view mg' = registry_view mg \<Longrightarrow> mg_shutdown mg' = mg_shutdown mg"
  by (simp add: registry_view_def)

lemma cleanup_shutdown [simp]: "mg_shutdown (cleanup_file_download rq mg) = mg_shutdown mg"
  by (simp add: cleanup_file_download_def Let_def remove_exact_download_session_def remove_exact_connection_def
      split: option.split)

lemma remove_shutdown [simp]: "mg_shutdown (remove_connection cid b mg) = mg_shutdown mg"
  by (simp add: remove_connection_def remove_exact_connection_def case_prod_beta Let_def split: option.split)

lemma admit_shutdown [simp]: "mg_shutdown (snd (admit_connection D now cutoff cid sender token mg)) = mg_shutdown mg"
  by (simp add: admit_connection_def admit_download_connection_def admit_upload_connection_def
      admit_token_connection_def remove_exact_connection_def case_prod_beta Let_def split: option.split sum.split)

lemma check_pings_shutdown [simp]: "mg_shutdown (check_pings now mg) = mg_shutdown mg"
proof -
  have "mg_shutdown (fold evict cids m) = mg_shutdown m" for cids and m :: "'a manager"
    by (induction cids arbitrary: m) (simp_all add: evict_def)
  then show ?thesis
    by (simp add: check_pings_def case_prod_beta Let_def view_shutdown [OF view_pings] view_shutdown [OF view_count_misses])
qed

lemma step_shutdown: "server_step D mg mg' \<Longrightarrow> mg_shutdown mg \<Longrightarrow> mg_shutdown mg'"
proof (induction rule: server_step.induct)
  case (worker mg)
  then show ?case by (simp add: cleanup_worker_step_def split: list.split)
qed (simp_all add: view_shutdown [OF view_frame(2)] view_shutdown [OF view_reconnect]
    begin_application_shutdown_def create_file_download_def create_file_upload_def remove_file_upload_def)

lemma run_shutdown: "server_run D mg mg' \<Longrightarrow> mg_shutdown mg \<Longrightarrow> mg_shutdown mg'"
  by (induction rule: rtranclp_induct) (simp_all add: step_shutdown)

lemma cleanup_queue [simp]: "mg_cleanup_queue (cleanup_file_download rq mg) = mg_cleanup_queue mg"
  by (simp add: cleanup_file_download_def Let_def remove_exact_download_session_def remove_exact_connection_def
      with_cluster_def with_session_def forget_tracking_def split: option.split)

lemma worker_takes: "mg_cleanup_queue (cleanup_worker_step mg) = tl (mg_cleanup_queue mg)"
  by (simp add: cleanup_worker_step_def split: list.split)

lemma worker_empties: "mg_cleanup_queue ((cleanup_worker_step ^^ length (mg_cleanup_queue mg)) mg) = []"
proof -
  have "mg_cleanup_queue ((cleanup_worker_step ^^ n) m) = drop n (mg_cleanup_queue m)" for n and m :: "'a manager"
    by (induction n arbitrary: m) (simp_all add: worker_takes funpow_swap1 drop_Suc)
  then show ?thesis by simp
qed

text \<open>With nothing left to clean up, whatever is registered is in use.\<close>

lemma settled_open:
  assumes "registry_ok mg" "mg_cleanup_queue mg = []" "map_of (mg_downloads mg) uid = Some s"
  shows "session_open (mg_session_heap mg s)"
  using assms by (auto simp: registry_ok_def registry_core_def owed_def)

lemma settled_shutdown:
  assumes ok: "registry_ok mg" and "mg_cleanup_queue mg = []" "mg_shutdown mg"
  shows "mg_downloads mg = []" "mg_download_clusters mg = []"
    "map_of (mg_connection_map mg) cid = Some r \<Longrightarrow> role_of mg r \<noteq> FileDownload"
proof -
  have "map_of (mg_downloads mg) uid = None" for uid
    using settled_open [OF ok assms(2), of uid] ok assms(3)
    by (cases "map_of (mg_downloads mg) uid") (auto simp: registry_ok_def shutdown_ok_def)
  then show none: "mg_downloads mg = []" by (metis map_of_eq_empty_iff ext)
  have "map_of (mg_download_clusters mg) s = None" for s
    using ok none by (force simp: registry_ok_def registry_core_def registry_base_def transfers_ok_def)
  then show clusters: "mg_download_clusters mg = []" by (metis map_of_eq_empty_iff ext)
  show "map_of (mg_connection_map mg) cid = Some r \<Longrightarrow> role_of mg r \<noteq> FileDownload"
    using ok clusters by (auto simp: registry_ok_def registry_core_def registry_base_def connections_ok_def)
qed

section \<open>Properties\<close>

text \<open>C19: a shutdown ends every download for good.  From any reachable state, once a shutdown was begun, in
  every later state in which the clean-up worker has nothing left to do, no download is registered, no
  dedicated cluster is kept, and no connection of a download is registered; and the worker gets there
  by taking one step for each request that was queued.\<close>

theorem shutdown_clears:
  assumes "server_reachable D mg" "begin_application_shutdown mg = (n, mg1)" "server_run D mg1 mg2"
  shows "let settled = (cleanup_worker_step ^^ length (mg_cleanup_queue mg2)) mg2 in
    mg_cleanup_queue settled = [] \<and> mg_downloads settled = [] \<and> mg_download_clusters settled = [] \<and>
    (case map_of (mg_connection_map settled) cid of None \<Rightarrow> True | Some r \<Rightarrow> role_of settled r \<noteq> FileDownload)"
proof -
  define settled where "settled = (cleanup_worker_step ^^ length (mg_cleanup_queue mg2)) mg2"
  have "server_step D mg mg1" using server_step.shut_down [of D mg] assms(2) by simp
  then have reach: "server_reachable D mg2" using assms(1, 3) reachable_step reachable_run by blast
  have "mg_shutdown mg1"
    using assms(2) trigger_all_effect(2) [of "mg_downloads mg" "mg\<lparr>mg_shutdown := True\<rparr>"]
    by (auto simp: begin_application_shutdown_def split: if_splits)
  then have down: "mg_shutdown mg2" using assms(3) run_shutdown by blast
  have "server_run D m ((cleanup_worker_step ^^ k) m)" for k and m :: "'a manager"
    by (induction k) (auto intro: rtranclp.rtrancl_into_rtrancl server_step.worker)
  then have run: "server_run D mg2 settled" by (simp add: settled_def)
  have "registry_ok settled" "mg_cleanup_queue settled = []" "mg_shutdown settled"
    using reachable_ok reachable_run [OF reach run] run_shutdown [OF run down] worker_empties [of mg2]
    by (auto simp: settled_def)
  note settled_shutdown [OF this]
  then show ?thesis
    using worker_empties [of mg2] unfolding settled_def [symmetric] Let_def by (simp split: option.split)
qed

lemma demo_manager_reachable: "server_reachable D demo_manager"
  unfolding server_reachable_def demo_manager_def by blast

lemma demo_transfer_reachable: "server_reachable D demo_transfer_manager"
  unfolding demo_transfer_manager_def
  by (rule reachable_step [OF demo_manager_reachable server_step.create_download]) simp

theorem shutdown_clears_witness:
  "\<exists>mg1. begin_application_shutdown demo_transfer_manager = (1, mg1) \<and> mg_downloads mg1 = [(''d'', 2)] \<and>
     mg_downloads ((cleanup_worker_step ^^ length (mg_cleanup_queue mg1)) mg1) = []"
proof -
  obtain n mg1 where b: "begin_application_shutdown demo_transfer_manager = (n, mg1)" by force
  have "n = 1" "mg_downloads mg1 = [(''d'', 2)]"
    using b by (auto simp: begin_application_shutdown_def trigger_session_def session_trigger_def session_new_def
        enter_closing_def)
  moreover have "mg_downloads ((cleanup_worker_step ^^ length (mg_cleanup_queue mg1)) mg1) = []"
    using shutdown_clears [where D = mem_database, OF demo_transfer_reachable b rtranclp.rtrancl_refl] by (simp add: Let_def)
  ultimately show ?thesis using b by blast
qed

end
