(* ===== verification/Registry_Stays.thy ===== *)
theory Registry_Stays
  imports Registry
begin

text \<open>
  What no step of the server takes back: a session that somebody holds keeps its names and the connection
  it was bound to and never opens again, and a registered download stays registered until its session
  is no longer open.
\<close>

section \<open>Sessions\<close>

text \<open>What is held stays: a session keeps its names and its connection, and never opens again.\<close>

definition keeps_sessions :: "'db manager \<Rightarrow> 'db manager \<Rightarrow> bool" where
  "keeps_sessions mg mg' \<longleftrightarrow>
     mg_next mg \<le> mg_next mg' \<and>
     (\<forall>s < mg_next mg. session_grows (mg_session_heap mg s) (mg_session_heap mg' s))"

lemma session_grows_refl [simp]: "session_grows x x"
  by (simp add: session_grows_def)

lemma session_grows_trans: "session_grows x y \<Longrightarrow> session_grows y z \<Longrightarrow> session_grows x z"
  by (auto simp: session_grows_def)

lemma keeps_sessions_refl: "keeps_sessions mg mg"
  by (simp add: keeps_sessions_def)

lemma keeps_sessions_trans: "keeps_sessions a b \<Longrightarrow> keeps_sessions b c \<Longrightarrow> keeps_sessions a c"
  unfolding keeps_sessions_def by (meson less_le_trans order_trans session_grows_trans)

lemma keeps_known: "keeps_sessions mg mg' \<Longrightarrow> known_session mg s \<Longrightarrow> known_session mg' s"
  by (auto simp: keeps_sessions_def known_session_def session_grows_def)

lemma keeps_view: "registry_view mg' = registry_view mg \<Longrightarrow> keeps_sessions mg mg'"
  by (simp add: keeps_sessions_def registry_view_def)

lemma keeps_same: "mg_next mg' = mg_next mg \<Longrightarrow> mg_session_heap mg' = mg_session_heap mg \<Longrightarrow> keeps_sessions mg mg'"
  by (simp add: keeps_sessions_def)

lemma keeps_put: "session_grows (mg_session_heap mg s) x \<Longrightarrow> keeps_sessions mg (put_session s x mg)"
  by (simp add: keeps_sessions_def)

lemma keeps_trigger: "keeps_sessions mg (snd (trigger_session reason s mg))"
proof (cases "session_open (mg_session_heap mg s)")
  case True
  then show ?thesis by (auto simp: trigger_open keeps_sessions_def session_grows_def session_open_def)
qed (simp add: trigger_closed keeps_sessions_refl)

lemma keeps_cleanup: "keeps_sessions mg (cleanup_file_download rq mg)"
proof -
  have "mg_next (cleanup_file_download rq mg) = mg_next mg"
    by (simp add: cleanup_file_download_def Let_def remove_exact_download_session_def remove_exact_connection_def
        with_cluster_def with_session_def forget_tracking_def split: option.split)
  then show ?thesis by (simp add: keeps_sessions_def session_grows_def cleanup_sessions)
qed

lemma keeps_remove: "keeps_sessions mg (remove_connection cid b mg)"
proof -
  consider "map_of (mg_connection_map mg) cid = None"
    | r where "map_of (mg_connection_map mg) cid = Some r" "role_of mg r = FileDownload"
    | r where "map_of (mg_connection_map mg) cid = Some r" "role_of mg r \<noteq> FileDownload"
    by (cases "map_of (mg_connection_map mg) cid") auto
  then show ?thesis
  proof cases
    case 1
    then show ?thesis by (simp add: remove_absent_connection keeps_sessions_refl)
  next
    case (2 r)
    have c: "keeps_sessions mg (cleanup_file_download rq (snd (trigger_session reason s mg)))" for rq reason s
      by (rule keeps_sessions_trans [OF keeps_trigger keeps_cleanup])
    have "keeps_sessions mg (end_download cid b r mg)"
      by (cases b) (simp_all add: end_download_def case_prod_beta Let_def c keeps_trigger keeps_sessions_refl
          split: option.split)
    then show ?thesis
      using 2 keeps_sessions_trans [OF _ keeps_view [OF view_frame(1)]] by (simp add: remove_download_connection)
  next
    case 3
    then have "keeps_sessions mg (let mg = mg\<lparr>mg_connection_map := AList.delete cid (mg_connection_map mg)\<rparr> in
        if role_of mg r = FileUpload
        then (case uuid_of mg r of None \<Rightarrow> mg | Some uid \<Rightarrow> mg\<lparr>mg_uploads := AList.delete uid (mg_uploads mg)\<rparr>)
        else mg)" for r by (simp add: keeps_sessions_def Let_def split: option.split)
    then show ?thesis using keeps_sessions_trans [OF _ keeps_view [OF remove_plain_view [OF 3]]] by blast
  qed
qed

lemma keeps_connect: "keeps_sessions mg (mg\<lparr>mg_connection_map := m, mg_cluster_heap := h\<rparr>)"
  by (simp add: keeps_sessions_def)

lemma keeps_register: "keeps_sessions mg (register_connection now cid sender name r mg)"
  by (rule keeps_same) (simp_all add: register_connection_def with_cluster_def)

lemma keeps_fields:
  "keeps_sessions mg (m\<lparr>mg_connection_map := x\<rparr>) = keeps_sessions mg m"
  "keeps_sessions mg (m\<lparr>mg_db := db\<rparr>) = keeps_sessions mg m"
  "keeps_sessions mg (with_cluster r f m) = keeps_sessions mg m"
  by (simp_all add: keeps_sessions_def with_cluster_def)

lemma keeps_admit: "keeps_sessions mg (snd (admit_connection D now cutoff cid sender token mg))"
proof -
  have down: "keeps_sessions mg (snd (admit_download_connection cid sender s mg))" for s
  proof (cases "ds_state (mg_session_heap mg s) = SessionPending")
    case True
    let ?mg = "put_session s ((mg_session_heap mg s)\<lparr>ds_state := Connected cid\<rparr>) mg"
    have k: "keeps_sessions mg ?mg"
      using True by (intro keeps_put) (simp add: session_grows_def session_open_def)
    show ?thesis
      using True k keeps_sessions_trans [OF k keeps_trigger]
      by (simp add: admit_download_connection_def bind_connection_def Let_def keeps_fields
          remove_exact_connection_def split: option.split)
  next
    case False
    then show ?thesis
      by (simp add: admit_download_connection_def bind_connection_def keeps_sessions_refl split: session_state.split)
  qed
  have "keeps_sessions mg (register_connection now cid sender name r (mg\<lparr>mg_db := db\<rparr>))" for name r db
    using keeps_register [of "mg\<lparr>mg_db := db\<rparr>"] by (simp add: keeps_sessions_def)
  then show ?thesis
    by (simp add: admit_connection_def admit_upload_connection_def admit_token_connection_def case_prod_beta Let_def
        down keeps_fields keeps_sessions_refl split: option.split)
qed

lemma keeps_trigger_all: "keeps_sessions mg (snd (trigger_all xs mg))"
proof (induction xs arbitrary: mg)
  case (Cons x xs)
  show ?case unfolding trigger_all_Cons by (rule keeps_sessions_trans [OF keeps_trigger Cons.IH])
qed (simp add: keeps_sessions_refl)

lemma keeps_check_pings: "keeps_sessions mg (check_pings now mg)"
proof -
  have evict: "keeps_sessions m (evict cid m)" for cid and m :: "'a manager"
    using keeps_remove [of "m\<lparr>mg_ping_times := AList.delete cid (mg_ping_times m)\<rparr>" cid True]
    by (simp add: evict_def keeps_sessions_def)
  have fold: "keeps_sessions m (fold evict cids m)" for cids and m :: "'a manager"
  proof (induction cids arbitrary: m)
    case (Cons cid cids)
    show ?case unfolding fold_simps by (rule keeps_sessions_trans [OF evict Cons.IH])
  qed (simp add: keeps_sessions_refl)
  show ?thesis
    unfolding check_pings_def case_prod_beta Let_def
    by (rule keeps_sessions_trans [OF keeps_sessions_trans [OF keeps_view [OF view_count_misses] fold]
          keeps_view [OF view_pings]])
qed

lemma keeps_step: "server_step D mg mg' \<Longrightarrow> keeps_sessions mg mg'"
proof (induction rule: server_step.induct)
  case (worker mg)
  have "keeps_sessions mg (cleanup_file_download rq (mg\<lparr>mg_cleanup_queue := q\<rparr>))" for rq q
    using keeps_cleanup [of "mg\<lparr>mg_cleanup_queue := q\<rparr>" rq] by (simp add: keeps_sessions_def)
  then show ?case by (simp add: cleanup_worker_step_def keeps_sessions_refl split: list.split)
next
  case (shut_down mg)
  have "keeps_sessions mg (snd (trigger_all xs (mg\<lparr>mg_shutdown := True\<rparr>)))" for xs
    using keeps_trigger_all [of "mg\<lparr>mg_shutdown := True\<rparr>" xs] by (simp add: keeps_sessions_def)
  then show ?case by (simp add: begin_application_shutdown_def keeps_sessions_refl)
next
  case (create_download mg uid r)
  then show ?case by (simp add: create_file_download_def keeps_sessions_def Let_def)
next
  case (create_upload mg r uid)
  then show ?case by (simp add: create_file_upload_def keeps_sessions_def Let_def)
next
  case (complete mg s cid)
  then show ?case by (simp add: keeps_sessions_def session_grows_def with_session_def session_complete_view)
qed (simp_all add: keeps_admit keeps_register keeps_remove keeps_check_pings keeps_trigger keeps_fields
    keeps_sessions_refl remove_file_upload_def keeps_same keeps_view)

lemma keeps_run: "server_run D mg mg' \<Longrightarrow> keeps_sessions mg mg'"
  by (induction rule: rtranclp_induct)
    (use keeps_step keeps_sessions_trans in \<open>blast intro: keeps_sessions_refl\<close>)+

lemma run_known: "server_run D mg mg' \<Longrightarrow> known_session mg s \<Longrightarrow> known_session mg' s"
  using keeps_run keeps_known by blast

section \<open>Registered or closed\<close>

text \<open>A registered download stays registered while its session is open.\<close>

definition keeps_downloads :: "'db manager \<Rightarrow> 'db manager \<Rightarrow> bool" where
  "keeps_downloads mg mg' \<longleftrightarrow>
     (\<forall>uid s. map_of (mg_downloads mg) uid = Some s \<longrightarrow>
        map_of (mg_downloads mg') uid = Some s \<or> \<not> session_open (mg_session_heap mg' s))"

lemma keeps_downloads_same: "mg_downloads mg' = mg_downloads mg \<Longrightarrow> keeps_downloads mg mg'"
  by (simp add: keeps_downloads_def)

lemma keeps_downloads_view: "registry_view mg' = registry_view mg \<Longrightarrow> keeps_downloads mg mg'"
  by (rule keeps_downloads_same) (simp add: registry_view_def)

lemma view_fields:
  "registry_view mg' = registry_view mg \<Longrightarrow> mg_downloads mg' = mg_downloads mg"
  "registry_view mg' = registry_view mg \<Longrightarrow> mg_session_heap mg' = mg_session_heap mg"
  by (simp_all add: registry_view_def)

lemma keeps_downloads_trans:
  assumes "keeps_downloads a b" "keeps_downloads b c" "keeps_sessions b c" "registry_ok b" "registry_ok a"
    "keeps_sessions a b"
  shows "keeps_downloads a c"
  unfolding keeps_downloads_def
proof (intro allI impI)
  fix uid s assume s: "map_of (mg_downloads a) uid = Some s"
  have "known_session a s" using assms(5) s by (auto simp: registry_ok_def intro: registered_known)
  then have "s < mg_next b" using keeps_known [OF assms(6)] by (auto simp: known_session_def)
  then have "session_open (mg_session_heap c s) \<Longrightarrow> session_open (mg_session_heap b s)"
    using assms(3) by (auto simp: keeps_sessions_def session_grows_def)
  then show "map_of (mg_downloads c) uid = Some s \<or> \<not> session_open (mg_session_heap c s)"
    using assms(1, 2) s by (auto simp: keeps_downloads_def)
qed

lemma keeps_downloads_cleanup:
  assumes "registry_base mg" "request_ok mg rq"
  shows "keeps_downloads mg (cleanup_file_download rq mg)"
  using assms
proof (cases rule: cleanup_cases)
  case (exact r)
  then show ?thesis
    using assms(2) by (auto simp: keeps_downloads_def cleanup_fields [OF exact] map_of_delete cleanup_sessions
        request_ok_def Let_def)
qed (simp add: keeps_downloads_same)

lemma keeps_downloads_remove:
  assumes ok: "registry_ok mg"
  shows "keeps_downloads mg (remove_connection cid b mg)"
proof -
  consider "map_of (mg_connection_map mg) cid = None"
    | r where "map_of (mg_connection_map mg) cid = Some r" "role_of mg r = FileDownload"
    | r where "map_of (mg_connection_map mg) cid = Some r" "role_of mg r \<noteq> FileDownload"
    by (cases "map_of (mg_connection_map mg) cid") auto
  then show ?thesis
  proof cases
    case 1
    then show ?thesis by (simp add: remove_absent_connection keeps_downloads_same)
  next
    case (2 r)
    have clean: "keeps_downloads mg (cleanup_file_download rq (snd (trigger_session reason s mg)))"
      if "map_of (mg_downloads mg) uid = Some s" "cr_download_id rq = uid" "cr_session rq = s" for rq reason s uid
    proof -
      have "\<not> session_open (mg_session_heap (cleanup_file_download rq (snd (trigger_session reason s mg))) s)"
        by (simp add: cleanup_sessions trigger_session_open)
      moreover have "map_of (mg_downloads (cleanup_file_download rq (snd (trigger_session reason s mg)))) uid' =
          map_of (mg_downloads mg) uid'" if "uid' \<noteq> uid" for uid'
        using that \<open>cr_download_id rq = uid\<close>
        by (simp add: cleanup_file_download_def Let_def remove_exact_download_session_def
            remove_exact_connection_def map_of_delete split: option.split)
      ultimately show ?thesis using that(1) unfolding keeps_downloads_def by (metis option.inject)
    qed
    have "keeps_downloads mg (end_download cid b r mg)"
      by (cases b) (simp_all add: end_download_def case_prod_beta Let_def clean keeps_downloads_same split: option.split)
    then show ?thesis using 2 by (simp add: remove_download_connection keeps_downloads_def)
  next
    case 3
    have "mg_downloads (remove_connection cid b mg) = mg_downloads mg"
      using remove_plain_view [OF 3, of b] by (simp add: registry_view_def Let_def split: option.splits if_splits)
    then show ?thesis by (rule keeps_downloads_same)
  qed
qed

lemma keeps_downloads_pings:
  assumes "registry_ok mg"
  shows "keeps_downloads mg (check_pings now mg)"
proof -
  have evict: "registry_ok (evict cid m) \<and> keeps_downloads m (evict cid m) \<and> keeps_sessions m (evict cid m)"
    if "registry_ok m" for cid and m :: "'a manager"
  proof -
    let ?m = "m\<lparr>mg_ping_times := AList.delete cid (mg_ping_times m)\<rparr>"
    have "registry_ok ?m" using that by (simp add: registry_ok_cong [OF view_frame(4)])
    then show ?thesis
      using remove_ok [of ?m cid True] keeps_downloads_remove [of ?m cid True] keeps_remove [of ?m cid True]
      by (simp add: evict_def keeps_downloads_def keeps_sessions_def)
  qed
  have fold: "registry_ok m \<Longrightarrow> keeps_downloads m (fold evict cids m) \<and> keeps_sessions m (fold evict cids m) \<and>
      registry_ok (fold evict cids m)" for cids and m :: "'a manager"
  proof (induction cids arbitrary: m)
    case (Cons cid cids)
    show ?case
      using evict [OF Cons.prems, of cid] Cons.IH [of "evict cid m"] Cons.prems
        keeps_downloads_trans [of m "evict cid m" "fold evict cids (evict cid m)"]
        keeps_sessions_trans [of m "evict cid m" "fold evict cids (evict cid m)"] by simp
  qed (simp add: keeps_downloads_same keeps_sessions_refl)
  have "mg_downloads (check_pings now mg) =
      mg_downloads (fold evict (fst (count_misses (no_pong mg) mg)) (snd (count_misses (no_pong mg) mg)))"
    "mg_session_heap (check_pings now mg) =
      mg_session_heap (fold evict (fst (count_misses (no_pong mg) mg)) (snd (count_misses (no_pong mg) mg)))"
    unfolding check_pings_def case_prod_beta Let_def by (rule view_fields [OF view_pings])+
  moreover have "registry_ok (snd (count_misses (no_pong mg) mg))"
    using assms by (simp add: registry_ok_cong [OF view_count_misses])
  moreover have "mg_downloads (snd (count_misses (no_pong mg) mg)) = mg_downloads mg"
    by (rule view_fields(1) [OF view_count_misses])
  ultimately show ?thesis
    using fold [of "snd (count_misses (no_pong mg) mg)" "fst (count_misses (no_pong mg) mg)"]
    by (simp add: keeps_downloads_def)
qed

lemma admit_downloads: "mg_downloads (snd (admit_connection D now cutoff cid sender token mg)) = mg_downloads mg"
  by (simp add: admit_connection_def admit_download_connection_def admit_upload_connection_def
      admit_token_connection_def remove_exact_connection_def case_prod_beta Let_def split: option.split sum.split)

lemma keeps_downloads_step: "server_step D mg mg' \<Longrightarrow> registry_ok mg \<Longrightarrow> keeps_downloads mg mg'"
proof (induction rule: server_step.induct)
  case (worker mg)
  show ?case
  proof (cases "mg_cleanup_queue mg")
    case Nil
    then show ?thesis by (simp add: cleanup_worker_step_def keeps_downloads_same)
  next
    case (Cons rq q)
    let ?mg = "mg\<lparr>mg_cleanup_queue := q\<rparr>"
    have "registry_base ?mg" "request_ok ?mg rq"
      using worker Cons
      by (auto simp: registry_ok_def registry_core_def registry_base_def registry_defs request_ok_def
          known_session_def Let_def)
    from keeps_downloads_cleanup [OF this] show ?thesis
      by (simp add: cleanup_worker_step_def Cons keeps_downloads_def)
  qed
next
  case (create_download mg uid r)
  then show ?case by (auto simp: keeps_downloads_def create_file_download_def map_of_update Let_def)
qed (simp_all add: keeps_downloads_remove keeps_downloads_pings keeps_downloads_view keeps_downloads_same
    admit_downloads create_file_upload_def remove_file_upload_def begin_application_shutdown_def
    trigger_all_effect Let_def)

lemma keeps_downloads_run:
  "server_run D mg mg' \<Longrightarrow> registry_ok mg \<Longrightarrow> keeps_downloads mg mg'"
proof (induction rule: rtranclp_induct)
  case (step b c)
  have ok: "registry_ok b" using server_run_ok [OF step.hyps(1) step.prems] .
  show ?case
    using keeps_downloads_trans [OF step.IH [OF step.prems] keeps_downloads_step [OF step.hyps(2) ok]
        keeps_step [OF step.hyps(2)] ok step.prems keeps_run [OF step.hyps(1)]] .
qed (simp add: keeps_downloads_same)

end
