(* ===== verification/Server_Runs.thy ===== *)
theory Server_Runs
  imports Registry_Stays File_Upload Ws_Server App_Lifecycle Job_Query
begin

text \<open>
  The handlers of the server as runs of the steps of \<open>Registry\<close>: every HTTP request, every event of a
  socket, the background work and the drain.  A handler that waits is given what the rest of the
  program does meanwhile; it is a run if those actions are.  So the invariant of the registries holds
  whatever requests, connections and messages come, and in whatever order they are interleaved.
\<close>

section \<open>Runs\<close>

named_theorems runs

lemma run_refl [runs]: "server_run D mg mg" by simp

lemma run_then: "server_run D mg mg1 \<Longrightarrow> server_step D mg1 mg2 \<Longrightarrow> server_run D mg mg2"
  by (rule rtranclp.rtrancl_into_rtrancl)

lemma run_cluster:
  assumes "server_run D mg mg1"
    "identity (f (mg_cluster_heap mg1 r)) = identity (mg_cluster_heap mg1 r)"
  shows "server_run D mg (with_cluster r f mg1)"
  by (rule run_then [OF assms(1) server_step.cluster]) (rule assms(2))

lemma run_store [runs]: "server_run D mg mg1 \<Longrightarrow> server_run D mg (mg1\<lparr>mg_db := db\<rparr>)"
  by (erule run_then) (rule server_step.store)

lemma run_trigger [runs]:
  "server_run D mg mg1 \<Longrightarrow> known_session mg1 s \<Longrightarrow> server_run D mg (snd (trigger_session reason s mg1))"
  by (erule run_then) (rule server_step.trigger)

lemma identity_send [simp]:
  "identity (send_message m c) = identity c" "identity (queue_message s d p c) = identity c"
  "identity (send_message_internal m c) = identity c" "identity (start_tasks c) = identity c"
  by (simp_all add: identity_def send_message_def start_tasks_def Let_def)

lemma run_send [runs]:
  "server_run D mg mg1 \<Longrightarrow> server_run D mg (with_cluster r (send_message m) mg1)"
  by (rule run_cluster) simp_all

section \<open>Jobs and records\<close>

lemma submit_job_run: "server_run D mg (snd (submit_job D now jid body r mg))"
  by (simp add: submit_job_def case_prod_beta Let_def runs split: sum.split)

lemma create_job_run: "server_run D mg (snd (create_job D claim now auth body mg))"
proof -
  have "server_run D mg (snd (submit_job D now jid body r (mg\<lparr>mg_db := db\<rparr>)))" for jid r db
    using rtranclp_trans [OF run_store [OF run_refl] submit_job_run] .
  then show ?thesis
    by (simp add: create_job_def case_prod_beta Let_def runs split: option.split sum.split)
qed

lemma transition_run:
  "server_run D mg (snd (record_job_transition D now r job jid cur st1 d1 st2 d2 wid mg))"
  by (simp add: record_job_transition_def case_prod_beta Let_def runs split: sum.split option.split)

lemma cancel_delete_run:
  "server_run D mg (snd (cancel_job D now auth jid mg))" "server_run D mg (snd (delete_job D now auth jid mg))"
  by (simp_all add: cancel_job_def delete_job_def case_prod_beta transition_run split: sum.split)

lemma post_file_download_run:
  "server_run D mg (snd (post_file_download D now expiry stamp claim auth body mg))"
  by (simp add: post_file_download_def case_prod_beta Let_def runs split: sum.split)

section \<open>Messages and background work\<close>

lemma queues_only_identity: "queues_only c c' \<Longrightarrow> identity c' = identity c"
  unfolding queues_only_def by (erule ssubst) (simp add: identity_def)

lemma identity_download [simp]: "identity (c\<lparr>cl_download := x\<rparr>) = identity c"
  "identity (c\<lparr>cl_upload := y\<rparr>) = identity c"
  by (simp_all add: identity_def)

lemma handler_identity [simp]:
  "identity (handle_file_chunk b m c) = identity c" "identity (handle_file_details m c) = identity c"
  "identity (handle_file_error m c) = identity c" "identity (handle_server_ready c) = identity c"
  "identity (handle_file_upload_error m c) = identity c" "identity (handle_file_upload_complete c) = identity c"
  by (simp_all add: handle_file_chunk_def handle_file_details_def handle_file_error_def handle_server_ready_def
      handle_file_upload_error_def handle_file_upload_complete_def case_prod_beta Let_def split: option.split)

lemma handle_message_identity: "identity (fst (handle_message D ev m c cx)) = identity c"
proof -
  have "identity (fst (dispatch_message D ev m c cx)) = identity c"
    by (simp add: dispatch_message_def Let_def queues_only_identity)
  then show ?thesis
    using queues_only_identity [OF db_message_queues_only [of c D "cx_db cx" m]]
    by (simp add: handle_message_def case_prod_beta split: bool.split)
qed

lemma hand_message_run: "server_run D (hs_manager hs) (hs_manager (hand_message D ev m r hs))"
proof -
  let ?mg = "hs_manager hs"
  define out where "out = handle_message D ev m (mg_cluster_heap ?mg r)
      \<lparr>cx_db = mg_db ?mg, cx_file_lists = hs_file_lists hs, cx_cache_tasks = hs_cache_tasks hs\<rparr>"
  have "hs_manager (hand_message D ev m r hs) = (with_cluster r (\<lambda>_. fst out) ?mg)\<lparr>mg_db := cx_db (snd out)\<rparr>"
    by (simp add: hand_message_def with_cluster_def case_prod_beta Let_def out_def)
  moreover have "server_run D ?mg (with_cluster r (\<lambda>_. fst out) ?mg)"
    by (rule run_cluster [OF run_refl]) (simp add: out_def handle_message_identity)
  ultimately show ?thesis by (simp add: runs)
qed

lemma resend_identity: "identity (check_resend_jobs D db cutoff states mid b c) = identity c"
proof -
  have one: "identity (resend_one hs cutoff states mid b j c) = identity c" for hs j c
    by (simp add: resend_one_def split: option.split)
  have "identity (fold (resend_one hs cutoff states mid b) js c) = identity c" for hs js c
    by (induction js arbitrary: c) (simp_all add: one)
  then show ?thesis by (simp add: check_resend_jobs_def Let_def)
qed

section \<open>Transfers\<close>

text \<open>What other tasks do while a handler waits: some run of the server, from whatever state it has reached.\<close>

definition behaves :: "'db database \<Rightarrow> ('db manager \<Rightarrow> 'db manager) \<Rightarrow> bool" where
  "behaves D others \<longleftrightarrow> (\<forall>mg. server_reachable D mg \<longrightarrow> server_run D mg (others mg))"

lemma behaves_run: "behaves D others \<Longrightarrow> server_reachable D mg \<Longrightarrow> server_run D mg (others mg)"
  by (simp add: behaves_def)

lemma run_wait:
  "server_run D mg mg1 \<Longrightarrow> server_reachable D mg \<Longrightarrow> behaves D others \<Longrightarrow> server_run D mg (others mg1)"
  using behaves_run reachable_run rtranclp_trans by metis

lemma fire_guard_run:
  "(\<And>s. guard = Some s \<Longrightarrow> known_session mg s) \<Longrightarrow> server_run D mg (fire_guard guard reason mg)"
  by (auto simp: fire_guard_def intro: runs split: option.split)

lemma entry_known:
  assumes "server_reachable D mg" "file_download_entry uid mg = Some s"
  shows "known_session mg s"
  using reachable_ok [OF assms(1)] assms(2)
  by (auto simp: file_download_entry_def registry_ok_def intro: registered_known split: if_splits)

lemma known_send [simp]: "known_session (with_cluster r f mg) s = known_session mg s"
  by (simp add: known_session_def with_cluster_def)

lemma request_download_run:
  assumes reach: "server_reachable D mg" and fresh: "map_of (mg_downloads mg) uid = None"
    and out: "request_download uid force dl r mg = (res, mg')"
  shows "server_run D mg mg'" "res = Inr w \<Longrightarrow> dw_guard w = Some s \<Longrightarrow> known_session mg' s"
proof -
  define mg1 where "mg1 = snd (create_file_download r uid mg)"
  have run: "server_run D mg mg1"
    unfolding mg1_def by (rule run_then [OF run_refl server_step.create_download [OF fresh]])
  have known: "known_session mg1 s" if "file_download_entry uid mg1 = Some s" for s
    using entry_known [OF reachable_run [OF reach run] that] .
  have fire: "server_run D mg (fire_guard (file_download_entry uid mg1) ResponseError (with_cluster r f mg1))"
      "server_run D mg (fire_guard (file_download_entry uid mg1) ResponseError mg1)"
    if "server_run D mg (with_cluster r f mg1)" for f
    using rtranclp_trans [OF that fire_guard_run] rtranclp_trans [OF run fire_guard_run] known by simp_all
  have send: "server_run D mg (with_cluster r (send_message m) mg1)" for m using run by (rule run_send)
  show "server_run D mg mg'"
    using out fire [OF send] send
    by (auto simp: request_download_def mg1_def [symmetric] case_prod_beta Let_def split: sum.splits option.splits)
  show "known_session mg' s" if "res = Inr w" "dw_guard w = Some s"
    using out known that
    by (auto simp: request_download_def mg1_def [symmetric] case_prod_beta Let_def split: sum.splits option.splits)
qed

lemma download_begin_run:
  assumes reach: "server_reachable D mg" and fresh: "map_of (mg_downloads mg) uid = None"
    and out: "download_begin D now expiry uid params mg = (res, mg')"
  shows "server_run D mg mg'" "res = Inr w \<Longrightarrow> dw_guard w = Some s \<Longrightarrow> known_session mg' s"
proof -
  define mg1 where "mg1 = mg\<lparr>mg_db := purge_expired_file_downloads D now expiry (mg_db mg)\<rparr>"
  have run: "server_run D mg mg1" unfolding mg1_def by (intro runs)
  have "map_of (mg_downloads mg1) uid = None" using fresh by (simp add: mg1_def)
  note req = request_download_run [OF reachable_run [OF reach run] this]
  consider "mg' = mg" "isl res" | "mg' = mg1" "isl res"
    | force dl r where "request_download uid force dl r mg1 = (res, mg')"
    using out by (auto simp: download_begin_def mg1_def [symmetric] Let_def
        split: option.splits if_splits sum.splits)
  note cases = this
  show "server_run D mg mg'"
    by (rule cases) (use run req(1) in \<open>auto intro: rtranclp_trans\<close>)
  show "known_session mg' s" if "res = Inr w" "dw_guard w = Some s"
    by (rule cases) (use that req(2) in auto)
qed

lemma record_timeout_run: "server_run D mg (record_timeout owner mg)"
  unfolding record_timeout_def by (rule run_cluster [OF run_refl]) (simp split: option.split)

lemma download_respond_run:
  assumes "\<And>s. dw_guard w = Some s \<Longrightarrow> known_session mg s"
  shows "server_run D mg (snd (download_respond w timed_out mg))"
proof -
  define mg1 where "mg1 = (if isl (wait_until_data_ready (fd_data_ready (owner_transfer (dw_owner w) mg)) timed_out)
      then record_timeout (dw_owner w) mg else mg)"
  have run: "server_run D mg mg1" by (simp add: mg1_def record_timeout_run)
  have "server_run D mg1 (fire_guard (dw_guard w) reason mg1)" for reason
    using assms run_known [OF run] by (intro fire_guard_run) blast
  then have "server_run D mg (fire_guard (dw_guard w) reason mg1)" for reason
    using run rtranclp_trans by metis
  then show ?thesis
    using run by (simp add: download_respond_def mg1_def [symmetric] Let_def del: wait_until_data_ready_isl)
qed

lemma download_file_run:
  assumes reach: "server_reachable D mg" and fresh: "map_of (mg_downloads mg) uid = None"
    and others: "behaves D others"
  shows "server_run D mg (snd (download_file D now expiry uid others timed_out params mg))"
proof -
  obtain res mg1 where b: "download_begin D now expiry uid params mg = (res, mg1)" by force
  note begun = download_begin_run [OF reach fresh b]
  have wait: "server_run D mg1 (others mg1)" using behaves_run [OF others reachable_run [OF reach begun(1)]] .
  show ?thesis
  proof (cases res)
    case (Inl e)
    then show ?thesis using b begun(1) by (simp add: download_file_def)
  next
    case (Inr w)
    have "server_run D (others mg1) (snd (download_respond w timed_out (others mg1)))"
      using begun(2) [OF Inr] run_known [OF wait] by (intro download_respond_run) blast
    then show ?thesis using b begun(1) wait Inr by (simp add: download_file_def)
  qed
qed

section \<open>Uploads\<close>

lemma abort_upload_run: "server_run D mg mg1 \<Longrightarrow> server_run D mg (abort_upload uid up mg1)"
  unfolding abort_upload_def
  by (rule run_cluster [OF run_then [OF _ server_step.remove_upload]]) simp_all

definition upload_behaves :: "'db database \<Rightarrow> 'db upload_env \<Rightarrow> bool" where
  "upload_behaves D ue \<longleftrightarrow> behaves D (ue_waiting ue) \<and> (\<forall>i. behaves D (ue_others ue i)) \<and>
     behaves D (ue_finishing ue) \<and> behaves D (ue_confirming ue)"

lemma upload_begin_run:
  assumes "upload_begin D uid auth params header mg = (res, mg')"
  shows "server_run D mg mg'"
proof -
  have "server_run D mg (snd (request_upload uid msg len r mg))" for msg len r
  proof -
    have "server_run D mg (snd (create_file_upload r uid mg))"
      by (rule run_then [OF run_refl server_step.create_upload])
    then show ?thesis by (simp add: request_upload_def case_prod_beta Let_def runs split: option.split)
  qed
  then have "server_run D mg (snd (upload_begin D uid auth params header mg))"
    by (simp add: upload_begin_def Let_def case_prod_beta split: option.split sum.split)
  then show ?thesis by (simp add: assms)
qed

lemma upload_chunks_run:
  assumes "upload_behaves D ue" "server_reachable D mg"
    "upload_chunks ue uid up body i n mg = (res, sent, mg')"
  shows "server_run D mg mg'"
  using assms
proof (induction ue uid up body i n mg arbitrary: res sent mg' rule: upload_chunks.induct)
  case (1 ue uid up body i total mg)
  let ?mg = "ue_others ue i mg"
  let ?n = "min (length body - total) (unat (max 1 (ue_chunk_size ue)))"
  let ?next = "with_cluster up (send_message (upload_chunk_message uid (take ?n (drop total body)))) ?mg"
  have wait: "server_run D mg ?mg"
    using 1(2, 3) by (intro run_wait [OF run_refl, where others = "ue_others ue i"]) (simp_all add: upload_behaves_def)
  have step: "server_run D mg ?next" using wait by (intro runs)
  note unfold = upload_chunks.simps [of ue uid up body i total mg]
  consider "mg' = mg" | "mg' = abort_upload uid up ?mg"
    | res' sent' where "total < length body" "drained ue False (ue_views ue i) up mg"
        "check_upload_error up ?mg = Inr ()" "upload_chunks ue uid up body (Suc i) (total + ?n) ?next = (res', sent', mg')"
    using 1(4) unfold
    by (auto simp: Let_def check_upload_error_def split: if_splits prod.splits)
  then show ?case
  proof cases
    case 3
    then have "server_run D ?next mg'"
      using "1.IH" [OF 3(1) refl refl _ 3(3) refl refl refl 1(2) _ 3(4)] reachable_run [OF 1(3) step] by simp
    then show ?thesis using step by simp
  qed (use wait abort_upload_run in auto)
qed

lemma upload_finish_run:
  assumes ue: "upload_behaves D ue" and reach: "server_reachable D mg"
  shows "server_run D mg (snd (snd (upload_finish ue uid up mg)))"
proof -
  define mg1 where "mg1 = ue_finishing ue mg"
  define mg2 where "mg2 = ue_confirming ue (with_cluster up (send_message (upload_complete_message uid)) mg1)"
  have run1: "server_run D mg mg1"
    unfolding mg1_def using ue reach by (intro run_wait [OF run_refl, where others = "ue_finishing ue"]) (simp_all add: upload_behaves_def)
  have run2: "server_run D mg mg2"
    unfolding mg2_def using ue reach run1
    by (intro run_wait [OF run_send, where others = "ue_confirming ue"]) (simp_all add: upload_behaves_def)
  have "server_run D mg (remove_file_upload uid mg2)" using run2 by (rule run_then) (rule server_step.remove_upload)
  then show ?thesis
    using run1 run2
    by (simp add: abort_upload_run upload_finish_def mg1_def [symmetric] mg2_def [symmetric] Let_def split: sum.split)
qed

lemma upload_body_run:
  assumes ue: "upload_behaves D ue" and reach: "server_reachable D mg"
  shows "server_run D mg (snd (snd (upload_body ue uid up len mg)))"
proof -
  define mg1 where "mg1 = (if isl (wait_until_data_ready (fu_data_ready (upload_state up mg)) (ue_wait_expired ue))
      then record_upload_timeout up mg else mg)"
  have "server_run D mg (record_upload_timeout up mg)"
    unfolding record_upload_timeout_def by (rule run_cluster [OF run_refl]) (simp split: option.split)
  then have run1: "server_run D mg mg1" by (simp add: mg1_def)
  show ?thesis
  proof (cases "upload_chunks ue uid up (case ue_body ue of Inl _ \<Rightarrow> [] | Inr b \<Rightarrow> b) 0 0 mg1")
    case (fields res sent mg2)
    have "server_run D mg1 mg2" using upload_chunks_run [OF ue reachable_run [OF reach run1] fields] .
    then have run2: "server_run D mg mg2" using run1 by simp
    have "server_run D mg2 (snd (snd (upload_finish ue uid up mg2)))"
      using upload_finish_run [OF ue reachable_run [OF reach run2]] .
    then have run3: "server_run D mg (snd (snd (upload_finish ue uid up mg2)))" using run2 by simp
    have eq: "upload_body ue uid up len mg =
        (case check_upload_error up mg1 of
           Inl e \<Rightarrow> (Inl e, [], abort_upload uid up mg1)
         | Inr _ \<Rightarrow>
             (case ue_body ue of
                Inl e \<Rightarrow> (Inl (BAD_REQUEST, ''Failed to read body: '' @ e), [], abort_upload uid up mg1)
              | Inr body \<Rightarrow>
                  if (word_of_nat (length body) :: u64) \<noteq> len then
                    (Inl (BAD_REQUEST, ''Request body length does not match Content-Length header''), [],
                     abort_upload uid up mg1)
                  else
                    (case upload_chunks ue uid up body 0 0 mg1 of
                       (Inl e, sent, mg) \<Rightarrow> (Inl e, sent, mg)
                     | (Inr _, sent, mg) \<Rightarrow>
                         (case upload_finish ue uid up mg of
                            (Inl e, sent', mg) \<Rightarrow> (Inl e, sent @ sent', mg)
                          | (Inr _, sent', mg) \<Rightarrow> (Inr (), sent @ sent', mg)))))"
      unfolding mg1_def upload_body_def Let_def ..
    show ?thesis
      using fields run1 run2 run3 abort_upload_run [OF run1] unfolding eq
      by (cases "ue_body ue") (auto simp: case_prod_beta split: sum.split)
  qed
qed

lemma upload_file_run:
  assumes ue: "upload_behaves D ue" and reach: "server_reachable D mg"
  shows "server_run D mg (snd (snd (upload_file D ue uid auth params header mg)))"
proof -
  obtain res mg1 where b: "upload_begin D uid auth params header mg = (res, mg1)" by force
  note run1 = upload_begin_run [where D = D, OF b]
  have run2: "server_run D mg (ue_waiting ue mg1)"
    using ue reach run1 by (intro run_wait [where others = "ue_waiting ue"]) (simp_all add: upload_behaves_def)
  have "server_run D mg (snd (snd (upload_body ue uid up len (ue_waiting ue mg1))))" for up len
    using run2 upload_body_run [OF ue reachable_run [OF reach run2]] by (rule rtranclp_trans)
  then show ?thesis
    using run1 b by (cases res) (simp_all add: upload_file_def case_prod_beta split: sum.split)
qed

section \<open>Listings\<close>

definition behaves_http :: "'db database \<Rightarrow> ('db http_state \<Rightarrow> 'db http_state) \<Rightarrow> bool" where
  "behaves_http D others \<longleftrightarrow>
     (\<forall>hs. server_reachable D (hs_manager hs) \<longrightarrow> server_run D (hs_manager hs) (hs_manager (others hs)))"

lemma request_file_list_run:
  assumes "behaves_http D others" "server_reachable D (hs_manager hs)"
  shows "server_run D (hs_manager hs)
    (hs_manager (snd (request_file_list others timed_out uid r bundle jid path recursive hs)))"
proof (cases "job_id_to_u32 jid")
  case (Inr wire_id)
  define hs1 where "hs1 = hs\<lparr>hs_file_lists := (hs_file_lists hs)(uid \<mapsto> file_list_state_new),
      hs_manager := with_cluster r (send_message (file_list_message uid wire_id bundle path recursive)) (hs_manager hs)\<rparr>"
  have run: "server_run D (hs_manager hs) (hs_manager hs1)" by (simp add: hs1_def runs)
  have "server_run D (hs_manager hs1) (hs_manager (others hs1))"
    using assms(1) reachable_run [OF assms(2) run] by (simp add: behaves_http_def)
  then have "server_run D (hs_manager hs) (hs_manager (others hs1))" using run by simp
  moreover have "hs_manager (snd (request_file_list others timed_out uid r bundle jid path recursive hs)) =
      hs_manager (others hs1)"
    by (simp add: request_file_list_def Inr Let_def hs1_def)
  ultimately show ?thesis by simp
qed (simp add: request_file_list_def)

lemma cache_run: "server_run D mg (hs_manager hs) \<Longrightarrow> server_run D mg (hs_manager (cache_file_list D jid files hs))"
  by (simp add: cache_file_list_def runs)

lemma background_cache_run:
  assumes "behaves_http D others" "server_reachable D (hs_manager hs)"
  shows "server_run D (hs_manager hs) (hs_manager (snd (spawn_background_cache D others timed_out uid r bundle jid hs)))"
  using request_file_list_run [OF assms]
  by (simp add: spawn_background_cache_def case_prod_beta cache_run split: sum.split)

lemma list_files_run:
  assumes "behaves_http D others" "server_reachable D (hs_manager hs)"
  shows "server_run D (hs_manager hs) (hs_manager (snd (list_files D others timed_out uid auth body hs)))"
proof -
  have "server_run D (hs_manager hs) (hs_manager (snd (live_list D others timed_out uid complete body jid cl bu hs)))"
    for complete jid cl bu
    using request_file_list_run [OF assms]
    by (simp add: live_list_def case_prod_beta cache_run split: sum.split)
  then show ?thesis
    by (simp add: list_files_def case_prod_beta Let_def split: sum.split list.split)
qed

section \<open>Sockets\<close>

fun event_behaves :: "'db database \<Rightarrow> 'db socket_event \<Rightarrow> bool" where
  "event_behaves D (Elsewhere f) \<longleftrightarrow> behaves_http D f"
| "event_behaves D _ \<longleftrightarrow> True"

lemma handle_frame_run: "server_run D (hs_manager hs) (hs_manager (handle_frame D ev cid r f hs))"
proof (cases f)
  case WfPong
  have "server_step D (hs_manager hs) (handle_pong (ev_now ev) cid (hs_manager hs))" by (rule server_step.pong)
  then show ?thesis using WfPong by (simp add: on_manager_def r_into_rtranclp)
qed (simp_all add: hand_message_run)

lemma read_loop_run:
  assumes "server_reachable D (hs_manager hs)" "list_all (event_behaves D) es"
  shows "server_run D (hs_manager hs) (hs_manager (snd (snd (read_loop D ev cid r closing received es hs))))"
  using assms
proof (induction D ev cid r closing received es hs rule: read_loop.induct)
  case (2 D ev cid r closing received f es hs)
  have "server_run D (hs_manager hs) (hs_manager (f hs))" using 2(2, 3) by (simp add: behaves_http_def)
  then show ?case using 2 reachable_run [OF 2(2)] by simp
next
  case (12 D ev cid r received f es hs)
  then show ?case
    using reachable_run [OF 12(2) handle_frame_run] rtranclp_trans [OF handle_frame_run] by auto
qed simp_all

definition guard_known :: "exit_guard \<Rightarrow> 'db manager \<Rightarrow> bool" where
  "guard_known g mg \<longleftrightarrow> (case eg_session g of None \<Rightarrow> True | Some s \<Rightarrow> known_session mg s)"

lemma guard_known_run: "server_run D mg mg' \<Longrightarrow> guard_known g mg \<Longrightarrow> guard_known g mg'"
  using run_known by (auto simp: guard_known_def split: option.splits)

lemma run_complete [runs]:
  "known_session mg s \<Longrightarrow> server_run D mg (with_session s (\<lambda>x. snd (session_complete cid x)) mg)"
  by (rule r_into_rtranclp) (rule server_step.complete)

lemma guard_complete_run: "guard_known g mg \<Longrightarrow> server_run D mg (guard_complete g mg)"
  by (cases "eg_session g"; cases "eg_connection g") (simp_all add: guard_known_def guard_complete_def runs)

lemma drop_guard_run: "guard_known g mg \<Longrightarrow> server_run D mg (snd (drop_guard g mg))"
  unfolding drop_guard_manager by (rule guard_complete_run) (simp add: guard_known_def)

lemma socket_exit_run:
  assumes "guard_known g mg"
  shows "server_run D mg (snd (socket_exit cid reason received g mg))"
proof -
  define g1 where "g1 = mark_closed_emitted
    ((if reason = ForcedFallback then force_fallback g else g)\<lparr>eg_received := received\<rparr>)"
  define mg1 where "mg1 = remove_connection cid (remove_close_flag reason) mg"
  have g1: "guard_known g1 m = guard_known g m" for m :: "'a manager" by (simp add: guard_known_def g1_def)
  have r1: "server_run D mg mg1" unfolding mg1_def by (rule r_into_rtranclp) (rule server_step.remove)
  have r2: "server_run D mg1 (guard_complete g1 mg1)"
    using guard_known_run [OF r1 assms] by (intro guard_complete_run) (simp add: g1)
  have "guard_known g (guard_complete g1 mg1)"
    using guard_known_run [OF r2] guard_known_run [OF r1 assms] by blast
  then have "server_run D (guard_complete g1 mg1) (snd (drop_guard g1 (guard_complete g1 mg1)))"
    by (intro drop_guard_run) (simp add: g1)
  with r1 r2 show ?thesis
    by (simp add: socket_exit_def Let_def g1_def [symmetric] mg1_def [symmetric])
qed

lemma new_connection_run:
  assumes fresh: "map_of (mg_connection_map mg) cid = None"
    and out: "handle_new_connection D now cutoff cid sender token mg = (r, mg')"
  shows "server_run D mg mg'"
proof (cases "admit_connection D now cutoff cid sender token mg")
  case (Pair a mg1)
  have step: "server_step D mg mg1"
    using server_step.admit [OF fresh, of D now cutoff sender token] Pair by simp
  show ?thesis
  proof (cases a)
    case (Throttled name c)
    then have "mg1 = mg \<and> ltk_cluster token mg = Some (name, c)"
      using Pair by (auto simp: admit_connection_def admit_download_connection_def admit_upload_connection_def
          admit_token_connection_def Let_def split: if_splits option.splits sum.splits prod.splits)
    then have "(name, c) \<in> set (mg_clusters mg1)" "map_of (mg_connection_map mg1) cid = None"
      using fresh
      by (auto simp: ltk_cluster_def find_Some_iff) (metis nth_mem)
    then have "server_step D mg1 (register_connection now cid sender name c mg1)"
      by (intro server_step.register)
    then show ?thesis using out Pair Throttled step by (auto simp: handle_new_connection_def)
  qed (use out Pair step in \<open>auto simp: handle_new_connection_def\<close>)
qed

lemma admitted_known:
  assumes "server_reachable D mg" "admitted_session cid mg = Some s"
  shows "known_session mg s"
proof -
  obtain r where "admit_file_download cid mg = Some (s, r)"
    using assms(2) by (auto simp: admitted_session_def split: option.splits session_state.splits)
  then obtain uid where "map_of (mg_downloads mg) uid = Some s"
    by (auto simp: admit_file_download_def split: option.splits if_splits)
  then show ?thesis using reachable_ok [OF assms(1)] by (auto simp: registry_ok_def intro: registered_known)
qed

definition opening_behaves :: "'db database \<Rightarrow> 'db opening_waits \<Rightarrow> bool" where
  "opening_behaves D waits \<longleftrightarrow> behaves_http D (ow_accepted waits) \<and> behaves_http D (ow_greeted waits)"

lemma opening_alone_behaves [simp]: "opening_behaves D opening_alone"
  by (simp add: opening_behaves_def opening_alone_def behaves_http_def)

lemma run_wait_http:
  assumes "server_run D mg (hs_manager hs)" "server_reachable D mg" "behaves_http D others"
  shows "server_run D mg (hs_manager (others hs))"
  using assms reachable_run [OF assms(2,1)] by (auto simp: behaves_http_def intro: rtranclp_trans)

text \<open>From the moment the manager has accepted a connection to its loop.\<close>

lemma socket_accepted_run:
  assumes reach: "server_reachable D mg" and waits: "opening_behaves D waits"
    and out: "hs' = ow_greeted waits (on_manager (with_cluster r (send_message m)) (ow_accepted waits (hs\<lparr>hs_manager := mg\<rparr>)))"
  shows "server_run D mg (hs_manager hs')"
proof -
  define hs1 where "hs1 = ow_accepted waits (hs\<lparr>hs_manager := mg\<rparr>)"
  define hs2 where "hs2 = on_manager (with_cluster r (send_message m)) hs1"
  have w: "behaves_http D (ow_accepted waits)" "behaves_http D (ow_greeted waits)"
    using waits by (simp_all add: opening_behaves_def)
  have "server_run D mg (hs_manager hs1)"
    unfolding hs1_def by (rule run_wait_http [OF _ reach w(1)]) simp
  then have "server_run D mg (hs_manager hs2)" by (simp add: hs2_def on_manager_def run_send)
  from run_wait_http [OF this reach w(2)] show ?thesis by (simp add: out hs1_def hs2_def)
qed

lemma socket_open_cases:
  assumes "socket_open D now cutoff cid sender token waits hs = (res, hs')"
  obtains (refused) mg where "res = None" "hs_manager hs' = mg"
      "handle_new_connection D now cutoff cid sender token (hs_manager hs) = (None, mg)"
  | (accepted) r g mg where "res = Some (r, g)"
      "handle_new_connection D now cutoff cid sender token (hs_manager hs) = (Some r, mg)"
      "hs' = ow_greeted waits (on_manager (with_cluster r (send_message server_ready_message))
         (ow_accepted waits (hs\<lparr>hs_manager := mg\<rparr>)))"
      "eg_session g = admitted_session cid (hs_manager hs')"
      "eg_connection g = map_option (\<lambda>_. cid) (admitted_session cid (hs_manager hs'))"
  using assms by (auto simp: socket_open_def Let_def exit_guard_new_def split: prod.splits option.splits)

lemma socket_open_run:
  assumes reach: "server_reachable D (hs_manager hs)" and fresh: "map_of (mg_connection_map (hs_manager hs)) cid = None"
    and waits: "opening_behaves D waits"
    and out: "socket_open D now cutoff cid sender token waits hs = (res, hs')"
  shows "server_run D (hs_manager hs) (hs_manager hs')" "res = Some (r, g) \<Longrightarrow> guard_known g (hs_manager hs')"
proof -
  show run: "server_run D (hs_manager hs) (hs_manager hs')"
    using out
  proof (cases rule: socket_open_cases)
    case (refused mg)
    then show ?thesis using new_connection_run [OF fresh] by simp
  next
    case (accepted r g mg)
    note run1 = new_connection_run [OF fresh accepted(2)]
    show ?thesis using socket_accepted_run [OF reachable_run [OF reach run1] waits accepted(3)] run1 by simp
  qed
  show "guard_known g (hs_manager hs')" if "res = Some (r, g)"
    using out
  proof (cases rule: socket_open_cases)
    case (accepted r' g' mg)
    then show ?thesis
      using that admitted_known [OF reachable_run [OF reach run], of cid]
      by (auto simp: guard_known_def split: option.split)
  qed (use that in simp)
qed

text \<open>The rest of the handler, from its loop.\<close>

lemma socket_rest_run:
  assumes reach: "server_reachable D (hs_manager hs)" and es: "list_all (event_behaves D) events"
    and known: "guard_known g (hs_manager hs)"
    and loop: "read_loop D ev cid r False 0 events hs = (reason, received, hs1)"
  shows "server_run D (hs_manager hs) (hs_manager hs1)"
    "server_run D (hs_manager hs1) (snd (socket_exit cid why received (g\<lparr>eg_sent := sent\<rparr>) (hs_manager hs1)))"
proof -
  show run: "server_run D (hs_manager hs) (hs_manager hs1)"
    using read_loop_run [OF reach es, of ev cid r False 0] by (simp add: loop)
  have "guard_known (g\<lparr>eg_sent := sent\<rparr>) (hs_manager hs1)"
    using guard_known_run [OF run known] by (simp add: guard_known_def)
  then show "server_run D (hs_manager hs1) (snd (socket_exit cid why received (g\<lparr>eg_sent := sent\<rparr>) (hs_manager hs1)))"
    by (rule socket_exit_run)
qed

lemma handle_socket_run:
  assumes reach: "server_reachable D (hs_manager hs)" and es: "list_all (event_behaves D) events"
    and fresh: "map_of (mg_connection_map (hs_manager hs)) cid = None" and waits: "opening_behaves D waits"
  shows "server_run D (hs_manager hs)
    (hs_manager (snd (handle_socket D now cutoff ev cid sender token waits events sent hs)))"
proof (cases "socket_open D now cutoff cid sender token waits hs")
  case (Pair res hs1)
  note opened = socket_open_run [OF reach fresh waits Pair]
  show ?thesis
  proof (cases res)
    case None
    then show ?thesis using Pair opened(1) by (simp add: handle_socket_def)
  next
    case (Some p)
    obtain r g where p: "p = (r, g)" by force
    obtain reason received hs2 where loop: "read_loop D ev cid r False 0 events hs1 = (reason, received, hs2)"
      by (cases "read_loop D ev cid r False 0 events hs1") auto
    have "guard_known g (hs_manager hs1)" using opened(2) Some p by simp
    note rest = socket_rest_run [OF reachable_run [OF reach opened(1)] es this loop]
    show ?thesis
      using Pair Some p loop rtranclp_trans [OF opened(1) rest(1)] rtranclp_trans [OF _ rest(2)]
      by (cases reason) (auto simp: handle_socket_def case_prod_beta)
  qed
qed

section \<open>The application\<close>

lemma fold_cluster_run:
  assumes "\<And>c. identity (f c) = identity c"
  shows "server_run D mg (fold (\<lambda>e. with_cluster (g e) f) es mg)"
proof (induction es arbitrary: mg)
  case (Cons e es)
  have "server_run D mg (with_cluster (g e) f mg)" by (rule run_cluster [OF run_refl]) (rule assms)
  then show ?case using Cons.IH [of "with_cluster (g e) f mg"] by simp
qed simp

lemma start_tasks_run: "server_run D mg (manager_start_tasks mg)"
  using fold_cluster_run [of start_tasks D mg snd] by (simp add: manager_start_tasks_def case_prod_unfold)

lemma drain_run: "server_run D mg (snd (drain_application_shutdown mg))"
proof -
  obtain n mg1 where b: "begin_application_shutdown mg = (n, mg1)" by force
  have "server_run D mg mg1" using server_step.shut_down [of D mg] b by (simp add: r_into_rtranclp)
  moreover have "server_run D mg1 (fold drain_cluster (mg_download_clusters mg1) mg1)"
    using fold_cluster_run [of terminate_download_tasks D mg1 snd] by (simp add: drain_cluster_def [abs_def])
  ultimately show ?thesis by (simp add: drain_application_shutdown_def b)
qed

lemma started_reachable:
  assumes "run_setup P = Inr app"
  shows "server_reachable D (hs_manager (ap_state app))"
proof -
  obtain configs db where "hs_manager (ap_state app) = manager_start_tasks (manager_new configs db)"
    using assms by (auto simp: run_setup_def app_state_def Let_def split: sum.splits option.splits)
  then show ?thesis using start_tasks_run unfolding server_reachable_def by metis
qed

text \<open>Everything the program does to its shared state: the requests of HTTP clients, the connections of
  clusters with all their messages, the timers, the clean-up worker, the streams and the shutdown.\<close>

inductive server_event :: "'db database \<Rightarrow> ('p \<Rightarrow> i64 option) \<Rightarrow> 'db http_state \<Rightarrow> 'db http_state \<Rightarrow> bool"
  for D :: "'db database" and claim :: "'p \<Rightarrow> i64 option" where
  create_job: "server_event D claim hs (on_manager (\<lambda>mg. snd (create_job D claim now auth body mg)) hs)"
| cancel_job: "server_event D claim hs (on_manager (\<lambda>mg. snd (cancel_job D now (auth :: 'p auth_result) jid mg)) hs)"
| delete_job: "server_event D claim hs (on_manager (\<lambda>mg. snd (delete_job D now (auth :: 'p auth_result) jid mg)) hs)"
| post_download: "server_event D claim hs
    (on_manager (\<lambda>mg. snd (post_file_download D now expiry stamp claim auth request mg)) hs)"
| download: "map_of (mg_downloads (hs_manager hs)) uid = None \<Longrightarrow> behaves D others \<Longrightarrow>
    server_event D claim hs (on_manager (\<lambda>mg. snd (download_file D now expiry uid others timed_out params mg)) hs)"
| stream: "known_session (hs_manager hs) s \<Longrightarrow>
    server_event D claim hs (on_manager (\<lambda>mg. snd (trigger_session reason s mg)) hs)"
| upload: "upload_behaves D ue \<Longrightarrow>
    server_event D claim hs (on_manager (\<lambda>mg. snd (snd (upload_file D ue uid (auth :: 'p auth_result) query header mg))) hs)"
| listing: "behaves_http D waits \<Longrightarrow>
    server_event D claim hs (snd (list_files D waits timed_out uid (auth :: 'p auth_result) list_body hs))"
| caching: "behaves_http D waits \<Longrightarrow>
    server_event D claim hs (snd (spawn_background_cache D waits timed_out uid r bundle jid hs))"
| socket: "list_all (event_behaves D) events \<Longrightarrow> opening_behaves D waits \<Longrightarrow>
    map_of (mg_connection_map (hs_manager hs)) cid = None \<Longrightarrow>
    server_event D claim hs (snd (handle_socket D now cutoff ev cid sender token waits events sent hs))"
| resend: "server_event D claim hs (on_manager (with_cluster r (check_resend_jobs D db cutoff states mid b)) hs)"
| health_check: "server_event D claim hs (on_manager (check_pings now) hs)"
| reconnection: "server_event D claim hs (on_manager (\<lambda>mg. snd (reconnect_clusters D base now wall uuids mg)) hs)"
| clean_up: "server_event D claim hs (on_manager cleanup_worker_step hs)"
| shut_down: "server_event D claim hs (on_manager (\<lambda>mg. snd (drain_application_shutdown mg)) hs)"

lemma event_run:
  "server_event D claim hs hs' \<Longrightarrow> server_reachable D (hs_manager hs) \<Longrightarrow> server_run D (hs_manager hs) (hs_manager hs')"
proof (induction rule: server_event.induct)
  case (resend hs r db cutoff states mid b)
  have "server_run D (hs_manager hs) (with_cluster r (check_resend_jobs D db cutoff states mid b) (hs_manager hs))"
    by (rule run_cluster [OF run_refl]) (rule resend_identity)
  then show ?case by (simp add: on_manager_def)
next
  case (health_check hs now)
  have "server_step D (hs_manager hs) (check_pings now (hs_manager hs))" by (rule server_step.pings)
  then show ?case by (simp add: on_manager_def r_into_rtranclp)
next
  case (reconnection hs base now wall uuids)
  have "server_step D (hs_manager hs) (snd (reconnect_clusters D base now wall uuids (hs_manager hs)))"
    by (rule server_step.reconnect)
  then show ?case by (simp add: on_manager_def r_into_rtranclp)
next
  case (clean_up hs)
  have "server_step D (hs_manager hs) (cleanup_worker_step (hs_manager hs))" by (rule server_step.worker)
  then show ?case by (simp add: on_manager_def r_into_rtranclp)
qed (simp_all add: on_manager_def create_job_run cancel_delete_run post_file_download_run download_file_run
    upload_file_run list_files_run background_cache_run handle_socket_run drain_run runs)

end
