(* ===== verification/Server_Life.thy ===== *)
theory Server_Life
  imports Server_Runs Registry_Stays
begin

text \<open>
  Properties of the whole program, from its start through any sequence of requests, connections, messages,
  timers and the shutdown: the registries of the manager stay consistent, and the handler of a download
  connection always leaves its session closed.
\<close>

section \<open>The program's states\<close>

text \<open>C9: the registries stay consistent.  From the start of the program, whatever requests, connections,
  messages and timers come, and in whatever order they and the waits between them interleave: a download
  is registered under the identifier of its own session and has a dedicated cluster, which carries that
  identifier; every connection registered for such a cluster is the one its session was bound to, and the
  connection of an open session is registered; configured, download and upload clusters keep their roles;
  no registry holds a reference that was not allocated; a registered session that is no longer open has its
  request in the queue of the clean-up worker; and after a shutdown no registered session is open.\<close>

theorem registry_consistent:
  assumes "run_setup P = Inr app" "(server_event D claim)\<^sup>*\<^sup>* (ap_state app) hs"
  shows "registry_ok (hs_manager hs)"
proof -
  have "server_reachable D (hs_manager hs)" using assms(2)
  proof (induction rule: rtranclp_induct)
    case base
    show ?case using assms(1) by (rule started_reachable)
  next
    case (step hs hs')
    then show ?case using event_run reachable_run by blast
  qed
  then show ?thesis by (rule reachable_ok)
qed

theorem registry_consistent_witness:
  "\<exists>app n mg. run_setup demo_platform = Inr app \<and>
     drain_application_shutdown (hs_manager (ap_state app)) = (n, mg) \<and> registry_ok mg"
proof -
  obtain app where a: "run_setup demo_platform = Inr app"
    by (simp add: run_setup_def demo_platform_def load_access_secrets_def load_cluster_configs_def
        load_json_file_def Let_def demo_config_def)
  obtain n mg where d: "drain_application_shutdown (hs_manager (ap_state app)) = (n, mg)" by force
  have "(server_event mem_database (\<lambda>_ :: unit. None))\<^sup>*\<^sup>* (ap_state app)
      (on_manager (\<lambda>mg. snd (drain_application_shutdown mg)) (ap_state app))"
    by (rule r_into_rtranclp) (rule server_event.shut_down)
  from registry_consistent [OF a this] a d show ?thesis by (simp add: on_manager_def)
qed

section \<open>The life of a download connection\<close>

declare map_of_eq_Some_iff [simp del] Some_eq_map_of_iff [simp del]

lemma bound_state:
  "binding (ds_state x) = Some cid \<Longrightarrow> \<not> session_open x \<Longrightarrow>
     \<exists>rsn. ds_state x = Closing (Some cid) rsn \<or> ds_state x = Closed (Some cid) rsn"
  "binding (ds_state x) = Some cid \<Longrightarrow> session_open x \<Longrightarrow> ds_state x = Connected cid"
  by (cases "ds_state x"; simp add: session_open_def)+

text \<open>The connection once it is open: its session is bound to it, and if it is still open then the guard of the
  handler holds it.\<close>

lemma download_opened:
  assumes reach: "server_reachable D (hs_manager hs)" and s: "map_of (mg_downloads (hs_manager hs)) token = Some s"
    and fresh: "map_of (mg_connection_map (hs_manager hs)) cid = None" and waits: "opening_behaves D waits"
    and out: "socket_open D now cutoff cid sender token waits hs = (Some (r, g), hs')"
  shows "bound_by (hs_manager hs') s = Some cid" "known_session (hs_manager hs') s"
    "session_open (mg_session_heap (hs_manager hs') s) \<Longrightarrow>
       eg_session g = Some s \<and> eg_connection g = Some cid \<and> map_of (mg_downloads (hs_manager hs')) token = Some s"
proof -
  let ?m = "hs_manager hs'"
  obtain mg where new: "handle_new_connection D now cutoff cid sender token (hs_manager hs) = (Some r, mg)"
    and hs': "hs' = ow_greeted waits (on_manager (with_cluster r (send_message server_ready_message))
      (ow_accepted waits (hs\<lparr>hs_manager := mg\<rparr>)))"
    and g: "eg_session g = admitted_session cid ?m" "eg_connection g = map_option (\<lambda>_. cid) (admitted_session cid ?m)"
    using out by (cases rule: socket_open_cases) auto
  have reach1: "server_reachable D mg" using reachable_run [OF reach new_connection_run [OF fresh new]] .
  have run: "server_run D mg ?m" using socket_accepted_run [OF reach1 waits hs'] .
  have bound: "ds_state (mg_session_heap mg s) = Connected cid" "mg_downloads mg = mg_downloads (hs_manager hs)"
    using s new by (auto simp: handle_new_connection_def admit_connection_def admit_download_connection_def
        Let_def bind_connection_def split: session_state.splits option.splits if_splits)
  have ok: "registry_ok mg" "registry_ok ?m" using reachable_ok [OF reach1] reachable_ok [OF reachable_run [OF reach1 run]] .
  have known: "known_session mg s" using ok(1) bound(2) s by (auto simp: registry_ok_def intro: registered_known)
  show "known_session ?m s" using run_known [OF run known] .
  show bnd: "bound_by ?m s = Some cid"
    using keeps_run [OF run] known bound(1) by (simp add: keeps_sessions_def known_session_def session_grows_def)
  assume still: "session_open (mg_session_heap ?m s)"
  then have reg: "map_of (mg_downloads ?m) token = Some s"
    using keeps_downloads_run [OF run ok(1)] bound(2) s still by (auto simp: keeps_downloads_def)
  have con: "ds_state (mg_session_heap ?m s) = Connected cid" by (rule bound_state(2) [OF bnd still])
  have parts: "downloads_ok ?m" "transfers_ok ?m" "live_ok ?m"
    using ok(2) by (simp_all add: registry_ok_def registry_core_def registry_base_def)
  then obtain r' where r': "map_of (mg_download_clusters ?m) s = Some r'" "ds_download_id (mg_session_heap ?m s) = token"
    using reg by (auto simp: downloads_ok_def)
  have "map_of (mg_connection_map ?m) cid = Some r'" using parts(3) reg still bnd r'(1) by (auto simp: live_ok_def)
  moreover have "role_of ?m r' = FileDownload" "uuid_of ?m r' = Some token"
    using parts(2) r' by (auto simp: transfers_ok_def)
  ultimately have "admitted_session cid ?m = Some s"
    using reg con by (simp add: admitted_session_def admit_file_download_def)
  then show "eg_session g = Some s \<and> eg_connection g = Some cid \<and> map_of (mg_downloads ?m) token = Some s"
    using reg by (simp add: g)
qed

text \<open>The end of the handler, from any state the loop can leave.\<close>

lemma exit_closes:
  assumes ok: "registry_ok mg" and g: "eg_session g = Some s" "eg_connection g = Some cid"
    and known: "known_session mg s" and bound: "bound_by mg s = Some cid"
    and reg: "map_of (mg_downloads mg) token = Some s \<or> \<not> session_open (mg_session_heap mg s)"
    and exit: "socket_exit cid reason received g mg = (logs, mg')"
  shows "\<exists>rsn. ds_state (mg_session_heap mg' s) = Closed (Some cid) rsn"
proof (cases "session_open (mg_session_heap mg s)")
  case True
  then have con: "ds_state (mg_session_heap mg s) = Connected cid" using bound by (intro bound_state)
  have s: "map_of (mg_downloads mg) token = Some s" using reg True by blast
  have parts: "registry_base mg" "live_ok mg" using ok by (simp_all add: registry_ok_def registry_core_def)
  then obtain r where r: "map_of (mg_download_clusters mg) s = Some r"
    using s by (auto simp: registry_base_def downloads_ok_def)
  have "map_of (mg_connection_map mg) cid = Some r"
    using parts(2) s True bound r by (auto simp: live_ok_def)
  moreover have "role_of mg r = FileDownload" "uuid_of mg r = Some token"
      "ds_download_id (mg_session_heap mg s) = token"
    using parts(1) r s by (auto simp: registry_base_def transfers_ok_def downloads_ok_def)
  ultimately have "serves_download cid r token s g mg" using r s g by (simp add: serves_download_def)
  from download_handler_closes_session [OF this exit] con show ?thesis by auto
next
  case False
  define g' where "g' = mark_closed_emitted
    ((if reason = ForcedFallback then force_fallback g else g)\<lparr>eg_received := received\<rparr>)"
  define mg1 where "mg1 = remove_connection cid (remove_close_flag reason) mg"
  have g': "eg_session g' = Some s" "eg_connection g' = Some cid" using g by (simp_all add: g'_def)
  have "session_grows (mg_session_heap mg s) (mg_session_heap mg1 s)"
    using keeps_remove [of mg cid "remove_close_flag reason"] known
    by (simp add: keeps_sessions_def known_session_def mg1_def)
  then obtain rsn where "ds_state (mg_session_heap mg1 s) = Closing (Some cid) rsn \<or>
      ds_state (mg_session_heap mg1 s) = Closed (Some cid) rsn"
    using bound_state(1) [of "mg_session_heap mg1 s" cid] bound False by (auto simp: session_grows_def)
  then have "ds_state (mg_session_heap (guard_complete g' mg1) s) = Closed (Some cid) rsn"
    using guard_complete_closing [OF g'] guard_complete_closed [OF g'(1)] by blast
  then have "ds_state (mg_session_heap (snd (drop_guard g' (guard_complete g' mg1))) s) = Closed (Some cid) rsn"
    by (rule drop_guard_closed [OF g'(1)])
  moreover have "mg' = snd (drop_guard g' (guard_complete g' mg1))"
    using exit by (simp add: socket_exit_def Let_def g'_def mg1_def)
  ultimately show ?thesis by blast
qed

text \<open>C18: how the handler of a download connection leaves its session.  Take any reachable state, a connection
  under a new identifier that presents the identifier of a registered download and is accepted, and any run
  of its read loop, with any frames; the rest of the program may act while the connection is being opened
  and between its frames.  When the loop has ended, for whatever reason, and the handler is done, the session
  is no longer open, and if it is still registered then its request waits for the clean-up worker.  If the
  session was still open when the handler looked it up for its guard, it is closed, for this connection.  If
  something had ended it before that, while the connection was being opened, the guard holds nothing, and
  the session may be left closing.\<close>

theorem download_socket_closes:
  assumes reach: "server_reachable D (hs_manager hs)"
    and fresh: "map_of (mg_connection_map (hs_manager hs)) cid = None"
    and waits: "opening_behaves D waits" and events: "list_all (event_behaves D) es"
    and token: "map_of (mg_downloads (hs_manager hs)) token = Some s"
    and opened: "socket_open D now cutoff cid sender token waits hs = (Some (r, g), hs1)"
    and ended: "fst (read_loop D ev cid r False 0 es hs1) \<noteq> None"
    and handled: "handle_socket D now cutoff ev cid sender token waits es sent hs = (logs, hs')"
  shows "(if session_open (mg_session_heap (hs_manager hs1) s)
      then \<exists>rsn. ds_state (mg_session_heap (hs_manager hs') s) = Closed (Some cid) rsn
      else \<exists>rsn. ds_state (mg_session_heap (hs_manager hs') s) \<in> {Closing (Some cid) rsn, Closed (Some cid) rsn}) \<and>
    (map_of (mg_downloads (hs_manager hs')) token = Some s \<longrightarrow>
       (\<exists>rq \<in> set (mg_cleanup_queue (hs_manager hs')). cr_session rq = s))"
proof -
  let ?m = "hs_manager hs'"
  note o = download_opened [OF reach token fresh waits opened]
  note run1 = socket_open_run [OF reach fresh waits opened]
  note reach1 = reachable_run [OF reach run1(1)]
  obtain reason received hs2 where loop: "read_loop D ev cid r False 0 es hs1 = (Some reason, received, hs2)"
    using ended by (cases "read_loop D ev cid r False 0 es hs1") auto
  note rest = socket_rest_run [OF reach1 events run1(2) [OF refl] loop]
  have out: "socket_exit cid reason received (g\<lparr>eg_sent := sent\<rparr>) (hs_manager hs2) = (logs, ?m)"
    using handled opened loop by (auto simp: handle_socket_def Let_def split: prod.splits)
  then have run2: "server_run D (hs_manager hs1) ?m" using rest(1) rest(2) [where why = reason and sent = sent] rtranclp_trans by fastforce
  have grown: "session_grows (mg_session_heap (hs_manager hs1) s) (mg_session_heap m s)"
    if "server_run D (hs_manager hs1) m" for m
    using keeps_run [OF that] o(2) by (simp add: keeps_sessions_def known_session_def)
  have closed: "\<exists>rsn. ds_state (mg_session_heap ?m s) = Closed (Some cid) rsn"
    if still: "session_open (mg_session_heap (hs_manager hs1) s)"
  proof -
    have ok: "registry_ok (hs_manager hs1)" "registry_ok (hs_manager hs2)"
      using reachable_ok [OF reach1] reachable_ok [OF reachable_run [OF reach1 rest(1)]] .
    have "map_of (mg_downloads (hs_manager hs2)) token = Some s \<or> \<not> session_open (mg_session_heap (hs_manager hs2) s)"
      using keeps_downloads_run [OF rest(1) ok(1)] o(3) still by (simp add: keeps_downloads_def)
    moreover have "bound_by (hs_manager hs2) s = Some cid" using grown [OF rest(1)] o(1) by (simp add: session_grows_def)
    ultimately show ?thesis
      using exit_closes [OF ok(2) _ _ run_known [OF rest(1) o(2)] _ _ out] o(3) still by simp
  qed
  have bound: "bound_by ?m s = Some cid" using grown [OF run2] o(1) by (simp add: session_grows_def)
  have over: "\<not> session_open (mg_session_heap ?m s)"
    using closed grown [OF run2] by (auto simp: session_grows_def session_open_def)
  have "registry_ok ?m" using reachable_ok [OF reachable_run [OF reach1 run2]] .
  then have "owed ?m (mg_cleanup_queue ?m)" by (simp add: registry_ok_def registry_core_def)
  then show ?thesis using closed over bound_state(1) [OF bound over] by (auto simp: owed_def)
qed

text \<open>The connection of the demonstration transfer, opened without interference and closed by its peer.\<close>

theorem download_socket_closes_witness:
  "\<exists>logs hs'. handle_socket mem_database 0 0 (\<lambda>_. demo_env) 7 demo_channel ''d'' opening_alone [EndOfStream] 0
       (app_state demo_transfer_manager) = (logs, hs') \<and>
     (\<exists>rsn. ds_state (mg_session_heap (hs_manager hs') 2) = Closed (Some 7) rsn)"
proof -
  let ?hs = "app_state demo_transfer_manager"
  obtain logs hs' where h: "handle_socket mem_database 0 0 (\<lambda>_. demo_env) 7 demo_channel ''d'' opening_alone [EndOfStream] 0
      ?hs = (logs, hs')" by force
  obtain r mg where new: "handle_new_connection mem_database 0 0 7 demo_channel ''d'' (hs_manager ?hs) = (Some r, mg)"
      "ds_state (mg_session_heap mg 2) = Connected 7"
    using demo_transfer_connect demo_serves(2) by (force simp: demo_connected_def app_state_def)
  then obtain g hs1 where o: "socket_open mem_database 0 0 7 demo_channel ''d'' opening_alone ?hs = (Some (r, g), hs1)"
      "session_open (mg_session_heap (hs_manager hs1) 2)"
    by (simp add: socket_open_def Let_def opening_alone_def on_manager_def session_open_def)
  have "server_reachable mem_database (hs_manager ?hs)" "map_of (mg_connection_map (hs_manager ?hs)) 7 = None"
      "map_of (mg_downloads (hs_manager ?hs)) ''d'' = Some 2"
    using demo_transfer_reachable demo_transfer_cluster(1) by (simp_all add: app_state_def)
  from download_socket_closes [OF this(1, 2) opening_alone_behaves _ this(3) o(1) _ h] o(2) h show ?thesis by auto
qed

text \<open>The case the guard misses: a shutdown begins while the greeting is put in the queue, the peer goes, and the
  clean-up worker runs.  Nothing is registered any more, and the session stays closing for good.\<close>

definition shutdown_in_opening :: "mem_db opening_waits" where
  "shutdown_in_opening = opening_alone\<lparr>ow_greeted := on_manager (\<lambda>mg. snd (begin_application_shutdown mg))\<rparr>"

lemma demo_no_request: "mg_cleanup_queue demo_transfer_manager = []"
  by (simp add: demo_transfer_manager_def create_file_download_def Let_def) (simp add: demo_manager_def manager_new_def Let_def)

lemma demo_connected_fields:
  "mg_downloads demo_connected = [(''d'', 2)]" "mg_download_clusters demo_connected = [(2, 1)]"
  "mg_connection_map demo_connected = [(7, 1)]" "mg_cleanup_queue demo_connected = []"
  "\<not> mg_shutdown demo_connected" "mg_session_heap demo_connected 2 = (session_new ''d'' 2)\<lparr>ds_state := Connected 7\<rparr>"
  "role_of demo_connected 1 = FileDownload" "uuid_of demo_connected 1 = Some ''d''"
  using demo_transfer_cluster demo_no_request
  by (simp_all add: demo_connected_def handle_new_connection_def admit_connection_def admit_download_connection_def
      Let_def bind_connection_def session_new_def set_connection_def)

theorem opening_race_leaves_closing:
  "let mg = hs_manager (snd (handle_socket mem_database 0 0 (\<lambda>_. demo_env) 7 demo_channel ''d'' shutdown_in_opening
      [EndOfStream] 0 (app_state demo_transfer_manager))); mg = cleanup_worker_step mg
   in ds_state (mg_session_heap mg 2) = Closing (Some 7) ApplicationShutdown \<and> mg_downloads mg = [] \<and>
     mg_cleanup_queue mg = []"
proof -
  let ?hs = "app_state demo_transfer_manager"
  have new: "handle_new_connection mem_database 0 0 7 demo_channel ''d'' (hs_manager ?hs) = (Some 1, demo_connected)"
    using demo_transfer_connect by (auto simp: demo_connected_def app_state_def)
  define m where "m = snd (begin_application_shutdown (with_cluster 1 (send_message server_ready_message) demo_connected))"
  have m: "mg_downloads m = [(''d'', 2)]" "mg_download_clusters m = [(2, 1)]" "mg_connection_map m = [(7, 1)]"
    "mg_session_heap m 2 = (session_new ''d'' 2)\<lparr>ds_state := Closing (Some 7) ApplicationShutdown\<rparr>"
    "mg_cleanup_queue m = [\<lparr>cr_download_id = ''d'', cr_connection_id = Some 7, cr_reason = ApplicationShutdown, cr_session = 2\<rparr>]"
    "role_of m 1 = FileDownload" "uuid_of m 1 = Some ''d''"
    using demo_connected_fields
    by (simp_all add: m_def begin_application_shutdown_def trigger_session_def session_trigger_def enter_closing_def
        session_new_def with_cluster_def send_message_def)
  have none: "admitted_session 7 m = None"
    using m by (simp add: admitted_session_def admit_file_download_def session_new_def)
  let ?g = "exit_guard_new None None (cluster_name (mg_cluster_heap m 1)) 7 0 0"
  have "socket_open mem_database 0 0 7 demo_channel ''d'' shutdown_in_opening ?hs = (Some (1, ?g), ?hs\<lparr>hs_manager := m\<rparr>)"
    using none by (simp add: socket_open_def new shutdown_in_opening_def opening_alone_def on_manager_def Let_def m_def)
  moreover have "remove_connection 7 False m = forget_tracking 7 m"
    using m by (simp add: remove_connection_def Let_def session_new_def)
  ultimately have "hs_manager (snd (handle_socket mem_database 0 0 (\<lambda>_. demo_env) 7 demo_channel ''d'' shutdown_in_opening
      [EndOfStream] 0 ?hs)) = forget_tracking 7 m"
    by (simp add: handle_socket_def socket_exit_def remove_close_flag_def drop_guard_def guard_complete_def
        exit_guard_new_def mark_closed_emitted_def case_prod_beta Let_def)
  then show ?thesis
    using m by (simp add: cleanup_worker_step_def Let_def forget_tracking_def cleanup_file_download_def session_new_def
        remove_exact_download_session_def remove_exact_connection_def with_cluster_def with_session_def)
qed

end
