(* ===== verification/Job_Delivery.thy ===== *)
theory Job_Delivery
  imports Http_Job Scheduler_Drain
begin

text \<open>
  The way of a job from the HTTP request that creates it to the wire: the creation (\<open>Http_Job\<close>), the queue
  and the scheduler of its cluster (\<open>Cluster_State\<close>, \<open>Scheduler_Drain\<close>) and the bytes the cluster reads
  (\<open>Wire_Message\<close>), put together.
\<close>

section \<open>What a cluster reads\<close>

definition read_submission :: "bytes \<Rightarrow> u32 \<times> string \<times> u32 \<times> string \<times> string" where
  "read_submission bs =
     (let m = message_from_bytes bs;
          (jid, m1) = pop_uint m;
          (bundle, m2) = pop_string m1;
          (parameters, _) = pop_string m2
      in (m_id m, m_source m, jid, bundle, parameters))"

lemma read_submit_message:
  assumes "is_rust_string (job_source_key (sint jid) (cr_cluster body))" "is_rust_string (cr_bundle body)"
    "is_rust_string (cr_parameters body)"
  shows "read_submission (m_data (submit_message jid i body)) =
    (SUBMIT_JOB, job_source_key (sint jid) (cr_cluster body), i, cr_bundle body, cr_parameters body)"
proof -
  let ?key = "job_source_key (sint jid) (cr_cluster body)"
  let ?fields = "to_le 4 (unat i) @ prefixed (str_bytes (cr_bundle body)) @ prefixed (str_bytes (cr_parameters body))"
  have data: "m_data (submit_message jid i body) = field_enc (FString ?key) @ field_enc (FUInt SUBMIT_JOB) @ ?fields"
    by (simp add: submit_message_def str.put_data uint.put_data message_new_data)
  obtain m where m: "message_from_bytes (m_data (submit_message jid i body)) = m" "m_id m = SUBMIT_JOB"
      "m_source m = ?key" "at_rest m ?fields"
    using message_from_bytes_header [OF assms(1), of SUBMIT_JOB ?fields] unfolding data by auto
  obtain m1 where m1: "pop_uint m = (i, m1)" "at_rest m1 (prefixed (str_bytes (cr_bundle body)) @
      prefixed (str_bytes (cr_parameters body)))"
    using uint.get_rest [OF TrueI m(4)] by (auto simp: total_pop_eq)
  obtain m2 where m2: "pop_string m1 = (cr_bundle body, m2)" "at_rest m2 (prefixed (str_bytes (cr_parameters body)) @ [])"
    using str.get_rest [OF assms(2) m1(2)] by (auto simp: total_pop_eq)
  obtain m3 where "pop_string m2 = (cr_parameters body, m3)"
    using str.get_rest [OF assms(3) m2(2)] by (auto simp: total_pop_eq)
  then show ?thesis by (simp add: read_submission_def m m1 m2 Let_def)
qed

section \<open>From the request to the wire\<close>

lemma subseq_elem: "subseq xs ys \<Longrightarrow> x \<in> set xs \<Longrightarrow> x \<in> set ys"
  by (induction rule: list_emb.induct) auto

lemma created_online:
  assumes out: "create_job D claim now auth body mg = (Inr jid, mg')"
    and r: "map_of (mg_clusters mg) (cr_cluster body) = Some r" and on: "is_online (mg_cluster_heap mg r)"
  shows "mg_cluster_heap mg' r = send_message (submit_message jid (ucast jid) body) (mg_cluster_heap mg r)"
    "uint jid < 2 ^ 32"
proof -
  obtain jid' db where sub: "submit_job D now jid' body r (mg\<lparr>mg_db := db\<rparr>) = (Inr jid, mg')"
    using out r on by (auto simp: create_job_def Let_def split: if_splits prod.splits sum.splits)
  then have id: "jid' = jid" "job_id_to_u32 jid = Inr (ucast jid) \<and> uint jid < 2 ^ 32"
    by (auto simp: submit_job_def job_id_to_u32_def Let_def split: sum.splits prod.splits if_splits)
  with sub show "mg_cluster_heap mg' r = send_message (submit_message jid (ucast jid) body) (mg_cluster_heap mg r)"
      "uint jid < 2 ^ 32"
    by (auto simp: submit_job_def Let_def split: prod.splits)
qed

text \<open>The frame is a submission of this job.\<close>

definition submits :: "i64 \<Rightarrow> create_job_request \<Rightarrow> bytes \<Rightarrow> bool" where
  "submits jid body frame \<longleftrightarrow>
     (case read_submission frame of (i, source, wire_id, bundle, parameters) \<Rightarrow>
        i = SUBMIT_JOB \<and> uint wire_id = uint jid \<and> bundle = cr_bundle body \<and> parameters = cr_parameters body)"

lemma submit_message_submits:
  assumes "uint jid < 2 ^ 32" "is_rust_string (job_source_key (sint jid) (cr_cluster body))"
    "is_rust_string (cr_bundle body)" "is_rust_string (cr_parameters body)"
  shows "submits jid body (m_data (submit_message jid (ucast jid) body))"
  using read_submit_message [OF assms(2-4)] assms(1)
  by (simp add: submits_def unsigned_ucast_eq take_bit_int_eq_self)

text \<open>A queued frame reaches the connection.\<close>

lemma queued_frame_delivered:
  assumes "sched_reachable \<lparr>sc_cluster = c, sc_pc = pc\<rparr>" "cl_running c" "pc \<noteq> Exited"
    "online \<lparr>sc_cluster = c, sc_pc = pc\<rparr>" "frame \<in> set (queue_view c p src)"
    "sched_step\<^sup>*\<^sup>* \<lparr>sc_cluster = c, sc_pc = pc\<rparr> t" "resting t"
  shows "WsBinary frame \<in> set (sent_frames t)"
proof -
  let ?s = "\<lparr>sc_cluster = c, sc_pc = pc\<rparr>"
  have state: "cl_running (sc_cluster ?s)" "sc_pc ?s \<noteq> Exited" using assms(2,3) by simp_all
  obtain frames where "sent_frames t = sent_frames ?s @ map WsBinary (in_hand (sc_pc ?s) @ frames)"
      "subseq (queue_view (sc_cluster ?s) p src) frames"
    using run_resting(3) [OF assms(1) state assms(4), of t] assms(6,7) unfolding resting_def by blast
  then show ?thesis using assms(5) subseq_elem by fastforce
qed

text \<open>C11: a job created for a connected cluster is delivered.  Whatever the scheduler of the cluster is doing,
  when a creation succeeds while the cluster is online then the scheduler, left to itself, comes to rest,
  and whenever it does it has handed to the connection a frame which the cluster reads as the submission
  of exactly this job: its id, undiminished by the narrower wire type, its bundle and its parameters.\<close>

theorem submission_delivered:
  assumes out: "create_job D claim now auth body mg = (Inr jid, mg')"
    and r: "map_of (mg_clusters mg) (cr_cluster body) = Some r"
    and sched: "sched_reachable \<lparr>sc_cluster = mg_cluster_heap mg r, sc_pc = pc\<rparr>"
      "online \<lparr>sc_cluster = mg_cluster_heap mg r, sc_pc = pc\<rparr>" "cl_running (mg_cluster_heap mg r)"
      "pc \<noteq> Exited" "\<not> lock_held pc Medium"
    and strings: "is_rust_string (job_source_key (sint jid) (cr_cluster body))" "is_rust_string (cr_bundle body)"
      "is_rust_string (cr_parameters body)"
  shows "(\<exists>t. sched_step\<^sup>*\<^sup>* \<lparr>sc_cluster = mg_cluster_heap mg' r, sc_pc = pc\<rparr> t \<and> resting t) \<and>
    (\<forall>t. sched_step\<^sup>*\<^sup>* \<lparr>sc_cluster = mg_cluster_heap mg' r, sc_pc = pc\<rparr> t \<and> resting t \<longrightarrow>
       (\<exists>frame. WsBinary frame \<in> set (sent_frames t) \<and> submits jid body frame))"
proof (intro conjI allI impI)
  let ?c = "mg_cluster_heap mg r" and ?msg = "submit_message jid (ucast jid) body"
  let ?s = "\<lparr>sc_cluster = mg_cluster_heap mg' r, sc_pc = pc\<rparr>"
  show "\<exists>t. sched_step\<^sup>*\<^sup>* ?s t \<and> resting t" unfolding resting_def by (rule run_rests)
  have on: "is_online ?c" using sched(2) by (auto simp: online_def is_online_def)
  note created = created_online [OF out r on]
  have heap: "mg_cluster_heap mg' r = queue_message (m_source ?msg) (m_data ?msg) Medium ?c"
    using created(1) by (simp add: send_message_def submit_message_def str.put_frame uint.put_frame)
  have wf: "cluster_wf ?c" using sched_reachable_inv [OF sched(1)] by (simp add: sched_inv_def)
  have reach: "sched_reachable ?s"
    using sched_reachable.external [OF sched(1) env_step.enqueue [where p = Medium]] sched(5) heap by simp
  have state: "cl_running (mg_cluster_heap mg' r)" "online ?s"
    using sched(2,3) by (simp_all add: heap online_def)
  have queued: "m_data ?msg \<in> set (queue_view (mg_cluster_heap mg' r) Medium (m_source ?msg))"
    using queue_message_wf [OF wf] by (simp add: heap)
  fix t assume "sched_step\<^sup>*\<^sup>* ?s t \<and> resting t"
  then show "\<exists>frame. WsBinary frame \<in> set (sent_frames t) \<and> submits jid body frame"
    using queued_frame_delivered [OF reach state(1) sched(4) state(2) queued] submit_message_submits [OF created(2) strings]
    by blast
qed

section \<open>A job whose cluster was away\<close>

lemma resend_one_scheduler:
  assumes "sched_reachable \<lparr>sc_cluster = c, sc_pc = pc\<rparr>" "\<not> lock_held pc Medium"
  shows "sched_reachable \<lparr>sc_cluster = resend_one hs cutoff states i full j c, sc_pc = pc\<rparr>"
    "cl_running (resend_one hs cutoff states i full j c) = cl_running c"
    "cl_connection (resend_one hs cutoff states i full j c) = cl_connection c"
proof -
  have queued: "sched_reachable \<lparr>sc_cluster = queue_message '''' d Medium c, sc_pc = pc\<rparr>" for d
    using sched_reachable.external [OF assms(1) env_step.enqueue [where p = Medium]] assms(2) by simp
  then show "sched_reachable \<lparr>sc_cluster = resend_one hs cutoff states i full j c, sc_pc = pc\<rparr>"
    using assms(1) by (auto simp: resend_one_def send_message_internal_def dest: resend_message_priority split: option.split)
  show "cl_running (resend_one hs cutoff states i full j c) = cl_running c"
    "cl_connection (resend_one hs cutoff states i full j c) = cl_connection c"
    by (simp_all add: resend_one_def send_message_internal_def split: option.split)
qed

lemma resend_scheduler:
  assumes "sched_reachable \<lparr>sc_cluster = c, sc_pc = pc\<rparr>" "\<not> lock_held pc Medium"
  shows "sched_reachable \<lparr>sc_cluster = check_resend_jobs D db cutoff states i full c, sc_pc = pc\<rparr> \<and>
    cl_running (check_resend_jobs D db cutoff states i full c) = cl_running c \<and>
    cl_connection (check_resend_jobs D db cutoff states i full c) = cl_connection c"
proof -
  have "sched_reachable \<lparr>sc_cluster = fold (resend_one hs cutoff states i full) js x, sc_pc = pc\<rparr> \<and>
      cl_running (fold (resend_one hs cutoff states i full) js x) = cl_running x \<and>
      cl_connection (fold (resend_one hs cutoff states i full) js x) = cl_connection x"
    if "sched_reachable \<lparr>sc_cluster = x, sc_pc = pc\<rparr>" for hs js x
    using that
  proof (induction js arbitrary: x)
    case (Cons j js)
    then show ?case using resend_one_scheduler [OF Cons.prems assms(2)] by simp
  qed simp
  then show ?thesis using assms(1) by (simp add: check_resend_jobs_def Let_def)
qed

text \<open>What the creation of a job leaves behind when its cluster is away.\<close>

lemma created_offline:
  assumes store: "job_store D jrows hrows" and out: "create_job D claim now auth body mg = (Inr jid, mg')"
    and r: "map_of (mg_clusters mg) (cr_cluster body) = Some r" "\<not> is_online (mg_cluster_heap mg r)"
  obtains h where "new_job_row (auth_user_id claim auth) auth body jid \<in> set (jrows (mg_db mg')) - set (jrows (mg_db mg))"
    "set (hrows (mg_db mg')) - set (hrows (mg_db mg)) = {h}" "jh_timestamp h = now" "jh_job_id h = jid"
    "jh_state h = job_status_code Pending"
proof -
  let ?row = "new_job_row (auth_user_id claim auth) auth body jid"
  let ?pending = "\<lambda>i. (history_entry jid now (job_status_code Pending) ''Job pending'')\<lparr>jh_id := i\<rparr>"
  have created: "creation_done (set (jrows (mg_db mg))) (set (jrows (mg_db mg'))) (set (hrows (mg_db mg)))
      (set (hrows (mg_db mg'))) now (auth_user_id claim auth) auth body jid mg mg'"
    using create_job_outcome [OF store, where user_claim = claim and now = now and auth = auth and body = body and mg = mg]
    by (simp add: out)
  then have rows: "jid \<notin> job_id ` set (jrows (mg_db mg))" "set (jrows (mg_db mg')) = insert ?row (set (jrows (mg_db mg)))"
    unfolding creation_done_def by blast+
  have "?row \<notin> set (jrows (mg_db mg))"
  proof
    assume "?row \<in> set (jrows (mg_db mg))"
    then have "job_id ?row \<in> job_id ` set (jrows (mg_db mg))" by (rule imageI)
    then show False using rows(1) by (simp add: new_job_row_def)
  qed
  then have row: "?row \<in> set (jrows (mg_db mg')) - set (jrows (mg_db mg))" by (simp add: rows(2))
  obtain i where i: "i \<notin> jh_id ` set (hrows (mg_db mg))"
      "set (hrows (mg_db mg')) = insert (?pending i) (set (hrows (mg_db mg)))"
    using created r unfolding creation_done_def Let_def by auto
  have "?pending i \<notin> set (hrows (mg_db mg))"
  proof
    assume "?pending i \<in> set (hrows (mg_db mg))"
    then have "jh_id (?pending i) \<in> jh_id ` set (hrows (mg_db mg))" by (rule imageI)
    then show False using i(1) by simp
  qed
  then have "set (hrows (mg_db mg')) - set (hrows (mg_db mg)) = {?pending i}" unfolding i(2) by blast
  with row show thesis by (rule that) (simp_all add: history_entry_def)
qed

lemma resend_submits:
  assumes "uint jid < 2 ^ 32"
  shows "resend_frames SUBMIT_JOB True (cr_cluster body) (new_job_row user auth body jid) =
    [m_data (submit_message jid (ucast jid) body)]"
proof -
  have "sint jid = uint jid"
    using assms by (rule wire_id_signed)
  then show ?thesis
    using assms by (simp add: resend_frames_def resend_message_def new_job_row_def job_id_to_wire_def submit_message_def Let_def)
qed

text \<open>C12: a job created while its cluster is away is not lost.  As long as nothing else has been recorded for
  it, a resend check that its connected cluster makes once the job is old enough, that is when it was
  created no later than the check's time less the window in which recent states are ignored (60 seconds
  unless configured otherwise), queues the job; and the scheduler then hands the submission of exactly this
  job to the connection, whatever it was doing.  A check that comes sooner skips the job: what it queues are
  messages of other jobs.\<close>

theorem offline_job_delivered:
  assumes store: "job_store D jrows hrows"
    and out: "create_job D claim created auth body mg = (Inr jid, mg')" "uint jid < 2 ^ 32"
    and away: "map_of (mg_clusters mg) (cr_cluster body) = Some r" "\<not> is_online (mg_cluster_heap mg r)"
    and kept: "set (jrows (mg_db mg')) - set (jrows (mg_db mg)) \<subseteq> set (jrows db)"
      "{h \<in> set (hrows db). jh_job_id h = jid} = set (hrows (mg_db mg')) - set (hrows (mg_db mg))"
      "inj_on jh_id (set (hrows db))"
    and again: "cluster_name c = cr_cluster body" "cl_has_context c" "cl_running c"
      "online \<lparr>sc_cluster = c, sc_pc = pc\<rparr>"
    and queries: "tb_all (db_jobs D) db (\<lambda>j. job_cluster j = cluster_name c) = Inr jobs"
      "tb_all_desc (db_histories D) db (\<lambda>h. jh_job_id h \<in> set (map job_id jobs))
         (\<lambda>h. (jh_timestamp h, sint (jh_id h))) = Inr hs"
    and sched: "sched_reachable \<lparr>sc_cluster = c, sc_pc = pc\<rparr>" "pc \<noteq> Exited" "\<not> lock_held pc Medium"
    and strings: "is_rust_string (job_source_key (sint jid) (cr_cluster body))" "is_rust_string (cr_bundle body)"
      "is_rust_string (cr_parameters body)"
  shows "let checked = check_unsubmitted_jobs D db (now - window) c; s = \<lparr>sc_cluster = checked, sc_pc = pc\<rparr> in
    if created \<le> now - window
    then (\<exists>t. sched_step\<^sup>*\<^sup>* s t \<and> resting t) \<and>
      (\<forall>t. sched_step\<^sup>*\<^sup>* s t \<and> resting t \<longrightarrow> (\<exists>frame. WsBinary frame \<in> set (sent_frames t) \<and> submits jid body frame))
    else set (queue_view checked Medium '''') \<subseteq> set (queue_view c Medium '''') \<union>
      (\<Union>j \<in> {j \<in> set jobs. job_id j \<noteq> jid}. set (resend_frames SUBMIT_JOB True (cluster_name c) j))"
proof -
  let ?states = "[job_status_code Pending, job_status_code Submitting]"
  let ?c = "check_unsubmitted_jobs D db (now - window) c" and ?row = "new_job_row (auth_user_id claim auth) auth body jid"
  let ?s = "\<lparr>sc_cluster = ?c, sc_pc = pc\<rparr>"
  have laws: "jobs_table_laws D jrows" "history_table_laws D hrows" using store unfolding job_store_def by blast+
  have wf: "cluster_wf c" using sched_reachable_inv [OF sched(1)] by (simp add: sched_inv_def)
  have on: "is_online c" using again(4) by (auto simp: online_def is_online_def)
  obtain h where h: "?row \<in> set (jrows db)" "{h \<in> set (hrows db). jh_job_id h = jid} = {h}" "jh_timestamp h = created"
      "jh_state h = job_status_code Pending"
    using created_offline [OF store out(1) away] kept(1,2) by (metis subsetD)
  have latest: "latest_history (set (hrows db)) jid h' \<longleftrightarrow> h' = h" for h'
    using h(2) unfolding latest_history_def history_before_def by fastforce
  then have due: "resend_due (set (hrows db)) (now - window) ?states j \<longleftrightarrow> created \<le> now - window"
    if "job_id j = jid" for j
    using h(3,4) that by (auto simp: resend_due_def)
  note queue = resend_queue [OF laws wf on again(2) queries kept(3), of "now - window" ?states SUBMIT_JOB True Medium "''''",
      folded check_unsubmitted_jobs_def]
  show ?thesis
  proof (cases "created \<le> now - window")
    case False
    then have "job_id j \<noteq> jid" if "resend_due (set (hrows db)) (now - window) ?states j" for j
      using due that by blast
    with queue False show ?thesis by (auto simp: Let_def)
  next
    case True
    note rs = resend_scheduler [OF sched(1,3), of D db "now - window" ?states SUBMIT_JOB True, folded check_unsubmitted_jobs_def]
    have "?row \<in> set jobs" using queue h(1) again(1) by (simp add: new_job_row_def)
    then have "?row \<in> set (filter (resend_due (set (hrows db)) (now - window) ?states) jobs)"
      using due [of ?row] True by (simp add: new_job_row_def)
    then have queued: "m_data (submit_message jid (ucast jid) body) \<in> set (queue_view ?c Medium '''')"
      using queue resend_submits [OF out(2), of body "auth_user_id claim auth" auth] again(1) by (force simp del: filter_filter)
    have state: "cl_running ?c" "online ?s" using rs again(3,4) by (simp_all add: online_def)
    have "\<exists>frame. WsBinary frame \<in> set (sent_frames t) \<and> submits jid body frame"
      if "sched_step\<^sup>*\<^sup>* ?s t \<and> resting t" for t
      using queued_frame_delivered [OF _ state(1) sched(2) state(2) queued] rs submit_message_submits [OF out(2) strings] that
      by blast
    moreover have "\<exists>t. sched_step\<^sup>*\<^sup>* ?s t \<and> resting t" unfolding resting_def by (rule run_rests)
    ultimately show ?thesis using True by (simp add: Let_def)
  qed
qed

text \<open>The cluster of the demonstration: its connection is open and its scheduler sleeps.\<close>

lemma demo_online_scheduler:
  "sched_reachable \<lparr>sc_cluster = demo_online, sc_pc = Waiting\<rparr>"
  "online \<lparr>sc_cluster = demo_online, sc_pc = Waiting\<rparr>" "cl_running demo_online" "is_online demo_online"
  using sched_reachable.external [OF demo_waiting env_step.connect [where conn = "Some \<lparr>ch_open = True, ch_sent = []\<rparr>"]]
  by (simp_all add: demo_online_def, simp_all add: online_def set_connection_def is_online_def demo_cluster_def
      cluster_new_with_role_def)

lemma demo_creates:
  "\<exists>mg'. create_job mem_database (\<lambda>p. Some (word_of_int p)) 1000 demo_caller demo_request demo_jobs_manager =
     (Inr 9, mg')"
proof -
  have "(2 :: nat) ^ 63 - 1 = 9223372036854775807" by simp
  then show ?thesis
    by (simp add: create_job_def submit_job_def transaction_def insert_pending_job_def mem_database_def mem_ops_def
        mem_wf_def mem_insert_def demo_jobs_db_def demo_job_row_def demo_history_row_def
        demo_online_scheduler(4) job_id_to_u32_def demo_request_def
        demo_caller_def demo_secret_def MAX_PARAMETERS_LEN_def MAX_BUNDLE_LEN_def Let_def)
qed

lemma demo_strings:
  "is_rust_string (job_source_key (sint (9 :: i64)) (cr_cluster demo_request))"
  "is_rust_string (cr_bundle demo_request)" "is_rust_string (cr_parameters demo_request)"
  by (simp_all add: demo_request_def job_source_key_def show_int_def show_nat.simps digit_char_def is_rust_string_def
        str_bytes_def byte_of_char_def)

theorem submission_delivered_witness:
  "\<exists>mg' t frame. create_job mem_database (\<lambda>p. Some (word_of_int p)) 1000 demo_caller demo_request demo_jobs_manager =
       (Inr 9, mg') \<and>
     sched_step\<^sup>*\<^sup>* \<lparr>sc_cluster = mg_cluster_heap mg' 0, sc_pc = Waiting\<rparr> t \<and> WsBinary frame \<in> set (sent_frames t) \<and>
     fst (read_submission frame) = SUBMIT_JOB"
proof -
  obtain mg' where out: "create_job mem_database (\<lambda>p. Some (word_of_int p)) 1000 demo_caller demo_request
      demo_jobs_manager = (Inr 9, mg')" using demo_creates by blast
  have "map_of (mg_clusters demo_jobs_manager) (cr_cluster demo_request) = Some 0" by (simp add: demo_request_def)
  note all = submission_delivered [OF out this, unfolded demo_jobs_manager_fields, OF demo_online_scheduler(1-3) _ _ demo_strings,
      simplified]
  then obtain t where t: "sched_step\<^sup>*\<^sup>* \<lparr>sc_cluster = mg_cluster_heap mg' 0, sc_pc = Waiting\<rparr> t" "resting t" by blast
  then obtain frame where "WsBinary frame \<in> set (sent_frames t)" "fst (read_submission frame) = SUBMIT_JOB"
    using all unfolding submits_def by fastforce
  then show ?thesis using out t by blast
qed

definition demo_away_manager :: "mem_db manager" where
  "demo_away_manager = demo_manager\<lparr>mg_db := demo_jobs_db\<rparr>"

lemma demo_creates_away:
  "\<exists>mg'. create_job mem_database (\<lambda>p. Some (word_of_int p)) 1000 demo_caller demo_request demo_away_manager =
       (Inr 9, mg') \<and>
     mt_rows (m_jobs (mg_db mg')) =
       [demo_job_row, new_job_row (auth_user_id (\<lambda>p. Some (word_of_int p)) demo_caller) demo_caller demo_request 9] \<and>
     mt_rows (m_histories (mg_db mg')) =
       [demo_history_row, (history_entry 9 1000 (job_status_code Pending) ''Job pending'')\<lparr>jh_id := 2\<rparr>]"
proof -
  have "(2 :: nat) ^ 63 - 1 = 9223372036854775807" by simp
  then show ?thesis
    by (simp add: demo_away_manager_def create_job_def transaction_def insert_pending_job_def mem_database_def mem_ops_def
        mem_wf_def mem_insert_def demo_jobs_db_def demo_job_row_def demo_history_row_def demo_request_def
        demo_caller_def demo_secret_def MAX_PARAMETERS_LEN_def MAX_BUNDLE_LEN_def new_job_row_def Let_def)
qed

theorem offline_job_delivered_witness:
  "\<exists>mg' t frame. create_job mem_database (\<lambda>p. Some (word_of_int p)) 1000 demo_caller demo_request demo_away_manager =
       (Inr 9, mg') \<and>
     sched_step\<^sup>*\<^sup>*
       \<lparr>sc_cluster = check_unsubmitted_jobs mem_database (mg_db mg') 2000 demo_online, sc_pc = Waiting\<rparr> t \<and>
     WsBinary frame \<in> set (sent_frames t) \<and> submits 9 demo_request frame"
proof -
  obtain mg' where out: "create_job mem_database (\<lambda>p. Some (word_of_int p)) 1000 demo_caller demo_request demo_away_manager =
        (Inr 9, mg')"
    and rows: "mt_rows (m_jobs (mg_db mg')) =
        [demo_job_row, new_job_row (auth_user_id (\<lambda>p. Some (word_of_int p)) demo_caller) demo_caller demo_request 9]"
      "mt_rows (m_histories (mg_db mg')) =
        [demo_history_row, (history_entry 9 1000 (job_status_code Pending) ''Job pending'')\<lparr>jh_id := 2\<rparr>]"
    using demo_creates_away by blast
  obtain jobs where jobs: "tb_all (db_jobs mem_database) (mg_db mg') (\<lambda>j. job_cluster j = cluster_name demo_online) = Inr jobs"
    by (simp add: mem_database_def mem_ops_def)
  obtain hs where hs: "tb_all_desc (db_histories mem_database) (mg_db mg') (\<lambda>h. jh_job_id h \<in> set (map job_id jobs))
      (\<lambda>h. (jh_timestamp h, sint (jh_id h))) = Inr hs"
    by (simp add: mem_database_def mem_ops_def)
  have id: "uint (9 :: i64) < 2 ^ 32" by simp
  have away: "map_of (mg_clusters demo_away_manager) (cr_cluster demo_request) = Some 0"
      "\<not> is_online (mg_cluster_heap demo_away_manager 0)"
    by (simp_all add: demo_away_manager_def demo_request_def)
  have kept: "set (mt_rows (m_jobs (mg_db mg'))) - set (mt_rows (m_jobs (mg_db demo_away_manager))) \<subseteq>
        set (mt_rows (m_jobs (mg_db mg')))"
      "{h \<in> set (mt_rows (m_histories (mg_db mg'))). jh_job_id h = 9} =
        set (mt_rows (m_histories (mg_db mg'))) - set (mt_rows (m_histories (mg_db demo_away_manager)))"
      "inj_on jh_id (set (mt_rows (m_histories (mg_db mg'))))"
    by (auto simp: rows demo_away_manager_def demo_jobs_db_def demo_history_row_def history_entry_def)
  have again: "cluster_name demo_online = cr_cluster demo_request" "cl_has_context demo_online"
    using demo_name by (simp_all add: demo_online_def set_connection_def cluster_name_def demo_request_def)
  note d = offline_job_delivered [OF mem_job_store.job_store_axioms out id away kept again demo_online_scheduler(3,2) jobs hs
      demo_online_scheduler(1) _ _ demo_strings, of 2060 60]
  have "(\<exists>t. sched_step\<^sup>*\<^sup>* \<lparr>sc_cluster = check_unsubmitted_jobs mem_database (mg_db mg') 2000 demo_online, sc_pc = Waiting\<rparr> t \<and>
        resting t) \<and>
      (\<forall>t. sched_step\<^sup>*\<^sup>* \<lparr>sc_cluster = check_unsubmitted_jobs mem_database (mg_db mg') 2000 demo_online, sc_pc = Waiting\<rparr> t \<and>
        resting t \<longrightarrow> (\<exists>frame. WsBinary frame \<in> set (sent_frames t) \<and> submits 9 demo_request frame))"
    using d by (simp add: Let_def)
  then show ?thesis using out by blast
qed

end
