(* ===== verification/Connection_Stays.thy ===== *)
theory Connection_Stays
  imports Registry_Stays
begin

text \<open>
  What the steps of the server leave alone: the configured clusters, the sessions' connections, and what is
  recorded of the health of a connection.  Only a health check and a pong of the connection itself change
  when it was last pinged, whether it has answered and how many answers it has missed.
\<close>

declare map_of_eq_Some_iff [simp del] Some_eq_map_of_iff [simp del]

section \<open>The configured clusters\<close>

lemma view_clusters: "registry_view mg' = registry_view mg \<Longrightarrow> mg_clusters mg' = mg_clusters mg"
  by (simp add: registry_view_def)

lemma operations_clusters [simp]:
  "mg_clusters (cleanup_file_download request mg) = mg_clusters mg"
  "mg_clusters (snd (trigger_session reason s mg)) = mg_clusters mg"
  "mg_clusters (with_session s f mg) = mg_clusters mg"
  "mg_clusters (forget_tracking cid mg) = mg_clusters mg"
  by (simp_all add: cleanup_file_download_def Let_def remove_exact_download_session_def
      remove_exact_connection_def trigger_session_def with_session_def forget_tracking_def case_prod_beta
      split: option.split)

lemma connections_clusters [simp]:
  "mg_clusters (remove_connection cid b mg) = mg_clusters mg"
  "mg_clusters (snd (admit_connection D now cutoff cid sender token mg)) = mg_clusters mg"
  by (simp_all add: remove_connection_def admit_connection_def admit_download_connection_def
      admit_upload_connection_def admit_token_connection_def remove_exact_connection_def case_prod_beta Let_def
      split: option.split sum.split)

lemma check_pings_clusters [simp]: "mg_clusters (check_pings now mg) = mg_clusters mg"
proof -
  have "mg_clusters (fold evict cids m) = mg_clusters m" for cids and m :: "'a manager"
    by (induction cids arbitrary: m) (simp_all add: evict_def)
  then show ?thesis
    by (simp add: check_pings_def case_prod_beta Let_def view_clusters [OF view_pings]
        view_clusters [OF view_count_misses])
qed

lemma shutdown_clusters [simp]: "mg_clusters (snd (begin_application_shutdown mg)) = mg_clusters mg"
proof -
  have "mg_clusters (snd (trigger_all es m)) = mg_clusters m" for es and m :: "'a manager"
    by (induction es arbitrary: m) (auto simp: case_prod_beta Let_def)
  then show ?thesis by (simp add: begin_application_shutdown_def Let_def)
qed

lemma step_clusters: "server_step D mg mg' \<Longrightarrow> mg_clusters mg' = mg_clusters mg"
proof (induction rule: server_step.induct)
  case (worker mg)
  then show ?case by (simp add: cleanup_worker_step_def split: list.split)
qed (simp_all add: view_clusters [OF view_frame(2)] view_clusters [OF view_reconnect]
    create_file_download_def create_file_upload_def remove_file_upload_def Let_def)

lemma run_clusters: "server_run D mg mg' \<Longrightarrow> mg_clusters mg' = mg_clusters mg"
  by (induction rule: rtranclp_induct) (simp_all add: step_clusters)

section \<open>Bound connections\<close>

text \<open>No session is bound to the connection.  This lasts while the connection is registered: a session is bound
  to a connection that is not.\<close>

definition unbound :: "connection_id \<Rightarrow> 'db manager \<Rightarrow> bool" where
  "unbound cid mg \<longleftrightarrow> (\<forall>s. bound_by mg s \<noteq> Some cid)"

lemma bound_trigger [simp]: "bound_by (snd (trigger_session reason s mg)) y = bound_by mg y"
  by (cases "session_open (mg_session_heap mg s)") (simp_all add: trigger_open trigger_closed)

lemma bound_operations [simp]:
  "bound_by (cleanup_file_download rq mg) y = bound_by mg y"
  "bound_by (forget_tracking cid mg) y = bound_by mg y"
  "bound_by (register_connection now cid sender name r mg) y = bound_by mg y"
  "bound_by (mg\<lparr>mg_cleanup_queue := q\<rparr>) y = bound_by mg y"
  by (simp_all add: cleanup_sessions(4) forget_tracking_def register_connection_def Let_def with_cluster_def)

lemma view_bound: "registry_view mg' = registry_view mg \<Longrightarrow> bound_by mg' y = bound_by mg y"
  by (simp add: registry_view_def)

lemma bound_remove [simp]: "bound_by (remove_connection cid b mg) y = bound_by mg y"
  by (simp add: remove_connection_def remove_exact_connection_def case_prod_beta Let_def split: option.split)

lemma bound_pings [simp]: "bound_by (check_pings now mg) y = bound_by mg y"
proof -
  have "bound_by (fold evict cids m) y = bound_by m y" for cids and m :: "'a manager"
    by (induction cids arbitrary: m) (simp_all add: evict_def)
  then show ?thesis
    by (simp add: check_pings_def case_prod_beta Let_def view_bound [OF view_pings] view_bound [OF view_count_misses])
qed

lemma bound_shutdown [simp]: "bound_by (snd (begin_application_shutdown mg)) y = bound_by mg y"
proof -
  have "bound_by (snd (trigger_all es m)) y = bound_by m y" for es and m :: "'a manager"
    by (induction es arbitrary: m) (simp_all add: trigger_all_Cons)
  then show ?thesis by (simp add: begin_application_shutdown_def)
qed

lemma bound_admit:
  "bound_by (snd (admit_connection D now cutoff cid sender token mg)) y \<in> {bound_by mg y, Some cid}"
proof -
  have "bound_by (snd (admit_download_connection cid sender s mg)) y \<in> {bound_by mg y, Some cid}" for s
    by (auto simp: admit_download_connection_def bind_connection_def remove_exact_connection_def with_cluster_def Let_def
        split: session_state.split option.split)
  then show ?thesis
    by (auto simp: admit_connection_def admit_upload_connection_def admit_token_connection_def case_prod_beta Let_def
        with_cluster_def split: option.split sum.split)
qed

lemma unbound_step:
  "server_step D mg mg' \<Longrightarrow> map_of (mg_connection_map mg) cid \<noteq> None \<Longrightarrow> unbound cid mg \<Longrightarrow> unbound cid mg'"
proof (induction rule: server_step.induct)
  case (admit mg c now cutoff sender token)
  then have "c \<noteq> cid" by auto
  moreover have "bound_by mg y \<noteq> Some cid" for y using admit.prems(2) by (simp add: unbound_def)
  ultimately have "bound_by (snd (admit_connection D now cutoff c sender token mg)) y \<noteq> Some cid" for y
    using bound_admit [of D now cutoff c sender token mg y] by auto
  then show ?case by (simp add: unbound_def)
next
  case (worker mg)
  then show ?case by (simp add: unbound_def cleanup_worker_step_def split: list.split)
next
  case (create_download mg uid r)
  then show ?case by (simp add: unbound_def create_file_download_def session_new_def Let_def)
next
  case (create_upload mg r uid)
  then show ?case by (simp add: unbound_def create_file_upload_def Let_def)
next
  case (complete mg s c)
  then show ?case by (simp add: unbound_def with_session_def session_complete_view)
qed (simp_all add: unbound_def view_bound [OF view_frame(2)] view_bound [OF view_reconnect] remove_file_upload_def)

section \<open>The health of a connection\<close>

definition pulse :: "'db manager \<Rightarrow> connection_id \<Rightarrow> int option \<times> int option \<times> u32" where
  "pulse mg cid = (map_of (mg_ping_times mg) cid, map_of (mg_pong_times mg) cid, missed_count mg cid)"

lemma pulse_same:
  "mg_ping_times mg' = mg_ping_times mg \<Longrightarrow> mg_pong_times mg' = mg_pong_times mg \<Longrightarrow>
     mg_missed_pongs mg' = mg_missed_pongs mg \<Longrightarrow> pulse mg' cid = pulse mg cid"
  by (simp add: pulse_def missed_count_def)

lemma pulse_frame [simp]:
  "pulse (with_cluster r f mg) cid = pulse mg cid"
  "pulse (with_session s g mg) cid = pulse mg cid"
  "pulse (snd (trigger_session reason s mg)) cid = pulse mg cid"
  "pulse (mg\<lparr>mg_db := db\<rparr>) cid = pulse mg cid"
  "pulse (mg\<lparr>mg_connection_map := m\<rparr>) cid = pulse mg cid"
  "pulse (mg\<lparr>mg_uploads := u\<rparr>) cid = pulse mg cid"
  "pulse (mg\<lparr>mg_cleanup_queue := q\<rparr>) cid = pulse mg cid"
  "pulse (mg\<lparr>mg_session_heap := h\<rparr>) cid = pulse mg cid"
  "pulse (mg\<lparr>mg_downloads := d\<rparr>) cid = pulse mg cid"
  "pulse (mg\<lparr>mg_download_clusters := dc\<rparr>) cid = pulse mg cid"
  "pulse (mg\<lparr>mg_shutdown := b\<rparr>) cid = pulse mg cid"
  by (simp_all add: pulse_def missed_count_def with_cluster_def with_session_def trigger_session_def case_prod_beta)

lemma pulse_forget: "c \<noteq> cid \<Longrightarrow> pulse (forget_tracking c mg) cid = pulse mg cid"
  by (simp add: pulse_def missed_count_def forget_tracking_def map_of_delete)

lemma pulse_cleanup:
  "cr_connection_id rq \<noteq> Some cid \<Longrightarrow> pulse (cleanup_file_download rq mg) cid = pulse mg cid"
  by (auto simp: cleanup_file_download_def remove_exact_download_session_def remove_exact_connection_def Let_def
      pulse_forget split: option.split)

lemma pulse_remove: "c \<noteq> cid \<Longrightarrow> pulse (remove_connection c b mg) cid = pulse mg cid"
  by (simp add: remove_connection_def remove_exact_connection_def case_prod_beta Let_def pulse_forget pulse_cleanup
      split: option.split)

lemma pulse_register: "c \<noteq> cid \<Longrightarrow> pulse (register_connection now c sender name r mg) cid = pulse mg cid"
  by (simp add: pulse_def missed_count_def register_connection_def with_cluster_def Let_def map_of_update)

lemma pulse_admit:
  "c \<noteq> cid \<Longrightarrow> pulse (snd (admit_connection D now cutoff c sender token mg)) cid = pulse mg cid"
  by (simp add: admit_connection_def admit_download_connection_def admit_upload_connection_def
      admit_token_connection_def remove_exact_connection_def case_prod_beta Let_def pulse_register
      split: option.split sum.split)

lemma pulse_reconnect [simp]: "pulse (snd (reconnect_clusters D base now wall uuids mg)) cid = pulse mg cid"
proof -
  have one: "pulse (snd (reconnect_one D base now wall uuids e out)) cid = pulse (snd out) cid" for e out
    by (simp add: reconnect_one_def case_prod_beta Let_def pulse_def missed_count_def split: sum.split)
  have "pulse (snd (fold (reconnect_one D base now wall uuids) es out)) cid = pulse (snd out) cid" for es out
    by (induction es arbitrary: out) (simp_all add: one)
  then show ?thesis by (simp add: reconnect_clusters_def)
qed

lemma pulse_shutdown [simp]: "pulse (snd (begin_application_shutdown mg)) cid = pulse mg cid"
proof -
  have "pulse (snd (trigger_all es m)) cid = pulse m cid" for es and m :: "'a manager"
    by (induction es arbitrary: m) (simp_all add: trigger_all_Cons)
  then show ?thesis by (simp add: begin_application_shutdown_def)
qed

text \<open>While a connection of a configured cluster is registered, every step but a pong of its own and a health
  check leaves its health as it was.\<close>

lemma pulse_step:
  assumes "server_step D mg mg'" "registry_ok mg" "unbound cid mg"
    "map_of (mg_connection_map mg) cid = Some r" "role_of mg r = Master" "map_of (mg_connection_map mg') cid = Some r"
  shows "pulse mg' cid = pulse mg cid \<or> (\<exists>now. mg' = handle_pong now cid mg) \<or> (\<exists>now. mg' = check_pings now mg)"
  using assms
proof (induction rule: server_step.induct)
  case (admit mg c now cutoff sender token)
  then have "c \<noteq> cid" by auto
  then show ?case by (simp add: pulse_admit)
next
  case (register mg c name x now sender)
  then have "c \<noteq> cid" by auto
  then show ?case by (simp add: pulse_register)
next
  case (remove mg c b)
  then have "c \<noteq> cid" using remove_plain_connection(1) [of mg cid r b] by (auto simp: map_of_delete)
  then show ?case by (simp add: pulse_remove)
next
  case (pong mg now c)
  show ?case
  proof (cases "c = cid")
    case False
    then show ?thesis by (simp add: pulse_def missed_count_def handle_pong_def map_of_update)
  qed blast
next
  case (worker mg)
  have "cr_connection_id rq \<noteq> Some cid" if "rq \<in> set (mg_cleanup_queue mg)" for rq
    using worker(1,2) that
    by (auto simp: registry_ok_def registry_core_def registry_base_def requests_ok_def request_ok_def Let_def unbound_def)
  then show ?case by (simp add: cleanup_worker_step_def pulse_cleanup split: list.split)
next
  case (create_download mg uid x)
  have "pulse (snd (create_file_download x uid mg)) cid = pulse mg cid"
    by (rule pulse_same) (simp_all add: create_file_download_def Let_def)
  then show ?case by simp
next
  case (create_upload mg x uid)
  have "pulse (snd (create_file_upload x uid mg)) cid = pulse mg cid"
    by (rule pulse_same) (simp_all add: create_file_upload_def Let_def)
  then show ?case by simp
next
  case (pings mg now)
  then show ?case by blast
qed (simp_all add: remove_file_upload_def)

end
