(* ===== verification/Heartbeat.thy ===== *)
theory Heartbeat
  imports Connection_Stays
begin

text \<open>
  The heartbeat of the connections over time: \<open>run_ping\<close> (\<open>cluster/manager.rs\<close>), the loop that checks the
  connections at each wake-up, and what it means for one connection over any number of checks.  The flag
  of the manager is never cleared by the program; each reading of it is an argument.
\<close>

section \<open>The loop\<close>

text \<open>One turn: the flag at the head, what the rest of the program does during the sleep, the flag after it,
  and the time of the check.\<close>

record 'db wake_up =
  wu_running :: bool
  wu_others :: "'db manager \<Rightarrow> 'db manager"
  wu_awake :: bool
  wu_now :: int

fun run_ping :: "'db wake_up list \<Rightarrow> 'db manager \<Rightarrow> 'db manager" where
  "run_ping [] mg = mg"
| "run_ping (w # ws) mg =
     (if \<not> wu_running w then mg
      else
        (let mg = wu_others w mg in
         if \<not> wu_awake w then mg
         else run_ping ws (check_pings (wu_now w) mg)))"

section \<open>No connection is tracked twice\<close>

lemma tracked_server_step: "server_step D mg mg' \<Longrightarrow> tracked mg \<Longrightarrow> tracked mg'"
proof (induction rule: server_step.induct)
  case (worker mg)
  then show ?case using tracked_step [of mg D WorkerOp] by simp
next
  case (shut_down mg)
  then show ?case using tracked_step [of mg D ShutdownOp] by simp
next
  case (complete mg s cid)
  show ?case by (rule tracked_frame [OF complete.prems]) (simp_all add: with_session_def)
next
  case (cluster f mg r)
  show ?case by (rule tracked_frame [OF cluster.prems]) (simp_all add: with_cluster_def)
next
  case (store mg db)
  show ?case by (rule tracked_frame [OF store.prems]) simp_all
qed (simp_all add: tracked_admit tracked_register tracked_remove tracked_pong tracked_check_pings tracked_trigger
    tracked_reconnect tracked_create)

lemma tracked_configs:
  "tracked mg \<Longrightarrow> tracked (register_configs cfgs mg)"
proof (induction cfgs arbitrary: mg)
  case (Cons cfg cfgs)
  show ?case unfolding register_configs.simps Let_def by (rule Cons.IH, rule tracked_frame [OF Cons.prems]) simp_all
qed simp

lemma reachable_tracked:
  assumes "server_reachable D mg"
  shows "tracked mg"
proof -
  obtain cfgs db where run: "server_run D (manager_new cfgs db) mg"
    using assms by (auto simp: server_reachable_def)
  have "tracked (manager_new cfgs db)"
    unfolding manager_new_def by (rule tracked_configs) (simp add: tracked_def)
  with run show ?thesis by (induction rule: rtranclp_induct) (simp_all add: tracked_server_step)
qed

section \<open>Evictions of other connections\<close>

text \<open>\<open>cid\<close> is the only connection of the cluster \<open>r\<close>.\<close>

definition sole_connection :: "connection_id \<Rightarrow> nat \<Rightarrow> 'db manager \<Rightarrow> bool" where
  "sole_connection cid r mg \<longleftrightarrow> (\<forall>c. map_of (mg_connection_map mg) c = Some r \<longrightarrow> c = cid)"

lemma cleanup_keeps_cluster:
  assumes "map_of (mg_download_clusters mg) (cr_session rq) \<noteq> Some r"
  shows "mg_cluster_heap (cleanup_file_download rq mg) r = mg_cluster_heap mg r"
  using assms
  by (auto simp: cleanup_file_download_def Let_def remove_exact_download_session_def remove_exact_connection_def
      with_cluster_def with_session_def forget_tracking_def split: option.split)

lemma remove_keeps_cluster:
  assumes "registry_ok mg" "role_of mg r = Master" "map_of (mg_connection_map mg) d \<noteq> Some r"
  shows "mg_cluster_heap (remove_connection d b mg) r = mg_cluster_heap mg r"
proof -
  have "map_of (mg_download_clusters mg) s \<noteq> Some r" for s
    using assms(1,2) by (auto simp: registry_ok_def registry_core_def registry_base_def transfers_ok_def)
  then have "mg_cluster_heap (end_download d b x mg) r = mg_cluster_heap mg r" for x
    by (auto simp: end_download_def case_prod_beta Let_def cleanup_keeps_cluster split: option.split)
  then show ?thesis
    using assms(3)
    by (cases "map_of (mg_connection_map mg) d")
      (auto simp: remove_absent_connection remove_connection_def remove_exact_connection_def Let_def
        with_cluster_def forget_tracking_def end_download_def split: option.splits)
qed

lemma remove_shrinks:
  "map_of (mg_connection_map (remove_connection d b mg)) c \<in> {None, map_of (mg_connection_map mg) c}"
proof (cases "c = d")
  case True
  have cleaned: "map_of (mg_connection_map (cleanup_file_download rq m)) d = None \<or>
      map_of (mg_connection_map (cleanup_file_download rq m)) d = map_of (mg_connection_map mg) d"
    if "mg_connection_map m = mg_connection_map mg" for rq and m :: "'a manager"
    using that by (simp add: cleanup_file_download_def Let_def remove_exact_download_session_def
        remove_exact_connection_def map_of_delete split: option.split)
  have ended: "map_of (mg_connection_map (end_download d b x mg)) d \<in> {None, map_of (mg_connection_map mg) d}" for x
    by (simp add: end_download_def case_prod_beta Let_def cleaned split: option.split)
  show ?thesis
  proof (cases "map_of (mg_connection_map mg) d")
    case (Some x)
    then show ?thesis
      using True remove_plain_connection(1) [OF Some, of b] ended [of x]
      by (cases "role_of mg x = FileDownload") (simp_all add: remove_download_connection map_of_delete)
  qed (simp add: remove_absent_connection)
qed (simp add: remove_connection_other)

lemma evict_keeps:
  assumes "registry_ok mg" "role_of mg r = Master" "sole_connection cid r mg" "d \<noteq> cid"
  shows "registry_ok (evict d mg)" "mg_cluster_heap (evict d mg) r = mg_cluster_heap mg r"
    "sole_connection cid r (evict d mg)"
    "map_of (mg_connection_map (evict d mg)) cid = map_of (mg_connection_map mg) cid"
proof -
  let ?mg = "mg\<lparr>mg_ping_times := AList.delete d (mg_ping_times mg)\<rparr>"
  have ok: "registry_ok ?mg" using assms(1) by (simp add: registry_ok_cong [OF view_frame(4)])
  have other: "map_of (mg_connection_map ?mg) d \<noteq> Some r"
    using assms(3,4) by (auto simp: sole_connection_def)
  show "registry_ok (evict d mg)" by (rule evict_ok [OF assms(1)])
  show "mg_cluster_heap (evict d mg) r = mg_cluster_heap mg r"
    using remove_keeps_cluster [OF ok _ other, of True] assms(2) by (simp add: evict_def)
  show "sole_connection cid r (evict d mg)"
    using assms(3) remove_shrinks [of d True ?mg] by (auto simp: evict_def sole_connection_def) (metis option.distinct(1))
  show "map_of (mg_connection_map (evict d mg)) cid = map_of (mg_connection_map mg) cid"
    using assms(4) by (simp add: evict_def remove_connection_other)
qed

lemma evictions_keep:
  assumes "registry_ok mg" "role_of mg r = Master" "sole_connection cid r mg" "cid \<notin> set ds"
  shows "mg_cluster_heap (fold evict ds mg) r = mg_cluster_heap mg r \<and>
    map_of (mg_connection_map (fold evict ds mg)) cid = map_of (mg_connection_map mg) cid"
  using assms
proof (induction ds arbitrary: mg)
  case (Cons d ds)
  then have "d \<noteq> cid" by auto
  note e = evict_keeps [OF Cons.prems(1-3) this]
  show ?case using Cons.IH [OF e(1) _ e(3)] Cons.prems e by simp
qed simp

section \<open>One check\<close>

text \<open>A connection whose cluster is online is pinged, whatever else is registered.\<close>

lemma ping_others:
  "c \<noteq> cid \<Longrightarrow> map_of (mg_ping_times (ping_connection now (c, x) mg)) cid = map_of (mg_ping_times mg) cid"
  "c \<noteq> cid \<Longrightarrow> map_of (mg_pong_times (ping_connection now (c, x) mg)) cid = map_of (mg_pong_times mg) cid"
  "is_online (mg_cluster_heap (ping_connection now e mg) r) = is_online (mg_cluster_heap mg r)"
  "role_of (ping_connection now e mg) r = role_of mg r"
  by (auto simp: ping_connection_def Let_def case_prod_beta map_of_update map_of_delete with_cluster_def is_online_def
      send_ping_def split: option.split)

lemma pinged_stays:
  "unanswered mg cid \<Longrightarrow> unanswered (ping_connection now e mg) cid"
  by (auto simp: unanswered_def ping_connection_def Let_def case_prod_beta map_of_update map_of_delete)

lemma pings_all:
  assumes "(cid, r) \<in> set es" "role_of mg r = Master" "is_online (mg_cluster_heap mg r)"
  shows "unanswered (fold (ping_connection now) es mg) cid"
  using assms
proof (induction es arbitrary: mg)
  case (Cons e es)
  have stays: "unanswered m cid \<Longrightarrow> unanswered (fold (ping_connection now) xs m) cid" for xs and m :: "'a manager"
    by (induction xs arbitrary: m) (simp_all add: pinged_stays)
  show ?case
  proof (cases "e = (cid, r)")
    case True
    have "unanswered (ping_connection now e mg) cid"
      using Cons.prems(2,3) True
      by (simp add: unanswered_def ping_connection_def Let_def map_of_update map_of_delete)
    then show ?thesis by (simp add: stays)
  next
    case False
    then show ?thesis using Cons.IH [of "ping_connection now e mg"] Cons.prems by (simp add: ping_others)
  qed
qed simp

lemma one_miss: "\<not> (2 :: u32) \<le> 1"
  by (simp add: word_le_nat_alt)

lemma check_registered:
  assumes ok: "registry_ok mg" "tracked mg" and reg: "map_of (mg_connection_map mg) cid = Some r"
    and master: "role_of mg r = Master" and on: "is_online (mg_cluster_heap mg r)" and sole: "sole_connection cid r mg"
    and kept: "\<not> unanswered mg cid \<or> missed_count mg cid = 0"
  shows "map_of (mg_connection_map (check_pings now mg)) cid = Some r"
    and "missed_count (check_pings now mg) cid = missed_count mg cid + (if unanswered mg cid then 1 else 0)"
    and "unanswered (check_pings now mg) cid" and "role_of (check_pings now mg) r = Master"
proof -
  have d: "distinct (map fst (mg_ping_times mg))" using ok(2) by (simp add: tracked_def)
  note pe = ping_eviction [OF d reg master, of now]
  show reg': "map_of (mg_connection_map (check_pings now mg)) cid = Some r"
    using pe kept by (auto simp: one_miss)
  with pe show "missed_count (check_pings now mg) cid = missed_count mg cid + (if unanswered mg cid then 1 else 0)"
    by simp
  let ?c = "count_misses (no_pong mg) mg" and ?es = "fst (count_misses (no_pong mg) mg)"
  have dn: "distinct (no_pong mg)" using d by (simp add: no_pong_def)
  note cm = count_misses_effect [OF dn, where mg = mg]
  have mem: "cid \<in> set (no_pong mg) \<longleftrightarrow> unanswered mg cid"
    by (auto simp: no_pong_def unanswered_def map_of_eq_None_iff)
  have alive: "cid \<notin> set ?es" using kept by (auto simp: cm(1) mem one_miss)
  have ok': "registry_ok (snd ?c)" using ok(1) by (simp add: registry_ok_cong [OF view_count_misses])
  have sole': "sole_connection cid r (snd ?c)" using sole by (simp add: sole_connection_def cm(3))
  have master': "role_of (snd ?c) r = Master" using master by (simp add: cm(4))
  note ev = evictions_keep [OF ok' master' sole' alive]
  have out: "check_pings now mg = fold (ping_connection now)
      (mg_connection_map (fold evict ?es (snd ?c))) (fold evict ?es (snd ?c))"
    by (simp add: check_pings_def case_prod_beta Let_def)
  have entry: "(cid, r) \<in> set (mg_connection_map (fold evict ?es (snd ?c)))"
    using ev reg by (auto simp: cm(3) dest: map_of_SomeD)
  show "unanswered (check_pings now mg) cid"
    unfolding out using ev master on by (intro pings_all [OF entry]) (simp_all add: cm(4))
  have "role_of (fold (ping_connection now) es m) r = role_of m r" for es and m :: "'a manager"
    by (induction es arbitrary: m) (simp_all add: ping_others)
  then show "role_of (check_pings now mg) r = Master" unfolding out using ev master by (simp add: cm(4))
qed

section \<open>A connection over many checks\<close>

text \<open>What the rest of the program does while the loop sleeps.  A quiet step is any step of the server, be it of
  other connections, transfers, jobs or the shutdown, that neither registers nor removes the connection,
  and is neither a pong of it nor a health check.  Between two checks there are any number of quiet steps,
  with the pongs of the connection, given by the times they arrive at, among them.\<close>

definition quiet_step :: "'db database \<Rightarrow> connection_id \<Rightarrow> 'db manager \<Rightarrow> 'db manager \<Rightarrow> bool" where
  "quiet_step D cid mg mg' \<longleftrightarrow>
     server_step D mg mg' \<and> map_of (mg_connection_map mg') cid = map_of (mg_connection_map mg) cid \<and>
     (mg' = mg \<or> (\<forall>now. mg' \<noteq> handle_pong now cid mg \<and> mg' \<noteq> check_pings now mg))"

fun beat :: "'db database \<Rightarrow> connection_id \<Rightarrow> int list \<Rightarrow> 'db manager \<Rightarrow> 'db manager \<Rightarrow> bool" where
  "beat D cid [] mg mg' \<longleftrightarrow> (quiet_step D cid)\<^sup>*\<^sup>* mg mg'"
| "beat D cid (now # pongs) mg mg' \<longleftrightarrow>
     (\<exists>m. (quiet_step D cid)\<^sup>*\<^sup>* mg m \<and> beat D cid pongs (handle_pong now cid m) mg')"

text \<open>At each check the cluster of a registered connection is online and has no other connection.\<close>

fun beats ::
    "'db database \<Rightarrow> connection_id \<Rightarrow> nat \<Rightarrow> int list list \<Rightarrow> 'db wake_up list \<Rightarrow> 'db manager \<Rightarrow> bool" where
  "beats D cid r [] [] mg \<longleftrightarrow> True"
| "beats D cid r (pongs # bs) (w # ws) mg \<longleftrightarrow>
     wu_running w \<and> wu_awake w \<and> beat D cid pongs mg (wu_others w mg) \<and>
     (map_of (mg_connection_map mg) cid = Some r \<longrightarrow>
        is_online (mg_cluster_heap (wu_others w mg) r) \<and> sole_connection cid r (wu_others w mg)) \<and>
     beats D cid r bs ws (check_pings (wu_now w) (wu_others w mg))"
| "beats D cid r _ _ mg \<longleftrightarrow> False"

text \<open>A connection of a configured cluster, under an identifier that no download was given.\<close>

definition monitored :: "'db database \<Rightarrow> string \<Rightarrow> nat \<Rightarrow> connection_id \<Rightarrow> 'db manager \<Rightarrow> bool" where
  "monitored D name r cid mg \<longleftrightarrow>
     server_reachable D mg \<and> map_of (mg_clusters mg) name = Some r \<and>
     map_of (mg_connection_map mg) cid = Some r \<and> unbound cid mg"

lemma monitored_role: "monitored D name r cid mg \<Longrightarrow> role_of mg r = Master"
  using reachable_ok [of D mg]
  by (auto simp: monitored_def registry_ok_def registry_core_def registry_base_def clusters_ok_def dest: map_of_SomeD)

lemma monitored_step:
  assumes "monitored D name r cid mg" "server_step D mg mg'" "map_of (mg_connection_map mg') cid = Some r"
  shows "monitored D name r cid mg'"
  using assms reachable_step [of D mg mg'] unbound_step [of D mg mg' cid] step_clusters [of D mg mg']
  by (simp add: monitored_def)

lemma pong_effect:
  assumes "map_of (mg_connection_map mg) cid = Some r"
  shows "map_of (mg_pong_times (handle_pong now cid mg)) cid = Some now" "missed_count (handle_pong now cid mg) cid = 0"
    "map_of (mg_ping_times (handle_pong now cid mg)) cid = map_of (mg_ping_times mg) cid"
    "map_of (mg_connection_map (handle_pong now cid mg)) cid = Some r"
  using assms by (simp_all add: handle_pong_def missed_count_def map_of_update)

lemma pong_connections: "mg_connection_map (handle_pong now cid mg) = mg_connection_map mg"
  by (simp add: handle_pong_def)

lemma monitored_quiet:
  assumes "(quiet_step D cid)\<^sup>*\<^sup>* mg mg'" "monitored D name r cid mg"
  shows "monitored D name r cid mg' \<and> pulse mg' cid = pulse mg cid"
  using assms
proof (induction rule: rtranclp_induct)
  case (step m m')
  then have m: "monitored D name r cid m" "pulse m cid = pulse mg cid" by simp_all
  have q: "server_step D m m'" "map_of (mg_connection_map m') cid = Some r"
      "m' = m \<or> (\<forall>now. m' \<noteq> handle_pong now cid m \<and> m' \<noteq> check_pings now m)"
    using step(2) m(1) by (auto simp: quiet_step_def monitored_def)
  have "pulse m' cid = pulse m cid"
    using q pulse_step [OF q(1) _ _ _ monitored_role [OF m(1)] q(2)] m(1) reachable_ok by (auto simp: monitored_def)
  with m(2) monitored_step [OF m(1) q(1,2)] show ?case by simp
qed simp

text \<open>So when the loop wakes up, the connection has been heard of if and only if a pong of it has arrived.\<close>

lemma beat_effect:
  assumes "beat D cid pongs mg mg'" "monitored D name r cid mg"
  shows "monitored D name r cid mg' \<and> map_of (mg_ping_times mg') cid = map_of (mg_ping_times mg) cid \<and>
    (if pongs = []
     then map_of (mg_pong_times mg') cid = map_of (mg_pong_times mg) cid \<and> missed_count mg' cid = missed_count mg cid
     else map_of (mg_pong_times mg') cid \<noteq> None \<and> missed_count mg' cid = 0)"
  using assms
proof (induction pongs arbitrary: mg)
  case Nil
  then show ?case using monitored_quiet [of D cid mg mg' name r] by (simp add: pulse_def)
next
  case (Cons now pongs)
  then obtain m where quiet: "(quiet_step D cid)\<^sup>*\<^sup>* mg m" and rest: "beat D cid pongs (handle_pong now cid m) mg'"
    by auto
  note m = monitored_quiet [OF quiet Cons.prems(2)]
  then have reg: "map_of (mg_connection_map m) cid = Some r" by (simp add: monitored_def)
  note p = pong_effect [OF reg]
  have "monitored D name r cid (handle_pong now cid m)"
    using m server_step.pong p(4) by (blast intro: monitored_step)
  from Cons.IH [OF rest this] m p show ?case by (auto simp: pulse_def split: if_splits)
qed

lemma beat_connections:
  "beat D cid pongs mg mg' \<Longrightarrow> map_of (mg_connection_map mg') cid = map_of (mg_connection_map mg) cid"
proof (induction pongs arbitrary: mg)
  case Nil
  then have "(quiet_step D cid)\<^sup>*\<^sup>* mg mg'" by simp
  then show ?case by (induction rule: rtranclp_induct) (auto simp: quiet_step_def)
next
  case (Cons now pongs)
  then obtain m where "(quiet_step D cid)\<^sup>*\<^sup>* mg m" and rest: "beat D cid pongs (handle_pong now cid m) mg'" by auto
  from this(1) have "map_of (mg_connection_map m) cid = map_of (mg_connection_map mg) cid"
    by (induction rule: rtranclp_induct) (auto simp: quiet_step_def)
  with Cons.IH [OF rest] show ?case by (simp add: pong_connections)
qed

text \<open>The reference: the misses in a row, of which two end the connection.\<close>

fun survives :: "nat \<Rightarrow> bool list \<Rightarrow> bool" where
  "survives missed [] = True"
| "survives missed (True # as) = survives 0 as"
| "survives missed (False # as) = (missed = 0 \<and> survives 1 as)"

lemma survives_iff:
  "survives missed as \<longleftrightarrow>
     (\<forall>i. Suc i < length as \<longrightarrow> as ! i \<or> as ! Suc i) \<and> (missed = 0 \<or> as = [] \<or> hd as)"
proof (induction missed as rule: survives.induct)
  case (2 missed as)
  have "(\<forall>i. Suc i < length (True # as) \<longrightarrow> (True # as) ! i \<or> (True # as) ! Suc i) \<longleftrightarrow>
      (\<forall>i. Suc i < length as \<longrightarrow> as ! i \<or> as ! Suc i)"
    by (auto simp: less_Suc_eq_0_disj nth_Cons split: nat.split)
  with 2 show ?case by simp
next
  case (3 missed as)
  have "(\<forall>i. Suc i < length (False # as) \<longrightarrow> (False # as) ! i \<or> (False # as) ! Suc i) \<longleftrightarrow>
      (as = [] \<or> hd as) \<and> (\<forall>i. Suc i < length as \<longrightarrow> as ! i \<or> as ! Suc i)"
    by (cases as) (auto simp: nth_Cons split: nat.split)
  with 3 show ?case by auto
qed simp

lemma evictions_gone:
  "map_of (mg_connection_map mg) cid = None \<Longrightarrow> map_of (mg_connection_map (fold evict ds mg)) cid = None"
proof (induction ds arbitrary: mg)
  case (Cons d ds)
  then have "map_of (mg_connection_map (evict d mg)) cid = None"
    using remove_shrinks [of d True "mg\<lparr>mg_ping_times := AList.delete d (mg_ping_times mg)\<rparr>" cid]
    by (auto simp: evict_def)
  with Cons show ?case by simp
qed simp

lemma beat_gone:
  assumes "beats D cid r bs ws mg" "map_of (mg_connection_map mg) cid = None"
  shows "map_of (mg_connection_map (run_ping ws mg)) cid = None"
  using assms
proof (induction D cid r bs ws mg rule: beats.induct)
  case (2 D cid r pongs bs w ws mg)
  have "mg_connection_map (snd (count_misses cids m)) = mg_connection_map m" for cids and m :: "'a manager"
    by (induction cids arbitrary: m) (simp_all add: case_prod_beta miss_effect)
  moreover have "map_of (mg_connection_map (wu_others w mg)) cid = None"
    using 2(2,3) beat_connections [of D cid pongs mg "wu_others w mg"] by simp
  ultimately have "map_of (mg_connection_map (check_pings (wu_now w) (wu_others w mg))) cid = None"
    by (simp add: check_pings_def case_prod_beta Let_def ping_fold evictions_gone)
  with 2 show ?case by simp
qed simp_all

text \<open>One turn of the loop, for a connection that is waiting for a pong or was not pinged yet.\<close>

lemma beat_check:
  fixes mg :: "'db manager"
  assumes "beat D cid pongs mg m" "monitored D name r cid mg" "is_online (mg_cluster_heap m r)" "sole_connection cid r m"
    and "missed_count mg cid = 0 \<or> pongs \<noteq> [] \<or> map_of (mg_ping_times mg) cid = None"
  shows "monitored D name r cid (check_pings now m) \<and> unanswered (check_pings now m) cid \<and>
    missed_count (check_pings now m) cid =
      (if pongs = [] then missed_count mg cid + (if unanswered mg cid then 1 else 0) else 0)"
proof -
  note b = beat_effect [OF assms(1,2)]
  then have mon: "monitored D name r cid m" by simp
  have un: "unanswered m cid \<longleftrightarrow> pongs = [] \<and> unanswered mg cid"
    using b by (auto simp: unanswered_def split: if_splits)
  have kept: "\<not> unanswered m cid \<or> missed_count m cid = 0"
    using b assms(5) by (auto simp: un unanswered_def split: if_splits)
  have reg: "map_of (mg_connection_map m) cid = Some r" and reach: "server_reachable D m"
    using mon by (simp_all add: monitored_def)
  note c = check_registered [OF reachable_ok [OF reach] reachable_tracked [OF reach] reg monitored_role [OF mon]
      assms(3,4) kept, of now]
  show ?thesis
    using monitored_step [OF mon server_step.pings c(1)] c(2,3) b by (auto simp: un split: if_splits)
qed

text \<open>After a check, the connection waits for a pong; \<open>missed\<close> are the misses so far.\<close>

lemma heartbeat_from:
  assumes "beats D cid r bs ws mg" "monitored D name r cid mg" "unanswered mg cid"
    "missed_count mg cid = of_nat missed" "missed \<le> 1"
  shows "map_of (mg_connection_map (run_ping ws mg)) cid =
    (if survives missed (map (\<lambda>pongs. pongs \<noteq> []) bs) then Some r else None)"
  using assms
proof (induction D cid r bs ws mg arbitrary: missed rule: beats.induct)
  case (1 D cid r mg)
  then show ?case by (simp add: monitored_def)
next
  case (2 D cid r pongs bs w ws mg)
  let ?m = "wu_others w mg"
  let ?c = "check_pings (wu_now w) ?m"
  have reg: "map_of (mg_connection_map mg) cid = Some r" using "2.prems"(2) by (simp add: monitored_def)
  then have flags: "wu_running w" "wu_awake w" and b: "beat D cid pongs mg ?m" and bs: "beats D cid r bs ws ?c"
    and on: "is_online (mg_cluster_heap ?m r)" "sole_connection cid r ?m"
    using "2.prems"(1) by simp_all
  have run: "run_ping (w # ws) mg = run_ping ws ?c" using flags by simp
  note eff = beat_effect [OF b "2.prems"(2)]
  show ?case
  proof (cases "pongs = [] \<and> missed = 1")
    case True
    have mon: "monitored D name r cid ?m" using eff by simp
    then have t: "distinct (map fst (mg_ping_times ?m))" "map_of (mg_connection_map ?m) cid = Some r"
      using reachable_tracked by (auto simp: tracked_def monitored_def)
    have "unanswered ?m cid" "missed_count ?m cid = 1"
      using eff True "2.prems"(3,4) by (simp_all add: unanswered_def)
    with ping_eviction [OF t monitored_role [OF mon], of "wu_now w"]
    have "map_of (mg_connection_map ?c) cid = None" by simp
    then show ?thesis using beat_gone [OF bs] run True by simp
  next
    case False
    define next_missed where "next_missed = (if pongs = [] then 1 else 0 :: nat)"
    have "missed_count mg cid = 0 \<or> pongs \<noteq> [] \<or> map_of (mg_ping_times mg) cid = None"
      using False "2.prems"(4,5) by (cases missed) auto
    note c = beat_check [OF b "2.prems"(2) on this, of "wu_now w"]
    have m: "missed_count ?c cid = of_nat next_missed"
      using c False "2.prems"(3-5) by (cases missed) (auto simp: next_missed_def)
    have "map_of (mg_connection_map (run_ping ws ?c)) cid =
        (if survives next_missed (map (\<lambda>pongs. pongs \<noteq> []) bs) then Some r else None)"
      using "2.IH" [OF bs _ _ m] c by (simp add: next_missed_def)
    moreover have "survives missed (map (\<lambda>pongs. pongs \<noteq> []) (pongs # bs)) =
        survives next_missed (map (\<lambda>pongs. pongs \<noteq> []) bs)"
      using False "2.prems"(5) by (cases "pongs = []") (auto simp: next_missed_def le_Suc_eq)
    ultimately show ?thesis using run by simp
  qed
qed simp_all

section \<open>Properties\<close>

text \<open>C16: the heartbeat drops exactly the dead connections.  Take a connection of a configured cluster that has
  just registered, under an identifier no download was given, and let the loop run for any number of
  checks.  Between them the rest of the program takes any steps that do not remove the connection, and any
  pongs arrive; at each check its cluster is online through it alone.  Then the connection is still
  registered at the end if and only if, after its first ping, no two checks in a row found that no pong
  had arrived since the check before.\<close>

theorem heartbeat_exact:
  assumes "server_reachable D mg" "map_of (mg_clusters mg) name = Some r" "map_of (mg_connection_map mg) cid = Some r"
    "\<forall>s. bound_by mg s \<noteq> Some cid"
    and new: "map_of (mg_ping_times mg) cid = None" "missed_count mg cid = 0"
    and beats: "beats D cid r (pongs # bs) ws mg"
  shows "map_of (mg_connection_map (run_ping ws mg)) cid =
    (if \<exists>i. Suc i < length bs \<and> bs ! i = [] \<and> bs ! Suc i = [] then None else Some r)"
proof -
  have mon: "monitored D name r cid mg" using assms(1-4) by (simp add: monitored_def unbound_def)
  obtain w ws' where ws: "ws = w # ws'" using beats by (cases ws) auto
  have parts: "wu_running w" "wu_awake w" "beat D cid pongs mg (wu_others w mg)"
      "is_online (mg_cluster_heap (wu_others w mg) r)" "sole_connection cid r (wu_others w mg)"
      "beats D cid r bs ws' (check_pings (wu_now w) (wu_others w mg))"
    using beats assms(3) by (simp_all add: ws)
  have "\<not> unanswered mg cid" using new by (simp add: unanswered_def)
  then have c: "monitored D name r cid (check_pings (wu_now w) (wu_others w mg))"
      "unanswered (check_pings (wu_now w) (wu_others w mg)) cid"
      "missed_count (check_pings (wu_now w) (wu_others w mg)) cid = of_nat 0"
    using beat_check [OF parts(3) mon parts(4,5), of "wu_now w"] new(2) by simp_all
  have "survives 0 (map (\<lambda>pongs. pongs \<noteq> []) bs) \<longleftrightarrow> \<not> (\<exists>i. Suc i < length bs \<and> bs ! i = [] \<and> bs ! Suc i = [])"
    by (auto simp: survives_iff)
  then show ?thesis using heartbeat_from [OF parts(6) c] parts(1,2) by (simp add: ws)
qed

definition demo_heart :: "mem_db manager" where
  "demo_heart = register_connection 0 7 demo_channel ''ozstar'' 0 demo_manager"

definition demo_turn :: "('db manager \<Rightarrow> 'db manager) \<Rightarrow> int \<Rightarrow> 'db wake_up" where
  "demo_turn others now = \<lparr>wu_running = True, wu_others = others, wu_awake = True, wu_now = now\<rparr>"

lemma demo_turn_fields [simp]:
  "wu_running (demo_turn f n)" "wu_others (demo_turn f n) = f" "wu_awake (demo_turn f n)" "wu_now (demo_turn f n) = n"
  by (simp_all add: demo_turn_def)

lemma demo_heart_reachable: "server_reachable D demo_heart"
  unfolding demo_heart_def
  by (rule reachable_step [OF demo_manager_reachable server_step.register]) simp_all

lemma demo_heart_fields [simp]:
  "mg_connection_map demo_heart = [(7, 0)]" "mg_pong_times demo_heart = [(7, 0)]" "mg_ping_times demo_heart = []"
  "mg_missed_pongs demo_heart = []"
  "mg_cluster_heap demo_heart 0 = set_connection (Some demo_channel) (cluster_new demo_config True)"
  by (simp_all add: demo_heart_def) (simp_all add: demo_manager_def manager_new_def Let_def)

lemma demo_beats:
  "beats D 7 0 [[], [15], [], []]
     [demo_turn id 10, demo_turn (handle_pong 15 7) 20, demo_turn id 30, demo_turn id 40] demo_heart"
proof -
  have heard: "\<exists>m. (quiet_step D cid)\<^sup>*\<^sup>* mg m \<and> (quiet_step D cid)\<^sup>*\<^sup>* (handle_pong now cid m) (handle_pong now cid mg)"
    for now cid and mg :: "mem_db manager" by blast
  show ?thesis
    by (simp add: heard)
      (simp add: sole_connection_def check_pings_def no_pong_def ping_connection_def handle_pong_def miss_def
        is_online_def set_connection_def send_ping_def missed_count_def Let_def one_miss)
qed

theorem heartbeat_exact_witness:
  "map_of (mg_connection_map (run_ping
     [demo_turn id 10, demo_turn (handle_pong 15 7) 20, demo_turn id 30, demo_turn id 40] demo_heart)) 7 = None"
proof -
  have "map_of (mg_clusters demo_heart) ''ozstar'' = Some 0"
    by (simp add: demo_heart_def register_connection_def Let_def)
  moreover have "\<forall>s. bound_by demo_heart s \<noteq> Some 7"
    by (simp add: demo_heart_def) (simp add: demo_manager_def manager_new_def Let_def session_new_def)
  ultimately show ?thesis
    using heartbeat_exact [OF demo_heart_reachable _ _ _ _ _ demo_beats]
    by (auto simp: missed_count_def intro!: exI [of _ 1])
qed

end
