(* ===== verification/Reconnection.thy ===== *)
theory Reconnection
  imports Heartbeat Ssh_Client Ws_Server
begin

text \<open>
  Reconnection over time: \<open>run_reconnect\<close> (\<open>cluster/manager.rs\<close>), the loop that starts clients for the
  clusters that are offline, with its exponential backoff over any number of turns; and the whole way of
  a token, from the manager through the command line (\<open>cluster/ssh.rs\<close>) and the header of the connection
  (\<open>websocket/server.rs\<close>) back to the manager.
\<close>

section \<open>The loop\<close>

text \<open>A turn also has the wall clock and the identifiers that are drawn in it, by cluster.\<close>

record 'db token_wake_up = "'db wake_up" +
  tw_wall :: int
  tw_uuids :: "string \<Rightarrow> string"

fun run_reconnect ::
    "'db database \<Rightarrow> nat \<Rightarrow> 'db token_wake_up list \<Rightarrow> 'db manager \<Rightarrow> launch list \<times> 'db manager" where
  "run_reconnect D base [] mg = ([], mg)"
| "run_reconnect D base (w # ws) mg =
     (if \<not> wu_running w then ([], mg)
      else
        (let mg = wu_others w mg in
         if \<not> wu_awake w then ([], mg)
         else
           (let (launches, mg) = reconnect_clusters D base (wu_now w) (tw_wall w) (tw_uuids w) mg;
                (more, mg) = run_reconnect D base ws mg
            in (launches @ more, mg))))"

section \<open>One turn, for one cluster\<close>

fun launch_for :: "string \<Rightarrow> launch \<Rightarrow> bool" where
  "launch_for name (ManualToken n _) = (n = name)"
| "launch_for name (LaunchSsh details _) = (cc_name details = name)"

definition launch_count :: "string \<Rightarrow> launch list \<Rightarrow> nat" where
  "launch_count name launches = length (filter (launch_for name) launches)"

lemma launch_count_append [simp]:
  "launch_count name (xs @ ys) = launch_count name xs + launch_count name ys"
  "launch_count name [] = 0"
  by (simp_all add: launch_count_def)

text \<open>Every cluster is registered under the name of its configuration, once.\<close>

definition named :: "'db manager \<Rightarrow> bool" where
  "named mg \<longleftrightarrow> distinct (map fst (mg_clusters mg)) \<and>
     (\<forall>(n, r) \<in> set (mg_clusters mg). cc_name (cl_details (mg_cluster_heap mg r)) = n)"

definition attempt_of :: "'db manager \<Rightarrow> string \<Rightarrow> u32" where
  "attempt_of mg name = (case mg_reconnect_attempts mg name of None \<Rightarrow> 0 | Some n \<Rightarrow> n)"

lemma reconnect_one_frame:
  "mg_clusters (snd (reconnect_one D base now wall uuids e out)) = mg_clusters (snd out)"
  "mg_cluster_heap (snd (reconnect_one D base now wall uuids e out)) = mg_cluster_heap (snd out)"
  by (simp_all add: reconnect_one_def case_prod_beta Let_def split: sum.split)

lemma reconnect_one_other:
  assumes "n \<noteq> name" "cc_name (cl_details (mg_cluster_heap (snd out) r)) = n"
  shows "launch_count name (fst (reconnect_one D base now wall uuids (n, r) out)) = launch_count name (fst out)"
    and "mg_reconnect_attempts (snd (reconnect_one D base now wall uuids (n, r) out)) name =
      mg_reconnect_attempts (snd out) name"
    and "mg_last_attempt (snd (reconnect_one D base now wall uuids (n, r) out)) name = mg_last_attempt (snd out) name"
  using assms
  by (simp_all add: reconnect_one_def case_prod_beta Let_def launch_count_def split: sum.split)

text \<open>Either nothing happens for the cluster, or it is an attempt that was due, with at most one launch.\<close>

definition turn_effect :: "nat \<Rightarrow> int \<Rightarrow> string \<Rightarrow> launch list \<times> 'db manager \<Rightarrow> launch list \<times> 'db manager \<Rightarrow> bool" where
  "turn_effect base now name out out' \<longleftrightarrow>
     (let (launches, mg) = out; (launches', mg') = out' in
      launch_count name launches' = launch_count name launches \<and>
        mg_reconnect_attempts mg' name = mg_reconnect_attempts mg name \<and>
        mg_last_attempt mg' name = mg_last_attempt mg name \<or>
      launch_count name launches' \<le> launch_count name launches + 1 \<and>
        \<not> in_backoff base now (attempt_of mg name) (mg_last_attempt mg name) \<and>
        mg_reconnect_attempts mg' name = Some (attempt_of mg name + 1) \<and>
        mg_last_attempt mg' name = Some now)"

lemma reconnect_one_same:
  "turn_effect base now name out (reconnect_one D base now wall uuids (name, r) out)"
  by (auto simp: turn_effect_def reconnect_one_def case_prod_beta Let_def launch_count_def attempt_of_def
      split: sum.split)

lemma reconnect_fold:
  assumes "distinct (map fst es)"
    "\<forall>(n, r) \<in> set es. cc_name (cl_details (mg_cluster_heap (snd out) r)) = n"
  shows "turn_effect base now name out (fold (reconnect_one D base now wall uuids) es out)"
  using assms
proof (induction es arbitrary: out)
  case Nil
  then show ?case by (simp add: turn_effect_def case_prod_beta)
next
  case (Cons e es)
  obtain n r where e: "e = (n, r)" by force
  let ?out = "reconnect_one D base now wall uuids (n, r) out"
  have named: "\<forall>(n, r) \<in> set es. cc_name (cl_details (mg_cluster_heap (snd ?out) r)) = n"
    using Cons.prems(2) by (simp add: reconnect_one_frame)
  show ?case
  proof (cases "n = name")
    case False
    have "cc_name (cl_details (mg_cluster_heap (snd out) r)) = n" using Cons.prems(2) e by simp
    note o = reconnect_one_other [OF False this]
    have "turn_effect base now name ?out (fold (reconnect_one D base now wall uuids) es ?out)"
      using Cons.IH [OF _ named] Cons.prems(1) by simp
    then show ?thesis by (simp add: e turn_effect_def case_prod_beta Let_def o attempt_of_def)
  next
    case True
    have absent: "name \<notin> fst ` set es" using Cons.prems(1) e True by simp
    have "launch_count name (fst (fold (reconnect_one D base now wall uuids) xs o')) = launch_count name (fst o') \<and>
        mg_reconnect_attempts (snd (fold (reconnect_one D base now wall uuids) xs o')) name =
          mg_reconnect_attempts (snd o') name \<and>
        mg_last_attempt (snd (fold (reconnect_one D base now wall uuids) xs o')) name = mg_last_attempt (snd o') name"
      if "name \<notin> fst ` set xs" "\<forall>(n, r) \<in> set xs. cc_name (cl_details (mg_cluster_heap (snd o') r)) = n" for xs o'
      using that
    proof (induction xs arbitrary: o')
      case (Cons x xs)
      obtain m q where x: "x = (m, q)" by force
      have "m \<noteq> name" "cc_name (cl_details (mg_cluster_heap (snd o') q)) = m" using Cons.prems x by auto
      note o = reconnect_one_other [OF this]
      show ?case using Cons.IH [of "reconnect_one D base now wall uuids (m, q) o'"] Cons.prems
        by (simp add: x o reconnect_one_frame)
    qed simp
    from this [OF absent named] show ?thesis
      using reconnect_one_same [of base now name out D wall uuids r]
      by (simp add: e True turn_effect_def case_prod_beta Let_def)
  qed
qed

lemma reconnect_clusters_effect:
  assumes "named mg"
  shows "turn_effect base now name ([], mg) (reconnect_clusters D base now wall uuids mg)"
    "named (snd (reconnect_clusters D base now wall uuids mg))"
proof -
  show "turn_effect base now name ([], mg) (reconnect_clusters D base now wall uuids mg)"
    unfolding reconnect_clusters_def using assms by (intro reconnect_fold) (simp_all add: named_def)
  have "mg_clusters (snd (fold (reconnect_one D base now wall uuids) es out)) = mg_clusters (snd out) \<and>
      mg_cluster_heap (snd (fold (reconnect_one D base now wall uuids) es out)) = mg_cluster_heap (snd out)" for es out
    by (induction es arbitrary: out) (simp_all add: reconnect_one_frame)
  then show "named (snd (reconnect_clusters D base now wall uuids mg))"
    using assms by (simp add: reconnect_clusters_def named_def)
qed

section \<open>Backoff\<close>

text \<open>What the rest of the program does while the cluster \<open>name\<close> does not connect.\<close>

definition waits :: "string \<Rightarrow> 'db manager \<Rightarrow> 'db manager \<Rightarrow> bool" where
  "waits name mg mg' \<longleftrightarrow>
     mg_reconnect_attempts mg' name = mg_reconnect_attempts mg name \<and>
     mg_last_attempt mg' name = mg_last_attempt mg name \<and> (named mg \<longrightarrow> named mg')"

lemma backoff_doubles:
  assumes "0 < n" "n < 64" "base * 2 ^ (n - 1) < 2 ^ 64"
  shows "backoff_secs base (of_nat n) = base * 2 ^ (n - 1)"
proof -
  have "unat (of_nat n - 1 :: u32) = n - 1"
    using assms(1,2) by (cases n) (simp_all add: unat_of_nat take_bit_nat_eq_self)
  moreover have "(2 :: nat) ^ (n - 1) \<le> 2 ^ 64 - 1"
  proof -
    have "(2 :: nat) ^ (n - 1) \<le> 2 ^ 63" using assms(2) by (intro power_increasing) simp_all
    then show ?thesis by simp
  qed
  ultimately show ?thesis using assms(3) by (simp add: backoff_secs_def saturating_mul_def saturating_pow2_def)
qed

text \<open>An attempt after \<open>n\<close> others comes late enough.\<close>

lemma due_late:
  assumes "\<not> in_backoff base now (of_nat n) (Some t)" "0 < n" "n < 64" "base * 2 ^ n < 2 ^ 64"
    "10 ^ 9 * (int base * (2 ^ (n - 1) - 1)) \<le> t - t0"
  shows "10 ^ 9 * (int base * (2 ^ n - 1)) \<le> now - t0"
proof -
  have pow: "(2 :: nat) ^ n = 2 * 2 ^ (n - 1)" using assms(2) by (cases n) simp_all
  then have "base * 2 ^ (n - 1) < 2 ^ 64" using assms(4) by simp
  note b = backoff_doubles [OF assms(2,3) this]
  have "unat (of_nat n :: u32) = n" using assms(3) by (simp add: unat_of_nat take_bit_nat_eq_self)
  then have "(of_nat n :: u32) \<noteq> 0" using assms(2) by force
  then have "0 < (of_nat n :: u32)" by (simp add: word_neq_0_conv)
  then have "int (base * 2 ^ (n - 1)) \<le> (now - t) div 1000000000"
    using assms(1) by (simp add: in_backoff_def b)
  moreover have "(now - t) div 1000000000 * 1000000000 \<le> now - t"
    using div_mult_mod_eq [of "now - t" 1000000000] pos_mod_sign [of 1000000000 "now - t"] by linarith
  ultimately have late: "10 ^ 9 * (int base * 2 ^ (n - 1)) \<le> now - t" by simp
  have "int base * (2 ^ n - 1) = int base * (2 ^ (n - 1) - 1) + int base * 2 ^ (n - 1)"
    using assms(2) by (cases n) (simp_all add: algebra_simps)
  then show ?thesis using late assms(5) by (simp only: distrib_left)
qed

text \<open>The attempts so far, and how late the last one was.\<close>

definition attempts_so_far :: "nat \<Rightarrow> int \<Rightarrow> nat \<Rightarrow> string \<Rightarrow> 'db manager \<Rightarrow> bool" where
  "attempts_so_far base t0 n name mg \<longleftrightarrow>
     named mg \<and> attempt_of mg name = of_nat n \<and>
     (0 < n \<longrightarrow> (\<exists>t. mg_last_attempt mg name = Some t \<and> 10 ^ 9 * (int base * (2 ^ (n - 1) - 1)) \<le> t - t0))"

lemma backoff_from:
  assumes "attempts_so_far base t0 n name mg" "n \<le> k" "k < 64" "base * 2 ^ k < 2 ^ 64"
    "\<forall>w \<in> set ws. (\<forall>m. waits name m (wu_others w m)) \<and> t0 \<le> wu_now w \<and>
       wu_now w - t0 < 10 ^ 9 * (int base * (2 ^ k - 1))"
  shows "launch_count name (fst (run_reconnect D base ws mg)) \<le> k - n"
  using assms
proof (induction ws arbitrary: mg n)
  case (Cons w ws)
  let ?m = "wu_others w mg"
  define out where "out = reconnect_clusters D base (wu_now w) (tw_wall w) (tw_uuids w) ?m"
  have "waits name mg ?m" using Cons.prems(5) by simp
  then have so_far: "attempts_so_far base t0 n name ?m"
    using Cons.prems(1) by (simp add: attempts_so_far_def waits_def attempt_of_def)
  then have "named ?m" by (simp add: attempts_so_far_def)
  note eff = reconnect_clusters_effect(1) [OF this, of base "wu_now w" name D "tw_wall w" "tw_uuids w", folded out_def]
    reconnect_clusters_effect(2) [OF this, of D base "wu_now w" "tw_wall w" "tw_uuids w", folded out_def]
  have rest: "\<forall>w \<in> set ws. (\<forall>m. waits name m (wu_others w m)) \<and> t0 \<le> wu_now w \<and>
       wu_now w - t0 < 10 ^ 9 * (int base * (2 ^ k - 1))" using Cons.prems(5) by simp
  have "launch_count name (fst out) + launch_count name (fst (run_reconnect D base ws (snd out))) \<le> k - n"
  proof (cases "launch_count name (fst out) = 0 \<and> attempts_so_far base t0 n name (snd out)")
    case True
    then show ?thesis using Cons.IH [OF _ Cons.prems(2-4) rest] by simp
  next
    case False
    then have due: "launch_count name (fst out) \<le> 1"
        "\<not> in_backoff base (wu_now w) (of_nat n) (mg_last_attempt ?m name)"
        "attempt_of (snd out) name = of_nat (Suc n)" "mg_last_attempt (snd out) name = Some (wu_now w)"
      using eff so_far by (auto simp: turn_effect_def case_prod_beta attempts_so_far_def attempt_of_def)
    have window: "t0 \<le> wu_now w" "wu_now w - t0 < 10 ^ 9 * (int base * (2 ^ k - 1))" using Cons.prems(5) by simp_all
    have late: "10 ^ 9 * (int base * (2 ^ n - 1)) \<le> wu_now w - t0"
    proof (cases "n = 0")
      case False
      then obtain t where t: "mg_last_attempt ?m name = Some t"
          "10 ^ 9 * (int base * (2 ^ (n - 1) - 1)) \<le> t - t0"
        using so_far by (auto simp: attempts_so_far_def)
      have "base * 2 ^ n \<le> base * 2 ^ k" using Cons.prems(2) by (simp add: power_increasing)
      also note Cons.prems(4)
      finally show ?thesis using due_late [OF due(2) [unfolded t(1)] _ _ _ t(2)] False Cons.prems(2,3) by simp
    qed (use window in simp)
    have "n \<noteq> k" using late window by auto
    then have less: "Suc n \<le> k" using Cons.prems(2) by simp
    have "attempts_so_far base t0 (Suc n) name (snd out)"
      using due late eff(2) by (simp add: attempts_so_far_def)
    from Cons.IH [OF this less Cons.prems(3,4) rest] due(1) less show ?thesis by simp
  qed
  then show ?case by (simp add: case_prod_beta Let_def out_def)
qed simp

text \<open>C17: the backoff bounds the attempts.  While a cluster does not connect, whatever else the program does
  and however often the loop wakes up, fewer than \<open>base * (2^k - 1)\<close> seconds see at most \<open>k\<close> launches of
  its client, as long as the intervals stay within 64 bits.\<close>

theorem reconnect_backoff:
  assumes "named mg" "mg_reconnect_attempts mg name = None"
    and apart: "\<forall>w \<in> set ws. \<forall>m. waits name m (wu_others w m)"
    and window: "\<forall>w \<in> set ws. t0 \<le> wu_now w \<and> wu_now w - t0 < 10 ^ 9 * (int base * (2 ^ k - 1))"
    and sizes: "0 < base" "base * 2 ^ k < 2 ^ 64"
  shows "launch_count name (fst (run_reconnect D base ws mg)) \<le> k"
proof -
  have "(2 :: nat) ^ k < 2 ^ 64" using sizes by (metis One_nat_def Suc_leI le_less_trans mult_1 mult_le_mono1)
  then have "k < 64" by (rule power_less_imp_less_exp [rotated]) simp
  moreover have "attempts_so_far base t0 0 name mg"
    using assms(1,2) by (simp add: attempts_so_far_def attempt_of_def)
  ultimately show ?thesis using backoff_from [of base t0 0 name mg k ws D] sizes apart window by simp
qed

definition demo_token_turn :: "int \<Rightarrow> 'db token_wake_up" where
  "demo_token_turn now = wake_up.extend (demo_turn id now) \<lparr>tw_wall = now, tw_uuids = (\<lambda>_. ''tok'')\<rparr>"

theorem reconnect_backoff_witness:
  "launch_count ''ozstar''
     (fst (run_reconnect mem_database 60
       [demo_token_turn 0, demo_token_turn 30000000000, demo_token_turn 59000000000] demo_manager)) \<le> 1"
proof (rule reconnect_backoff [where ?t0.0 = 0 and k = 1])
  show "named demo_manager" by (simp add: named_def demo_config_def)
qed (simp_all add: demo_token_turn_def demo_turn_def wake_up.defs waits_def)

section \<open>The way of a token\<close>

lemma bearer_read: "extract_token_from_headers (Some (''Bearer '' @ token)) = token"
  by (simp add: extract_token_from_headers_def bearer_token_def BEARER_PREFIX_def eq_ignore_ascii_case_def)

text \<open>What the rest of the program does meanwhile leaves the cluster \<open>r\<close> connected and its backoff alone.\<close>

definition leaves_connected :: "string \<Rightarrow> nat \<Rightarrow> ('db http_state \<Rightarrow> 'db http_state) \<Rightarrow> bool" where
  "leaves_connected name r others \<longleftrightarrow>
     (\<forall>hs. is_online (mg_cluster_heap (hs_manager (others hs)) r) = is_online (mg_cluster_heap (hs_manager hs) r) \<and>
        mg_reconnect_attempts (hs_manager (others hs)) name = mg_reconnect_attempts (hs_manager hs) name)"

lemma greeting_leaves_connected:
  "leaves_connected name r (on_manager (with_cluster x (send_message m)))"
  by (simp add: leaves_connected_def on_manager_def is_online_def send_message_def) (simp add: with_cluster_def)

text \<open>C40: a launched client is let in.  When a reconnect launches a client for an offline cluster, the command line
  is read by the remote shell as a call of the client with one word as its argument; and a connection
  that presents this word in its header before it expires, whatever its identifier, is admitted as this
  very cluster, unless its look-up fails: with that the cluster is online and its backoff is reset.  The
  connection then opens whatever the program does in the meantime, and the cluster is still online when it
  is open if that left its connection alone.\<close>

theorem launched_client_admitted:
  assumes laws: "uuid_table_laws D rows"
    and run: "reconnect_one D base now wall uuids (name, r) ([], mg) = ([LaunchSsh config token], mg1)"
    and reg: "map_of (mg_clusters mg) name = Some r"
    and fresh: "map_of (mg_downloads mg) (uuids name) = None" "map_of (mg_uploads mg) (uuids name) = None"
      "ltk_cluster (uuids name) mg = None" "uuids name \<notin> cu_uuid ` set (rows (mg_db mg))"
    and time: "cutoff < wall"
    and query: "\<And>db P. \<exists>x. tb_one (db_cluster_uuids D) db P = Inr x"
    and state: "hs_manager hs = mg1"
  shows "config = cl_details (mg_cluster_heap mg r) \<and>
    (\<exists>words argument mg2 g hs2.
       shell_tokens False None (build_remote_client_command (cc_path config) token) =
         Some (words @ [ShWord ''./adacs_job_client'', ShWord argument]) \<and>
       handle_new_connection D now' cutoff cid sender (extract_token_from_headers (Some (''Bearer '' @ argument))) mg1 =
         (Some r, mg2) \<and> is_online (mg_cluster_heap mg2 r) \<and> mg_reconnect_attempts mg2 name = None \<and>
       socket_open D now' cutoff cid sender (extract_token_from_headers (Some (''Bearer '' @ argument))) pauses hs =
         (Some (r, g), hs2) \<and>
       (leaves_connected name r (ow_accepted pauses) \<and> leaves_connected name r (ow_greeted pauses) \<longrightarrow>
          is_online (mg_cluster_heap (hs_manager hs2) r) \<and> mg_reconnect_attempts (hs_manager hs2) name = None))"
proof -
  have l: "config = cl_details (mg_cluster_heap mg r)" "token = uuids name" "mg_cluster_heap mg1 = mg_cluster_heap mg"
    using run reconnect_one_frame(2) [of D base now wall uuids "(name, r)" "([], mg)"]
    by (auto simp: reconnect_one_def case_prod_beta Let_def split: if_splits sum.splits)
  obtain mg2 where mg2: "handle_new_connection D now' cutoff cid sender token mg1 = (Some r, mg2)"
      "is_online (mg_cluster_heap mg2 r)" "mg_reconnect_attempts mg2 name = None"
    using reconnect_handshake [OF laws run reg fresh time query] l(2) by blast
  define hs2 where "hs2 = ow_greeted pauses (on_manager (with_cluster r (send_message server_ready_message))
      (ow_accepted pauses (hs\<lparr>hs_manager := mg2\<rparr>)))"
  let ?session = "admitted_session cid (hs_manager hs2)"
  let ?g = "exit_guard_new ?session (map_option (\<lambda>_. cid) ?session)
    (cluster_name (mg_cluster_heap (hs_manager hs2) r)) cid 0 0"
  have "socket_open D now' cutoff cid sender token pauses hs = (Some (r, ?g), hs2)"
    by (simp add: socket_open_def mg2 Let_def state hs2_def)
  moreover have "is_online (mg_cluster_heap (hs_manager hs2) r) \<and> mg_reconnect_attempts (hs_manager hs2) name = None"
    if "leaves_connected name r (ow_accepted pauses) \<and> leaves_connected name r (ow_greeted pauses)"
    using mg2(2,3) that greeting_leaves_connected [of name r r server_ready_message, where ?'a = 'a]
    by (simp_all add: hs2_def leaves_connected_def)
  moreover have "shell_tokens False None (build_remote_client_command (cc_path config) token) =
      Some ([ShWord ''cd'', ShWord (cc_path config), ShAnd, ShWord ''source'', ShWord ''env.sh'', ShAnd] @
        [ShWord ''./adacs_job_client'', ShWord token])"
    by (simp add: remote_command_words)
  ultimately show ?thesis unfolding l(1) [symmetric] using mg2 bearer_read by metis
qed

theorem launched_client_admitted_witness:
  "\<exists>mg1 g hs2. reconnect_one mem_database 60 0 1000 (\<lambda>_. ''tok'') (''ozstar'', 0) ([], demo_manager) =
      ([LaunchSsh demo_config ''tok''], mg1) \<and>
    socket_open mem_database 5 400 7 demo_channel ''tok'' opening_alone (demo_http\<lparr>hs_manager := mg1\<rparr>) = (Some (0, g), hs2) \<and>
    is_online (mg_cluster_heap (hs_manager hs2) 0)"
proof -
  obtain mg1 where run: "reconnect_one mem_database 60 0 1000 (\<lambda>_. ''tok'') (''ozstar'', 0) ([], demo_manager) =
      ([LaunchSsh demo_config ''tok''], mg1)"
    using demo_launch(1) by blast
  let ?hs = "demo_http\<lparr>hs_manager := mg1\<rparr>"
  have alone: "leaves_connected name r id" for name r by (simp add: leaves_connected_def)
  obtain words argument g hs2 where w: "shell_tokens False None (build_remote_client_command (cc_path demo_config) ''tok'') =
        Some (words @ [ShWord ''./adacs_job_client'', ShWord argument])"
      "socket_open mem_database 5 400 7 demo_channel (extract_token_from_headers (Some (''Bearer '' @ argument)))
        opening_alone ?hs = (Some (0, g), hs2)" "is_online (mg_cluster_heap (hs_manager hs2) 0)"
    using launched_client_admitted [where now' = 5 and cutoff = 400 and cid = 7 and sender = demo_channel and
        pauses = opening_alone and hs = ?hs, OF mem_uuids.table_laws_axioms run]
    by (force simp: demo_launch opening_alone_def alone)
  have "argument = ''tok''"
    using arg_cong [OF w(1) [unfolded remote_command_words], where f = "\<lambda>x. last (the x)"] by simp
  then show ?thesis using run w(2,3) bearer_read by metis
qed

end
