(* ===== verification/Schema_Migrations.thy ===== *)
theory Schema_Migrations
  imports Http_Job
begin

text \<open>
  The schema (\<open>src/db/entities\<close>, \<open>src/db/schema.rs\<close>) and its migrations (\<open>src/db/migration\<close>): the tables
  the entities declare, the migrator's list of migrations with their two directions, and the schema of the
  tests.  How a statement is executed is the database's business: a parameter, whose laws are a locale.
  Which migrations are pending is bookkeeping of the migration library: a list of them is an argument.
\<close>

section \<open>Entities\<close>

text \<open>A column as an entity declares it: its name, the type of its field, and whether it is the key.  \<open>TextField\<close>
  is a string with the column type \<open>Text\<close>.\<close>

datatype field_type = I64Field | I32Field | BoolField | StringField | TextField | DateTimeField

record column =
  co_name :: string
  co_type :: field_type
  co_primary_key :: bool

record entity =
  en_table_name :: string
  en_columns :: "column list"

definition primary_key :: "string \<Rightarrow> column" where
  "primary_key n = \<lparr>co_name = n, co_type = I64Field, co_primary_key = True\<rparr>"

definition field :: "string \<Rightarrow> field_type \<Rightarrow> column" where
  "field n ty = \<lparr>co_name = n, co_type = ty, co_primary_key = False\<rparr>"

definition job_entity :: entity where
  "job_entity = \<lparr>en_table_name = ''jobserver_job'', en_columns =
     [primary_key ''id'', field ''user'' I64Field, field ''parameters'' TextField, field ''cluster'' StringField,
      field ''bundle'' StringField, field ''application'' StringField]\<rparr>"

definition job_history_entity :: entity where
  "job_history_entity = \<lparr>en_table_name = ''jobserver_jobhistory'', en_columns =
     [primary_key ''id'', field ''job_id'' I64Field, field ''timestamp'' DateTimeField, field ''what'' StringField,
      field ''state'' I32Field, field ''details'' TextField]\<rparr>"

definition file_download_entity :: entity where
  "file_download_entity = \<lparr>en_table_name = ''jobserver_filedownload'', en_columns =
     [primary_key ''id'', field ''user'' I64Field, field ''job'' I64Field, field ''cluster'' StringField,
      field ''bundle'' StringField, field ''uuid'' StringField, field ''path'' TextField,
      field ''timestamp'' DateTimeField]\<rparr>"

definition file_list_cache_entity :: entity where
  "file_list_cache_entity = \<lparr>en_table_name = ''jobserver_filelistcache'', en_columns =
     [primary_key ''id'', field ''job_id'' I64Field, field ''path'' TextField, field ''is_dir'' BoolField,
      field ''file_size'' I64Field, field ''permissions'' I32Field]\<rparr>"

definition cluster_job_entity :: entity where
  "cluster_job_entity = \<lparr>en_table_name = ''jobserver_clusterjob'', en_columns =
     [primary_key ''id'', field ''job_id'' I64Field, field ''scheduler_id'' I64Field, field ''submitting'' BoolField,
      field ''submitting_count'' I32Field, field ''bundle_hash'' TextField, field ''working_directory'' TextField,
      field ''running'' BoolField, field ''deleting'' BoolField, field ''deleted'' BoolField,
      field ''cluster'' StringField]\<rparr>"

definition cluster_job_status_entity :: entity where
  "cluster_job_status_entity = \<lparr>en_table_name = ''jobserver_clusterjobstatus'', en_columns =
     [primary_key ''id'', field ''job_id'' I64Field, field ''what'' StringField, field ''state'' I32Field]\<rparr>"

definition bundle_job_entity :: entity where
  "bundle_job_entity = \<lparr>en_table_name = ''jobserver_bundlejob'', en_columns =
     [primary_key ''id'', field ''content'' TextField, field ''cluster'' StringField,
      field ''bundle_hash'' StringField]\<rparr>"

definition cluster_uuid_entity :: entity where
  "cluster_uuid_entity = \<lparr>en_table_name = ''jobserver_clusteruuid'', en_columns =
     [primary_key ''id'', field ''cluster'' StringField, field ''uuid'' StringField,
      field ''timestamp'' DateTimeField]\<rparr>"

section \<open>Statements\<close>

datatype schema_statement = CreateTable entity bool | DropTable string

type_synonym 'db executor = "schema_statement \<Rightarrow> 'db \<Rightarrow> (string + unit) \<times> 'db"

text \<open>\<open>create_table_from_entity\<close>, and the same with \<open>if_not_exists\<close>.\<close>

definition create_table_from_entity :: "entity \<Rightarrow> schema_statement" where
  "create_table_from_entity e = CreateTable e False"

definition if_not_exists :: "schema_statement \<Rightarrow> schema_statement" where
  "if_not_exists s = (case s of CreateTable e _ \<Rightarrow> CreateTable e True | DropTable n \<Rightarrow> DropTable n)"

section \<open>Migrations\<close>

record migration =
  mi_name :: string
  mi_up :: schema_statement
  mi_down :: schema_statement

definition m20250514_000001_create_job :: migration where
  "m20250514_000001_create_job =
     \<lparr>mi_name = ''m20250514_000001_create_job'',
      mi_up = if_not_exists (create_table_from_entity job_entity), mi_down = DropTable ''jobserver_job''\<rparr>"

definition m20250514_000002_create_job_history :: migration where
  "m20250514_000002_create_job_history =
     \<lparr>mi_name = ''m20250514_000002_create_job_history'',
      mi_up = if_not_exists (create_table_from_entity job_history_entity),
      mi_down = DropTable ''jobserver_jobhistory''\<rparr>"

definition m20250514_000003_create_file_download :: migration where
  "m20250514_000003_create_file_download =
     \<lparr>mi_name = ''m20250514_000003_create_file_download'',
      mi_up = if_not_exists (create_table_from_entity file_download_entity),
      mi_down = DropTable ''jobserver_filedownload''\<rparr>"

definition m20250514_000004_create_file_list_cache :: migration where
  "m20250514_000004_create_file_list_cache =
     \<lparr>mi_name = ''m20250514_000004_create_file_list_cache'',
      mi_up = if_not_exists (create_table_from_entity file_list_cache_entity),
      mi_down = DropTable ''jobserver_filelistcache''\<rparr>"

definition m20250514_000005_create_cluster_job :: migration where
  "m20250514_000005_create_cluster_job =
     \<lparr>mi_name = ''m20250514_000005_create_cluster_job'',
      mi_up = if_not_exists (create_table_from_entity cluster_job_entity),
      mi_down = DropTable ''jobserver_clusterjob''\<rparr>"

definition m20250514_000006_create_cluster_job_status :: migration where
  "m20250514_000006_create_cluster_job_status =
     \<lparr>mi_name = ''m20250514_000006_create_cluster_job_status'',
      mi_up = if_not_exists (create_table_from_entity cluster_job_status_entity),
      mi_down = DropTable ''jobserver_clusterjobstatus''\<rparr>"

definition m20250514_000007_create_bundle_job :: migration where
  "m20250514_000007_create_bundle_job =
     \<lparr>mi_name = ''m20250514_000007_create_bundle_job'',
      mi_up = if_not_exists (create_table_from_entity bundle_job_entity),
      mi_down = DropTable ''jobserver_bundlejob''\<rparr>"

definition m20250514_000008_create_cluster_uuid :: migration where
  "m20250514_000008_create_cluster_uuid =
     \<lparr>mi_name = ''m20250514_000008_create_cluster_uuid'',
      mi_up = if_not_exists (create_table_from_entity cluster_uuid_entity),
      mi_down = DropTable ''jobserver_clusteruuid''\<rparr>"

definition migrations :: "migration list" where
  "migrations =
     [m20250514_000001_create_job, m20250514_000002_create_job_history, m20250514_000003_create_file_download,
      m20250514_000004_create_file_list_cache, m20250514_000005_create_cluster_job,
      m20250514_000006_create_cluster_job_status, m20250514_000007_create_bundle_job,
      m20250514_000008_create_cluster_uuid]"

text \<open>Statements in a row, up to the first that fails.\<close>

fun execute_all :: "'db executor \<Rightarrow> schema_statement list \<Rightarrow> 'db \<Rightarrow> (string + unit) \<times> 'db" where
  "execute_all ex [] db = (Inr (), db)"
| "execute_all ex (s # ss) db =
     (case ex s db of
        (Inl e, db) \<Rightarrow> (Inl e, db)
      | (Inr _, db) \<Rightarrow> execute_all ex ss db)"

text \<open>A failure ends the tests with a panic.\<close>

definition create_test_schema :: "'db executor \<Rightarrow> 'db \<Rightarrow> (string + unit) \<times> 'db" where
  "create_test_schema ex =
     execute_all ex (map create_table_from_entity
       [job_entity, job_history_entity, file_download_entity, file_list_cache_entity, cluster_job_entity,
        cluster_job_status_entity, bundle_job_entity, cluster_uuid_entity])"

section \<open>The interface of the database\<close>

text \<open>\<open>tables db\<close> are the tables of the database \<open>db\<close>, by name.  Any statement may fail; then it has no effect.\<close>

locale schema_laws =
  fixes ex :: "'db executor" and tables :: "'db \<Rightarrow> string \<rightharpoonup> column list"
  assumes failed: "ex s db = (Inl e, db') \<Longrightarrow> tables db' = tables db"
    and created: "ex (CreateTable t b) db = (Inr u, db') \<Longrightarrow> tables db (en_table_name t) = None \<Longrightarrow>
      tables db' = (tables db)(en_table_name t \<mapsto> en_columns t)"
    and existing: "ex (CreateTable t b) db = (Inr u, db') \<Longrightarrow> tables db (en_table_name t) \<noteq> None \<Longrightarrow>
      b \<and> tables db' = tables db"
    and dropped: "ex (DropTable n) db = (Inr u, db') \<Longrightarrow> tables db' = (tables db)(n := None)"
begin

lemma execute_all_append:
  "execute_all ex (ss @ ts) db =
     (case execute_all ex ss db of (Inl e, db) \<Rightarrow> (Inl e, db) | (Inr _, db) \<Rightarrow> execute_all ex ts db)"
  by (induction ss arbitrary: db) (auto split: prod.split sum.split)

lemma create_if_missing:
  assumes "ex (CreateTable t True) db = (Inr u, db')"
  shows "tables db' = (if tables db (en_table_name t) = None then (tables db)(en_table_name t \<mapsto> en_columns t)
    else tables db)"
  using created [OF assms] existing [OF assms] by simp

text \<open>Creating tables, each where there is none yet.\<close>

lemma create_all_missing:
  assumes "execute_all ex (map (\<lambda>t. CreateTable t True) ts) db = (Inr u, db')" "distinct (map en_table_name ts)"
  shows "tables db' = map_of (map (\<lambda>t. (en_table_name t, en_columns t)) ts) ++ tables db"
  using assms
proof (induction ts arbitrary: db)
  case Nil
  then show ?case by simp
next
  case (Cons t ts)
  obtain v db1 where e: "ex (CreateTable t True) db = (Inr v, db1)"
      "execute_all ex (map (\<lambda>t. CreateTable t True) ts) db1 = (Inr u, db')"
    using Cons.prems(1) by (auto split: prod.splits sum.splits)
  have "tables db' = map_of (map (\<lambda>t. (en_table_name t, en_columns t)) ts) ++ tables db1"
    using Cons e(2) by simp
  moreover have "map_of (map (\<lambda>t. (en_table_name t, en_columns t)) ts) (en_table_name t) = None"
    using Cons.prems(2) by (auto simp: map_of_eq_None_iff)
  ultimately show ?case
    using create_if_missing [OF e(1)] by (auto simp: fun_eq_iff map_add_def split: option.split)
qed

lemma create_all_new:
  assumes "execute_all ex (map (\<lambda>t. CreateTable t False) ts) db = (Inr u, db')"
  shows "tables db' = tables db ++ map_of (map (\<lambda>t. (en_table_name t, en_columns t)) ts)"
    "distinct (map en_table_name ts)" "list_all (\<lambda>t. tables db (en_table_name t) = None) ts"
proof -
  have "tables db' = tables db ++ map_of (map (\<lambda>t. (en_table_name t, en_columns t)) ts) \<and>
      distinct (map en_table_name ts) \<and> (\<forall>t \<in> set ts. tables db (en_table_name t) = None)"
    using assms
  proof (induction ts arbitrary: db)
    case Nil
    then show ?case by simp
  next
    case (Cons t ts)
    obtain v db1 where e: "ex (CreateTable t False) db = (Inr v, db1)"
        "execute_all ex (map (\<lambda>t. CreateTable t False) ts) db1 = (Inr u, db')"
      using Cons.prems by (auto split: prod.splits sum.splits)
    have none: "tables db (en_table_name t) = None" using existing [OF e(1)] by blast
    note tabs = created [OF e(1) none]
    note ih = Cons.IH [OF e(2), unfolded tabs]
    then have new: "en_table_name t \<notin> en_table_name ` set ts" by force
    let ?rest = "map_of (map (\<lambda>t. (en_table_name t, en_columns t)) ts)"
    have "?rest (en_table_name t) = None" using new by (auto simp: map_of_eq_None_iff)
    then have "en_table_name t \<notin> dom ?rest" by blast
    then have "tables db' = (tables db ++ ?rest)(en_table_name t \<mapsto> en_columns t)"
      using ih by (subst map_add_upd_left [symmetric]) blast+
    moreover have "\<forall>x \<in> set ts. tables db (en_table_name x) = None"
      using ih by (auto split: if_splits)
    moreover have "tables db ++ map_of (map (\<lambda>t. (en_table_name t, en_columns t)) (t # ts)) =
        (tables db ++ ?rest)(en_table_name t \<mapsto> en_columns t)"
      unfolding list.map map_of.simps fst_conv snd_conv by (rule map_add_upd)
    ultimately show ?case using ih none new by (simp only: list.simps set_ConsD) auto
  qed
  then show "tables db' = tables db ++ map_of (map (\<lambda>t. (en_table_name t, en_columns t)) ts)"
    "distinct (map en_table_name ts)" "list_all (\<lambda>t. tables db (en_table_name t) = None) ts"
    by (simp_all add: list_all_iff)
qed

lemma drop_all:
  assumes "execute_all ex (map DropTable ns) db = (Inr u, db')"
  shows "tables db' = tables db |` (- set ns)"
  using assms
proof (induction ns arbitrary: db)
  case Nil
  then show ?case by (simp add: restrict_map_def)
next
  case (Cons n ns)
  obtain v db1 where e: "ex (DropTable n) db = (Inr v, db1)" "execute_all ex (map DropTable ns) db1 = (Inr u, db')"
    using Cons.prems by (auto split: prod.splits sum.splits)
  show ?case using Cons.IH [OF e(2)] dropped [OF e(1)] by (auto simp: fun_eq_iff restrict_map_def)
qed

end

section \<open>A database in memory\<close>

type_synonym mem_schema = "(string \<times> column list) list"

fun mem_execute :: "mem_schema executor" where
  "mem_execute (CreateTable t b) db =
     (if map_of db (en_table_name t) = None then (Inr (), db @ [(en_table_name t, en_columns t)])
      else if b then (Inr (), db) else (Inl ''table exists'', db))"
| "mem_execute (DropTable n) db =
     (if map_of db n = None then (Inl ''no such table'', db) else (Inr (), filter (\<lambda>(k, _). k \<noteq> n) db))"

lemma map_of_drop: "map_of (filter (\<lambda>(k, _). k \<noteq> n) db) = (map_of db)(n := None)"
  by (induction db) auto

interpretation mem_schema: schema_laws mem_execute map_of
proof
  show "map_of db' = map_of db" if "mem_execute s db = (Inl e, db')" for s db e db'
    using that by (cases s) (auto split: if_splits)
qed (auto simp: map_of_drop map_add_def fun_eq_iff split: if_splits option.splits)

section \<open>The migrated schema\<close>

definition entities :: "entity list" where
  "entities = [job_entity, job_history_entity, file_download_entity, file_list_cache_entity, cluster_job_entity,
     cluster_job_status_entity, bundle_job_entity, cluster_uuid_entity]"

definition entity_tables :: "string \<rightharpoonup> column list" where
  "entity_tables = map_of (map (\<lambda>e. (en_table_name e, en_columns e)) entities)"

definition created_by :: "migration \<Rightarrow> entity" where
  "created_by m = (case mi_up m of CreateTable e _ \<Rightarrow> e | DropTable _ \<Rightarrow> job_entity)"

lemmas entity_defs = job_entity_def job_history_entity_def file_download_entity_def file_list_cache_entity_def
  cluster_job_entity_def cluster_job_status_entity_def bundle_job_entity_def cluster_uuid_entity_def

lemmas migration_defs = m20250514_000001_create_job_def m20250514_000002_create_job_history_def
  m20250514_000003_create_file_download_def m20250514_000004_create_file_list_cache_def
  m20250514_000005_create_cluster_job_def m20250514_000006_create_cluster_job_status_def
  m20250514_000007_create_bundle_job_def m20250514_000008_create_cluster_uuid_def

lemma migration_directions:
  assumes "m \<in> set migrations"
  shows "mi_up m = CreateTable (created_by m) True" "mi_down m = DropTable (en_table_name (created_by m))"
  using assms
  by (auto simp: migrations_def migration_defs entity_defs created_by_def if_not_exists_def
      create_table_from_entity_def)

lemma created_by_all: "map created_by migrations = entities"
  by (simp add: migrations_def migration_defs entities_def created_by_def if_not_exists_def
      create_table_from_entity_def)

lemma distinct_tables: "distinct (map en_table_name entities)"
  by (simp add: entities_def entity_defs)

lemma migrations_up:
  "set ms \<subseteq> set migrations \<Longrightarrow> map mi_up ms = map (\<lambda>t. CreateTable t True) (map created_by ms)"
  using migration_directions(1) by (auto simp: subset_iff)

lemma migrations_down: "map mi_down (rev migrations) = map DropTable (rev (map en_table_name entities))"
proof -
  have "map mi_down (rev migrations) = map (\<lambda>m. DropTable (en_table_name (created_by m))) (rev migrations)"
    using migration_directions(2) by (intro map_cong) simp_all
  also have "\<dots> = map DropTable (map en_table_name (rev (map created_by migrations)))"
    by (simp add: rev_map comp_def)
  finally show ?thesis by (simp add: created_by_all rev_map)
qed

lemma restrict_added: "(f ++ g) |` (- dom g) = f |` (- dom g)"
  by (auto simp: fun_eq_iff restrict_map_def map_add_def split: option.split)

lemma dom_entity_tables: "dom entity_tables = set (map en_table_name entities)"
  by (simp add: entity_tables_def dom_map_of_conv_image_fst image_image)

lemma migrations_distinct:
  assumes "distinct ms" "set ms \<subseteq> set migrations"
  shows "distinct (map en_table_name (map created_by ms))"
proof -
  have "distinct (map (en_table_name \<circ> created_by) migrations)"
    using distinct_tables by (simp add: created_by_all [symmetric])
  then have "inj_on (en_table_name \<circ> created_by) (set migrations)" by (simp add: distinct_map)
  then show ?thesis using assms by (simp add: distinct_map inj_on_subset)
qed

text \<open>The tables of the pending migrations, where they are missing, are the missing tables of the entities.\<close>

lemma pending_tables:
  assumes as_declared: "\<forall>e \<in> set entities. old (en_table_name e) \<in> {None, Some (en_columns e)}"
    and pending: "distinct ms" "set ms \<subseteq> set migrations"
      "\<forall>m \<in> set migrations - set ms. old (en_table_name (created_by m)) \<noteq> None"
  shows "map_of (map (\<lambda>t. (en_table_name t, en_columns t)) (map created_by ms)) ++ old = old ++ entity_tables"
proof
  fix n
  let ?row = "\<lambda>t. (en_table_name t, en_columns t)" and ?made = "map_of (map (\<lambda>t. (en_table_name t, en_columns t)) (map created_by ms))"
  show "(?made ++ old) n = (old ++ entity_tables) n"
  proof (cases "entity_tables n")
    case None
    then have "n \<notin> en_table_name ` set (map created_by migrations)"
      using created_by_all by (simp add: entity_tables_def map_of_eq_None_iff comp_def flip: set_map)
    then have "?made n = None" using pending(2) by (auto simp: map_of_eq_None_iff)
    then show ?thesis using None by (simp add: map_add_def split: option.split)
  next
    case (Some cs)
    then have "(n, cs) \<in> set (map ?row entities)" unfolding entity_tables_def by (rule map_of_SomeD)
    then obtain e where e: "e \<in> set entities" "n = en_table_name e" "cs = en_columns e" by auto
    then obtain m where m: "m \<in> set migrations" "e = created_by m" by (auto simp: created_by_all [symmetric])
    have "?made n = Some cs" if "old n = None"
    proof (rule map_of_is_SomeI)
      have "m \<in> set ms" using that pending(3) m e(2) by blast
      then show "(n, cs) \<in> set (map ?row (map created_by ms))" using m(2) e(2, 3) by simp
    qed (use migrations_distinct [OF pending(1, 2)] in \<open>simp add: comp_def\<close>)
    moreover have "old n \<in> {None, Some cs}" using as_declared e by simp
    ultimately show ?thesis using Some by (auto simp: map_add_def split: option.split)
  qed
qed

text \<open>C38: the migrated schema is the one the entities declare.  From a database in which each table of an entity is
  missing or as declared, and in which the table of every migration that is not pending exists, running the
  pending migrations, in any order, leaves exactly the declared tables beside what was there; all their ways
  back then remove exactly these, so that the names written out in them are the entities' names.  The schema
  the tests are run on is the same.\<close>

theorem migrated_schema:
  assumes laws: "schema_laws ex tables"
    and as_declared: "\<forall>e \<in> set entities. tables db (en_table_name e) \<in> {None, Some (en_columns e)}"
    and pending: "distinct ms" "set ms \<subseteq> set migrations"
      "\<forall>m \<in> set migrations - set ms. tables db (en_table_name (created_by m)) \<noteq> None"
    and up: "execute_all ex (map mi_up ms) db = (Inr u, db1)"
  shows "tables db1 = tables db ++ entity_tables \<and>
    (case execute_all ex (map mi_down (rev migrations)) db1 of
       (Inl _, _) \<Rightarrow> True
     | (Inr _, db2) \<Rightarrow> tables db2 = tables db |` (- dom entity_tables)) \<and>
    (case create_test_schema ex test of
       (Inl _, _) \<Rightarrow> True
     | (Inr _, test') \<Rightarrow> tables test' = tables test ++ entity_tables)"
proof (intro conjI)
  note dist = migrations_distinct [OF pending(1, 2)]
  have "tables db1 = map_of (map (\<lambda>t. (en_table_name t, en_columns t)) (map created_by ms)) ++ tables db"
    using schema_laws.create_all_missing [OF laws up [unfolded migrations_up [OF pending(2)]] dist] .
  then show db1: "tables db1 = tables db ++ entity_tables"
    using pending_tables [OF as_declared pending] by simp
  show "case execute_all ex (map mi_down (rev migrations)) db1 of
      (Inl _, _) \<Rightarrow> True | (Inr _, db2) \<Rightarrow> tables db2 = tables db |` (- dom entity_tables)"
    using schema_laws.drop_all [OF laws, where db = db1 and ns = "rev (map en_table_name entities)"]
    unfolding migrations_down set_rev dom_entity_tables [symmetric] db1 restrict_added by (auto split: prod.split sum.split)
  show "case create_test_schema ex test of
      (Inl _, _) \<Rightarrow> True | (Inr _, test') \<Rightarrow> tables test' = tables test ++ entity_tables"
    using schema_laws.create_all_new(1) [OF laws, where db = test and ts = entities]
    by (auto simp: create_test_schema_def entity_tables_def entities_def create_table_from_entity_def
        split: prod.split sum.split)
qed

text \<open>A second start, and a start on a database that an older version left behind.\<close>

lemma mem_up:
  "execute_all mem_execute (map mi_up migrations) [] = (Inr (), map (\<lambda>e. (en_table_name e, en_columns e)) entities)"
  by (simp add: migrations_def migration_defs entities_def if_not_exists_def create_table_from_entity_def entity_defs)

theorem migrated_schema_witness:
  "\<exists>db. execute_all mem_execute (map mi_up migrations) [] = (Inr (), db) \<and> map_of db = entity_tables"
proof -
  note mem_up
  moreover have "map_of (map (\<lambda>e. (en_table_name e, en_columns e)) entities) = Map.empty ++ entity_tables"
    using migrated_schema [OF mem_schema.schema_laws_axioms _ _ _ _ mem_up] distinct_tables
    by (simp add: created_by_all [symmetric] distinct_map)
  ultimately show ?thesis by simp
qed

section \<open>Limits\<close>

definition column_type :: "entity \<Rightarrow> string \<Rightarrow> field_type option" where
  "column_type e n = map_option co_type (find (\<lambda>c. co_name c = n) (en_columns e))"

text \<open>The limits that the creation of a job checks are beyond what its table holds.  \<open>capacity\<close> is the longest
  string a column holds; the values are those of the production database for the types that the entity
  library chooses for the two kinds of string.\<close>

theorem job_limits_exceed_columns:
  fixes capacity :: "field_type \<Rightarrow> nat"
  assumes "capacity StringField = 255" "capacity TextField = 65535"
  shows "map_option capacity (column_type job_entity ''bundle'') = Some 255 \<and> 255 < MAX_BUNDLE_LEN \<and>
    map_option capacity (column_type job_entity ''parameters'') = Some 65535 \<and> 65535 < MAX_PARAMETERS_LEN"
  using assms
  by (simp add: column_type_def job_entity_def primary_key_def field_def MAX_BUNDLE_LEN_def MAX_PARAMETERS_LEN_def)

end
