(* ===== verification/Http_Dispatch.thy ===== *)
theory Http_Dispatch
  imports Server_Runs Connection_Stays
begin

text \<open>
  The service of one HTTP request, from the socket to the answer: the layers and routes of
  \<open>create_router\<close> (\<open>src/http/server.rs\<close>), the extractors in the order in which the handlers of
  \<open>src/http/job.rs\<close> and \<open>src/http/file.rs\<close> name them, and the handler.  The web framework is not part of the repository: its parsers are fields of \<open>http_libs\<close>, the
  verdict of the rate limiter is a field of \<open>request_env\<close>, and an unknown path or method, a \<open>HEAD\<close>
  request and an \<open>OPTIONS\<close> request are answered as the framework documents it.  The theorems say which requests are refused and what no
  request can do to a cluster that its sender has no claim to.
\<close>

section \<open>Requests and what serves them\<close>

text \<open>Besides the methods that have routes a request may be \<open>HEAD\<close>, which the framework gives to the
  handler of \<open>GET\<close>, or \<open>OPTIONS\<close>, which has no route.\<close>

datatype request_method = Method http_method | HEAD | OPTIONS

fun routed_method :: "request_method \<Rightarrow> http_method option" where
  "routed_method (Method m) = Some m"
| "routed_method HEAD = Some GET"
| "routed_method OPTIONS = None"

lemma request_method_cases:
  obtains "m = Method POST" | "m = Method GET" | "m = Method PATCH" | "m = Method DELETE" | "m = Method PUT"
    | "m = HEAD" | "m = OPTIONS"
  by (cases m rule: request_method.exhaust; metis http_method.exhaust)

text \<open>\<open>hq_peer\<close> is the peer address among the extensions of the request, \<open>hq_body\<close> what its stream yields.\<close>

record http_request =
  hq_method :: request_method
  hq_path :: string
  hq_query :: "string option"
  hq_authorization :: "string option"
  hq_content_length :: "string option"
  hq_peer :: "string option"
  hq_body :: "(string + bytes) list"

record 'p http_libs =
  lib_decode :: "string \<Rightarrow> string \<Rightarrow> 'p option"
  lib_user_claim :: "'p \<Rightarrow> i64 option"
  lib_from_timestamp :: "i64 \<Rightarrow> int option"
  lib_create_job :: "bytes \<Rightarrow> string + create_job_request"
  lib_job_id :: "bytes \<Rightarrow> string + u64"
  lib_job_query :: "string option \<Rightarrow> string + job_query_params"
  lib_create_download :: "bytes \<Rightarrow> string + create_file_download_request"
  lib_download_query :: "string option \<Rightarrow> string + file_download_query"
  lib_file_list :: "bytes \<Rightarrow> string + file_list_request"
  lib_upload_query :: "string option \<Rightarrow> string + file_upload_query"
  lib_to_bytes :: "u64 \<Rightarrow> (string + bytes) list \<Rightarrow> string + bytes"

text \<open>What the request meets: the verdict of the rate limiter for a peer, the clock, the random
  identifiers drawn for it, and what the rest of the program does while it waits.\<close>

record 'db request_env =
  rq_governor :: "string option \<Rightarrow> http_error option"
  rq_now :: int
  rq_expiry :: u64
  rq_uuid :: string
  rq_stamp :: "nat \<Rightarrow> string \<times> int"
  rq_others :: "'db manager \<Rightarrow> 'db manager"
  rq_waits :: "'db http_state \<Rightarrow> 'db http_state"
  rq_timed_out :: bool
  rq_upload :: "'db upload_env"

datatype answer =
    JobIdAnswer int
  | JobsAnswer "job_view list"
  | CreatedAnswer created_ids
  | DownloadAnswer download_response
  | FilesAnswer "file_info list"
  | UploadAnswer string
  | PreflightAnswer

definition NOT_FOUND :: nat where "NOT_FOUND = 404"
definition METHOD_NOT_ALLOWED :: nat where "METHOD_NOT_ALLOWED = 405"

section \<open>Extractors\<close>

definition header_text :: "string option \<Rightarrow> string option" where
  "header_text header =
     (case header of None \<Rightarrow> None | Some v \<Rightarrow> if list_all visible_ascii v then Some v else None)"

definition authorize :: "'p http_libs \<Rightarrow> access_secret list \<Rightarrow> http_request \<Rightarrow> http_error + 'p auth_result" where
  "authorize libs secrets rq =
     auth_from_request (lib_decode libs) secrets (header_text (hq_authorization rq))"

definition json_body :: "(bytes \<Rightarrow> string + 'a) \<Rightarrow> http_request \<Rightarrow> http_error + 'a" where
  "json_body parse rq = from_request parse (hq_body rq)"

definition query_params :: "(string option \<Rightarrow> string + 'a) \<Rightarrow> http_request \<Rightarrow> http_error + 'a" where
  "query_params parse rq = map_sum (\<lambda>e. (BAD_REQUEST, e)) id (parse (hq_query rq))"

text \<open>An extractor that fails answers the request; the handler runs on what the extractors yield.\<close>

type_synonym 'db responder = "'db http_state \<Rightarrow> (http_error + answer) \<times> 'db http_state"

definition extracting :: "http_error + 'a \<Rightarrow> ('a \<Rightarrow> 'db responder) \<Rightarrow> 'db responder" where
  "extracting x k hs = (case x of Inl e \<Rightarrow> (Inl e, hs) | Inr v \<Rightarrow> k v hs)"

definition answering :: "('r \<Rightarrow> answer) \<Rightarrow> ('db manager \<Rightarrow> (http_error + 'r) \<times> 'db manager) \<Rightarrow> 'db responder" where
  "answering wrap f hs =
     (let (res, mg) = f (hs_manager hs) in (map_sum id wrap res, hs\<lparr>hs_manager := mg\<rparr>))"

section \<open>The routes\<close>

text \<open>The body of an upload is collected up to one byte more than announced.\<close>

definition upload_env_for :: "'p http_libs \<Rightarrow> http_request \<Rightarrow> 'db upload_env \<Rightarrow> 'db upload_env" where
  "upload_env_for libs rq ue =
     (case content_length_of (hq_content_length rq) of
        None \<Rightarrow> ue
      | Some n \<Rightarrow> ue\<lparr>ue_body := lib_to_bytes libs (if n = -1 then n else n + 1) (hq_body rq)\<rparr>)"

fun handle_endpoint ::
    "'db database \<Rightarrow> 'p http_libs \<Rightarrow> access_secret list \<Rightarrow> 'db request_env \<Rightarrow> http_request \<Rightarrow> endpoint \<Rightarrow>
     'db responder" where
  "handle_endpoint D libs secrets env rq EpCreateJob =
     extracting (authorize libs secrets rq) (\<lambda>auth. extracting (json_body (lib_create_job libs) rq) (\<lambda>body.
       answering (\<lambda>jid. JobIdAnswer (sint jid))
         (create_job D (lib_user_claim libs) (rq_now env) auth body)))"
| "handle_endpoint D libs secrets env rq EpGetJobs =
     extracting (authorize libs secrets rq) (\<lambda>auth. extracting (query_params (lib_job_query libs) rq) (\<lambda>params.
       answering JobsAnswer (\<lambda>mg. (get_jobs D (lib_from_timestamp libs) auth params mg, mg))))"
| "handle_endpoint D libs secrets env rq EpCancelJob =
     extracting (authorize libs secrets rq) (\<lambda>auth. extracting (json_body (lib_job_id libs) rq) (\<lambda>jid.
       answering (\<lambda>jid. JobIdAnswer (uint jid)) (cancel_job D (rq_now env) auth jid)))"
| "handle_endpoint D libs secrets env rq EpDeleteJob =
     extracting (authorize libs secrets rq) (\<lambda>auth. extracting (json_body (lib_job_id libs) rq) (\<lambda>jid.
       answering (\<lambda>jid. JobIdAnswer (uint jid)) (delete_job D (rq_now env) auth jid)))"
| "handle_endpoint D libs secrets env rq EpCreateFileDownload =
     extracting (authorize libs secrets rq) (\<lambda>auth. extracting (json_body (lib_create_download libs) rq) (\<lambda>body.
       answering CreatedAnswer
         (post_file_download D (rq_now env) (rq_expiry env) (rq_stamp env) (lib_user_claim libs) auth body)))"
| "handle_endpoint D libs secrets env rq EpDownloadFile =
     extracting (query_params (lib_download_query libs) rq) (\<lambda>params.
       answering DownloadAnswer
         (download_file D (rq_now env) (rq_expiry env) (rq_uuid env) (rq_others env) (rq_timed_out env) params))"
| "handle_endpoint D libs secrets env rq EpListFiles =
     extracting (authorize libs secrets rq) (\<lambda>auth. extracting (json_body (lib_file_list libs) rq) (\<lambda>body hs.
       (let (res, hs) = list_files D (rq_waits env) (rq_timed_out env) (rq_uuid env) auth body hs
        in (map_sum id FilesAnswer res, hs))))"
| "handle_endpoint D libs secrets env rq EpUploadFile =
     extracting (authorize libs secrets rq) (\<lambda>auth. extracting (query_params (lib_upload_query libs) rq) (\<lambda>params.
       answering UploadAnswer (\<lambda>mg.
         (let (res, sent, mg) = upload_file D (upload_env_for libs rq (rq_upload env)) (rq_uuid env) auth params
                (hq_content_length rq) mg
          in (res, mg)))))"

definition find_route :: "router \<Rightarrow> http_request \<Rightarrow> http_error + endpoint" where
  "find_route rt rq =
     (case map_of (rt_routes rt) (hq_path rq) of
        None \<Rightarrow> Inl (NOT_FOUND, '''')
      | Some methods \<Rightarrow>
          (case Option.bind (routed_method (hq_method rq)) (map_of methods) of
             None \<Rightarrow> Inl (METHOD_NOT_ALLOWED, '''')
           | Some ep \<Rightarrow> Inr ep))"

text \<open>The permissive CORS layer lies over the routes and answers an \<open>OPTIONS\<close> request itself; the rate
  limiter is the outermost layer, and there only if it was configured.  What \<open>serve\<close> gives for a \<open>HEAD\<close>
  request is the answer of the handler: the framework sends its status and drops its body, which for a
  download is the drop of the stream (\<open>File_Stream\<close>).\<close>

definition cors_layer :: "http_request \<Rightarrow> 'db responder \<Rightarrow> 'db responder" where
  "cors_layer rq inner = (if hq_method rq = OPTIONS then Pair (Inr PreflightAnswer) else inner)"

definition rate_limited :: "router \<Rightarrow> 'db request_env \<Rightarrow> http_request \<Rightarrow> http_error + unit" where
  "rate_limited rt env rq =
     (case rt_rate_limit rt of
        None \<Rightarrow> Inr ()
      | Some _ \<Rightarrow> (case rq_governor env (hq_peer rq) of None \<Rightarrow> Inr () | Some e \<Rightarrow> Inl e))"

definition serve ::
    "'db database \<Rightarrow> 'p http_libs \<Rightarrow> access_secret list \<Rightarrow> router \<Rightarrow> 'db request_env \<Rightarrow> http_request \<Rightarrow>
     'db responder" where
  "serve D libs secrets rt env rq =
     extracting (rate_limited rt env rq) (\<lambda>_. cors_layer rq
       (extracting (find_route rt rq) (handle_endpoint D libs secrets env rq)))"

section \<open>Refusals\<close>

definition valid_token :: "'p http_libs \<Rightarrow> access_secret list \<Rightarrow> http_request \<Rightarrow> access_secret \<Rightarrow> bool" where
  "valid_token libs secrets rq s \<longleftrightarrow> s \<in> set secrets \<and>
     (\<exists>h. header_text (hq_authorization rq) = Some h \<and> lib_decode libs (bearer_token h) (as_secret s) \<noteq> None)"

lemma authorize_Inr: "authorize libs secrets rq = Inr a \<Longrightarrow> valid_token libs secrets rq (au_secret a)"
  by (auto simp: authorize_def auth_from_request_def valid_token_def split: option.splits dest!: try_secrets_Inr)

lemma authorize_Inl:
  "authorize libs secrets rq = Inl e \<longleftrightarrow>
     e = (FORBIDDEN, NOT_AUTHORIZED_MSG) \<and> (\<forall>s. \<not> valid_token libs secrets rq s)"
  by (auto simp: authorize_def auth_from_request_def valid_token_def try_secrets_Inl split: option.splits)

lemma extracting_simps [simp]: "extracting (Inl e) k hs = (Inl e, hs)" "extracting (Inr v) k hs = k v hs"
  by (simp_all add: extracting_def)

text \<open>A handler that fails does not answer with the status that is kept for requests without a token.\<close>

definition allowed :: "http_error \<Rightarrow> bool" where
  "allowed e \<longleftrightarrow> fst e \<noteq> FORBIDDEN"

definition answers_ok :: "http_error + 'a \<Rightarrow> bool" where
  "answers_ok res \<longleftrightarrow> (\<forall>e. res = Inl e \<longrightarrow> allowed e)"

named_theorems answers

lemma allowed_simps [simp]:
  "allowed (BAD_REQUEST, m)" "allowed (SERVICE_UNAVAILABLE, m)" "allowed (INTERNAL_SERVER_ERROR, m)"
  "allowed (db_error e)" "allowed too_large" "allowed (NOT_FOUND, m)" "allowed (METHOD_NOT_ALLOWED, m)"
  "allowed (failed_to_read_body_msg s)" "\<not> allowed (FORBIDDEN, m)"
  by (simp_all add: allowed_def FORBIDDEN_def BAD_REQUEST_def SERVICE_UNAVAILABLE_def failed_to_read_body_msg_def
      INTERNAL_SERVER_ERROR_def db_error_def too_large_def PAYLOAD_TOO_LARGE_def NOT_FOUND_def
      METHOD_NOT_ALLOWED_def split: db_err.split)

lemma answers_ok_simps [simp]:
  "answers_ok (Inr v)" "answers_ok (Inl e) \<longleftrightarrow> allowed e" "answers_ok (map_sum id f res) \<longleftrightarrow> answers_ok res"
  by (cases res; simp add: answers_ok_def)+

lemma answers_ok_cases [simp]:
  "answers_ok (x :: http_error + 'a) \<Longrightarrow> (\<And>e. allowed e \<Longrightarrow> answers_ok (f e)) \<Longrightarrow> (\<And>v. answers_ok (k v)) \<Longrightarrow>
     answers_ok (case_sum f k x)"
  "(\<And>e. answers_ok (g e)) \<Longrightarrow> (\<And>v. answers_ok (l v)) \<Longrightarrow> answers_ok (case_sum g l (y :: db_err + 'b))"
  "(\<And>e. answers_ok (g' e)) \<Longrightarrow> (\<And>v. answers_ok (l' v)) \<Longrightarrow> answers_ok (case_sum g' l' (y' :: string + 'c))"
  "answers_ok a \<Longrightarrow> (\<And>v. answers_ok (h v)) \<Longrightarrow> answers_ok (case_option a h z)"
  "answers_ok b \<Longrightarrow> (\<And>v vs. answers_ok (j v vs)) \<Longrightarrow> answers_ok (case_list b j w)"
  by (auto simp: answers_ok_def split: sum.split option.split list.split)

lemma fst_cases: "fst (case_sum f k x) = case_sum (\<lambda>e. fst (f e)) (\<lambda>v. fst (k v)) x"
  "fst (case_option p h z) = case_option (fst p) (\<lambda>v. fst (h v)) z"
  "fst (case_list q j w) = case_list (fst q) (\<lambda>v vs. fst (j v vs)) w"
  "fst (if c then s else u) = (if c then fst s else fst u)"
  by (auto split: sum.split option.split list.split)

lemma job_answers [answers]:
  "answers_ok (job_id_to_u32 i)" "answers_ok (get_latest_job_history D db jid)"
  "answers_ok (get_job_with_access_check D db auth jid)"
  by (simp_all add: job_id_to_u32_def get_latest_job_history_def get_job_with_access_check_def
      split: list.split)

lemma load_answers [answers]: "answers_ok (load_job_for_transition D auth jid invalid mg)"
  by (simp add: load_job_for_transition_def answers)

lemma transition_answers [answers]:
  "answers_ok (fst (record_job_transition D now r j jid cur ts td ims imd wid mg))"
  by (simp add: record_job_transition_def case_prod_beta fst_cases Let_def answers)

lemma create_answers [answers]: "answers_ok (fst (create_job D claim now auth body mg))"
proof -
  have "answers_ok (fst (submit_job D now jid body r mg))" for jid r and mg
    by (simp add: submit_job_def case_prod_beta fst_cases Let_def answers)
  then show ?thesis
    by (simp add: create_job_def case_prod_beta fst_cases Let_def)
qed

lemma cancel_delete_answers [answers]:
  "answers_ok (fst (cancel_job D now auth jid mg))" "answers_ok (fst (delete_job D now auth jid mg))"
  by (simp_all add: cancel_job_def delete_job_def case_prod_beta fst_cases answers)

lemma get_jobs_answers [answers]: "answers_ok (get_jobs D from_timestamp auth params mg)"
proof -
  have "answers_ok (list_jobs D P qs db)" for P qs db
    by (simp add: list_jobs_def)
  then show ?thesis by (simp add: get_jobs_def)
qed

lemma resolve_answers [answers]: "answers_ok (resolve_cluster_bundle D auth jid c b mg)"
proof -
  have "answers_ok (resolve_cluster_bundle_for_file_list D auth jid mg)"
    by (simp add: resolve_cluster_bundle_for_file_list_def answers)
  then show ?thesis by (simp add: resolve_cluster_bundle_def)
qed

lemma post_download_answers [answers]:
  "answers_ok (fst (post_file_download D now expiry stamp claim auth body mg))"
proof -
  have "answers_ok (requested_paths body)" by (simp add: requested_paths_def)
  then show ?thesis
    by (simp add: post_file_download_def case_prod_beta fst_cases Let_def answers)
qed

lemma online_answers [answers]: "answers_ok (get_online_cluster mg name)"
  by (simp add: get_online_cluster_def)

lemma request_download_answers [answers]: "answers_ok (fst (request_download uid force dl r mg))"
  by (simp add: request_download_def case_prod_beta fst_cases Let_def answers)

lemma download_answers [answers]:
  "answers_ok (fst (download_file D now expiry uid others timed_out params mg))"
proof -
  have "answers_ok (fst (download_begin D now expiry uid params mg))"
    by (simp add: download_begin_def fst_cases Let_def answers)
  moreover have "answers_ok (fst (download_respond w timed_out (others mg)))" for w mg
    by (simp add: download_respond_def fst_cases Let_def)
  ultimately show ?thesis
    by (simp add: download_file_def case_prod_beta fst_cases)
qed

lemma list_answers [answers]: "answers_ok (fst (list_files D waits timed_out uid auth body hs))"
proof -
  have "answers_ok (fst (request_file_list waits timed_out uid r bu jid path recursive hs))"
    for r bu jid path recursive hs
    by (simp add: request_file_list_def fst_cases Let_def answers)
  then have "answers_ok (fst (live_list D waits timed_out uid complete body jid cluster bu hs))"
    for complete jid cluster bu hs
    by (simp add: live_list_def case_prod_beta fst_cases answers)
  moreover have "answers_ok (job_complete D jid db)" "answers_ok (cached_list D complete jid db)" for jid db complete
    by (simp_all add: job_complete_def cached_list_def)
  ultimately show ?thesis
    by (simp add: list_files_def case_prod_beta fst_cases Let_def answers)
qed

lemma check_upload_answers [answers]: "answers_ok (check_upload_error up mg)"
  by (simp add: check_upload_error_def)

lemma upload_chunks_answers [answers]: "answers_ok (fst (upload_chunks ue uid up body i n mg))"
proof (induction ue uid up body i n mg rule: upload_chunks.induct)
  case (1 ue uid up body i total mg)
  let ?mg = "ue_others ue i mg"
  note unfold = upload_chunks.simps [of ue uid up body i total mg]
  show ?case
  proof (cases "total < length body \<and> drained ue False (ue_views ue i) up mg \<and> check_upload_error up ?mg = Inr ()")
    case True
    then have d: "\<not> \<not> drained ue False (ue_views ue i) up mg" by simp
    show ?thesis
      using "1.IH" [OF conjunct1 [OF True] refl refl d _ refl refl refl] True
      by (subst unfold) (simp add: case_prod_beta Let_def)
  next
    case False
    then show ?thesis
      by (subst unfold) (auto simp: check_upload_error_def Let_def)
  qed
qed

lemma request_upload_answers [answers]: "answers_ok (fst (request_upload uid msg n r mg))"
  by (simp add: request_upload_def case_prod_beta fst_cases Let_def)

lemma upload_answers [answers]: "answers_ok (fst (upload_file D ue uid auth params header mg))"
proof -
  have finish: "answers_ok (fst (upload_finish ue uid up mg))" for up and mg
    by (simp add: upload_finish_def fst_cases Let_def answers)
  have body: "answers_ok (fst (upload_body ue uid up n mg))" for up n and mg
    using finish by (simp add: upload_body_def case_prod_beta fst_cases Let_def answers)
  have "answers_ok (fst (upload_begin D uid auth params header mg))"
    by (simp add: upload_begin_def case_prod_beta fst_cases Let_def answers)
  then show ?thesis
    using body by (simp add: upload_file_def case_prod_beta fst_cases)
qed

lemma extractor_answers [answers]: "answers_ok (json_body parse rq)" "answers_ok (query_params parse' rq)"
proof -
  have "answers_ok (read_body_limited limit [] body)" for limit and body :: "(string + bytes) list"
    by (simp add: body_limit_exact)
  then show "answers_ok (json_body parse rq)" by (simp add: json_body_def from_request_def)
  show "answers_ok (query_params parse' rq)"
    by (cases "parse' (hq_query rq)") (simp_all add: query_params_def)
qed

lemma extracting_answers:
  "answers_ok x \<Longrightarrow> (\<And>v. answers_ok (fst (k v hs))) \<Longrightarrow> answers_ok (fst (extracting x k hs))"
  by (simp add: extracting_def fst_cases)

lemma answering_fst [simp]: "fst (answering wrap f hs) = map_sum id wrap (fst (f (hs_manager hs)))"
  by (simp add: answering_def case_prod_beta)

lemma endpoint_answers:
  "authorize libs secrets rq = Inr auth \<or> ep = EpDownloadFile \<Longrightarrow>
     answers_ok (fst (handle_endpoint D libs secrets env rq ep hs))"
  by (cases ep) (auto intro!: extracting_answers simp: answers case_prod_beta)

lemma endpoint_refused:
  "authorize libs secrets rq = Inl e \<Longrightarrow> ep \<noteq> EpDownloadFile \<Longrightarrow>
     handle_endpoint D libs secrets env rq ep hs = (Inl e, hs)"
  by (cases ep) simp_all

lemma find_route_answers: "answers_ok (find_route rt rq)"
  by (simp add: find_route_def)

lemma find_route_options: "find_route rt rq = Inr ep \<Longrightarrow> hq_method rq \<noteq> OPTIONS"
  by (auto simp: find_route_def split: option.splits)

text \<open>C15: who is refused.  A request that the rate limiter lets through is answered 403 exactly when its
  path and method lead to one of the handlers other than the download of a file, and it carries no
  token that is valid under a configured secret; then nothing at all has changed.  A download needs no
  token, its file id is its credential, and no handler refuses a request this way for another reason.\<close>

theorem unauthorised_exact:
  assumes "rate_limited rt env rq = Inr ()"
  shows "if (\<exists>ep. find_route rt rq = Inr ep \<and> ep \<noteq> EpDownloadFile) \<and> (\<forall>s. \<not> valid_token libs secrets rq s)
    then serve D libs secrets rt env rq hs = (Inl (FORBIDDEN, NOT_AUTHORIZED_MSG), hs)
    else \<forall>m. fst (serve D libs secrets rt env rq hs) \<noteq> Inl (FORBIDDEN, m)"
proof (cases "find_route rt rq")
  case (Inl e)
  then have "allowed e" using find_route_answers [of rt rq] by simp
  then show ?thesis using assms Inl by (auto simp: serve_def cors_layer_def)
next
  case (Inr ep)
  have out: "serve D libs secrets rt env rq hs = handle_endpoint D libs secrets env rq ep hs"
    using assms Inr find_route_options [OF Inr] by (simp add: serve_def cors_layer_def)
  show ?thesis
  proof (cases "(\<exists>a. authorize libs secrets rq = Inr a) \<or> ep = EpDownloadFile")
    case True
    then have "answers_ok (fst (serve D libs secrets rt env rq hs))" unfolding out using endpoint_answers by blast
    then have "\<forall>m. fst (serve D libs secrets rt env rq hs) \<noteq> Inl (FORBIDDEN, m)" by (auto simp: answers_ok_def)
    moreover have "ep = EpDownloadFile \<or> (\<exists>s. valid_token libs secrets rq s)" using True authorize_Inr by blast
    ultimately show ?thesis using Inr by auto
  next
    case False
    then have "authorize libs secrets rq = Inl (FORBIDDEN, NOT_AUTHORIZED_MSG)" "\<forall>s. \<not> valid_token libs secrets rq s"
      by (cases "authorize libs secrets rq"; auto simp: authorize_Inl)+
    then show ?thesis using Inr False out endpoint_refused by auto
  qed
qed

section \<open>A request is an event of the server\<close>

lemma answering_on_manager: "snd (answering wrap f hs) = on_manager (\<lambda>mg. snd (f mg)) hs"
  by (simp add: answering_def on_manager_def case_prod_beta)

lemma on_manager_id [simp]: "on_manager (\<lambda>mg. mg) hs = hs"
  by (simp add: on_manager_def)

lemma extracting_snd: "snd (extracting x k hs) = (case x of Inl e \<Rightarrow> hs | Inr v \<Rightarrow> snd (k v hs))"
  by (simp add: extracting_def split: sum.split)

text \<open>So what holds in every state the program can reach holds between any two requests, too.\<close>

lemma serve_event:
  fixes env :: "'db request_env"
  assumes "behaves D (rq_others env)" "behaves_http D (rq_waits env)" "upload_behaves D (rq_upload env)"
    and "map_of (mg_downloads (hs_manager hs)) (rq_uuid env) = None"
    and changed: "snd (serve D libs secrets rt env rq hs) \<noteq> hs"
  shows "server_event D (lib_user_claim libs) hs (snd (serve D libs secrets rt env rq hs))"
proof -
  obtain ep where ep: "snd (serve D libs secrets rt env rq hs) = snd (handle_endpoint D libs secrets env rq ep hs)"
    using changed by (auto simp: serve_def cors_layer_def extracting_snd split: sum.splits if_splits)
  have "upload_behaves D (upload_env_for libs rq (rq_upload env))"
    using assms(3) by (simp add: upload_behaves_def upload_env_for_def split: option.split)
  note intros = server_event.intros [where D = D and claim = "lib_user_claim libs"] this assms(1-4)
  have "snd (handle_endpoint D libs secrets env rq ep hs) = hs \<or>
      server_event D (lib_user_claim libs) hs (snd (handle_endpoint D libs secrets env rq ep hs))"
    by (cases ep) (auto simp: extracting_snd answering_on_manager case_prod_beta intro: intros split: sum.split)
  then show ?thesis using changed ep by simp
qed

section \<open>The clusters are those of the configuration\<close>

text \<open>No two names of the registry share a cluster.\<close>

definition one_name_each :: "'db manager \<Rightarrow> bool" where
  "one_name_each mg \<longleftrightarrow>
     (\<forall>a b r. map_of (mg_clusters mg) a = Some r \<longrightarrow> map_of (mg_clusters mg) b = Some r \<longrightarrow> a = b) \<and>
     (\<forall>a r. map_of (mg_clusters mg) a = Some r \<longrightarrow> r < mg_next mg)"

lemma register_configs_names: "one_name_each mg \<Longrightarrow> one_name_each (register_configs cfgs mg)"
proof (induction cfgs arbitrary: mg)
  case (Cons cfg cfgs)
  let ?mg = "mg\<lparr>mg_cluster_heap := (mg_cluster_heap mg)(mg_next mg := cluster_new cfg True),
      mg_clusters := AList.update (cc_name cfg) (mg_next mg) (mg_clusters mg), mg_next := mg_next mg + 1\<rparr>"
  have "one_name_each ?mg"
    using Cons.prems by (auto simp: one_name_each_def map_of_update less_SucI)
  then show ?case using Cons.IH [of ?mg] by (simp add: Let_def)
qed simp

lemma reachable_names:
  assumes "server_reachable D mg" "map_of (mg_clusters mg) a = Some r" "map_of (mg_clusters mg) b = Some r"
  shows "a = b"
proof -
  obtain cfgs db where "server_run D (manager_new cfgs db) mg" using assms(1) by (auto simp: server_reachable_def)
  then have "mg_clusters mg = mg_clusters (manager_new cfgs db)" by (rule run_clusters)
  moreover have "one_name_each (manager_new cfgs db)"
    unfolding manager_new_def by (rule register_configs_names) (simp add: one_name_each_def)
  ultimately show ?thesis using assms(2, 3) by (simp add: one_name_each_def)
qed

section \<open>What a request cannot touch\<close>

text \<open>The cluster \<open>r\<close> is the one called \<open>name\<close>, under this name only, and not that of a download; so it is
  for every registered cluster of a reachable state.\<close>

definition apart :: "string \<Rightarrow> nat \<Rightarrow> 'db manager \<Rightarrow> bool" where
  "apart name r mg \<longleftrightarrow>
     map_of (mg_clusters mg) name = Some r \<and> (\<forall>a. map_of (mg_clusters mg) a = Some r \<longrightarrow> a = name) \<and>
     r < mg_next mg \<and> (\<forall>s. map_of (mg_download_clusters mg) s \<noteq> Some r)"

lemma reachable_apart:
  assumes "server_reachable D mg" "map_of (mg_clusters mg) name = Some r"
  shows "apart name r mg"
proof -
  have ok: "clusters_ok mg" "transfers_ok mg"
    using reachable_ok [OF assms(1)] by (simp_all add: registry_ok_def registry_core_def registry_base_def)
  have "r < mg_next mg \<and> role_of mg r = Master"
    using ok(1) map_of_SomeD [OF assms(2)] by (auto simp: clusters_ok_def)
  moreover have "map_of (mg_download_clusters mg) s \<noteq> Some r" for s
    using ok(2) calculation by (auto simp: transfers_ok_def)
  ultimately show ?thesis using assms reachable_names [OF assms(1)] by (auto simp: apart_def)
qed

definition kept :: "string \<Rightarrow> nat \<Rightarrow> 'db manager \<Rightarrow> 'db manager \<Rightarrow> bool" where
  "kept name r mg mg' \<longleftrightarrow> apart name r mg' \<and> mg_cluster_heap mg' r = mg_cluster_heap mg r"

definition spares :: "string \<Rightarrow> nat \<Rightarrow> ('db manager \<Rightarrow> 'db manager) \<Rightarrow> bool" where
  "spares name r f \<longleftrightarrow> (\<forall>mg. apart name r mg \<longrightarrow> kept name r mg (f mg))"

definition spares_http :: "string \<Rightarrow> nat \<Rightarrow> ('db http_state \<Rightarrow> 'db http_state) \<Rightarrow> bool" where
  "spares_http name r f \<longleftrightarrow>
     (\<forall>hs. apart name r (hs_manager hs) \<longrightarrow> kept name r (hs_manager hs) (hs_manager (f hs)))"

named_theorems keeps

lemma kept_refl [keeps]: "apart name r mg \<Longrightarrow> kept name r mg mg"
  by (simp add: kept_def)

lemma kept_apart: "kept name r mg mg' \<Longrightarrow> apart name r mg'"
  by (simp add: kept_def)

lemma kept_trans: "kept name r mg mg1 \<Longrightarrow> kept name r mg1 mg2 \<Longrightarrow> kept name r mg mg2"
  by (simp add: kept_def)

lemma kept_by: "spares name r f \<Longrightarrow> kept name r mg mg1 \<Longrightarrow> kept name r mg (f mg1)"
  using kept_trans by (auto simp: spares_def kept_def)

lemma kept_cluster: "kept name r mg mg1 \<Longrightarrow> x \<noteq> r \<Longrightarrow> kept name r mg (with_cluster x f mg1)"
  by (simp add: kept_def apart_def with_cluster_def)

lemma kept_store [keeps]: "kept name r mg mg1 \<Longrightarrow> kept name r mg (mg1\<lparr>mg_db := db\<rparr>)"
  by (simp add: kept_def apart_def)

lemma kept_fire [keeps]: "kept name r mg mg1 \<Longrightarrow> kept name r mg (fire_guard guard reason mg1)"
  by (simp add: kept_def apart_def fire_guard_def trigger_session_def case_prod_beta Let_def split: option.split)

lemma kept_remove_upload [keeps]: "kept name r mg mg1 \<Longrightarrow> kept name r mg (remove_file_upload uid mg1)"
  by (simp add: kept_def apart_def remove_file_upload_def)

lemma kept_create:
  "kept name r mg mg1 \<Longrightarrow> kept name r mg (snd (create_file_download x uid mg1))"
  "kept name r mg mg1 \<Longrightarrow> kept name r mg (snd (create_file_upload x uid mg1))"
  "kept name r mg mg1 \<Longrightarrow> \<not> mg_shutdown mg1 \<Longrightarrow> fst (create_file_upload x uid mg1) \<noteq> r"
  by (auto simp: kept_def apart_def create_file_download_def create_file_upload_def Let_def map_of_update)

lemma other_cluster:
  "apart name r mg \<Longrightarrow> map_of (mg_clusters mg) a = Some x \<Longrightarrow> a \<noteq> name \<Longrightarrow> x \<noteq> r"
  by (auto simp: apart_def)

subsection \<open>Jobs\<close>

lemma create_job_keeps:
  assumes "apart name r mg" "name \<notin> set (as_clusters (au_secret auth))"
  shows "kept name r mg (snd (create_job D claim now auth body mg))"
proof -
  have "kept name r mg (snd (submit_job D now jid body x (mg\<lparr>mg_db := db\<rparr>)))" if "x \<noteq> r" for jid x db
    using assms(1) that
    by (simp add: submit_job_def case_prod_beta Let_def keeps kept_cluster split: sum.split)
  moreover have "x \<noteq> r" if "map_of (mg_clusters mg) (cr_cluster body) = Some x"
      "cr_cluster body \<in> set (as_clusters (au_secret auth))" for x
    using other_cluster [OF assms(1) that(1)] that(2) assms(2) by auto
  ultimately show ?thesis
    using assms(1)
    by (simp add: create_job_def case_prod_beta Let_def keeps split: option.split sum.split)
qed

lemma load_job_cluster:
  assumes "load_job_for_transition D auth jid invalid mg = Inr (j, x, st)"
  shows "map_of (mg_clusters mg) (job_cluster j) = Some x \<and> job_cluster j \<in> set (as_clusters (au_secret auth))"
  using assms
  by (auto simp: load_job_for_transition_def get_job_with_access_check_def
      split: sum.splits option.splits if_splits)

lemma cancel_delete_keeps:
  assumes "apart name r mg" "name \<notin> set (as_clusters (au_secret auth))"
  shows "kept name r mg (snd (cancel_job D now auth jid mg))" "kept name r mg (snd (delete_job D now auth jid mg))"
proof -
  have x: "x \<noteq> r" if "load_job_for_transition D auth jid invalid mg = Inr (j, x, st)" for invalid j x st
    using load_job_cluster [OF that] other_cluster [OF assms(1)] assms(2) by blast
  have "kept name r mg (snd (record_job_transition D now x j jid cur ts td ims imd wid mg))" if "x \<noteq> r"
    for x j cur ts td ims imd wid
    using assms(1) that
    by (simp add: record_job_transition_def case_prod_beta Let_def keeps kept_cluster split: sum.split option.split)
  then show "kept name r mg (snd (cancel_job D now auth jid mg))" "kept name r mg (snd (delete_job D now auth jid mg))"
    using x assms(1)
    by (simp_all add: cancel_job_def delete_job_def case_prod_beta keeps split: sum.split)
qed

subsection \<open>Files\<close>

lemma resolved_cluster:
  "resolve_cluster_bundle D auth jid c b mg = Inr (cluster, bu) \<Longrightarrow> cluster \<in> set (as_clusters (au_secret auth))"
  by (auto simp: resolve_cluster_bundle_def resolve_cluster_bundle_for_file_list_def
      split: sum.splits option.splits if_splits)

lemma post_download_keeps:
  "apart name r mg \<Longrightarrow> kept name r mg (snd (post_file_download D now expiry stamp claim auth body mg))"
  by (simp add: post_file_download_def case_prod_beta Let_def keeps split: sum.split)

lemma request_download_keeps:
  assumes "apart name r mg" "x \<noteq> r" "request_download uid force dl x mg = (res, mg')"
  shows "kept name r mg mg' \<and> (\<forall>w. res = Inr w \<longrightarrow> dw_owner w \<noteq> r)"
proof -
  define mg1 where "mg1 = snd (create_file_download x uid mg)"
  have mg1: "kept name r mg mg1" unfolding mg1_def by (rule kept_create) (rule kept_refl [OF assms(1)])
  have owner: "download_owner uid m \<noteq> Some r" if "apart name r m" for m :: "'a manager"
    using that by (auto simp: apart_def download_owner_def split: option.splits if_splits)
  have sent: "kept name r mg (with_cluster x (send_message m) mg1)" for m using mg1 assms(2) by (rule kept_cluster)
  show ?thesis
    using assms(3) mg1 sent owner [OF kept_apart [OF sent]]
    by (auto simp: request_download_def mg1_def [symmetric] case_prod_beta Let_def keeps
        split: sum.splits option.splits)
qed

lemma download_begin_record:
  assumes laws: "download_table_laws D rows" and out: "download_begin D now expiry uid params mg = (res, mg')"
  defines "mg1 \<equiv> mg\<lparr>mg_db := purge_expired_file_downloads D now expiry (mg_db mg)\<rparr>"
  obtains (refused) "mg' = mg \<or> mg' = mg1" "isl res"
  | (found) force dl x where "request_download uid force dl x mg1 = (res, mg')"
      "fq_file_id params = Some (fdr_uuid dl)" "dl \<in> set (rows (mg_db mg1))"
      "map_of (mg_clusters mg) (fdr_cluster dl) = Some x"
proof (cases "\<exists>f dl x. non_empty (fq_file_id params) = Some f \<and> \<not> mg_shutdown mg \<and>
    tb_one (db_file_downloads D) (mg_db mg1) (\<lambda>d. fdr_uuid d = f) = Inr (Some dl) \<and>
    get_online_cluster mg1 (fdr_cluster dl) = Inr x")
  case True
  then obtain f dl x where f: "non_empty (fq_file_id params) = Some f" "\<not> mg_shutdown mg"
    "tb_one (db_file_downloads D) (mg_db mg1) (\<lambda>d. fdr_uuid d = f) = Inr (Some dl)"
    "get_online_cluster mg1 (fdr_cluster dl) = Inr x" by blast
  show thesis
  proof (rule found [of "force_flag (fq_force_download params)" dl x])
    show "request_download uid (force_flag (fq_force_download params)) dl x mg1 = (res, mg')"
      using out f by (simp add: download_begin_def mg1_def [symmetric] Let_def)
    show "fq_file_id params = Some (fdr_uuid dl)" "dl \<in> set (rows (mg_db mg1))"
      using f(1) table_laws.one_row [OF laws f(3)] by (auto simp: non_empty_def split: option.splits if_splits)
    show "map_of (mg_clusters mg) (fdr_cluster dl) = Some x"
      using f(4) by (simp add: get_online_cluster_Inr mg1_def)
  qed
next
  case False
  have "(mg' = mg \<or> mg' = mg1) \<and> isl res"
    using out False by (auto simp: download_begin_def mg1_def [symmetric] Let_def split: option.splits if_splits sum.splits)
  then show thesis using refused by blast
qed

lemma download_begin_keeps:
  assumes laws: "download_table_laws D rows" and apart: "apart name r mg"
    and other: "\<forall>dl \<in> set (rows (mg_db mg)). fq_file_id params = Some (fdr_uuid dl) \<longrightarrow> fdr_cluster dl \<noteq> name"
    and out: "download_begin D now expiry uid params mg = (res, mg')"
  shows "kept name r mg mg' \<and> (\<forall>w. res = Inr w \<longrightarrow> dw_owner w \<noteq> r)"
proof -
  let ?mg1 = "mg\<lparr>mg_db := purge_expired_file_downloads D now expiry (mg_db mg)\<rparr>"
  have mg1: "kept name r mg ?mg1" using apart by (intro keeps)
  show ?thesis
    using laws out
  proof (cases rule: download_begin_record)
    case refused
    then show ?thesis using mg1 kept_refl [OF apart] by auto
  next
    case (found force dl x)
    have "dl \<in> set (rows (mg_db mg))" using found(3) purge_rows(1) [OF laws] by auto
    then have "x \<noteq> r" using other found(2, 4) other_cluster [OF apart] by blast
    then show ?thesis using request_download_keeps [OF kept_apart [OF mg1] _ found(1)] kept_trans [OF mg1] by blast
  qed
qed

lemma download_keeps:
  assumes laws: "download_table_laws D rows" and apart: "apart name r mg" and others: "spares name r others"
    and other: "\<forall>dl \<in> set (rows (mg_db mg)). fq_file_id params = Some (fdr_uuid dl) \<longrightarrow> fdr_cluster dl \<noteq> name"
  shows "kept name r mg (snd (download_file D now expiry uid others timed_out params mg))"
proof -
  obtain res mg1 where b: "download_begin D now expiry uid params mg = (res, mg1)" by force
  note begun = download_begin_keeps [OF laws apart other b]
  have wait: "kept name r mg (others mg1)" using kept_by [OF others] begun by blast
  have "kept name r mg (snd (download_respond w timed_out (others mg1)))" if "dw_owner w \<noteq> r" for w
    using kept_cluster [OF wait that] wait
    by (simp add: download_respond_def record_timeout_def Let_def keeps)
  then show ?thesis using b begun by (cases res) (simp_all add: download_file_def)
qed

lemma abort_upload_keeps [keeps]: "kept name r mg mg1 \<Longrightarrow> up \<noteq> r \<Longrightarrow> kept name r mg (abort_upload uid up mg1)"
  unfolding abort_upload_def by (intro kept_cluster keeps)

definition upload_spares :: "string \<Rightarrow> nat \<Rightarrow> 'db upload_env \<Rightarrow> bool" where
  "upload_spares name r ue \<longleftrightarrow> spares name r (ue_waiting ue) \<and> (\<forall>i. spares name r (ue_others ue i)) \<and>
     spares name r (ue_finishing ue) \<and> spares name r (ue_confirming ue)"

lemma upload_begin_keeps:
  assumes apart: "apart name r mg" and auth: "name \<notin> set (as_clusters (au_secret auth))"
    and out: "upload_begin D uid auth params header mg = (res, mg')"
  shows "kept name r mg mg' \<and> (\<forall>up n. res = Inr (up, n) \<longrightarrow> up \<noteq> r)"
proof -
  have request: "kept name r mg (snd (request_upload uid msg n x mg)) \<and>
      (\<forall>up n'. fst (request_upload uid msg n x mg) = Inr (up, n') \<longrightarrow> up \<noteq> r)"
    if "x \<noteq> r" "\<not> mg_shutdown mg" for msg n x
    using kept_cluster [OF kept_create(2) [OF kept_refl [OF apart]] that(1)]
      kept_create(3) [OF kept_refl [OF apart] that(2)]
    by (auto simp: request_upload_def case_prod_beta Let_def split: option.split)
  show ?thesis
  proof (cases "mg' = mg \<and> isl res")
    case True
    then show ?thesis using kept_refl [OF apart] by auto
  next
    case False
    then obtain cluster bu x msg n where x: "resolve_cluster_bundle D auth (unwrap_or 0 (uq_job_id params)) (uq_cluster params)
        (uq_bundle params) mg = Inr (cluster, bu)" "get_online_cluster mg cluster = Inr x" "\<not> mg_shutdown mg"
        "request_upload uid msg n x mg = (res, mg')"
      using out by (auto simp: upload_begin_def split: if_splits option.splits sum.splits)
    have "x \<noteq> r"
      using resolved_cluster [OF x(1)] x(2) auth other_cluster [OF apart] by (auto simp: get_online_cluster_Inr)
    then show ?thesis using request [OF _ x(3), of x msg n] x(4) by simp
  qed
qed

lemma upload_chunks_keeps:
  assumes "upload_spares name r ue" "up \<noteq> r" "apart name r mg" "upload_chunks ue uid up body i n mg = (res, sent, mg')"
  shows "kept name r mg mg'"
  using assms
proof (induction ue uid up body i n mg arbitrary: res sent mg' rule: upload_chunks.induct)
  case (1 ue uid up body i total mg)
  let ?mg = "ue_others ue i mg"
  let ?n = "min (length body - total) (unat (max 1 (ue_chunk_size ue)))"
  let ?next = "with_cluster up (send_message (upload_chunk_message uid (take ?n (drop total body)))) ?mg"
  have wait: "kept name r mg ?mg"
    using 1(2) kept_by [OF _ kept_refl [OF 1(4)], of "ue_others ue i"] by (simp add: upload_spares_def)
  have step: "kept name r mg ?next" using wait 1(3) by (rule kept_cluster)
  note unfold = upload_chunks.simps [of ue uid up body i total mg]
  consider "mg' = mg" | "mg' = abort_upload uid up ?mg"
    | res' sent' where "total < length body" "drained ue False (ue_views ue i) up mg"
        "check_upload_error up ?mg = Inr ()" "upload_chunks ue uid up body (Suc i) (total + ?n) ?next = (res', sent', mg')"
    using 1(5) unfold
    by (auto simp: Let_def check_upload_error_def split: if_splits prod.splits)
  then show ?case
  proof cases
    case 3
    then have "kept name r ?next mg'"
      using "1.IH" [OF 3(1) refl refl _ 3(3) refl refl refl 1(2) 1(3) kept_apart [OF step] 3(4)] by simp
    then show ?thesis by (rule kept_trans [OF step])
  qed (use wait 1(3, 4) in \<open>auto intro: keeps\<close>)
qed

lemma upload_finish_keeps:
  assumes ue: "upload_spares name r ue" and up: "up \<noteq> r" and mg: "kept name r mg0 mg"
  shows "kept name r mg0 (snd (snd (upload_finish ue uid up mg)))"
proof -
  have run1: "kept name r mg0 (ue_finishing ue mg)"
    using ue kept_by [OF _ mg] by (simp add: upload_spares_def)
  have "kept name r mg0 (ue_confirming ue (with_cluster up f (ue_finishing ue mg)))" for f
    using ue kept_by [OF _ kept_cluster [OF run1 up]] by (simp add: upload_spares_def)
  then show ?thesis
    using run1 up by (simp add: upload_finish_def Let_def keeps split: sum.split)
qed

lemma upload_body_keeps:
  assumes ue: "upload_spares name r ue" and up: "up \<noteq> r" and apart: "apart name r mg"
  shows "kept name r mg (snd (snd (upload_body ue uid up len mg)))"
proof -
  define mg1 where "mg1 = (if isl (wait_until_data_ready (fu_data_ready (upload_state up mg)) (ue_wait_expired ue))
      then record_upload_timeout up mg else mg)"
  have run1: "kept name r mg mg1"
    unfolding mg1_def record_upload_timeout_def using kept_cluster [OF kept_refl [OF apart] up] kept_refl [OF apart] by simp
  have chunks: "kept name r mg (snd (snd (upload_chunks ue uid up body 0 0 mg1)))" for body
    using upload_chunks_keeps [OF ue up kept_apart [OF run1]] kept_trans [OF run1] by (metis prod.collapse)
  show ?thesis
    using run1 up upload_finish_keeps [OF ue up chunks] chunks
    unfolding upload_body_def mg1_def [symmetric] Let_def
    by (simp add: case_prod_beta keeps split: sum.split)
qed

lemma upload_keeps:
  assumes apart: "apart name r mg" and auth: "name \<notin> set (as_clusters (au_secret auth))"
    and ue: "upload_spares name r ue"
  shows "kept name r mg (snd (snd (upload_file D ue uid auth params header mg)))"
proof -
  obtain res mg1 where b: "upload_begin D uid auth params header mg = (res, mg1)" by force
  note begun = upload_begin_keeps [OF apart auth b]
  have wait: "kept name r mg (ue_waiting ue mg1)"
    using ue kept_by begun by (auto simp: upload_spares_def)
  have "kept name r mg (snd (snd (upload_body ue uid up n (ue_waiting ue mg1))))" if "up \<noteq> r" for up n
    using kept_trans [OF wait upload_body_keeps [OF ue that kept_apart [OF wait]]] .
  then show ?thesis
    using b begun by (cases res) (auto simp: upload_file_def case_prod_beta split: sum.split)
qed

lemma list_files_keeps:
  assumes apart: "apart name r (hs_manager hs)" and auth: "name \<notin> set (as_clusters (au_secret auth))"
    and waits: "spares_http name r waits"
  shows "kept name r (hs_manager hs) (hs_manager (snd (list_files D waits timed_out uid auth body hs)))"
proof -
  let ?mg = "hs_manager hs"
  have requested: "kept name r ?mg (hs_manager (snd (request_file_list waits timed_out uid x bu jid path recursive hs)))"
    if "x \<noteq> r" for x bu jid path recursive
  proof (cases "job_id_to_u32 jid")
    case (Inr wire_id)
    define hs1 where "hs1 = hs\<lparr>hs_file_lists := (hs_file_lists hs)(uid \<mapsto> file_list_state_new),
        hs_manager := with_cluster x (send_message (file_list_message uid wire_id bu path recursive)) ?mg\<rparr>"
    have run: "kept name r ?mg (hs_manager hs1)"
      using kept_cluster [OF kept_refl [OF apart] that] by (simp add: hs1_def)
    have "kept name r (hs_manager hs1) (hs_manager (waits hs1))"
      using waits kept_apart [OF run] by (simp add: spares_http_def)
    moreover have "hs_manager (snd (request_file_list waits timed_out uid x bu jid path recursive hs)) =
        hs_manager (waits hs1)"
      by (simp add: request_file_list_def Inr Let_def hs1_def)
    ultimately show ?thesis using kept_trans [OF run] by simp
  qed (simp add: request_file_list_def kept_refl [OF apart])
  have live: "kept name r ?mg (hs_manager (snd (live_list D waits timed_out uid complete body jid cluster bu hs)))"
    if "cluster \<noteq> name" for complete jid cluster bu
    using requested other_cluster [OF apart _ that] kept_refl [OF apart]
    by (simp add: live_list_def case_prod_beta cache_file_list_def keeps get_online_cluster_Inr split: sum.split)
  have "cluster \<noteq> name"
    if "resolve_cluster_bundle D auth jid c b ?mg = Inr (cluster, bu)" for jid c b cluster bu
    using resolved_cluster [OF that] auth by auto
  then show ?thesis
    using live kept_refl [OF apart]
    by (simp add: list_files_def case_prod_beta Let_def split: sum.split list.split)
qed

subsection \<open>Requests\<close>

definition env_spares :: "string \<Rightarrow> nat \<Rightarrow> 'db request_env \<Rightarrow> bool" where
  "env_spares name r env \<longleftrightarrow> spares name r (rq_others env) \<and> spares_http name r (rq_waits env) \<and>
     upload_spares name r (rq_upload env)"

definition may_use :: "'p http_libs \<Rightarrow> access_secret list \<Rightarrow> http_request \<Rightarrow> string \<Rightarrow> bool" where
  "may_use libs secrets rq name \<longleftrightarrow> (\<exists>s. valid_token libs secrets rq s \<and> name \<in> set (as_clusters s))"

definition names_download :: "'p http_libs \<Rightarrow> file_download_row list \<Rightarrow> http_request \<Rightarrow> string \<Rightarrow> bool" where
  "names_download libs downloads rq name \<longleftrightarrow>
     routed_method (hq_method rq) = Some GET \<and> hq_path rq = ''/job/apiv1/file/'' \<and>
     (\<exists>params. lib_download_query libs (hq_query rq) = Inr params \<and>
        (\<exists>dl \<in> set downloads. fq_file_id params = Some (fdr_uuid dl) \<and> fdr_cluster dl = name))"

lemma download_route:
  "find_route (create_router finish s) rq = Inr EpDownloadFile \<longleftrightarrow>
     routed_method (hq_method rq) = Some GET \<and> hq_path rq = ''/job/apiv1/file/''"
  by (cases "hq_method rq" rule: request_method_cases)
    (auto simp: find_route_def create_router_def Let_def job_routes_def file_routes_def)

lemma answering_kept:
  "kept name r (hs_manager hs) (snd (f (hs_manager hs))) \<Longrightarrow>
     kept name r (hs_manager hs) (hs_manager (snd (answering wrap f hs)))"
  by (simp add: answering_def case_prod_beta)

lemma extracting_kept:
  assumes "apart name r (hs_manager hs)"
    and "\<And>v. x = Inr v \<Longrightarrow> kept name r (hs_manager hs) (hs_manager (snd (k v hs)))"
  shows "kept name r (hs_manager hs) (hs_manager (snd (extracting x k hs)))"
  using assms kept_refl [OF assms(1)] by (simp add: extracting_snd split: sum.split)

lemma cors_kept:
  "apart name r (hs_manager hs) \<Longrightarrow> kept name r (hs_manager hs) (hs_manager (snd (inner hs))) \<Longrightarrow>
     kept name r (hs_manager hs) (hs_manager (snd (cors_layer rq inner hs)))"
  by (simp add: cors_layer_def kept_refl)

lemma endpoint_keeps:
  assumes laws: "download_table_laws D rows" and apart: "apart name r (hs_manager hs)"
    and env: "env_spares name r env" and user: "\<not> may_use libs secrets rq name"
    and download: "\<And>params dl. ep = EpDownloadFile \<Longrightarrow> lib_download_query libs (hq_query rq) = Inr params \<Longrightarrow>
      dl \<in> set (rows (mg_db (hs_manager hs))) \<Longrightarrow> fq_file_id params = Some (fdr_uuid dl) \<Longrightarrow> fdr_cluster dl \<noteq> name"
  shows "kept name r (hs_manager hs) (hs_manager (snd (handle_endpoint D libs secrets env rq ep hs)))"
proof -
  have not: "name \<notin> set (as_clusters (au_secret a))" if "authorize libs secrets rq = Inr a" for a
    using authorize_Inr [OF that] user by (auto simp: may_use_def)
  have up: "upload_spares name r (upload_env_for libs rq (rq_upload env))"
    using env by (simp add: env_spares_def upload_spares_def upload_env_for_def split: option.split)
  have query: "lib_download_query libs (hq_query rq) = Inr params"
    if "query_params (lib_download_query libs) rq = Inr params" for params
    using that by (cases "lib_download_query libs (hq_query rq)") (simp_all add: query_params_def)
  note kept = create_job_keeps cancel_delete_keeps post_download_keeps download_keeps [OF laws] upload_keeps [OF _ _ up]
    list_files_keeps kept_refl
  show ?thesis
    using env apart
    by (cases ep) (auto intro!: extracting_kept answering_kept kept dest: not query download
        simp: env_spares_def case_prod_beta)
qed

text \<open>C14: what a request cannot touch.  In any state the program can reach, a request whose sender holds no
  token that is valid under a secret listing the cluster, and that does not download a file by an id
  recorded for that cluster, leaves the cluster as it was: its queues, its connection and its state,
  whatever the request asks for, and the cluster stays registered.  What other tasks do while the
  handler waits is not charged to the request: they are taken to leave that cluster alone.\<close>

theorem request_confined:
  assumes laws: "download_table_laws D rows" and reach: "server_reachable D (hs_manager hs)"
    and r: "map_of (mg_clusters (hs_manager hs)) name = Some r" and env: "env_spares name r env"
    and "\<not> may_use libs secrets rq name" "\<not> names_download libs (rows (mg_db (hs_manager hs))) rq name"
  shows "mg_cluster_heap (hs_manager (snd (serve D libs secrets (create_router finish s) env rq hs))) r =
      mg_cluster_heap (hs_manager hs) r \<and>
    map_of (mg_clusters (hs_manager (snd (serve D libs secrets (create_router finish s) env rq hs)))) name = Some r"
proof -
  note apart = reachable_apart [OF reach r]
  have "kept name r (hs_manager hs) (hs_manager (snd (serve D libs secrets (create_router finish s) env rq hs)))"
    unfolding serve_def
  proof (intro extracting_kept [OF apart] cors_kept [OF apart] endpoint_keeps [OF laws apart env assms(5)])
    fix params dl ep
    assume "find_route (create_router finish s) rq = Inr ep" "ep = EpDownloadFile"
      "lib_download_query libs (hq_query rq) = Inr params" "dl \<in> set (rows (mg_db (hs_manager hs)))"
      "fq_file_id params = Some (fdr_uuid dl)"
    then show "fdr_cluster dl \<noteq> name" using assms(6) by (auto simp: names_download_def download_route)
  qed
  then show ?thesis by (simp add: kept_def apart_def)
qed

section \<open>Examples\<close>

text \<open>A caller whose secret lists \<open>nci\<close> only asks for a job on \<open>ozstar\<close>, the one cluster of the server.\<close>

definition demo_libs :: "int http_libs" where
  "demo_libs =
     \<lparr>lib_decode = (\<lambda>jwt k. if jwt = ''t'' \<and> k = ''s'' then Some 5 else None),
      lib_user_claim = (\<lambda>p. Some (word_of_int p)), lib_from_timestamp = (\<lambda>_. None),
      lib_create_job = (\<lambda>_. Inr demo_request), lib_job_id = (\<lambda>_. Inr 8), lib_job_query = (\<lambda>_. Inl ''query''),
      lib_create_download = (\<lambda>_. Inl ''body''), lib_download_query = (\<lambda>_. Inl ''query''),
      lib_file_list = (\<lambda>_. Inl ''body''), lib_upload_query = (\<lambda>_. Inl ''query''),
      lib_to_bytes = (\<lambda>_ body. Inr (stream_total body))\<rparr>"

definition demo_upload :: "mem_db upload_env" where
  "demo_upload =
     \<lparr>ue_min_buffer = 1, ue_max_buffer = 2, ue_chunk_size = 1, ue_waiting = (\<lambda>mg. mg), ue_wait_expired = False,
      ue_body = Inr [], ue_views = (\<lambda>_. ([], 0)), ue_others = (\<lambda>_ mg. mg), ue_final_view = ([], 0),
      ue_finishing = (\<lambda>mg. mg), ue_confirming = (\<lambda>mg. mg), ue_confirm_expired = False\<rparr>"

definition demo_request_env :: "mem_db request_env" where
  "demo_request_env =
     \<lparr>rq_governor = (\<lambda>_. None), rq_now = 1000, rq_expiry = 60, rq_uuid = ''u'', rq_stamp = (\<lambda>i. (show_nat i, 1000)),
      rq_others = (\<lambda>mg. mg), rq_waits = (\<lambda>hs. hs), rq_timed_out = False, rq_upload = demo_upload\<rparr>"

definition demo_post :: "string option \<Rightarrow> http_request" where
  "demo_post token =
     \<lparr>hq_method = Method POST, hq_path = ''/job/apiv1/job/'', hq_query = None, hq_authorization = token,
      hq_content_length = None, hq_peer = None, hq_body = []\<rparr>"

definition demo_state :: "mem_db http_state" where
  "demo_state = \<lparr>hs_manager = demo_manager, hs_file_lists = Map.empty, hs_cache_tasks = [], hs_background = []\<rparr>"

abbreviation demo_router :: router where
  "demo_router \<equiv> create_router (\<lambda>_ _. True) (load_settings (\<lambda>_. None))"

abbreviation other_secret :: access_secret where
  "other_secret \<equiv> demo_secret\<lparr>as_clusters := [''nci'']\<rparr>"

lemma demo_admitted: "rate_limited demo_router demo_request_env rq = Inr ()"
  by (simp add: rate_limited_def demo_request_env_def split: option.split)

theorem unauthorised_exact_witness:
  "serve mem_database demo_libs [demo_secret] demo_router demo_request_env (demo_post None) demo_state =
     (Inl (FORBIDDEN, NOT_AUTHORIZED_MSG), demo_state)"
proof -
  have "find_route demo_router (demo_post None) = Inr EpCreateJob"
    by (simp add: find_route_def create_router_def demo_post_def job_routes_def Let_def)
  moreover have "\<not> valid_token demo_libs [demo_secret] (demo_post None) s" for s
    by (simp add: valid_token_def header_text_def demo_post_def)
  ultimately show ?thesis
    using unauthorised_exact [OF demo_admitted, where D = mem_database and libs = demo_libs
        and secrets = "[demo_secret]" and rq = "demo_post None" and hs = demo_state] by auto
qed

theorem request_confined_witness:
  "mg_cluster_heap (hs_manager (snd (serve mem_database demo_libs [other_secret] demo_router demo_request_env
      (demo_post (Some ''Bearer t'')) demo_state))) 0 = mg_cluster_heap (hs_manager demo_state) 0 \<and>
   map_of (mg_clusters (hs_manager (snd (serve mem_database demo_libs [other_secret] demo_router demo_request_env
      (demo_post (Some ''Bearer t'')) demo_state)))) ''ozstar'' = Some 0"
proof (rule request_confined [OF mem_file_downloads.table_laws_axioms])
  show "server_reachable mem_database (hs_manager demo_state)"
    unfolding server_reachable_def demo_state_def demo_manager_def by auto
  show "map_of (mg_clusters (hs_manager demo_state)) ''ozstar'' = Some 0" by (simp add: demo_state_def)
  show "env_spares ''ozstar'' 0 demo_request_env"
    by (simp add: env_spares_def upload_spares_def spares_def spares_http_def demo_request_env_def demo_upload_def
        kept_refl)
  show "\<not> may_use demo_libs [other_secret] (demo_post (Some ''Bearer t'')) ''ozstar''"
    by (simp add: may_use_def valid_token_def)
  show "\<not> names_download demo_libs (mt_rows (m_file_downloads (mg_db (hs_manager demo_state))))
      (demo_post (Some ''Bearer t'')) ''ozstar''"
    by (simp add: names_download_def demo_post_def)
qed

end
