(* ===== verification/Services.thy ===== *)
theory Services
  imports Http_Dispatch
begin

text \<open>
  The two services the program runs side by side (\<open>src/app.rs\<close>): the HTTP router on its port, the socket
  router on the other (\<open>ws_handler\<close> of \<open>src/websocket/server.rs\<close>), and the future that ends both on a
  signal.
\<close>

section \<open>The HTTP service\<close>

text \<open>\<open>axum::serve(http_listener, http_router)\<close>: the bare router is served, so that, unlike the socket
  router, it is not told the address of the peer.\<close>

definition http_service ::
    "'db database \<Rightarrow> 'p http_libs \<Rightarrow> access_secret list \<Rightarrow> router \<Rightarrow> 'db request_env \<Rightarrow> http_request \<Rightarrow>
     'db responder" where
  "http_service D libs secrets rt env rq = serve D libs secrets rt env (rq\<lparr>hq_peer := None\<rparr>)"

section \<open>The rate limiter is not told the peer\<close>

text \<open>The limiter counts per peer, and it refuses a request whose peer it cannot determine; so the comment on
  its settings in \<open>config/settings.rs\<close> has it.  The HTTP router is served without the addresses of the
  peers.  So a server with the limiter on answers every request with that refusal.\<close>

theorem rate_limiter_refuses_all:
  assumes "RATE_LIMIT_REQUESTS_PER_SECOND s \<noteq> 0" "RATE_LIMIT_BURST_SIZE s \<noteq> 0" "\<And>i b. finish i b"
    and "rq_governor env None = Some e"
  shows "http_service D libs secrets (create_router finish s) env rq hs = (Inl e, hs)"
  using assms
  by (simp add: http_service_def serve_def rate_limited_def create_router_def rate_limiter_interval_ms_def Let_def)

section \<open>The socket service\<close>

text \<open>The upgrade of a connection: it takes the token of the request and the next identifier, and its socket
  is handled.\<close>

definition ws_handler ::
    "'db database \<Rightarrow> int \<Rightarrow> int \<Rightarrow> (nat \<Rightarrow> env) \<Rightarrow> ws_channel \<Rightarrow> string option \<Rightarrow> 'db opening_waits \<Rightarrow>
     'db socket_event list \<Rightarrow> nat \<Rightarrow> u64 \<times> 'db http_state \<Rightarrow> ws_log list \<times> u64 \<times> 'db http_state" where
  "ws_handler D now cutoff ev sender authorization waits events sent st =
     (let (counter, hs) = st;
          token = extract_token_from_headers (header_text authorization);
          (cid, counter) = generate_connection_id counter;
          (logs, hs) = handle_socket D now cutoff ev cid sender token waits events sent hs
      in (logs, counter, hs))"

text \<open>The identifiers drawn from a counter.\<close>

fun connection_ids :: "nat \<Rightarrow> u64 \<Rightarrow> connection_id list" where
  "connection_ids 0 counter = []"
| "connection_ids (Suc n) counter =
     (let (cid, counter) = generate_connection_id counter in cid # connection_ids n counter)"

lemma connection_ids_nth: "connection_ids n counter = map (\<lambda>i. counter + word_of_nat i) [0..<n]"
proof (induction n arbitrary: counter)
  case (Suc n)
  have "map (\<lambda>i. counter + word_of_nat i) [0..<Suc n] = counter # map (\<lambda>i. counter + 1 + word_of_nat i) [0..<n]"
    by (subst upt_conv_Cons) (simp_all add: map_Suc_upt [symmetric] algebra_simps comp_def del: upt_Suc)
  then show ?case using Suc by (simp add: generate_connection_id_def)
qed simp

text \<open>No two of \<open>2 ^ 64\<close> successive connections have the same identifier: only the wrap of the counter could
  bring one back.\<close>

theorem connection_ids_distinct:
  assumes "n \<le> 2 ^ 64"
  shows "distinct (connection_ids n counter)"
proof -
  have "inj_on (\<lambda>i. counter + word_of_nat i) {0..<n}"
  proof (rule inj_onI)
    fix i j assume "i \<in> {0..<n}" "j \<in> {0..<n}" "counter + word_of_nat i = counter + word_of_nat j"
    then have "(word_of_nat i :: u64) = word_of_nat j" "i < 2 ^ 64" "j < 2 ^ 64" using assms by auto
    then have "unat (word_of_nat i :: u64) = unat (word_of_nat j :: u64)" "i mod 2 ^ 64 = i" "j mod 2 ^ 64 = j" by simp_all
    then show "i = j" by (simp add: unat_of_nat take_bit_eq_mod)
  qed
  then show ?thesis by (simp add: connection_ids_nth distinct_map)
qed

section \<open>The end of both services\<close>

text \<open>The signals as the future sees them: whether the handlers could be installed, and whether one arrives.
  Without a handler the future does not wait.\<close>

record signal_view =
  sv_sigint :: bool
  sv_sigterm :: bool
  sv_received :: bool

definition wait_for_shutdown_signal :: "signal_view \<Rightarrow> bool" where
  "wait_for_shutdown_signal sv \<longleftrightarrow>
     (if \<not> sv_sigint sv then True else if \<not> sv_sigterm sv then True else sv_received sv)"

text \<open>The future resolves with the drained manager, or is still waiting.\<close>

definition build_application_shutdown_future :: "signal_view \<Rightarrow> 'db manager \<Rightarrow> (nat \<times> 'db manager) option" where
  "build_application_shutdown_future sv mg =
     (if wait_for_shutdown_signal sv then Some (drain_application_shutdown mg) else None)"

text \<open>Both services await the future of their own.  The second drain finds nothing left to do.\<close>

theorem both_services_end:
  assumes "build_application_shutdown_future sv mg = Some (n, mg1)" "build_application_shutdown_future sv' mg1 = Some (m, mg2)"
  shows "mg_shutdown mg2 \<and> m = 0 \<and> mg2 = mg1"
  using assms drain_exact [of mg]
  by (auto simp: build_application_shutdown_future_def Let_def split: if_splits)

end
