(* ===== verification/Request_Cancel.thy ===== *)
theory Request_Cancel
  imports File_Upload
begin

text \<open>
  Requests whose client goes away (\<open>src/http/file.rs\<close>).  The web framework drops the handler at the point
  where it waits, and only the destructors of what it holds run.  A download holds a
  \<open>PreResponseGuard\<close>; an upload and a listing hold nothing with a destructor.  The methods of the guard
  are modelled one by one, and what is left behind is stated for each of the three requests.
\<close>

section \<open>The guard of a download\<close>

text \<open>The guard is the trigger it still holds, a session, with the reason its destructor gives.  A method
  that consumes the guard takes the trigger, so that the destructor that follows finds none.\<close>

type_synonym response_guard = "nat option \<times> shutdown_reason"

definition guard_new :: "nat \<Rightarrow> shutdown_reason \<Rightarrow> response_guard" where
  "guard_new s reason = (Some s, reason)"

definition guard_drop :: "response_guard \<Rightarrow> 'db manager \<Rightarrow> 'db manager" where
  "guard_drop g mg = (case fst g of None \<Rightarrow> mg | Some s \<Rightarrow> snd (trigger_session (snd g) s mg))"

definition guard_trigger :: "shutdown_reason \<Rightarrow> response_guard \<Rightarrow> 'db manager \<Rightarrow> bool \<times> 'db manager" where
  "guard_trigger reason g mg =
     (case fst g of
        None \<Rightarrow> (False, guard_drop (None, snd g) mg)
      | Some s \<Rightarrow> (let (won, mg) = trigger_session reason s mg in (won, guard_drop (None, snd g) mg)))"

definition guard_trigger_clone :: "response_guard \<Rightarrow> nat option" where
  "guard_trigger_clone g = fst g"

definition guard_into_trigger :: "response_guard \<Rightarrow> 'db manager \<Rightarrow> nat option \<times> 'db manager" where
  "guard_into_trigger g mg = (fst g, guard_drop (None, snd g) mg)"

text \<open>The handler fires the guard it made for the session, if it found one.\<close>

lemma fire_guard_methods:
  "fire_guard (Some s) reason mg = snd (guard_trigger reason (guard_new s fallback) mg)"
  by (simp add: fire_guard_def guard_trigger_def guard_new_def guard_drop_def case_prod_beta)

text \<open>After the response was built nothing is fired: the stream owns the trigger.\<close>

lemma into_trigger_keeps: "guard_into_trigger (guard_new s fallback) mg = (Some s, mg)"
  by (simp add: guard_into_trigger_def guard_new_def guard_drop_def)

section \<open>A request that is dropped while it waits\<close>

definition download_dropped :: "download_wait \<Rightarrow> 'db manager \<Rightarrow> 'db manager" where
  "download_dropped w mg =
     (case dw_guard w of None \<Rightarrow> mg | Some s \<Rightarrow> guard_drop (guard_new s ResponseError) mg)"

text \<open>A download that is dropped before its response leaves no session open, whatever the rest of the program
  did in the meantime: the destructor asks for the clean-up unless someone else has.\<close>

theorem dropped_download_released:
  fixes mg :: "'db manager"
  assumes "download_begin D now expiry uid params mg = (Inr w, mg1)"
  shows "\<exists>s. map_of (mg_downloads mg1) uid = Some s \<and> (\<forall>mg2 :: 'db manager. released s mg2 (download_dropped w mg2))"
proof -
  let ?mg0 = "mg\<lparr>mg_db := purge_expired_file_downloads D now expiry (mg_db mg)\<rparr>"
  obtain force dl r where run: "\<not> mg_shutdown ?mg0" "request_download uid force dl r ?mg0 = (Inr w, mg1)"
    using download_begin_cases [of D now expiry uid params mg] assms by auto
  then obtain s where "dw_guard w = Some s" "map_of (mg_downloads mg1) uid = Some s"
    using request_download_effect [OF run(1), of uid force dl r] by auto
  moreover have "released s mg2 (download_dropped w mg2)" if "dw_guard w = Some s" for mg2 :: "'db manager"
    using fire_guard_released [of s mg2 ResponseError]
    by (simp add: download_dropped_def that guard_drop_def guard_new_def fire_guard_def)
  ultimately show ?thesis by blast
qed

lemma sent_task_fields:
  "cl_running (send_message m c) = cl_running c" "cl_tasks (send_message m c) = cl_tasks c"
  "is_online (send_message m c) = is_online c"
  by (simp_all add: send_message_def queue_message_def is_online_def Let_def split: option.split)

text \<open>An upload that is dropped is not released: until its cluster connects and goes again, the entry stays
  registered, its identifier is still accepted as a credential and the tasks of the dedicated cluster
  run on.  Every refusal of the handler removes the entry and closes the cluster.\<close>

theorem dropped_upload_stays:
  assumes "upload_begin D uid auth params header mg = (Inr p, mg1)"
  shows "upload_credential uid (fst p) mg1 \<and>
    cl_running (mg_cluster_heap mg1 (fst p)) \<and>
    set (cl_tasks (mg_cluster_heap mg1 (fst p))) = {SchedulerTask, PruneTask}"
proof -
  obtain msg n r where on: "\<not> mg_shutdown mg" and run: "request_upload uid msg n r mg = (Inr p, mg1)"
    using upload_begin_cases [OF assms] by auto
  obtain up mg2 where create: "create_file_upload r uid mg = (up, mg2)" by force
  let ?c = "start_tasks (cluster_new_file_upload (cl_details (mg_cluster_heap mg r)) uid file_upload_state_new True)"
  have new: "map_of (mg_uploads mg2) uid = Some up" "mg_cluster_heap mg2 up = ?c"
    using create on by (auto simp: create_file_upload_def Let_def map_of_update)
  have p: "fst p = up" "mg1 = with_cluster r (send_message msg) mg2"
    using run create by (auto simp: request_upload_def Let_def split: option.splits)
  have "mg_cluster_heap mg1 up = (if up = r then send_message msg ?c else ?c)"
    using new(2) by (auto simp: p(2) with_cluster_def)
  then have "cl_running (mg_cluster_heap mg1 up) = cl_running ?c" "cl_tasks (mg_cluster_heap mg1 up) = cl_tasks ?c"
    "is_online (mg_cluster_heap mg1 up) = is_online ?c" by (simp_all add: sent_task_fields)
  moreover have "cl_running ?c" "set (cl_tasks ?c) = {SchedulerTask, PruneTask}" "\<not> is_online ?c"
    by (simp_all add: start_tasks_def cluster_new_file_upload_def cluster_new_with_role_def is_online_def)
  ultimately show ?thesis
    using new(1) by (simp add: upload_credential_def p)
qed

text \<open>C25: an upload is released when its handler returns, and not otherwise.  A refused upload leaves the registry
  as it was.  An accepted one has a fresh state there.  If its handler runs to the end then, however long it
  waits and whatever the rest of the program does meanwhile, the entry is gone: a failed upload has also
  closed its connection, and a successful one was confirmed by the cluster, which reported no error.  But if
  the handler is dropped while it waits for the cluster, nothing undoes what it began: the entry stays, its
  identifier stays a credential, and the tasks of its cluster stay running.\<close>

theorem upload_session_released:
  fixes mg :: "'db manager"
  shows "case upload_begin D uid auth params header mg of
      (Inl e, mg1) \<Rightarrow> mg_uploads mg1 = mg_uploads mg
    | (Inr (up, n), mg1) \<Rightarrow> get_file_upload uid mg1 = Some file_upload_state_new \<and>
        (\<forall>(ue :: 'db upload_env) mg2. case upload_body ue uid up n mg2 of
            (Inl e, sent, mg3) \<Rightarrow> upload_aborted uid up mg3
          | (Inr _, sent, mg3) \<Rightarrow> upload_confirmed uid up mg3) \<and>
        upload_credential uid up mg1 \<and> cl_running (mg_cluster_heap mg1 up) \<and>
        set (cl_tasks (mg_cluster_heap mg1 up)) = {SchedulerTask, PruneTask}"
proof -
  obtain res mg1 where out: "upload_begin D uid auth params header mg = (res, mg1)" by force
  then show ?thesis
    using upload_begin_fresh [OF out] upload_body_released [where ?'db = 'db] dropped_upload_stays [of D uid auth params header mg]
    by (cases res) (simp_all add: case_prod_beta)
qed

text \<open>Nor is a listing: its entry among the waiting requests stays.\<close>

definition listing_requested ::
    "string \<Rightarrow> nat \<Rightarrow> string \<Rightarrow> u32 \<Rightarrow> string \<Rightarrow> bool \<Rightarrow> 'db http_state \<Rightarrow> 'db http_state" where
  "listing_requested uid r bundle wire_id path recursive hs =
     hs\<lparr>hs_file_lists := (hs_file_lists hs)(uid \<mapsto> file_list_state_new),
        hs_manager := with_cluster r (send_message (file_list_message uid wire_id bundle path recursive)) (hs_manager hs)\<rparr>"

lemma request_file_list_waits:
  "job_id_to_u32 jid = Inr wire_id \<Longrightarrow>
     request_file_list others timed_out uid r bundle jid path recursive hs =
     request_file_list (\<lambda>_. others (listing_requested uid r bundle wire_id path recursive hs)) timed_out uid r bundle jid
       path recursive hs"
  by (simp add: request_file_list_def listing_requested_def Let_def)

theorem dropped_listing_stays:
  "hs_file_lists (listing_requested uid r bundle wire_id path recursive hs) uid = Some file_list_state_new"
  by (simp add: listing_requested_def)

end
