(* ===== verification/Cluster_Loops.thy ===== *)
theory Cluster_Loops
  imports Cluster_Handlers
begin

text \<open>
  The two background loops of a cluster connection (\<open>run_prune\<close> and \<open>run_resend\<close> of
  \<open>src/cluster/cluster.rs\<close>) over any number of turns.  What other tasks do to the cluster during a
  sleep, and between two checks of a turn, is part of the turn; the flag is the one of the cluster, which
  they may clear.  Pruning is invisible to everyone else, and a turn of the resend loop queues every
  overdue job once, under the message of its state.
\<close>

section \<open>The loops\<close>

fun run_prune :: "(cluster \<Rightarrow> cluster) list \<Rightarrow> cluster \<Rightarrow> cluster" where
  "run_prune [] c = c"
| "run_prune (sleep # turns) c =
     (if \<not> cl_running c then c
      else
        (let c = sleep c in
         if \<not> cl_running c then c
         else run_prune turns (prune_once c)))"

text \<open>A check reads the database and the clock; \<open>cv_before\<close> is what happens to the cluster before it.\<close>

record 'db check_view =
  cv_before :: "cluster \<Rightarrow> cluster"
  cv_db :: 'db
  cv_cutoff :: int

record 'db resend_turn =
  rt_sleep :: "cluster \<Rightarrow> cluster"
  rt_unsubmitted :: "'db check_view"
  rt_cancelling :: "'db check_view"
  rt_deleting :: "'db check_view"

definition resend_checks :: "'db database \<Rightarrow> 'db resend_turn \<Rightarrow> cluster \<Rightarrow> cluster" where
  "resend_checks D t c =
     (let u = rt_unsubmitted t;
          c = check_unsubmitted_jobs D (cv_db u) (cv_cutoff u) (cv_before u c);
          x = rt_cancelling t;
          c = check_cancelling_jobs D (cv_db x) (cv_cutoff x) (cv_before x c);
          d = rt_deleting t
      in check_deleting_jobs D (cv_db d) (cv_cutoff d) (cv_before d c))"

fun run_resend :: "'db database \<Rightarrow> 'db resend_turn list \<Rightarrow> cluster \<Rightarrow> cluster" where
  "run_resend D [] c = c"
| "run_resend D (t # turns) c =
     (if \<not> cl_running c then c
      else
        (let c = rt_sleep t c in
         if \<not> cl_running c then c
         else run_resend D turns (resend_checks D t c)))"

section \<open>Pruning is invisible\<close>

text \<open>Two clusters that differ in nothing but the empty queues of their sources.\<close>

definition alike :: "cluster \<Rightarrow> cluster \<Rightarrow> bool" where
  "alike c c' \<longleftrightarrow> cluster_wf c \<and> cluster_wf c' \<and> queue_view c = queue_view c' \<and>
     c' = c\<lparr>cl_queue := cl_queue c'\<rparr>"

lemma alike_refl: "cluster_wf c \<Longrightarrow> alike c c"
  by (simp add: alike_def)

lemma alike_frame:
  assumes "alike c c'"
  shows "cl_running c' = cl_running c" "cl_connection c' = cl_connection c" "cl_queued_size c' = cl_queued_size c"
proof -
  obtain q where "c' = c\<lparr>cl_queue := q\<rparr>" using assms unfolding alike_def by blast
  then show "cl_running c' = cl_running c" "cl_connection c' = cl_connection c" "cl_queued_size c' = cl_queued_size c"
    by simp_all
qed

lemma prune_alike: "alike c c' \<Longrightarrow> alike (prune_once c) c'"
  using prune_once_wf [of c] by (simp add: alike_def) (simp add: prune_once_def)

text \<open>The same turns without the pruning.\<close>

fun sleeps :: "(cluster \<Rightarrow> cluster) list \<Rightarrow> cluster \<Rightarrow> cluster" where
  "sleeps [] c = c"
| "sleeps (sleep # turns) c =
     (if \<not> cl_running c then c else let c = sleep c in if \<not> cl_running c then c else sleeps turns c)"

text \<open>Whatever does not look at the internal representation of the queues can be interleaved with the
  pruning loop: in the end the cluster is what it would be without the loop.\<close>

theorem pruning_invisible:
  assumes "\<forall>sleep \<in> set turns. \<forall>c c'. alike c c' \<longrightarrow> alike (sleep c) (sleep c')" "alike c c'"
  shows "alike (run_prune turns c) (sleeps turns c')"
  using assms
proof (induction turns arbitrary: c c')
  case (Cons sleep turns)
  have step: "alike (sleep c) (sleep c')" using Cons.prems by simp
  show ?case
    using Cons.IH [OF _ prune_alike [OF step]] Cons.prems alike_frame(1) [OF step] alike_frame(1) [OF Cons.prems(2)]
    by (simp add: Let_def)
qed simp

text \<open>Senders are of this kind.\<close>

lemma queue_message_alike:
  assumes "alike c c'"
  shows "alike (queue_message s d p c) (queue_message s d p c')"
proof -
  obtain q where wf: "cluster_wf c" "cluster_wf c'" and view: "queue_view c = queue_view c'"
    and c': "c' = c\<lparr>cl_queue := q\<rparr>" using assms unfolding alike_def by blast
  have view': "queue_view (queue_message s d p c) = queue_view (queue_message s d p c')"
    by (intro ext) (simp add: queue_message_wf(2) [OF wf(1)] queue_message_wf(2) [OF wf(2)] view)
  have "priorities_wf (cl_queue c)" "priorities_wf q" using wf by (simp_all add: cluster_wf_def c')
  then obtain m m' where "map_of (cl_queue c) (priority_as_u8 p) = Some m" "map_of q (priority_as_u8 p) = Some m'"
    by (metis queue_of_priority)
  then have "queue_message s d p c' = (queue_message s d p c)\<lparr>cl_queue := cl_queue (queue_message s d p c')\<rparr>"
    by (simp add: queue_message_def Let_def c')
  then show ?thesis
    using queue_message_wf(1) [OF wf(1)] queue_message_wf(1) [OF wf(2)] view' by (simp add: alike_def)
qed

section \<open>One turn of the resend loop\<close>

text \<open>The jobs a check finds overdue, in the order the database lists them.\<close>

definition overdue ::
    "'db database \<Rightarrow> ('db \<Rightarrow> job_history_row list) \<Rightarrow> i32 list \<Rightarrow> job_row list \<Rightarrow> 'db check_view \<Rightarrow> job_row list" where
  "overdue D hrows states jobs v =
     filter (resend_due (set (hrows (cv_db v))) (cv_cutoff v) states) jobs"

text \<open>The view of a check: its queries succeed, and list the jobs \<open>jobs\<close> of the cluster called \<open>name\<close>.\<close>

definition answers_with ::
    "'db database \<Rightarrow> ('db \<Rightarrow> job_history_row list) \<Rightarrow> string \<Rightarrow> job_row list \<Rightarrow> 'db check_view \<Rightarrow> bool" where
  "answers_with D hrows name jobs v \<longleftrightarrow> cv_before v = (\<lambda>c. c) \<and> inj_on jh_id (set (hrows (cv_db v))) \<and>
     tb_all (db_jobs D) (cv_db v) (\<lambda>j. job_cluster j = name) = Inr jobs \<and>
     (\<exists>hs. tb_all_desc (db_histories D) (cv_db v) (\<lambda>h. jh_job_id h \<in> set (map job_id jobs))
        (\<lambda>h. (jh_timestamp h, sint (jh_id h))) = Inr hs)"

definition resend_ready :: "cluster \<Rightarrow> bool" where
  "resend_ready c \<longleftrightarrow> cluster_wf c \<and> is_online c \<and> cl_has_context c"

lemma resend_one_ready:
  assumes "resend_ready c"
  shows "resend_ready (resend_one hs cutoff states i full j c)"
    and "cluster_name (resend_one hs cutoff states i full j c) = cluster_name c"
  using assms resend_one_queue [of c hs cutoff states i full j]
  by (auto simp: resend_ready_def resend_one_def is_online_def send_message_internal_def queue_message_def Let_def
      split: option.split)

lemma check_resend_ready:
  assumes "resend_ready c"
  shows "resend_ready (check_resend_jobs D db cutoff states i full c)"
    and "cluster_name (check_resend_jobs D db cutoff states i full c) = cluster_name c"
proof -
  have "resend_ready (fold (resend_one hs cutoff states i full) js c) \<and>
      cluster_name (fold (resend_one hs cutoff states i full) js c) = cluster_name c" for hs js
    using assms by (induction js arbitrary: c) (simp_all add: resend_one_ready)
  then show "resend_ready (check_resend_jobs D db cutoff states i full c)"
    "cluster_name (check_resend_jobs D db cutoff states i full c) = cluster_name c"
    using assms by (simp_all add: check_resend_jobs_def Let_def)
qed

lemma check_queues:
  assumes laws: "jobs_table_laws D jrows" "history_table_laws D hrows" and c: "resend_ready c"
    and v: "answers_with D hrows (cluster_name c) jobs v"
  shows "queue_view (check_resend_jobs D (cv_db v) (cv_cutoff v) states i full c) Medium '''' =
    queue_view c Medium '''' @ concat (map (resend_frames i full (cluster_name c)) (overdue D hrows states jobs v))"
proof -
  obtain hs where "tb_all_desc (db_histories D) (cv_db v) (\<lambda>h. jh_job_id h \<in> set (map job_id jobs))
      (\<lambda>h. (jh_timestamp h, sint (jh_id h))) = Inr hs" using v by (auto simp: answers_with_def)
  from resend_queue [OF laws _ _ _ _ this, of c "cv_cutoff v" states i full Medium "''''"] v c
  show ?thesis by (simp add: answers_with_def resend_ready_def overdue_def)
qed

lemma overdue_apart:
  assumes "cv_db v = cv_db w" "inj_on jh_id (set (hrows (cv_db w)))" "set states \<inter> set states' = {}"
  shows "set (overdue D hrows states jobs v) \<inter> set (overdue D hrows states' jobs w) = {}"
  using assms latest_history_unique [OF assms(2)]
  by (fastforce simp: overdue_def resend_due_def)

text \<open>A whole turn on a connected cluster queues the submissions, the cancellations and the deletions that
  are overdue, in this order, and each job under at most one of them: its latest state decides which.\<close>

theorem resend_turn_exact:
  assumes laws: "jobs_table_laws D jrows" "history_table_laws D hrows" and c: "resend_ready c"
    and views: "answers_with D hrows (cluster_name c) jobs (rt_unsubmitted t)"
      "answers_with D hrows (cluster_name c) jobs (rt_cancelling t)"
      "answers_with D hrows (cluster_name c) jobs (rt_deleting t)"
    and same: "cv_db (rt_cancelling t) = cv_db (rt_unsubmitted t)" "cv_db (rt_deleting t) = cv_db (rt_unsubmitted t)"
  defines "u \<equiv> overdue D hrows [job_status_code Pending, job_status_code Submitting] jobs (rt_unsubmitted t)"
    and "x \<equiv> overdue D hrows [job_status_code Cancelling] jobs (rt_cancelling t)"
    and "d \<equiv> overdue D hrows [job_status_code Deleting] jobs (rt_deleting t)"
  shows "queue_view (resend_checks D t c) Medium '''' = queue_view c Medium '''' @
      concat (map (resend_frames SUBMIT_JOB True (cluster_name c)) u) @
      concat (map (resend_frames CANCEL_JOB False (cluster_name c)) x) @
      concat (map (resend_frames DELETE_JOB False (cluster_name c)) d) \<and>
    set u \<inter> set x = {} \<and> set u \<inter> set d = {} \<and> set x \<inter> set d = {}"
proof -
  have before: "cv_before (rt_unsubmitted t) = (\<lambda>c. c)" "cv_before (rt_cancelling t) = (\<lambda>c. c)"
    "cv_before (rt_deleting t) = (\<lambda>c. c)" using views by (simp_all add: answers_with_def)
  have "inj_on jh_id (set (hrows (cv_db (rt_unsubmitted t))))" using views(1) by (simp add: answers_with_def)
  then have "set u \<inter> set x = {} \<and> set u \<inter> set d = {} \<and> set x \<inter> set d = {}"
    unfolding u_def x_def d_def using same by (intro conjI overdue_apart) simp_all
  moreover note q = check_queues [OF laws]
  ultimately show ?thesis
    using views
    by (simp add: resend_checks_def Let_def before check_unsubmitted_jobs_def check_cancelling_jobs_def
        check_deleting_jobs_def u_def x_def d_def q check_resend_ready c)
qed

end
