(* ===== verification/Listing_Cache.thy ===== *)
theory Listing_Cache
  imports Request_Cancel
begin

text \<open>
  The two ways a listing is answered (\<open>list_files\<close> of \<open>src/http/file.rs\<close>), compared: live, by a cluster that
  reads the request from its queue and replies to it, and from the cache a root listing has filled.  The
  cluster's client is not part of the repository: what it lists for a request is a function of the request,
  of which only consistency is assumed.
\<close>

section \<open>A cluster that answers\<close>










section \<open>A live listing\<close>



section \<open>A cached listing\<close>


section \<open>Both agree\<close>


section \<open>An example\<close>







end
