(* ===== verification/Spec2Isabelle.thy ===== *)
theory Spec2Isabelle
  imports Scheduler Download_Session Cluster_Handlers Cluster_Manager Http_Job Job_Query File_Stream Http_File File_Upload
    Ssh_Client Ws_Server App_Lifecycle Scheduler_Drain Server_Life Job_Delivery Reconnection
    Schema_Migrations Http_Dispatch Services Request_Cancel Cluster_Loops Connection_Stays Listing_Cache
begin

text \<open>
  A verification library for the ADACS job controller (\<open>src/src/src\<close>, a Rust server; paths below are
  relative to that directory).  The server accepts jobs and file requests over HTTP, and talks to one
  client per compute cluster over a WebSocket, which the server has started on the cluster over SSH.

  \<^bold>\<open>The parts and their theories.\<close>
    \<^item> \<open>Prelude\<close>: machine integers, bytes and UTF-8, decimal printing, association lists.
    \<^item> \<open>Protocol_Types\<close> (\<open>protocol/types.rs\<close>, \<open>protocol/constants.rs\<close>) and \<open>Wire_Message\<close>
      (\<open>protocol/message.rs\<close>): enumerations with their codes, the message ids, and the binary message with
      every push and pop, its cursor and its behaviour on truncated input.
    \<^item> \<open>Wire_Models\<close> (\<open>db/models.rs\<close>, \<open>db/entities\<close>): the structs sent to the clusters and the rows.
    \<^item> \<open>Store\<close>: the interface of the database as a locale of laws on one table, with an interpretation for
      every table on an in-memory instance.  The database driver is not part of the repository: a record
      of operations (\<open>'db database\<close>) is a parameter of every definition that uses it, and \<open>table_laws\<close>
      states what the code relies on.
    \<^item> \<open>Cluster_State\<close> and \<open>Scheduler\<close> (\<open>cluster/cluster.rs\<close>): the state of a cluster connection with its
      queues by priority and source, and \<open>run_scheduler\<close> as a step relation interleaved with senders,
      pruning, reconnection and stop.
    \<^item> \<open>Download_Session\<close> (\<open>cluster/file_download.rs\<close>): the lifecycle of a download and its one-shot trigger.
    \<^item> \<open>Cluster_DB\<close> (\<open>db/cluster_db.rs\<close>): the database operations a cluster asks for, and their replies.
    \<^item> \<open>Cluster_Handlers\<close> (\<open>cluster/cluster.rs\<close>, \<open>db/file_list_cache.rs\<close>): the handler of every message of
      every role, the resend checks, and the cached file lists.
    \<^item> \<open>Cluster_Manager\<close> (\<open>cluster/manager.rs\<close>): the registries of clusters, connections and sessions; admission
      by token, heartbeat, reconnection with backoff, clean-up worker and the start of the shutdown.
    \<^item> \<open>Http_Auth\<close> (\<open>http/auth.rs\<close>), \<open>Http_Job\<close> and \<open>Job_Query\<close> (\<open>http/job.rs\<close>): authorisation, and the creation,
      cancellation, deletion and listing of jobs.
    \<^item> \<open>Unix_Path\<close> and \<open>Http_Utils\<close> (\<open>http/utils.rs\<close>): the paths of the standard library as the code uses them,
      canonicalisation, the file filter, and the step filter of a job listing.
    \<^item> \<open>Http_File\<close>, \<open>File_Stream\<close> and \<open>File_Upload\<close> (\<open>http/file.rs\<close>): the creation of download records, the
      request of a download up to its response, the stream of the response body as a step relation with the
      cluster and the client around it, listings with their cache, and uploads.
    \<^item> \<open>Request_Cancel\<close> (\<open>http/file.rs\<close>): the guard of a download, method by method, and what each of the three
      waiting requests leaves when its client goes away; and when an upload releases what it took.
    \<^item> \<open>Listing_Cache\<close> (\<open>http/file.rs\<close>, \<open>db/file_list_cache.rs\<close>): the same request answered by the cluster and
      from the cache, against a client that is a function from requests to listings.
    \<^item> \<open>Cluster_Loops\<close> (\<open>cluster/cluster.rs\<close>): the pruning and the resend loop over any number of turns.
    \<^item> \<open>Ws_Server\<close> (\<open>websocket/server.rs\<close>): the handler of one connection, its exit guard and its forwarder.
    \<^item> \<open>Ssh_Client\<close> (\<open>cluster/ssh.rs\<close>): the start of the remote client by SSH or Kerberos.
    \<^item> \<open>Config_Load\<close> (\<open>config\<close>), \<open>Http_Server\<close> (\<open>http/server.rs\<close>, bodies of \<open>http/utils.rs\<close>) and \<open>App_Lifecycle\<close>
      (\<open>app.rs\<close>): configuration, router and rate limiter, start-up and the drain of the shutdown.
    \<^item> \<open>Schema_Migrations\<close> (\<open>db/entities\<close>, \<open>db/migration\<close>, \<open>db/schema.rs\<close>): the tables the entities declare, the
      migrations in both directions, and the schema of the tests, over a locale of laws on the statements.

  \<^bold>\<open>How the parts act together.\<close>
    \<^item> \<open>Scheduler_Drain\<close>: the scheduler on its own; its steps are well-founded, and what a run sends.
    \<^item> \<open>Job_Delivery\<close>: from the request that creates a job to the frame its connection is handed, whether the
      cluster is connected at the time or comes back later.
    \<^item> \<open>Heartbeat\<close> and \<open>Reconnection\<close> (\<open>run_ping\<close> and \<open>run_reconnect\<close> of \<open>cluster/manager.rs\<close>): the two loops of the
      manager over any number of turns, and the way of a token through the launcher and the socket.
    \<^item> \<open>Registry\<close>: one relation, \<open>server_step\<close>, that covers every atomic change any handler makes to the
      manager (a step may do more than the code would, never less), with the invariant \<open>registry_ok\<close> of its
      reachable states; \<open>Registry_Stays\<close>: what no step takes away from a session; \<open>Connection_Stays\<close>: what
      none takes away from a cluster and its connection.
    \<^item> \<open>Server_Runs\<close>: every handler of the program is a run of \<open>server_step\<close>, with what other tasks do while it
      waits a run too; \<open>server_event\<close> lists the handlers.  \<open>Server_Life\<close> draws the conclusions from the start of
      the program on.  Two premises of these steps concern identifiers: that of a new connection is not
      registered, which \<open>connection_ids_distinct\<close> gives for the counter they are drawn from, and that of a new
      download is not in use, which is a promise of the random generator.

    \<^item> \<open>Http_Dispatch\<close> (\<open>http/server.rs\<close> with the extractors of \<open>http/auth.rs\<close> and \<open>http/utils.rs\<close>): one request from
      the rate limiter through the routes and the extractors to its handler and answer; it is an event of
      \<open>Server_Runs\<close>.  Which requests are answered 403, and which clusters a request cannot touch.
    \<^item> \<open>Services\<close> (\<open>app.rs\<close>): the HTTP service, the upgrade of a socket with the identifiers of connections, and the
      future that ends both services.

  \<^bold>\<open>State.\<close>  A struct is a record and an enumeration a datatype.  Shared, mutable objects that the code holds
  by \<open>Arc\<close> live in heaps of the manager: \<open>mg_cluster_heap\<close> and \<open>mg_session_heap\<close> map references to clusters
  and sessions, and the registries hold references, so that aliasing and comparison by pointer are those
  of the code.  An operation takes the state and returns it changed; what may fail returns a sum with the
  error on the left.  Integers have their width wherever they can wrap.

  \<^bold>\<open>Concurrency.\<close>  Atomic sections of the code are functions.  The scheduler and the response stream are step
  relations with explicit program points, so that other tasks may act between any two of them.  An HTTP
  handler that waits is cut there: what the others do meanwhile is an argument (\<open>others\<close>), and whether
  the timer wins is another.  The read loop of a socket runs over the list of its events, which includes
  arbitrary actions of the rest of the program; before it, the handler of a connection waits after its
  admission and after its greeting, and what others do there is an argument (\<open>opening_waits\<close>).  The admission
  itself is one step: what ends a session in the middle of it makes it a refusal.

  \<^bold>\<open>What the lemmas show.\<close>
    \<^item> Wire: what is pushed is popped, reads stay in the buffer, and what truncated input is read as.
    \<^item> Queues: per-priority, per-source order; an exact byte counter; no lost wake-up; while a message waits, at most
      one of a lower priority is taken before the next of its own.
    \<^item> Scheduling: the scheduler comes to rest, with its queues empty and every message sent once; a job
      reaches the connection of its cluster, at once or by a resend check after the cluster is back, once the
      job is as old as that check asks for.
    \<^item> Loops of the manager: a connection is dropped after two unanswered pings in a row and no sooner,
      whatever else happens between the checks; the attempts to start a client are bounded by the logarithm of the time; the client that is started is let in.
    \<^item> Registries: consistent in every state the program can reach; a shutdown clears them; the handler of a
      download connection leaves its session closed, unless something ended it while it was being opened.
    \<^item> Sessions and manager: one clean-up per session, exact removal, one admission per token, no tracking
      without a connection, eviction exactly after missed pongs, and a shutdown that is final.
    \<^item> Handlers: the role of a connection confines what its messages can change; one reply per database
      request; pausing of a stream whose buffer is full; resends exactly of what is overdue.
    \<^item> HTTP: who is authorised for what, and that no request touches a cluster its sender has no claim to; the effect of each request on success and on refusal; a job listing is
      exactly the jobs that meet the filters; a cached listing is what the cluster answers to the same
      request.
    \<^item> Transfers: the response is a prefix of what the cluster sent and all of it on completion; a stream never
      waits on a cluster it left paused; the chunks of an upload are its body; sessions are released
      whenever a handler returns.
    \<^item> Launcher: the remote command is read by a shell as single literal words; a login ends within its rounds.
    \<^item> Application: which configurations are accepted, what a start establishes, what the drain ends; the
      migrated schema is the one the entities declare.

  \<^bold>\<open>Behaviour that differs from its intent\<close> is stated as it is: \<open>try_pop_missing_prefix\<close>, \<open>stop_can_be_missed\<close>,
  \<open>job_delete_ignores_owner\<close>, \<open>ltk_check_races\<close>, \<open>pending_cancel_leaves_submission\<close>,
  \<open>closed_event_never_logged\<close>, \<open>rate_limit_bounds\<close>, \<open>rate_limiter_refuses_all\<close>, \<open>dropped_upload_stays\<close>,
  \<open>dropped_listing_stays\<close>, \<open>opening_race_leaves_closing\<close> and the fate of a response body that is dropped.

  \<^bold>\<open>Termination.\<close>  No definition uses fuel.  The loops of the code that could run on are bounded by what they
  consume: the upload loop by the bytes left (a chunk has at least one), the second factor of a login by
  \<open>MAX_KEYBOARD_INTERACTIVE_ROUNDS\<close>, readers by the list of what a channel or socket yields.

  \<^bold>\<open>Not modelled.\<close>  The web framework (its layer for tracing changes no state; its answers to unknown routes, \<open>HEAD\<close>
  and \<open>OPTIONS\<close> are the documented ones), JSON, the JWT, SSH and database libraries and the operating system are
  parameters.  Timers are decisions of the environment.  Logging is left out, but for the two messages of
  the exit guard of a socket.  Which migrations are pending is bookkeeping of the migration library, and
  the process entry only starts the runtime.
\<close>

end
